(* ===== verification/Wire.thy ===== *)
theory Wire
  imports Prelude
begin

section \<open>Wire: JSON values and the message envelopes\<close>

text \<open>
  Everything the server puts on a WebSocket or stores in the offline queue is the JSON encoding of
  an envelope. The model keeps the JSON value itself: \<open>json.Marshal\<close> is the translation of a Go value
  to a \<open>json\<close> value, and \<open>json.Unmarshal\<close> its partial inverse, with the standard library's rules: object
  members are matched to struct fields case-insensitively, the last of several members for one
  field wins, \<open>null\<close> leaves a field as it is, and a member of the wrong type is an error. The text
  form of JSON (escapes, white space, number syntax) is not modelled; a frame that is not JSON at
  all is \<open>Malformed\<close>.

  \<open>RoutedMessage\<close>, \<open>IncomingMessage\<close> and \<open>OutgoingMessage\<close> are the structs of routing.go and handlers.go.
\<close>

datatype json =
    JNull
  | JBool bool
  | JNum int
  | JStr string
  | JArr "json list"
  | JObj "(string \<times> json) list"

datatype frame = Malformed | Frame json

subsection \<open>Decoding object members into struct fields\<close>

definition ascii_lower :: "char \<Rightarrow> char" where
  "ascii_lower c =
     (let n = (of_char c :: nat) in if 65 \<le> n \<and> n \<le> 90 then char_of (n + 32) else c)"

definition ascii_upper :: "char \<Rightarrow> char" where
  "ascii_upper c =
     (let n = (of_char c :: nat) in if 97 \<le> n \<and> n \<le> 122 then char_of (n - 32) else c)"

text \<open>\<open>strings.ToLower\<close> on UTF-8, as far as ASCII results go: the two letters outside ASCII whose lower case
  is an ASCII letter are U+0130 and U+212A.\<close>

fun ToLower :: "string \<Rightarrow> string" where
  "ToLower [] = []"
| "ToLower (c # cs) =
     (if c = CHR 0xC4 \<and> take 1 cs = [CHR 0xB0] then CHR ''i'' # ToLower (drop 1 cs)
      else if c = CHR 0xE2 \<and> take 2 cs = [CHR 0x84, CHR 0xAA] then CHR ''k'' # ToLower (drop 2 cs)
      else ascii_lower c # ToLower cs)"

definition fold_eq :: "string \<Rightarrow> string \<Rightarrow> bool" where
  "fold_eq a b \<longleftrightarrow> map ascii_lower a = map ascii_lower b"

definition members :: "string \<Rightarrow> (string \<times> json) list \<Rightarrow> json list" where
  "members name ms = map snd (filter (\<lambda>(k, _). fold_eq k name) ms)"

fun dec_string :: "json \<Rightarrow> string \<Rightarrow> string option" where
  "dec_string (JStr s) cur = Some s"
| "dec_string JNull cur = Some cur"
| "dec_string _ cur = None"

fun dec_int :: "json \<Rightarrow> int \<Rightarrow> int option" where
  "dec_int (JNum n) cur = (if int64_min \<le> n \<and> n \<le> int64_max then Some n else None)"
| "dec_int JNull cur = Some cur"
| "dec_int _ cur = None"

fun dec_string_list :: "json list \<Rightarrow> string list option" where
  "dec_string_list [] = Some []"
| "dec_string_list (v # vs) =
     (case (dec_string v [], dec_string_list vs) of
        (Some s, Some ss) \<Rightarrow> Some (s # ss)
      | _ \<Rightarrow> None)"

fun dec_strings :: "json \<Rightarrow> string list \<Rightarrow> string list option" where
  "dec_strings (JArr vs) cur = dec_string_list vs"
| "dec_strings JNull cur = Some []"
| "dec_strings _ cur = None"

text \<open>Decoding one field: its members in order, each over the value so far.\<close>

fun dec_members :: "(json \<Rightarrow> 'a \<Rightarrow> 'a option) \<Rightarrow> json list \<Rightarrow> 'a \<Rightarrow> 'a option" where
  "dec_members d [] cur = Some cur"
| "dec_members d (v # vs) cur = (case d v cur of None \<Rightarrow> None | Some cur' \<Rightarrow> dec_members d vs cur')"

definition get_str :: "string \<Rightarrow> (string \<times> json) list \<Rightarrow> string option" where
  "get_str name ms = dec_members dec_string (members name ms) []"

definition get_int :: "string \<Rightarrow> (string \<times> json) list \<Rightarrow> int option" where
  "get_int name ms = dec_members dec_int (members name ms) 0"

definition get_strs :: "string \<Rightarrow> (string \<times> json) list \<Rightarrow> string list option" where
  "get_strs name ms = dec_members dec_strings (members name ms) []"

text \<open>The members a top-level value gives: an object's own, none for \<open>null\<close>, an error otherwise.\<close>

fun struct_members :: "json \<Rightarrow> (string \<times> json) list option" where
  "struct_members (JObj ms) = Some ms"
| "struct_members JNull = Some []"
| "struct_members _ = None"

subsection \<open>The envelopes\<close>

record RoutedMessage =
  rm_type :: string
  ConversationID :: string
  Content :: string
  AttachmentIDs :: "string list"
  SenderType :: string
  SenderID :: string
  RecipientID :: string
  Timestamp :: string

record IncomingMessage =
  im_type :: string
  im_data :: "json option" \<comment> \<open>\<open>json.RawMessage\<close>; None when the member is absent\<close>

definition OutgoingMessage :: "string \<Rightarrow> json \<Rightarrow> json" where
  "OutgoingMessage typ dat = JObj [(''type'', JStr typ), (''data'', dat)]"

definition omitempty :: "string \<Rightarrow> json \<Rightarrow> bool \<Rightarrow> (string \<times> json) list" where
  "omitempty k v isEmpty = (if isEmpty then [] else [(k, v)])"

definition marshal_routed :: "RoutedMessage \<Rightarrow> json" where
  "marshal_routed m = JObj (
     [(''type'', JStr (rm_type m)),
      (''conversation_id'', JStr (ConversationID m)),
      (''content'', JStr (Content m))] @
     omitempty ''attachment_ids'' (JArr (map JStr (AttachmentIDs m))) (AttachmentIDs m = []) @
     [(''sender_type'', JStr (SenderType m)),
      (''sender_id'', JStr (SenderID m)),
      (''recipient_id'', JStr (RecipientID m))] @
     omitempty ''timestamp'' (JStr (Timestamp m)) (Timestamp m = []))"

definition unmarshal_routed :: "json \<Rightarrow> RoutedMessage option" where
  "unmarshal_routed j =
     (case struct_members j of
        None \<Rightarrow> None
      | Some ms \<Rightarrow>
          (case (get_str ''type'' ms, get_str ''conversation_id'' ms, get_str ''content'' ms,
                 get_strs ''attachment_ids'' ms, get_str ''sender_type'' ms,
                 get_str ''sender_id'' ms, get_str ''recipient_id'' ms, get_str ''timestamp'' ms) of
             (Some ty, Some cid, Some ct, Some att, Some st, Some sid, Some rid, Some ts) \<Rightarrow>
               Some \<lparr>rm_type = ty, ConversationID = cid, Content = ct, AttachmentIDs = att,
                     SenderType = st, SenderID = sid, RecipientID = rid, Timestamp = ts\<rparr>
           | _ \<Rightarrow> None))"

definition unmarshal_incoming :: "frame \<Rightarrow> IncomingMessage option" where
  "unmarshal_incoming f =
     (case f of
        Malformed \<Rightarrow> None
      | Frame j \<Rightarrow>
          (case struct_members j of
             None \<Rightarrow> None
           | Some ms \<Rightarrow>
               (case get_str ''type'' ms of
                  None \<Rightarrow> None
                | Some ty \<Rightarrow>
                    Some \<lparr>im_type = ty,
                          im_data = (case members ''data'' ms of [] \<Rightarrow> None | vs \<Rightarrow> Some (last vs))\<rparr>)))"

text \<open>\<open>json.Unmarshal(data, &outMsg)\<close>: only the \<open>Type\<close> field is read by its callers.\<close>

definition outgoing_type :: "json \<Rightarrow> string option" where
  "outgoing_type j =
     (case struct_members j of None \<Rightarrow> None | Some ms \<Rightarrow> get_str ''type'' ms)"

subsection \<open>Lemmas\<close>

lemma fold_eq_refl [simp]: "fold_eq a a"
  by (simp add: fold_eq_def)

lemma dec_string_list_map_JStr [simp]: "dec_string_list (map JStr ss) = Some ss"
  by (induction ss) auto

lemma members_append: "members k (xs @ ys) = members k xs @ members k ys"
  by (simp add: members_def)

lemma members_omitempty:
  "members k (omitempty k' v e) = (if \<not> e \<and> fold_eq k' k then [v] else [])"
  by (simp add: members_def omitempty_def)

lemma members_Cons: "members k ((k', v) # ms) = (if fold_eq k' k then v # members k ms else members k ms)"
  by (simp add: members_def)

lemma members_Nil: "members k [] = []"
  by (simp add: members_def)

lemmas members_simps = members_append members_omitempty members_Cons members_Nil

lemma outgoing_type_OutgoingMessage [simp]: "outgoing_type (OutgoingMessage t d) = Some t"
  by (simp add: outgoing_type_def OutgoingMessage_def get_str_def members_simps fold_eq_def
      ascii_lower_def)

lemma OutgoingMessage_inject [simp]:
  "OutgoingMessage t d = OutgoingMessage t' d' \<longleftrightarrow> t = t' \<and> d = d'"
  by (simp add: OutgoingMessage_def)

text \<open>a routed message decodes from its own JSON encoding to itself, whatever its fields hold:
  what is delivered to a recipient carries exactly the fields the server set.\<close>

theorem routed_roundtrip: "unmarshal_routed (marshal_routed m) = Some m"
  by (cases m) (simp add: unmarshal_routed_def marshal_routed_def get_str_def get_strs_def
      members_simps fold_eq_def ascii_lower_def)

end
