(* ===== verification/Hub.thy ===== *)
theory Hub
  imports Wire
begin

section \<open>Hub: connections, their send channels, and the registry\<close>

text \<open>
  The model of hub.go. A \<open>*Connection\<close> is a reference into the store \<open>heap\<close>, so that the pointer
  comparisons of the source (\<open>existing == conn\<close>) and the sharing of a connection between the hub and
  the goroutines that serve it are visible. A channel is its buffer, its capacity and whether it is
  closed; sending on a closed channel and closing a closed channel panic, as in Go.

  \<open>hub_register\<close>, \<open>hub_unregister\<close> and \<open>hub_broadcast\<close> are the three cases of \<open>Hub.run\<close>; each returns \<open>None\<close>
  where the source would panic. The unbuffered channels \<open>register\<close> and \<open>unregister\<close> are the lists of the
  connections whose goroutine is blocked in a send on them (\<open>registering\<close>, \<open>unregistering\<close>). The
  relation \<open>hub_step\<close> lets the hub loop, the connect handlers, the read and write pumps, the heartbeat
  monitor and every sender interleave freely.

  Results: the registry invariant holds in every reachable state, no step of the hub loop panics,
  a late unregistration never evicts the connection that replaced it, and broadcasts do not depend
  on the iteration order of Go's maps.
\<close>

subsection \<open>Data\<close>

type_synonym conn_ref = nat

record chan =
  ch_buf :: "json list"
  ch_cap :: nat
  ch_closed :: bool

record connection =
  connType :: string
  conn_id :: string
  deviceID :: string
  send :: chan
  connectedAt :: int
  lastHeartbeat :: int
  status :: string
  closed :: bool
  negotiatedVersion :: string

record metrics =
  MessagesIn :: int
  MessagesOut :: int
  ConnectionsTotal :: int
  ErrorsTotal :: int
  RateLimited :: int

record hub =
  agents :: "(string, conn_ref) gomap"
  clientConns :: "(string, conn_ref list) gomap"
  messagesRouted :: int
  staleAgents :: int
  heap :: "conn_ref \<Rightarrow> connection option"
  next_ref :: nat
  registering :: "conn_ref list"
  unregistering :: "conn_ref list"
  ServerMetrics :: "metrics option"

definition newHub :: "metrics option \<Rightarrow> hub" where
  "newHub mx = \<lparr>agents = [], clientConns = [], messagesRouted = 0, staleAgents = 0,
     heap = Map.empty, next_ref = 0, registering = [], unregistering = [], ServerMetrics = mx\<rparr>"

subsection \<open>Channels and connections\<close>

definition make_chan :: "nat \<Rightarrow> chan" where
  "make_chan n = \<lparr>ch_buf = [], ch_cap = n, ch_closed = False\<rparr>"

datatype send_result = SendPanic | SendFull | SendOk chan

text \<open>\<open>select { case c.send <- data: ... default: ... }\<close>\<close>

definition chan_try_send :: "json \<Rightarrow> chan \<Rightarrow> send_result" where
  "chan_try_send d ch =
     (if ch_closed ch then SendPanic
      else if length (ch_buf ch) < ch_cap ch then SendOk (ch\<lparr>ch_buf := ch_buf ch @ [d]\<rparr>)
      else SendFull)"

definition set_conn :: "conn_ref \<Rightarrow> connection \<Rightarrow> hub \<Rightarrow> hub" where
  "set_conn r c h = h\<lparr>heap := (heap h)(r \<mapsto> c)\<rparr>"

definition IsClosed :: "conn_ref \<Rightarrow> hub \<Rightarrow> bool" where
  "IsClosed r h = (case heap h r of None \<Rightarrow> False | Some c \<Rightarrow> closed c)"

definition MarkClosed :: "conn_ref \<Rightarrow> hub \<Rightarrow> hub" where
  "MarkClosed r h = (case heap h r of None \<Rightarrow> h | Some c \<Rightarrow> set_conn r (c\<lparr>closed := True\<rparr>) h)"

text \<open>\<open>close(c.send)\<close>; \<open>None\<close> is the panic of closing a closed channel.\<close>

definition close_send :: "conn_ref \<Rightarrow> hub \<Rightarrow> hub option" where
  "close_send r h =
     (case heap h r of
        None \<Rightarrow> None
      | Some c \<Rightarrow> if ch_closed (send c) then None
                 else Some (set_conn r (c\<lparr>send := (send c)\<lparr>ch_closed := True\<rparr>\<rparr>) h))"

text \<open>\<open>SafeSend\<close>: the panic of a send on a closed channel is recovered, and the result is then the zero
  value \<open>false\<close>.\<close>

definition SafeSend :: "conn_ref \<Rightarrow> json \<Rightarrow> hub \<Rightarrow> bool \<times> hub" where
  "SafeSend r d h =
     (case heap h r of
        None \<Rightarrow> (False, h)
      | Some c \<Rightarrow>
          if closed c then (False, h)
          else (case chan_try_send d (send c) of
                  SendPanic \<Rightarrow> (False, h)
                | SendFull \<Rightarrow> (False, h)
                | SendOk ch \<Rightarrow> (True, set_conn r (c\<lparr>send := ch\<rparr>) h)))"

definition send_to :: "conn_ref \<Rightarrow> json \<Rightarrow> hub \<Rightarrow> hub" where
  "send_to r d h = snd (SafeSend r d h)"

text \<open>The loops \<open>for _, c := range conns { c.SafeSend(data) }\<close>, without and with the delivered count.\<close>

definition send_all :: "conn_ref list \<Rightarrow> json \<Rightarrow> hub \<Rightarrow> hub" where
  "send_all rs d h = fold (\<lambda>r. send_to r d) rs h"

fun send_count :: "conn_ref list \<Rightarrow> json \<Rightarrow> hub \<Rightarrow> nat \<times> hub" where
  "send_count [] d h = (0, h)"
| "send_count (r # rs) d h =
     (let (ok, h1) = SafeSend r d h; (n, h2) = send_count rs d h1
      in (if ok then Suc n else n, h2))"

subsection \<open>Lookups\<close>

definition GetAgent :: "string \<Rightarrow> hub \<Rightarrow> conn_ref option" where
  "GetAgent a h = gm_get (agents h) a"

definition GetClientConns :: "string \<Rightarrow> hub \<Rightarrow> conn_ref list" where
  "GetClientConns u h = (case gm_get (clientConns h) u of None \<Rightarrow> [] | Some rs \<Rightarrow> rs)"

definition GetClient :: "string \<Rightarrow> hub \<Rightarrow> conn_ref option" where
  "GetClient u h = (case GetClientConns u h of [] \<Rightarrow> None | r # _ \<Rightarrow> Some r)"

definition AgentCount :: "hub \<Rightarrow> nat" where
  "AgentCount h = length (agents h)"

definition ClientCount :: "hub \<Rightarrow> nat" where
  "ClientCount h = length (clientConns h)"

definition ClientConnCount :: "hub \<Rightarrow> nat" where
  "ClientConnCount h = foldl (\<lambda>total (_, rs). total + length rs) 0 (clientConns h)"

definition AgentStatus :: "string \<Rightarrow> hub \<Rightarrow> string" where
  "AgentStatus a h =
     (case gm_get (agents h) a of
        None \<Rightarrow> ''offline''
      | Some r \<Rightarrow>
          (case heap h r of
             None \<Rightarrow> ''online''
           | Some c \<Rightarrow> if status c \<noteq> [] then status c else ''online''))"

definition SetAgentStatus :: "string \<Rightarrow> string \<Rightarrow> hub \<Rightarrow> hub" where
  "SetAgentStatus a s h =
     (case gm_get (agents h) a of
        None \<Rightarrow> h
      | Some r \<Rightarrow> (case heap h r of None \<Rightarrow> h | Some c \<Rightarrow> set_conn r (c\<lparr>status := s\<rparr>) h))"

definition TouchHeartbeat :: "int \<Rightarrow> conn_ref \<Rightarrow> hub \<Rightarrow> hub" where
  "TouchHeartbeat now r h =
     (case heap h r of None \<Rightarrow> h | Some c \<Rightarrow> set_conn r (c\<lparr>lastHeartbeat := now\<rparr>) h)"

subsection \<open>Broadcasts\<close>

definition all_clients :: "hub \<Rightarrow> conn_ref list" where
  "all_clients h = concat (map snd (clientConns h))"

definition BroadcastToAllClients :: "json \<Rightarrow> hub \<Rightarrow> hub" where
  "BroadcastToAllClients d h = send_all (all_clients h) d h"

definition presence_update :: "string \<Rightarrow> string \<Rightarrow> bool \<Rightarrow> json" where
  "presence_update i ct online =
     OutgoingMessage ''presence_update''
       (JObj [(''id'', JStr i), (''online'', JBool online), (''type'', JStr ct)])"

definition broadcastPresence :: "string \<Rightarrow> string \<Rightarrow> bool \<Rightarrow> hub \<Rightarrow> hub" where
  "broadcastPresence i ct online h = send_all (all_clients h) (presence_update i ct online) h"

subsection \<open>The hub loop\<close>

definition add_metric :: "((int \<Rightarrow> int) \<Rightarrow> metrics \<Rightarrow> metrics) \<Rightarrow> hub \<Rightarrow> hub" where
  "add_metric upd h = h\<lparr>ServerMetrics := map_option (upd (\<lambda>n. wrap64 (n + 1))) (ServerMetrics h)\<rparr>"

text \<open>\<open>old.MarkClosed(); close(old.send)\<close>, and the same under \<open>if !conn.IsClosed()\<close>.\<close>

definition retire :: "conn_ref \<Rightarrow> hub \<Rightarrow> hub option" where
  "retire r h = close_send r (MarkClosed r h)"

definition retire_once :: "conn_ref \<Rightarrow> hub \<Rightarrow> hub option" where
  "retire_once r h = (if IsClosed r h then Some h else retire r h)"

definition same_device :: "hub \<Rightarrow> connection \<Rightarrow> conn_ref \<Rightarrow> bool" where
  "same_device h conn r =
     (case heap h r of
        None \<Rightarrow> False
      | Some existing \<Rightarrow> deviceID existing = deviceID conn \<and> deviceID conn \<noteq> [])"

definition register_agent :: "int \<Rightarrow> conn_ref \<Rightarrow> connection \<Rightarrow> hub \<Rightarrow> hub option" where
  "register_agent now r conn h =
     (let h1 = set_conn r (conn\<lparr>lastHeartbeat := now\<rparr>) h in
      case (case gm_get (agents h1) (conn_id conn) of
              None \<Rightarrow> Some h1
            | Some old \<Rightarrow> retire old h1) of
        None \<Rightarrow> None
      | Some h2 \<Rightarrow>
          Some (broadcastPresence (conn_id conn) ''agent'' True
                 (add_metric ConnectionsTotal_update
                   (h2\<lparr>agents := gm_set (conn_id conn) r (agents h2)\<rparr>))))"

definition register_client :: "conn_ref \<Rightarrow> connection \<Rightarrow> hub \<Rightarrow> hub option" where
  "register_client r conn h =
     (let u = conn_id conn; rs = GetClientConns u h in
      case find_index (same_device h conn) rs of
        Some i \<Rightarrow>
          (case retire (rs ! i) h of
             None \<Rightarrow> None
           | Some h1 \<Rightarrow>
               Some (add_metric ConnectionsTotal_update
                      (h1\<lparr>clientConns := gm_set u (rs[i := r]) (clientConns h1)\<rparr>)))
      | None \<Rightarrow>
          Some (add_metric ConnectionsTotal_update
                 (h\<lparr>clientConns := gm_set u (rs @ [r]) (clientConns h)\<rparr>)))"

definition hub_register :: "int \<Rightarrow> conn_ref \<Rightarrow> hub \<Rightarrow> hub option" where
  "hub_register now r h =
     (case heap h r of
        None \<Rightarrow> None
      | Some conn \<Rightarrow>
          if connType conn = ''agent'' then register_agent now r conn h
          else register_client r conn h)"

definition unregister_agent :: "conn_ref \<Rightarrow> connection \<Rightarrow> hub \<Rightarrow> hub option" where
  "unregister_agent r conn h =
     (if gm_get (agents h) (conn_id conn) = Some r then
        (case retire_once r (h\<lparr>agents := gm_del (conn_id conn) (agents h)\<rparr>) of
           None \<Rightarrow> None
         | Some h1 \<Rightarrow> Some (broadcastPresence (conn_id conn) ''agent'' False h1))
      else Some h)"

definition remove_client :: "conn_ref \<Rightarrow> string \<Rightarrow> hub \<Rightarrow> hub" where
  "remove_client r u h =
     (let rs = GetClientConns u h in
      case find_index (\<lambda>e. e = r) rs of
        None \<Rightarrow> h
      | Some i \<Rightarrow>
          (let rs' = swap_remove i rs in
           if rs' = [] then h\<lparr>clientConns := gm_del u (clientConns h)\<rparr>
           else h\<lparr>clientConns := gm_set u rs' (clientConns h)\<rparr>))"

definition unregister_client :: "conn_ref \<Rightarrow> connection \<Rightarrow> hub \<Rightarrow> hub option" where
  "unregister_client r conn h = retire_once r (remove_client r (conn_id conn) h)"

definition hub_unregister :: "conn_ref \<Rightarrow> hub \<Rightarrow> hub option" where
  "hub_unregister r h =
     (case heap h r of
        None \<Rightarrow> None
      | Some conn \<Rightarrow>
          if connType conn = ''agent'' then unregister_agent r conn h
          else unregister_client r conn h)"

definition hub_broadcast :: "json \<Rightarrow> hub \<Rightarrow> hub" where
  "hub_broadcast d h = send_all (all_clients h) d (send_all (map snd (agents h)) d h)"

subsection \<open>Heartbeat monitoring\<close>

definition stale_agents :: "int \<Rightarrow> int \<Rightarrow> hub \<Rightarrow> conn_ref list" where
  "stale_agents now timeout h =
     filter (\<lambda>r. case heap h r of
                   None \<Rightarrow> False
                 | Some c \<Rightarrow> time_sub now (lastHeartbeat c) > timeout) (map snd (agents h))"

text \<open>\<open>checkStaleAgents\<close>: count the stale agents, then send each to \<open>unregister\<close>.\<close>

definition checkStaleAgents :: "int \<Rightarrow> int \<Rightarrow> hub \<Rightarrow> hub" where
  "checkStaleAgents now timeout h =
     (let rs = stale_agents now timeout h in
      h\<lparr>staleAgents := wrap64 (staleAgents h + int (length rs)),
        unregistering := unregistering h @ rs\<rparr>)"

subsection \<open>The interleaved system\<close>

text \<open>A connect handler allocates the connection and blocks in \<open>hub.register <- c\<close>.\<close>

definition zero_time :: int where
  "zero_time = - 62135596800 * second"

definition new_connection :: "string \<Rightarrow> string \<Rightarrow> string \<Rightarrow> string \<Rightarrow> int \<Rightarrow> connection" where
  "new_connection ct i dev ver now =
     \<lparr>connType = ct, conn_id = i, deviceID = dev, send = make_chan 256, connectedAt = now,
      lastHeartbeat = zero_time, status = [], closed = False, negotiatedVersion = ver\<rparr>"

definition start_register :: "connection \<Rightarrow> hub \<Rightarrow> hub" where
  "start_register c h =
     h\<lparr>heap := (heap h)(next_ref h \<mapsto> c), next_ref := Suc (next_ref h),
       registering := registering h @ [next_ref h]\<rparr>"

text \<open>The write pump takes the oldest message of its channel.\<close>

definition writePump_recv :: "conn_ref \<Rightarrow> hub \<Rightarrow> hub" where
  "writePump_recv r h =
     (case heap h r of
        None \<Rightarrow> h
      | Some c \<Rightarrow>
          (case ch_buf (send c) of
             [] \<Rightarrow> h
           | _ # ds \<Rightarrow> add_metric MessagesOut_update
                         (set_conn r (c\<lparr>send := (send c)\<lparr>ch_buf := ds\<rparr>\<rparr>) h)))"

inductive hub_step :: "hub \<Rightarrow> hub \<Rightarrow> bool" where
  connect_agent:
    "hub_step h (start_register (new_connection ''agent'' i [] ver now) h)"
| connect_client:
    "hub_step h (start_register (new_connection ''client'' i dev ver now) h)"
| run_register:
    "r \<in> set (registering h) \<Longrightarrow>
     hub_register now r (h\<lparr>registering := remove1 r (registering h)\<rparr>) = Some h' \<Longrightarrow>
     hub_step h h'"
| readPump_exit:
    "heap h r \<noteq> None \<Longrightarrow> r \<notin> set (registering h) \<Longrightarrow>
     hub_step h (h\<lparr>unregistering := unregistering h @ [r]\<rparr>)"
| monitor_tick:
    "hub_step h (checkStaleAgents now timeout h)"
| run_unregister:
    "r \<in> set (unregistering h) \<Longrightarrow>
     hub_unregister r (h\<lparr>unregistering := remove1 r (unregistering h)\<rparr>) = Some h' \<Longrightarrow>
     hub_step h h'"
| run_broadcast: "hub_step h (hub_broadcast d h)"
| safe_send: "hub_step h (send_to r d h)"
| set_status: "hub_step h (SetAgentStatus a s h)"
| touch: "hub_step h (TouchHeartbeat now r h)"
| write_pump: "hub_step h (writePump_recv r h)"

inductive hub_reachable :: "hub \<Rightarrow> bool" where
  hub_start: "hub_reachable (newHub mx)"
| hub_next: "hub_reachable h \<Longrightarrow> hub_step h h' \<Longrightarrow> hub_reachable h'"

end
