(* ===== verification/Hub_Lifecycle.thy ===== *)
theory Hub_Lifecycle
  imports Hub
begin

section \<open>Hub lifecycle: the hub loop, the monitor and Stop\<close>

text \<open>
  \<open>newHub\<close> starts the heartbeat monitor, \<open>main\<close> starts \<open>run\<close>, and \<open>Stop\<close> closes \<open>done\<close> and waits for both
  goroutines. Here each goroutine is its program counter and each channel that is only ever closed
  is a flag; a send on the unbuffered channel \<open>unregister\<close> is a rendezvous between the monitor, inside
  \<open>checkStaleAgents\<close>, and the hub loop. The result characterises the states from which \<open>Stop\<close> can still
  return: all of them, except when the hub loop has left while the monitor still has a stale
  connection to hand over.
\<close>

datatype run_pc = RunPending | RunSelect | RunExited
datatype monitor_pc = MonitorEntry | MonitorSelect | MonitorSending "conn_ref list" | MonitorExited
datatype stop_pc = StopNotCalled | StopWaitRun | StopWaitMonitor | StopReturned

record lifecycle =
  lc_run :: run_pc
  lc_monitor :: monitor_pc
  lc_stop :: stop_pc
  runStarted :: bool
  done_closed :: bool
  runDone_closed :: bool
  monitorDone_closed :: bool

text \<open>The goroutines that \<open>newHub\<close> leaves behind, with \<open>agentPresenceEnabled\<close> as argument.\<close>

definition newHub_goroutines :: "bool \<Rightarrow> lifecycle" where
  "newHub_goroutines agentPresenceEnabled =
     \<lparr>lc_run = RunPending,
      lc_monitor = (if agentPresenceEnabled then MonitorEntry else MonitorExited),
      lc_stop = StopNotCalled, runStarted = False, done_closed = False, runDone_closed = False,
      monitorDone_closed = \<not> agentPresenceEnabled\<rparr>"

text \<open>The first half of \<open>Stop\<close>, up to the two receives.\<close>

definition Stop_signal :: "lifecycle \<Rightarrow> lifecycle" where
  "Stop_signal s =
     s\<lparr>lc_stop := StopWaitRun, done_closed := True,
       runDone_closed := (runDone_closed s \<or> \<not> runStarted s)\<rparr>"

text \<open>The parameter is \<open>agentPresenceInterval\<close>.\<close>

inductive lc_step :: "int \<Rightarrow> lifecycle \<Rightarrow> lifecycle \<Rightarrow> bool" for interval :: int where
  run_start:
    "lc_run s = RunPending \<Longrightarrow> lc_step interval s (s\<lparr>lc_run := RunSelect, runStarted := True\<rparr>)"
| run_return:
    "lc_run s = RunSelect \<Longrightarrow> done_closed s \<Longrightarrow>
     lc_step interval s (s\<lparr>lc_run := RunExited, runDone_closed := True\<rparr>)"
| monitor_disabled:
    "lc_monitor s = MonitorEntry \<Longrightarrow> interval = 0 \<Longrightarrow>
     lc_step interval s (s\<lparr>lc_monitor := MonitorExited, monitorDone_closed := True\<rparr>)"
| monitor_enter:
    "lc_monitor s = MonitorEntry \<Longrightarrow> interval \<noteq> 0 \<Longrightarrow>
     lc_step interval s (s\<lparr>lc_monitor := MonitorSelect\<rparr>)"
| monitor_return:
    "lc_monitor s = MonitorSelect \<Longrightarrow> done_closed s \<Longrightarrow>
     lc_step interval s (s\<lparr>lc_monitor := MonitorExited, monitorDone_closed := True\<rparr>)"
| monitor_check:
    "lc_monitor s = MonitorSelect \<Longrightarrow> lc_step interval s (s\<lparr>lc_monitor := MonitorSending stale\<rparr>)"
| monitor_handover:
    "lc_monitor s = MonitorSending (r # stale) \<Longrightarrow> lc_run s = RunSelect \<Longrightarrow>
     lc_step interval s (s\<lparr>lc_monitor := MonitorSending stale\<rparr>)"
| monitor_checked:
    "lc_monitor s = MonitorSending [] \<Longrightarrow> lc_step interval s (s\<lparr>lc_monitor := MonitorSelect\<rparr>)"
| stop_call:
    "lc_stop s = StopNotCalled \<Longrightarrow> lc_step interval s (Stop_signal s)"
| stop_run_done:
    "lc_stop s = StopWaitRun \<Longrightarrow> runDone_closed s \<Longrightarrow>
     lc_step interval s (s\<lparr>lc_stop := StopWaitMonitor\<rparr>)"
| stop_monitor_done:
    "lc_stop s = StopWaitMonitor \<Longrightarrow> monitorDone_closed s \<Longrightarrow>
     lc_step interval s (s\<lparr>lc_stop := StopReturned\<rparr>)"

inductive lc_steps :: "int \<Rightarrow> lifecycle \<Rightarrow> lifecycle \<Rightarrow> bool" for interval :: int where
  lc_refl: "lc_steps interval s s"
| lc_more: "lc_step interval s t \<Longrightarrow> lc_steps interval t u \<Longrightarrow> lc_steps interval s u"

subsection \<open>What the channels say about the goroutines\<close>

definition lc_inv :: "lifecycle \<Rightarrow> bool" where
  "lc_inv s \<longleftrightarrow>
     (monitorDone_closed s \<longleftrightarrow> lc_monitor s = MonitorExited) \<and>
     (lc_run s = RunExited \<longrightarrow> runDone_closed s) \<and>
     (lc_stop s \<noteq> StopNotCalled \<longrightarrow> done_closed s) \<and>
     (lc_stop s = StopReturned \<longrightarrow> lc_monitor s = MonitorExited) \<and>
     (lc_run s = RunPending \<longrightarrow> \<not> runStarted s) \<and>
     (lc_stop s = StopWaitRun \<and> lc_run s = RunPending \<longrightarrow> runDone_closed s)"

lemma lc_inv_newHub: "lc_inv (newHub_goroutines b)"
  by (simp add: lc_inv_def newHub_goroutines_def)

lemma lc_inv_step: "lc_step k s t \<Longrightarrow> lc_inv s \<Longrightarrow> lc_inv t"
  by (induction rule: lc_step.induct) (auto simp: lc_inv_def Stop_signal_def)

lemma lc_inv_steps: "lc_steps k s t \<Longrightarrow> lc_inv s \<Longrightarrow> lc_inv t"
  by (induction rule: lc_steps.induct) (auto intro: lc_inv_step)

lemma lc_trans: "lc_steps k s t \<Longrightarrow> lc_steps k t u \<Longrightarrow> lc_steps k s u"
  by (induction rule: lc_steps.induct) (auto intro: lc_more)

lemma lc_one: "lc_step k s t \<Longrightarrow> lc_steps k s t"
  by (auto intro: lc_more lc_refl)

text \<open>The hub loop is gone and the monitor is blocked in a send to it.\<close>

definition monitor_stuck :: "lifecycle \<Rightarrow> bool" where
  "monitor_stuck s \<longleftrightarrow> lc_run s = RunExited \<and> (\<exists>r rs. lc_monitor s = MonitorSending (r # rs))"

lemma stuck_step: "lc_step k s t \<Longrightarrow> monitor_stuck s \<Longrightarrow> monitor_stuck t"
  by (induction rule: lc_step.induct) (auto simp: monitor_stuck_def Stop_signal_def)

lemma stuck_forever: "lc_steps k s t \<Longrightarrow> monitor_stuck s \<Longrightarrow> monitor_stuck t"
  by (induction rule: lc_steps.induct) (auto intro: stuck_step)

subsection \<open>Stop can return exactly when the monitor is not stuck\<close>

lemma monitor_can_exit:
  assumes "lc_inv s" and "done_closed s" and "\<not> monitor_stuck s"
  shows "\<exists>t. lc_steps k s t \<and> lc_monitor t = MonitorExited \<and> lc_stop t = lc_stop s \<and>
    done_closed t \<and> lc_inv t"
proof -
  have select: "\<exists>t. lc_steps k s t \<and> lc_monitor t = MonitorExited \<and> lc_stop t = lc_stop s \<and> done_closed t"
    if "lc_monitor s = MonitorSelect" "done_closed s" for s
    using lc_one [OF monitor_return [of s k]] that
    by (intro exI [of _ "s\<lparr>lc_monitor := MonitorExited, monitorDone_closed := True\<rparr>"]) simp
  have sending: "\<exists>t. lc_steps k s t \<and> lc_monitor t = MonitorExited \<and> lc_stop t = lc_stop s \<and> done_closed t"
    if "lc_monitor s = MonitorSending rs" "lc_run s = RunSelect \<or> rs = []" "done_closed s" for s rs
    using that
  proof (induction rs arbitrary: s)
    case Nil
    have "lc_step k s (s\<lparr>lc_monitor := MonitorSelect\<rparr>)" using Nil(1) by (rule monitor_checked)
    with select [of "s\<lparr>lc_monitor := MonitorSelect\<rparr>"] Nil show ?case by (auto intro: lc_more)
  next
    case (Cons r rs)
    have "lc_step k s (s\<lparr>lc_monitor := MonitorSending rs\<rparr>)"
      using Cons.prems by (intro monitor_handover) auto
    with Cons.IH [of "s\<lparr>lc_monitor := MonitorSending rs\<rparr>"] Cons.prems show ?case
      by (auto intro: lc_more)
  qed
  have "\<exists>t. lc_steps k s t \<and> lc_monitor t = MonitorExited \<and> lc_stop t = lc_stop s \<and> done_closed t"
  proof (cases "lc_monitor s")
    case MonitorEntry
    then have "lc_step k s (s\<lparr>lc_monitor := MonitorExited, monitorDone_closed := True\<rparr>) \<or>
        lc_step k s (s\<lparr>lc_monitor := MonitorSelect\<rparr>)"
      using monitor_disabled monitor_enter by blast
    then show ?thesis
      using select [of "s\<lparr>lc_monitor := MonitorSelect\<rparr>"] assms(2)
      by (fastforce intro: lc_more lc_one)
  next
    case (MonitorSending rs)
    show ?thesis
    proof (cases "lc_run s = RunPending")
      case True
      then have "lc_step k s (s\<lparr>lc_run := RunSelect, runStarted := True\<rparr>)" by (rule run_start)
      with sending [of "s\<lparr>lc_run := RunSelect, runStarted := True\<rparr>" rs] MonitorSending assms(2)
      show ?thesis by (auto intro: lc_more)
    next
      case False
      then have "lc_run s = RunSelect \<or> rs = []"
        using MonitorSending assms(3) unfolding monitor_stuck_def by (cases rs; cases "lc_run s") auto
      with sending MonitorSending assms(2) show ?thesis by blast
    qed
  qed (use select assms(2) lc_refl in blast)+
  then show ?thesis using lc_inv_steps assms(1) by blast
qed

lemma run_can_exit:
  assumes "lc_inv s" and "lc_stop s = StopWaitRun"
  shows "\<exists>t. lc_steps k s t \<and> runDone_closed t \<and> lc_monitor t = lc_monitor s \<and>
    lc_stop t = StopWaitRun \<and> lc_inv t"
proof (cases "lc_run s")
  case RunSelect
  then have "lc_step k s (s\<lparr>lc_run := RunExited, runDone_closed := True\<rparr>)"
    using assms by (intro run_return) (auto simp: lc_inv_def)
  with assms show ?thesis
    by (intro exI [of _ "s\<lparr>lc_run := RunExited, runDone_closed := True\<rparr>"])
      (auto intro: lc_one lc_inv_step)
next
  case RunPending
  with assms show ?thesis by (intro exI [of _ s]) (auto simp: lc_inv_def lc_refl)
next
  case RunExited
  with assms show ?thesis by (intro exI [of _ s]) (auto simp: lc_inv_def lc_refl)
qed

lemma stop_can_finish:
  assumes "lc_inv s" and "lc_stop s \<noteq> StopNotCalled" and "lc_monitor s = MonitorExited"
  shows "\<exists>t. lc_steps k s t \<and> lc_stop t = StopReturned"
proof -
  have wm: "\<exists>t. lc_steps k s t \<and> lc_stop t = StopReturned"
    if "lc_inv s" "lc_stop s = StopWaitMonitor" "lc_monitor s = MonitorExited" for s
    using that stop_monitor_done [of s k]
    by (intro exI [of _ "s\<lparr>lc_stop := StopReturned\<rparr>"]) (auto simp: lc_inv_def intro: lc_one)
  show ?thesis
  proof (cases "lc_stop s")
    case StopWaitRun
    with run_can_exit [OF assms(1)] obtain t where t: "lc_steps k s t" "runDone_closed t"
      "lc_monitor t = MonitorExited" "lc_stop t = StopWaitRun" "lc_inv t"
      using assms(3) by metis
    then have step: "lc_step k t (t\<lparr>lc_stop := StopWaitMonitor\<rparr>)" by (intro stop_run_done)
    then have "lc_inv (t\<lparr>lc_stop := StopWaitMonitor\<rparr>)" using t(5) by (rule lc_inv_step)
    then obtain u where "lc_steps k (t\<lparr>lc_stop := StopWaitMonitor\<rparr>) u" "lc_stop u = StopReturned"
      using wm [of "t\<lparr>lc_stop := StopWaitMonitor\<rparr>"] t(3) by auto
    with t(1) step show ?thesis by (meson lc_more lc_trans)
  qed (use assms wm lc_refl in blast)+
qed

text \<open>C37: once \<open>Stop\<close> has been called, it can still return if and only if it is not the case that the
  hub loop has returned while the monitor is inside \<open>checkStaleAgents\<close> with a stale connection left to
  send. In that one situation nothing can ever receive from \<open>unregister\<close> again.\<close>

theorem Stop_returns_iff_monitor_not_stuck:
  assumes "lc_steps k (newHub_goroutines b) s" and "lc_stop s \<noteq> StopNotCalled"
    and "lc_stop s \<noteq> StopReturned"
  shows "(\<exists>t. lc_steps k s t \<and> lc_stop t = StopReturned) \<longleftrightarrow> \<not> monitor_stuck s"
proof
  have inv: "lc_inv s" using assms(1) lc_inv_newHub by (rule lc_inv_steps)
  show "\<not> monitor_stuck s" if "\<exists>t. lc_steps k s t \<and> lc_stop t = StopReturned"
  proof
    assume "monitor_stuck s"
    from that obtain t where t: "lc_steps k s t" "lc_stop t = StopReturned" by blast
    from stuck_forever [OF t(1)] \<open>monitor_stuck s\<close> have "monitor_stuck t" by blast
    moreover have "lc_inv t" using t(1) inv by (rule lc_inv_steps)
    ultimately show False using t(2) by (auto simp: lc_inv_def monitor_stuck_def)
  qed
  assume "\<not> monitor_stuck s"
  moreover have "done_closed s" using inv assms(2) by (simp add: lc_inv_def)
  ultimately obtain t where t:
    "lc_steps k s t" "lc_monitor t = MonitorExited" "lc_stop t = lc_stop s" "lc_inv t"
    using monitor_can_exit [OF inv, of k] by blast
  obtain u where "lc_steps k t u" "lc_stop u = StopReturned"
    using stop_can_finish [OF t(4) _ t(2), of k] t(3) assms(2) by auto
  with lc_trans [OF t(1)] show "\<exists>t. lc_steps k s t \<and> lc_stop t = StopReturned" by blast
qed

text \<open>that situation is reachable with the monitor enabled: the monitor finds a stale agent, \<open>Stop\<close>
  closes \<open>done\<close>, the hub loop takes the \<open>done\<close> case first. From there \<open>Stop\<close> never returns.\<close>

theorem Stop_may_hang:
  "interval \<noteq> 0 \<Longrightarrow>
   \<exists>s. lc_steps interval (newHub_goroutines True) s \<and> lc_stop s = StopWaitMonitor \<and>
      (\<forall>t. lc_steps interval s t \<longrightarrow> lc_stop t \<noteq> StopReturned)"
proof -
  assume k: "interval \<noteq> 0"
  define s where "s = (newHub_goroutines True)\<lparr>lc_run := RunExited, lc_monitor := MonitorSending [0],
    lc_stop := StopWaitMonitor, runStarted := True, done_closed := True, runDone_closed := True\<rparr>"
  let ?s0 = "newHub_goroutines True"
  let ?s1 = "?s0\<lparr>lc_run := RunSelect, runStarted := True\<rparr>"
  let ?s2 = "?s1\<lparr>lc_monitor := MonitorSelect\<rparr>"
  let ?s3 = "?s2\<lparr>lc_monitor := MonitorSending [0]\<rparr>"
  let ?s4 = "Stop_signal ?s3"
  let ?s5 = "?s4\<lparr>lc_run := RunExited, runDone_closed := True\<rparr>"
  have "lc_step interval ?s0 ?s1" by (rule run_start) (simp add: newHub_goroutines_def)
  moreover have "lc_step interval ?s1 ?s2" using k by (intro monitor_enter) (simp_all add: newHub_goroutines_def)
  moreover have "lc_step interval ?s2 ?s3" by (rule monitor_check) simp
  moreover have "lc_step interval ?s3 ?s4" by (rule stop_call) (simp add: newHub_goroutines_def)
  moreover have "lc_step interval ?s4 ?s5" by (rule run_return) (simp_all add: Stop_signal_def)
  moreover have "lc_step interval ?s5 (?s5\<lparr>lc_stop := StopWaitMonitor\<rparr>)"
    by (rule stop_run_done) (simp_all add: Stop_signal_def)
  moreover have "?s5\<lparr>lc_stop := StopWaitMonitor\<rparr> = s"
    by (simp add: s_def Stop_signal_def newHub_goroutines_def)
  ultimately have reach: "lc_steps interval ?s0 s" by (metis lc_more lc_refl)
  have "monitor_stuck s" by (simp add: s_def monitor_stuck_def)
  then have "lc_stop t \<noteq> StopReturned" if "lc_steps interval s t" for t
    using stuck_forever [OF that] lc_inv_steps [OF that lc_inv_steps [OF reach lc_inv_newHub]]
    by (auto simp: lc_inv_def monitor_stuck_def)
  with reach show ?thesis by (intro exI [of _ s]) (simp add: s_def)
qed

theorem Stop_returns_witness:
  "\<exists>t. lc_steps 30 (Stop_signal (newHub_goroutines True)) t \<and> lc_stop t = StopReturned"
proof -
  have "lc_steps 30 (newHub_goroutines True) (Stop_signal (newHub_goroutines True))"
    by (intro lc_one stop_call) (simp add: newHub_goroutines_def)
  then show ?thesis
    using Stop_returns_iff_monitor_not_stuck [of 30 True "Stop_signal (newHub_goroutines True)"]
    by (simp add: Stop_signal_def newHub_goroutines_def monitor_stuck_def)
qed

theorem Stop_may_hang_witness:
  "\<exists>s. lc_steps 30 (newHub_goroutines True) s \<and> lc_stop s = StopWaitMonitor \<and>
      (\<forall>t. lc_steps 30 s t \<longrightarrow> lc_stop t \<noteq> StopReturned)"
  by (rule Stop_may_hang) simp

end
