(* ===== verification/Hub_Delivery.thy ===== *)
theory Hub_Delivery
  imports Hub
begin

section \<open>Hub delivery: what a send through the hub does\<close>

text \<open>
  The contract between the hub and everything that sends through it (routing, replay, the HTTP
  handlers): a send either appends the message to one outbox or changes nothing at all, and which of
  the two happens is decided by the state before the send. The locale \<open>delivery\<close> states it, and the
  loops over several connections are analysed once inside it; the interpretation \<open>hub_delivery\<close>
  discharges its laws for \<open>SafeSend\<close>.
\<close>

definition outbox :: "hub \<Rightarrow> conn_ref \<Rightarrow> json list" where
  "outbox h r = (case heap h r of None \<Rightarrow> [] | Some c \<Rightarrow> ch_buf (send c))"

definition accepts :: "hub \<Rightarrow> conn_ref \<Rightarrow> bool" where
  "accepts h r =
     (case heap h r of
        None \<Rightarrow> False
      | Some c \<Rightarrow> \<not> closed c \<and> \<not> ch_closed (send c) \<and> length (ch_buf (send c)) < ch_cap (send c))"

locale delivery =
  fixes safe_send :: "'r \<Rightarrow> 'd \<Rightarrow> 's \<Rightarrow> bool \<times> 's"
    and box :: "'s \<Rightarrow> 'r \<Rightarrow> 'd list"
    and acc :: "'s \<Rightarrow> 'r \<Rightarrow> bool"
  assumes result: "fst (safe_send r d s) = acc s r"
    and refused: "\<not> acc s r \<Longrightarrow> snd (safe_send r d s) = s"
    and appended: "acc s r \<Longrightarrow>
      box (snd (safe_send r d s)) q = (if q = r then box s r @ [d] else box s q)"
    and others: "q \<noteq> r \<Longrightarrow> acc (snd (safe_send r d s)) q = acc s q"
begin

lemma box_send:
  "box (snd (safe_send r d s)) q = (if q = r \<and> acc s r then box s q @ [d] else box s q)"
  using appended [of s r d q] refused [of s r d] by (cases "acc s r") auto

lemma box_send_all:
  assumes "distinct rs"
  shows "box (fold (\<lambda>r s. snd (safe_send r d s)) rs s) q =
           (if q \<in> set rs \<and> acc s q then box s q @ [d] else box s q)"
  using assms
proof (induction rs arbitrary: s)
  case (Cons r rs)
  let ?s1 = "snd (safe_send r d s)"
  from Cons have IH: "box (fold (\<lambda>r s. snd (safe_send r d s)) rs ?s1) q =
      (if q \<in> set rs \<and> acc ?s1 q then box ?s1 q @ [d] else box ?s1 q)"
    by simp
  show ?case
  proof (cases "q = r")
    case True
    with Cons.prems IH show ?thesis by (simp add: box_send)
  next
    case False
    with IH show ?thesis by (simp add: box_send others)
  qed
qed simp

lemma acc_send_all:
  "q \<notin> set rs \<Longrightarrow> acc (fold (\<lambda>r s. snd (safe_send r d s)) rs s) q = acc s q"
  by (induction rs arbitrary: s) (auto simp: others)

text \<open>Sending a list of messages to one connection: the messages accepted are a prefix.\<close>

lemma box_send_list:
  assumes "\<And>s. n s = 0 \<longleftrightarrow> \<not> acc s r"
    and "\<And>s d. acc s r \<Longrightarrow> n (snd (safe_send r d s)) = n s - 1"
  shows "box (fold (\<lambda>d s. snd (safe_send r d s)) ds s) r = box s r @ take (n s) ds"
proof (induction ds arbitrary: s)
  case (Cons d ds)
  show ?case
  proof (cases "acc s r")
    case True
    with assms(1) [of s] obtain k where "n s = Suc k" by (cases "n s") auto
    with True Cons [of "snd (safe_send r d s)"] assms(2) [of s d] show ?thesis
      by (simp add: box_send)
  next
    case False
    with assms(1) [of s] have "n s = 0" by simp
    with False Cons [of s] show ?thesis by (simp add: refused)
  qed
qed simp

end

subsection \<open>The hub provides it\<close>

lemma SafeSend_refused: "\<not> accepts h r \<Longrightarrow> SafeSend r d h = (False, h)"
  by (auto simp: SafeSend_def accepts_def chan_try_send_def split: option.splits)

lemma SafeSend_accepted:
  assumes "accepts h r"
  obtains c where "heap h r = Some c" "\<not> closed c" "\<not> ch_closed (send c)"
    "length (ch_buf (send c)) < ch_cap (send c)"
    "SafeSend r d h =
       (True, set_conn r (c\<lparr>send := (send c)\<lparr>ch_buf := ch_buf (send c) @ [d]\<rparr>\<rparr>) h)"
  using assms by (auto simp: SafeSend_def accepts_def chan_try_send_def split: option.splits)

lemma heap_set_conn [simp]: "heap (set_conn r c h) q = (if q = r then Some c else heap h q)"
  by (simp add: set_conn_def)

lemma heap_SafeSend_other: "q \<noteq> r \<Longrightarrow> heap (snd (SafeSend r d h)) q = heap h q"
  by (auto simp: SafeSend_def split: option.splits send_result.splits)

interpretation hub_delivery: delivery SafeSend outbox accepts
proof unfold_locales
  fix r q d h
  show "fst (SafeSend r d h) = accepts h r"
    by (cases "accepts h r") (auto simp: SafeSend_refused elim: SafeSend_accepted [where d = d])
  show "\<not> accepts h r \<Longrightarrow> snd (SafeSend r d h) = h"
    by (simp add: SafeSend_refused)
  show "accepts h r \<Longrightarrow>
      outbox (snd (SafeSend r d h)) q = (if q = r then outbox h r @ [d] else outbox h q)"
    by (erule SafeSend_accepted [where d = d]) (simp add: outbox_def)
  show "q \<noteq> r \<Longrightarrow> accepts (snd (SafeSend r d h)) q = accepts h q"
    by (simp add: accepts_def heap_SafeSend_other)
qed

lemma outbox_send_to: "outbox (send_to r d h) q = (if q = r \<and> accepts h r then outbox h q @ [d] else outbox h q)"
  by (simp add: send_to_def hub_delivery.box_send)

lemma send_all_fold: "send_all rs d h = fold (\<lambda>r h. snd (SafeSend r d h)) rs h"
  by (simp add: send_all_def send_to_def [abs_def])

lemma outbox_send_all:
  "distinct rs \<Longrightarrow> outbox (send_all rs d h) q =
     (if q \<in> set rs \<and> accepts h q then outbox h q @ [d] else outbox h q)"
  by (simp add: send_all_fold hub_delivery.box_send_all)

lemma accepts_send_all: "q \<notin> set rs \<Longrightarrow> accepts (send_all rs d h) q = accepts h q"
  by (simp add: send_all_fold hub_delivery.acc_send_all)

lemma snd_send_count: "snd (send_count rs d h) = send_all rs d h"
  by (induction rs d h rule: send_count.induct)
    (auto simp: send_all_fold split: prod.splits)

lemma fst_send_count: "distinct rs \<Longrightarrow> fst (send_count rs d h) = length (filter (accepts h) rs)"
proof (induction rs d h rule: send_count.induct)
  case (2 r rs d h)
  obtain ok h1 where s: "SafeSend r d h = (ok, h1)" by (cases "SafeSend r d h") auto
  then have ok: "ok = accepts h r" and h1: "h1 = snd (SafeSend r d h)"
    using hub_delivery.result [of r d h] by auto
  have "filter (accepts h1) rs = filter (accepts h) rs"
    using "2.prems" h1 by (intro filter_cong refl) (metis distinct.simps(2) hub_delivery.others)
  with "2" s ok show ?case by (auto simp: Let_def split: prod.splits)
qed simp

subsection \<open>What sends leave unchanged\<close>

text \<open>A state that differs from another only in the contents of send buffers.\<close>

definition conn_sent :: "connection \<Rightarrow> connection \<Rightarrow> bool" where
  "conn_sent c c' \<longleftrightarrow>
     c'\<lparr>send := send c\<rparr> = c \<and> ch_cap (send c') = ch_cap (send c) \<and>
     ch_closed (send c') = ch_closed (send c) \<and>
     (length (ch_buf (send c)) \<le> ch_cap (send c) \<longrightarrow> length (ch_buf (send c')) \<le> ch_cap (send c'))"

definition sends_only :: "hub \<Rightarrow> hub \<Rightarrow> bool" where
  "sends_only h h' \<longleftrightarrow>
     h' = h\<lparr>heap := heap h'\<rparr> \<and> (\<forall>r. rel_option conn_sent (heap h r) (heap h' r))"

lemma conn_sent_refl [simp]: "conn_sent c c"
  by (simp add: conn_sent_def)

lemma conn_sent_trans: "conn_sent c1 c2 \<Longrightarrow> conn_sent c2 c3 \<Longrightarrow> conn_sent c1 c3"
  unfolding conn_sent_def by (cases c1; cases c2; cases c3) auto

lemma conn_sent_fields:
  assumes "conn_sent c c'"
  shows "connType c' = connType c" "conn_id c' = conn_id c" "deviceID c' = deviceID c"
    "closed c' = closed c" "status c' = status c" "lastHeartbeat c' = lastHeartbeat c"
    "ch_closed (send c') = ch_closed (send c)" "ch_cap (send c') = ch_cap (send c)"
  using assms by (cases c; cases c'; simp add: conn_sent_def)+

lemma conn_sent_length:
  "conn_sent c c' \<Longrightarrow> length (ch_buf (send c)) \<le> ch_cap (send c) \<Longrightarrow>
   length (ch_buf (send c')) \<le> ch_cap (send c')"
  by (simp add: conn_sent_def)

lemma conn_sent_buf:
  "length ds \<le> ch_cap (send c) \<Longrightarrow> conn_sent c (c\<lparr>send := (send c)\<lparr>ch_buf := ds\<rparr>\<rparr>)"
  unfolding conn_sent_def by simp

lemma sends_only_refl [simp]: "sends_only h h"
  by (simp add: sends_only_def option.rel_refl)

lemma sends_only_trans:
  assumes "sends_only h1 h2" and "sends_only h2 h3"
  shows "sends_only h1 h3"
proof -
  have "rel_option conn_sent (heap h1 r) (heap h3 r)" for r
    using assms unfolding sends_only_def
    by (cases "heap h1 r"; cases "heap h2 r"; cases "heap h3 r")
      (fastforce intro: conn_sent_trans dest: spec [of _ r])+
  moreover have "h3 = h1\<lparr>heap := heap h3\<rparr>"
    using assms unfolding sends_only_def by (cases h1; cases h2; cases h3) auto
  ultimately show ?thesis by (simp add: sends_only_def)
qed

lemma sends_only_set_conn: "heap h r = Some c \<Longrightarrow> conn_sent c c' \<Longrightarrow> sends_only h (set_conn r c' h)"
  by (auto simp: sends_only_def set_conn_def option.rel_refl)

lemma sends_only_send_to [simp]: "sends_only h (send_to r d h)"
proof (cases "accepts h r")
  case True
  then show ?thesis unfolding send_to_def
    by (rule SafeSend_accepted [where d = d]) (simp add: sends_only_set_conn conn_sent_buf)
next
  case False
  then show ?thesis by (simp add: send_to_def SafeSend_refused)
qed

lemma sends_only_send_all [simp]: "sends_only h (send_all rs d h)"
proof -
  have "sends_only h0 h \<Longrightarrow> sends_only h0 (fold (\<lambda>r. send_to r d) rs h)" for h0
  proof (induction rs arbitrary: h)
    case (Cons r rs)
    then show ?case by (simp add: sends_only_trans [OF _ sends_only_send_to])
  qed simp
  from this [OF sends_only_refl] show ?thesis by (simp add: send_all_def)
qed

lemma sends_only_frame [frame_simps]:
  assumes "sends_only h h'"
  shows "agents h' = agents h" "clientConns h' = clientConns h" "next_ref h' = next_ref h"
    "registering h' = registering h" "unregistering h' = unregistering h"
    "staleAgents h' = staleAgents h" "messagesRouted h' = messagesRouted h"
    "ServerMetrics h' = ServerMetrics h"
  using assms by (cases h; cases h'; simp add: sends_only_def)+

lemma sends_only_conn:
  assumes "sends_only h h'" and "heap h r = Some c"
  obtains c' where "heap h' r = Some c'" "conn_sent c c'"
  using assms unfolding sends_only_def by (cases "heap h' r") (auto dest: spec [of _ r])

lemma sends_only_conn_rev:
  assumes "sends_only h h'" and "heap h' r = Some c'"
  obtains c where "heap h r = Some c" "conn_sent c c'"
  using assms unfolding sends_only_def by (cases "heap h r") (auto dest: spec [of _ r])

lemma sends_only_None: "sends_only h h' \<Longrightarrow> heap h' r = None \<longleftrightarrow> heap h r = None"
  unfolding sends_only_def by (cases "heap h r"; cases "heap h' r") (auto dest: spec [of _ r])

subsection \<open>Broadcasts do not depend on the iteration order\<close>

lemma send_to_commute: "send_to r d (send_to q d h) = send_to q d (send_to r d h)"
proof (cases "r = q")
  case False
  show ?thesis
  proof (cases "accepts h r \<and> accepts h q")
    case True
    then obtain c e where
      c: "heap h r = Some c" "\<not> closed c" "\<not> ch_closed (send c)" "length (ch_buf (send c)) < ch_cap (send c)"
      and e: "heap h q = Some e" "\<not> closed e" "\<not> ch_closed (send e)" "length (ch_buf (send e)) < ch_cap (send e)"
      by (auto simp: accepts_def split: option.splits)
    with False show ?thesis
      by (auto simp: send_to_def SafeSend_def chan_try_send_def set_conn_def fun_upd_twist)
  next
    case nacc: False
    then consider "\<not> accepts h r" | "\<not> accepts h q" by blast
    then show ?thesis
    proof cases
      case 1
      then have "\<not> accepts (send_to q d h) r"
        using False by (simp add: send_to_def hub_delivery.others)
      with 1 show ?thesis by (simp add: send_to_def SafeSend_refused)
    next
      case 2
      then have "\<not> accepts (send_to r d h) q"
        using False by (simp add: send_to_def hub_delivery.others)
      with 2 show ?thesis by (simp add: send_to_def SafeSend_refused)
    qed
  qed
qed simp

lemma send_all_mset: "mset xs = mset ys \<Longrightarrow> send_all xs d = send_all ys d"
proof -
  assume eq: "mset xs = mset ys"
  have "fold (\<lambda>r. send_to r d) xs = fold (\<lambda>r. send_to r d) ys"
    by (rule fold_multiset_equiv [OF _ eq]) (rule ext, unfold comp_def, rule send_to_commute)
  then show ?thesis by (simp add: send_all_def fun_eq_iff)
qed

lemma mset_all_clients: "mset m = mset (clientConns h) \<Longrightarrow> mset (concat (map snd m)) = mset (all_clients h)"
proof -
  assume eq: "mset m = mset (clientConns h)"
  have *: "mset (concat (map snd l)) = sum_mset (image_mset (mset \<circ> snd) (mset l))"
    for l :: "(string \<times> conn_ref list) list"
    by (induction l) auto
  show ?thesis by (simp only: all_clients_def * eq)
qed

text \<open>\<open>broadcastPresence\<close> and \<open>BroadcastToAllClients\<close> range over Go maps, whose order is unspecified.
  Whatever order the registry's entries are visited in, the resulting state of every connection is
  the same.\<close>

theorem broadcast_order_irrelevant:
  assumes "mset m = mset (clientConns h)"
  shows "BroadcastToAllClients d h = send_all (concat (map snd m)) d h \<and>
         broadcastPresence i ct online h =
           send_all (concat (map snd m)) (presence_update i ct online) h"
  using send_all_mset [OF mset_all_clients [OF assms]]
  by (simp add: BroadcastToAllClients_def broadcastPresence_def)

theorem broadcast_order_irrelevant_witness:
  "BroadcastToAllClients JNull ((newHub None)\<lparr>clientConns := [(''u'', [0]), (''v'', [1])]\<rparr>) =
   send_all [1, 0] JNull ((newHub None)\<lparr>clientConns := [(''u'', [0]), (''v'', [1])]\<rparr>)"
  using broadcast_order_irrelevant [of "[(''v'', [1]), (''u'', [0])]"
      "(newHub None)\<lparr>clientConns := [(''u'', [0]), (''v'', [1])]\<rparr>" JNull] by simp

end
