(* ===== verification/Offline_Queue.thy ===== *)
theory Offline_Queue
  imports Hub_Delivery
begin

section \<open>Offline queue: buffering, persistence and replay\<close>

text \<open>
  queue.go and queue_persist.go. The in-memory queue keeps, per recipient, the messages that could
  not be delivered, at most \<open>maxLen\<close> of them; \<open>Drain\<close> hands them out once, without those older than
  \<open>ttl\<close>. The table \<open>offline_queue\<close> is its persistent copy: rows in \<open>id\<close> order, each with its recipient, its
  data and the second it was queued (the code stores RFC 3339 text without fractions). Whether an
  SQL statement fails is an argument of the functions that execute one.

  The locale \<open>mailbox\<close> is the contract a bounded mailbox offers to the sender side (routing) and to
  the replay side, and \<open>offline_mailbox\<close> its interpretation on the queue.
\<close>

subsection \<open>The in-memory queue\<close>

record queuedMessage =
  data :: json
  queuedAt :: int
  sentCount :: int

record OfflineQueue =
  buffers :: "(string, queuedMessage list) gomap"
  maxLen :: int
  ttl :: int

definition newOfflineQueue :: "int \<Rightarrow> int \<Rightarrow> OfflineQueue" where
  "newOfflineQueue ml t =
     \<lparr>buffers = [], maxLen = (if ml \<le> 0 then 100 else ml), ttl = (if t \<le> 0 then 7 * 24 * hour else t)\<rparr>"

definition queue_of :: "string \<Rightarrow> OfflineQueue \<Rightarrow> queuedMessage list" where
  "queue_of r q = (case gm_get (buffers q) r of None \<Rightarrow> [] | Some buf \<Rightarrow> buf)"

definition Enqueue :: "int \<Rightarrow> string \<Rightarrow> json \<Rightarrow> OfflineQueue \<Rightarrow> OfflineQueue" where
  "Enqueue now recipientID d q =
     (let msg = \<lparr>data = d, queuedAt = now, sentCount = 0\<rparr>;
          buf = queue_of recipientID q @ [msg];
          buf' = (if int (length buf) > maxLen q then drop (length buf - nat (maxLen q)) buf else buf)
      in q\<lparr>buffers := gm_set recipientID buf' (buffers q)\<rparr>)"

text \<open>\<open>Drain\<close>: the data of the messages that have not expired. Its \<open>remaining\<close> is never filled.\<close>

definition expired :: "int \<Rightarrow> OfflineQueue \<Rightarrow> queuedMessage \<Rightarrow> bool" where
  "expired now q msg \<longleftrightarrow> time_sub now (queuedAt msg) > ttl q"

definition Drain :: "int \<Rightarrow> string \<Rightarrow> OfflineQueue \<Rightarrow> json list \<times> OfflineQueue" where
  "Drain now recipientID q =
     (if queue_of recipientID q = [] then ([], q)
      else (map data (filter (\<lambda>msg. \<not> expired now q msg) (queue_of recipientID q)),
            q\<lparr>buffers := gm_del recipientID (buffers q)\<rparr>))"

definition Purge :: "string \<Rightarrow> OfflineQueue \<Rightarrow> OfflineQueue" where
  "Purge recipientID q = q\<lparr>buffers := gm_del recipientID (buffers q)\<rparr>"

definition QueueDepth :: "string \<Rightarrow> OfflineQueue \<Rightarrow> nat" where
  "QueueDepth recipientID q = length (queue_of recipientID q)"

definition TotalDepth :: "OfflineQueue \<Rightarrow> nat" where
  "TotalDepth q = foldl (\<lambda>total (_, buf). total + length buf) 0 (buffers q)"

subsection \<open>A bounded mailbox\<close>

text \<open>What routing and replay rely on: posting appends and keeps the newest \<open>cap\<close> messages of that
  recipient only; taking returns the live ones in order and empties that mailbox only.\<close>

locale mailbox =
  fixes post :: "int \<Rightarrow> 'k \<Rightarrow> 'm \<Rightarrow> 's \<Rightarrow> 's"
    and fetch :: "int \<Rightarrow> 'k \<Rightarrow> 's \<Rightarrow> 'm list \<times> 's"
    and box :: "'k \<Rightarrow> 's \<Rightarrow> (int \<times> 'm) list"
    and cap :: "'s \<Rightarrow> nat"
    and dead :: "'s \<Rightarrow> int \<Rightarrow> int \<Rightarrow> bool"
    and good :: "'s \<Rightarrow> bool"
  assumes post_box: "good s \<Longrightarrow>
      box j (post t k m s) = (if j = k then lastn (cap s) (box k s @ [(t, m)]) else box j s)"
    and post_cap: "cap (post t k m s) = cap s" and post_dead: "dead (post t k m s) = dead s"
    and post_good: "good s \<Longrightarrow> good (post t k m s)"
    and fetch_result: "fst (fetch t k s) = map snd (filter (\<lambda>(u, m). \<not> dead s t u) (box k s))"
    and fetch_box: "box j (snd (fetch t k s)) = (if j = k then [] else box j s)"
begin

fun post_all :: "(int \<times> 'k \<times> 'm) list \<Rightarrow> 's \<Rightarrow> 's" where
  "post_all [] s = s"
| "post_all ((t, k, m) # xs) s = post_all xs (post t k m s)"

lemma post_all_frame: "cap (post_all xs s) = cap s \<and> dead (post_all xs s) = dead s \<and>
    (good s \<longrightarrow> good (post_all xs s))"
  by (induction xs s rule: post_all.induct) (simp_all add: post_cap post_dead post_good)

lemma box_post_all:
  assumes "good s" and "length (box k s) \<le> cap s"
  shows "box k (post_all xs s) =
    lastn (cap s) (box k s @ map (\<lambda>(t, _, m). (t, m)) (filter (\<lambda>(_, j, _). j = k) xs))"
proof -
  have "good s \<Longrightarrow> box k s = lastn (cap s) zs \<Longrightarrow> box k (post_all xs s) =
      lastn (cap s) (zs @ map (\<lambda>(t, _, m). (t, m)) (filter (\<lambda>(_, j, _). j = k) xs))" for zs
  proof (induction xs s arbitrary: zs rule: post_all.induct)
    case (2 t j m xs s)
    show ?case
    proof (cases "j = k")
      case True
      then have "box k (post t j m s) = lastn (cap (post t j m s)) (zs @ [(t, m)])"
        using "2.prems" by (simp add: post_box post_cap lastn_snoc)
      from "2.IH" [OF post_good [OF "2.prems"(1)] this] True show ?thesis by (simp add: post_cap)
    next
      case False
      then have "box k (post t j m s) = lastn (cap (post t j m s)) zs"
        using "2.prems" by (simp add: post_box post_cap)
      from "2.IH" [OF post_good [OF "2.prems"(1)] this] False show ?thesis by (simp add: post_cap)
    qed
  qed simp
  from this [OF assms(1), of "box k s"] assms(2) show ?thesis by (simp add: lastn_all)
qed

theorem fetch_post_all:
  assumes "good s" and "box k s = []"
  shows "fst (fetch t k (post_all xs s)) =
    map snd (filter (\<lambda>(u, m). \<not> dead s t u)
      (lastn (cap s) (map (\<lambda>(u, _, m). (u, m)) (filter (\<lambda>(_, j, _). j = k) xs))))"
  using box_post_all [OF assms(1), of k xs] post_all_frame [of xs s] assms(2)
  by (simp add: fetch_result)

end

definition queue_good :: "OfflineQueue \<Rightarrow> bool" where
  "queue_good q \<longleftrightarrow> 1 \<le> maxLen q \<and> 0 < ttl q"

definition queue_box :: "string \<Rightarrow> OfflineQueue \<Rightarrow> (int \<times> json) list" where
  "queue_box r q = map (\<lambda>m. (queuedAt m, data m)) (queue_of r q)"

lemma queue_of_Enqueue:
  "1 \<le> maxLen q \<Longrightarrow> queue_of j (Enqueue now r d q) =
     (if j = r then lastn (nat (maxLen q)) (queue_of r q @ [\<lparr>data = d, queuedAt = now, sentCount = 0\<rparr>])
      else queue_of j q)"
  by (auto simp: queue_of_def Enqueue_def Let_def lastn_def)

lemma Enqueue_params [simp]: "maxLen (Enqueue now r d q) = maxLen q" "ttl (Enqueue now r d q) = ttl q"
  by (simp_all add: Enqueue_def Let_def)

lemma queue_of_Drain: "queue_of j (snd (Drain now r q)) = (if j = r then [] else queue_of j q)"
  by (auto simp: queue_of_def Drain_def split: option.splits)

lemma fst_Drain: "fst (Drain now r q) = map data (filter (\<lambda>m. \<not> expired now q m) (queue_of r q))"
  by (simp add: Drain_def)

interpretation offline_mailbox: mailbox Enqueue Drain queue_box "\<lambda>q. nat (maxLen q)"
  "\<lambda>q now u. time_sub now u > ttl q" queue_good
  by unfold_locales
    (simp_all add: queue_good_def queue_box_def queue_of_Enqueue map_lastn fst_Drain queue_of_Drain
      expired_def filter_map comp_def)

subsection \<open>What the queue promises\<close>

fun enqueue_all :: "(int \<times> string \<times> json) list \<Rightarrow> OfflineQueue \<Rightarrow> OfflineQueue" where
  "enqueue_all [] q = q"
| "enqueue_all ((t, r, d) # xs) q = enqueue_all xs (Enqueue t r d q)"

lemma enqueue_all_post: "enqueue_all xs q = offline_mailbox.post_all xs q"
  by (induction xs q rule: enqueue_all.induct) simp_all

text \<open>C15: after any interleaving of enqueues for any recipients, draining a recipient returns exactly
  the newest \<open>maxLen\<close> messages queued for it, in order, without those older than the TTL; every other
  recipient's messages are untouched, and a second drain returns nothing.\<close>

theorem queue_drain_fifo:
  assumes "0 < ml" and "0 < life"
  shows "let q = enqueue_all xs (newOfflineQueue ml life) in
     fst (Drain now r q) =
       map snd (filter (\<lambda>(u, d). \<not> time_sub now u > life)
         (lastn (nat ml) (map (\<lambda>(u, _, d). (u, d)) (filter (\<lambda>(_, j, _). j = r) xs)))) \<and>
     (\<forall>j. j \<noteq> r \<longrightarrow> queue_of j (snd (Drain now r q)) = queue_of j q) \<and>
     fst (Drain now' r (snd (Drain now r q))) = []"
proof -
  let ?q0 = "newOfflineQueue ml life"
  have "queue_good ?q0" "queue_box r ?q0 = []" "maxLen ?q0 = ml" "ttl ?q0 = life"
    using assms by (simp_all add: queue_good_def newOfflineQueue_def queue_box_def queue_of_def)
  from offline_mailbox.fetch_post_all [OF this(1,2), of now xs] this(3,4)
  show ?thesis by (simp add: Let_def enqueue_all_post queue_of_Drain fst_Drain)
qed

theorem queue_drain_fifo_witness:
  "fst (Drain 10 ''u'' (enqueue_all [(1, ''u'', JNum 1), (2, ''v'', JNum 2), (3, ''u'', JNum 3), (4, ''u'', JNum 4)]
     (newOfflineQueue 2 hour))) = [JNum 3, JNum 4]"
  using queue_drain_fifo [of 2 hour "[(1, ''u'', JNum 1), (2, ''v'', JNum 2), (3, ''u'', JNum 3), (4, ''u'', JNum 4)]"
      10 "''u''"]
  by (simp add: Let_def lastn_def time_sub_def int64_min_def int64_max_def)

text \<open>no recipient's queue is ever longer than the bound. The bound is always positive: a length
  of 0, which the comment calls unlimited, is 100.\<close>

theorem queue_bounded:
  "QueueDepth r (enqueue_all xs (newOfflineQueue ml life)) \<le> nat (if ml \<le> 0 then 100 else ml)"
proof -
  let ?q0 = "newOfflineQueue ml life"
  have "queue_good ?q0" "queue_box r ?q0 = []" "maxLen ?q0 = (if ml \<le> 0 then 100 else ml)"
    by (simp_all add: queue_good_def newOfflineQueue_def queue_box_def queue_of_def)
  then have "length (queue_box r (enqueue_all xs ?q0)) \<le> nat (maxLen ?q0)"
    using offline_mailbox.box_post_all [of ?q0 r xs] by (simp add: enqueue_all_post)
  then show ?thesis using \<open>maxLen ?q0 = _\<close> by (simp add: QueueDepth_def queue_box_def)
qed

subsection \<open>The persistent copy\<close>

record queue_row =
  oq_recipient :: string
  oq_data :: json
  oq_queued_at :: int \<comment> \<open>seconds\<close>

text \<open>The table, in \<open>id\<close> order; \<open>None\<close> stands for the handle \<open>db == nil\<close>.\<close>

type_synonym queue_table = "queue_row list option"

definition rfc3339_seconds :: "int \<Rightarrow> int" where
  "rfc3339_seconds t = t div second"

definition persistQueue :: "bool \<Rightarrow> int \<Rightarrow> string \<Rightarrow> json \<Rightarrow> queue_table \<Rightarrow> queue_table" where
  "persistQueue fails now recipient d tbl =
     (case tbl of
        None \<Rightarrow> None
      | Some rows \<Rightarrow>
          if fails then Some rows
          else Some (rows @ [\<lparr>oq_recipient = recipient, oq_data = d, oq_queued_at = rfc3339_seconds now\<rparr>]))"

definition deleteQueueMessages :: "bool \<Rightarrow> string \<Rightarrow> queue_table \<Rightarrow> queue_table" where
  "deleteQueueMessages fails recipient tbl =
     (case tbl of
        None \<Rightarrow> None
      | Some rows \<Rightarrow> if fails then Some rows else Some (filter (\<lambda>row. oq_recipient row \<noteq> recipient) rows))"

text \<open>The row loop of \<open>loadQueueFromDB\<close>: row \<open>i\<close> is scanned with or without an error, and \<open>Enqueue\<close> reads the
  clock \<open>clk i\<close>; the stored time of the row is not used.\<close>

fun load_rows :: "(nat \<Rightarrow> bool) \<Rightarrow> (nat \<Rightarrow> int) \<Rightarrow> nat \<Rightarrow> queue_row list \<Rightarrow> OfflineQueue \<Rightarrow> OfflineQueue" where
  "load_rows scan_fails clk i [] q = q"
| "load_rows scan_fails clk i (row # rows) q =
     (if scan_fails i then load_rows scan_fails clk (Suc i) rows q
      else load_rows scan_fails clk (Suc i) rows (Enqueue (clk i) (oq_recipient row) (oq_data row) q))"

definition loadQueueFromDB ::
  "bool \<Rightarrow> (nat \<Rightarrow> bool) \<Rightarrow> (nat \<Rightarrow> int) \<Rightarrow> queue_table \<Rightarrow> OfflineQueue \<Rightarrow> OfflineQueue" where
  "loadQueueFromDB query_fails scan_fails clk tbl q =
     (case tbl of
        None \<Rightarrow> q
      | Some rows \<Rightarrow> if query_fails then q else load_rows scan_fails clk 0 rows q)"

definition cleanStaleQueueMessages :: "bool \<Rightarrow> int \<Rightarrow> int \<Rightarrow> queue_table \<Rightarrow> queue_table" where
  "cleanStaleQueueMessages fails now maxAge tbl =
     (case tbl of
        None \<Rightarrow> None
      | Some rows \<Rightarrow>
          if fails then Some rows
          else Some (filter (\<lambda>row. \<not> oq_queued_at row < rfc3339_seconds (now - maxAge)) rows))"

subsection \<open>Loading the table\<close>

text \<open>Loading the table is a run of enqueues, with the clock readings of the load.\<close>

fun timed_rows :: "(nat \<Rightarrow> int) \<Rightarrow> nat \<Rightarrow> queue_row list \<Rightarrow> (int \<times> string \<times> json) list" where
  "timed_rows clk i [] = []"
| "timed_rows clk i (row # rows) = (clk i, oq_recipient row, oq_data row) # timed_rows clk (Suc i) rows"

lemma load_rows_enqueue_all: "load_rows (\<lambda>_. False) clk i rows q = enqueue_all (timed_rows clk i rows) q"
  by (induction rows arbitrary: i q) simp_all

lemma timed_rows_data:
  "map (\<lambda>(_, _, d). d) (filter (\<lambda>(_, j, _). j = r) (timed_rows clk i rows)) =
   map oq_data (filter (\<lambda>row. oq_recipient row = r) rows)"
  by (induction rows arbitrary: i) simp_all

lemma queue_data_enqueue_all:
  assumes "queue_good q" and "queue_box r q = []"
  shows "map data (queue_of r (enqueue_all xs q)) =
    lastn (nat (maxLen q)) (map (\<lambda>(_, _, d). d) (filter (\<lambda>(_, j, _). j = r) xs))"
proof -
  have "map snd (queue_box r (enqueue_all xs q)) =
      lastn (nat (maxLen q)) (map snd (map (\<lambda>(t, _, m). (t, m)) (filter (\<lambda>(_, j, _). j = r) xs)))"
    using offline_mailbox.box_post_all [OF assms(1), of r xs] assms(2)
    by (simp add: enqueue_all_post map_lastn)
  then show ?thesis by (simp add: queue_box_def comp_def case_prod_unfold)
qed

text \<open>What a start of the server finds in its queue: the newest \<open>maxLen\<close> rows of each recipient.\<close>

lemma loadQueueFromDB_data:
  "map data (queue_of r (loadQueueFromDB False (\<lambda>_. False) clk (Some rows) (newOfflineQueue ml life))) =
     lastn (nat (maxLen (newOfflineQueue ml life))) (map oq_data (filter (\<lambda>row. oq_recipient row = r) rows))"
proof -
  have "queue_good (newOfflineQueue ml life)" "queue_box r (newOfflineQueue ml life) = []"
    by (simp_all add: queue_good_def newOfflineQueue_def queue_box_def queue_of_def)
  then show ?thesis
    by (simp add: loadQueueFromDB_def load_rows_enqueue_all queue_data_enqueue_all timed_rows_data)
qed

lemma enqueue_all_params: "maxLen (enqueue_all xs q) = maxLen q" "ttl (enqueue_all xs q) = ttl q"
  by (induction xs q rule: enqueue_all.induct) simp_all

end
