(* ===== verification/Database.thy ===== *)
theory Database
  imports Offline_Queue
begin

section \<open>Database: the tables and the constraints the server relies on\<close>

text \<open>
  The schema of dbdriver.go and main.go as tables of rows, in insertion order, with the constraints
  that decide whether a statement succeeds: primary keys, \<open>UNIQUE\<close> and \<open>FOREIGN KEY\<close> (SQLite is opened
  with \<open>PRAGMA foreign_keys=ON\<close>; a foreign key without \<open>ON DELETE CASCADE\<close> refuses the deletion of a row
  that is still referenced). A statement that breaks a constraint changes nothing.

  What the database engine and the clock do beyond that is in the record \<open>env\<close>: \<open>sql_fails\<close> says at which
  statement the engine reports an error of its own (disk, lock, closed handle), \<open>clock\<close> is the instant
  each use of \<open>time.Now()\<close> reads. Both are keyed by a name for the place in the code. Ties in an \<open>ORDER BY\<close>,
  which SQL leaves open, are in insertion order.
\<close>

record env =
  sql_fails :: "string \<Rightarrow> bool"
  clock :: "string \<Rightarrow> int"

datatype go_error = ErrNoRows | ErrUnique | ErrForeignKey | ErrSQL | ErrText string

record user_row =
  u_id :: string
  u_username :: string
  u_password_hash :: string

record agent_row =
  a_id :: string
  a_name :: string
  a_model :: string
  a_personality :: string
  a_specialty :: string
  a_status :: string

record Conversation =
  conv_ID :: string
  conv_UserID :: string
  conv_AgentID :: string
  conv_CreatedAt :: int

record message_row =
  m_id :: string
  m_conversation :: string
  m_sender_type :: string
  m_sender_id :: string
  m_content :: string
  m_metadata :: json
  m_created_at :: int
  m_read_at :: "int option"
  m_edited_at :: "int option"
  m_is_deleted :: bool

record attachment_row =
  at_id :: string
  at_message :: "string option"
  at_user :: string
  at_filename :: string
  at_content_type :: string
  at_size :: int
  at_sha256 :: string
  at_storage_path :: string
  at_created_at :: int

record reaction_row =
  re_id :: string
  re_message :: string
  re_user :: string
  re_emoji :: string
  re_created_at :: int

record tag_row =
  tg_id :: string
  tg_conversation :: string
  tg_tag :: string
  tg_created_at :: int

record encrypted_row =
  em_id :: string
  em_conversation :: string
  em_sender_id :: string
  em_sender_type :: string
  em_ciphertext :: string
  em_iv :: string
  em_recipient_key_id :: string
  em_sender_key_id :: string
  em_algorithm :: string
  em_created_at :: int

record key_row =
  kb_id :: string
  kb_owner_id :: string
  kb_owner_type :: string
  kb_key_type :: string
  kb_public_key :: string
  kb_signature :: string
  kb_key_id :: int
  kb_created_at :: int

record pref_row =
  np_user :: string
  np_conversation :: string
  np_muted :: bool

record device_row =
  dt_user :: string
  dt_token :: string
  dt_platform :: string

record webpush_row =
  wp_user :: string
  wp_endpoint :: string
  wp_p256dh :: string
  wp_auth :: string

record tier_row =
  rt_user :: string
  rt_tier :: string

record database =
  t_users :: "user_row list"
  t_agents :: "agent_row list"
  t_conversations :: "Conversation list"
  t_messages :: "message_row list"
  t_attachments :: "attachment_row list"
  t_reactions :: "reaction_row list"
  t_tags :: "tag_row list"
  t_encrypted :: "encrypted_row list"
  t_keys :: "key_row list"
  t_prefs :: "pref_row list"
  t_devices :: "device_row list"
  t_tiers :: "tier_row list"
  t_queue :: "queue_row list"
  t_webpush :: "webpush_row list"

definition empty_db :: database where
  "empty_db = \<lparr>t_users = [], t_agents = [], t_conversations = [], t_messages = [], t_attachments = [],
     t_reactions = [], t_tags = [], t_encrypted = [], t_keys = [], t_prefs = [], t_devices = [],
     t_tiers = [], t_queue = [], t_webpush = []\<rparr>"

subsection \<open>Keys\<close>

definition user_exists :: "database \<Rightarrow> string \<Rightarrow> bool" where
  "user_exists d i \<longleftrightarrow> i \<in> u_id ` set (t_users d)"

definition agent_exists :: "database \<Rightarrow> string \<Rightarrow> bool" where
  "agent_exists d i \<longleftrightarrow> i \<in> a_id ` set (t_agents d)"

definition conversation_exists :: "database \<Rightarrow> string \<Rightarrow> bool" where
  "conversation_exists d i \<longleftrightarrow> i \<in> conv_ID ` set (t_conversations d)"

definition message_exists :: "database \<Rightarrow> string \<Rightarrow> bool" where
  "message_exists d i \<longleftrightarrow> i \<in> m_id ` set (t_messages d)"

text \<open>The constraints that every statement keeps: primary keys are unique, and the references that
  matter to the code resolve.\<close>

definition db_ok :: "database \<Rightarrow> bool" where
  "db_ok d \<longleftrightarrow>
     distinct (map u_id (t_users d)) \<and> distinct (map u_username (t_users d)) \<and>
     distinct (map a_id (t_agents d)) \<and>
     distinct (map conv_ID (t_conversations d)) \<and> distinct (map m_id (t_messages d)) \<and>
     (\<forall>c \<in> set (t_conversations d). user_exists d (conv_UserID c) \<and> agent_exists d (conv_AgentID c)) \<and>
     (\<forall>m \<in> set (t_messages d). conversation_exists d (m_conversation m)) \<and>
     (\<forall>a \<in> set (t_attachments d). \<forall>m. at_message a = Some m \<longrightarrow> message_exists d m) \<and>
     (\<forall>r \<in> set (t_reactions d). message_exists d (re_message r)) \<and>
     (\<forall>t \<in> set (t_tags d). conversation_exists d (tg_conversation t)) \<and>
     (\<forall>e \<in> set (t_encrypted d). conversation_exists d (em_conversation e)) \<and>
     (\<forall>p \<in> set (t_prefs d). conversation_exists d (np_conversation p))"

subsection \<open>Statements\<close>

text \<open>An \<open>INSERT INTO messages\<close>.\<close>

definition insert_message :: "message_row \<Rightarrow> database \<Rightarrow> go_error + database" where
  "insert_message m d =
     (if message_exists d (m_id m) then Inl ErrUnique
      else if \<not> conversation_exists d (m_conversation m) then Inl ErrForeignKey
      else Inr (d\<lparr>t_messages := t_messages d @ [m]\<rparr>))"

definition insert_conversation :: "Conversation \<Rightarrow> database \<Rightarrow> go_error + database" where
  "insert_conversation c d =
     (if conversation_exists d (conv_ID c) then Inl ErrUnique
      else if \<not> user_exists d (conv_UserID c) \<or> \<not> agent_exists d (conv_AgentID c) then Inl ErrForeignKey
      else Inr (d\<lparr>t_conversations := t_conversations d @ [c]\<rparr>))"

text \<open>\<open>DELETE FROM messages WHERE conversation_id = ?\<close>: attachments refuse, reactions cascade.\<close>

definition delete_messages_of :: "string \<Rightarrow> database \<Rightarrow> go_error + database" where
  "delete_messages_of conv d =
     (if \<exists>a \<in> set (t_attachments d). \<exists>i. at_message a = Some i \<and>
           (\<exists>m \<in> set (t_messages d). m_conversation m = conv \<and> m_id m = i)
      then Inl ErrForeignKey
      else Inr (d\<lparr>t_messages := filter (\<lambda>m. m_conversation m \<noteq> conv) (t_messages d),
                  t_reactions := filter (\<lambda>r. \<not> (\<exists>m \<in> set (t_messages d). m_conversation m = conv \<and> m_id m = re_message r))
                                   (t_reactions d)\<rparr>))"

text \<open>\<open>DELETE FROM conversations WHERE id = ?\<close>: messages and encrypted messages refuse, tags and
  notification preferences cascade.\<close>

definition delete_conversation_row :: "string \<Rightarrow> database \<Rightarrow> go_error + database" where
  "delete_conversation_row conv d =
     (if conversation_exists d conv \<and>
         ((\<exists>m \<in> set (t_messages d). m_conversation m = conv) \<or>
          (\<exists>e \<in> set (t_encrypted d). em_conversation e = conv))
      then Inl ErrForeignKey
      else Inr (d\<lparr>t_conversations := filter (\<lambda>c. conv_ID c \<noteq> conv) (t_conversations d),
                  t_tags := filter (\<lambda>t. tg_conversation t \<noteq> conv) (t_tags d),
                  t_prefs := filter (\<lambda>p. np_conversation p \<noteq> conv) (t_prefs d)\<rparr>))"

definition update_messages :: "(message_row \<Rightarrow> bool) \<Rightarrow> (message_row \<Rightarrow> message_row) \<Rightarrow> database \<Rightarrow> database" where
  "update_messages P f d = d\<lparr>t_messages := map (\<lambda>m. if P m then f m else m) (t_messages d)\<rparr>"

text \<open>\<open>UPDATE attachments SET message_id = ? WHERE id = ? AND message_id IS NULL\<close>.\<close>

definition link_attachment :: "string \<Rightarrow> string \<Rightarrow> database \<Rightarrow> database" where
  "link_attachment msg att d =
     d\<lparr>t_attachments := map (\<lambda>a. if at_id a = att \<and> at_message a = None then a\<lparr>at_message := Some msg\<rparr> else a)
                         (t_attachments d)\<rparr>"

definition order_asc :: "('a \<Rightarrow> int) \<Rightarrow> 'a list \<Rightarrow> 'a list" where
  "order_asc key xs = sort_key key xs"

definition order_desc :: "('a \<Rightarrow> int) \<Rightarrow> 'a list \<Rightarrow> 'a list" where
  "order_desc key xs = sort_key (\<lambda>x. - key x) xs"

text \<open>\<open>fmt.Sprintf("%s_%d", prefix, time.Now().UnixNano())\<close>\<close>

definition generateID :: "string \<Rightarrow> int \<Rightarrow> string" where
  "generateID prefix now = prefix @ ''_'' @ decimal now"

subsection \<open>The statements keep the constraints\<close>

lemmas exists_defs = user_exists_def agent_exists_def conversation_exists_def message_exists_def

lemma insert_message_ok: "insert_message m d = Inr d' \<Longrightarrow> db_ok d \<Longrightarrow> db_ok d'"
  by (auto simp: insert_message_def db_ok_def exists_defs split: if_splits)

lemma insert_conversation_ok: "insert_conversation c d = Inr d' \<Longrightarrow> db_ok d \<Longrightarrow> db_ok d'"
  by (auto simp: insert_conversation_def db_ok_def exists_defs split: if_splits)

lemma link_attachment_ok: "db_ok d \<Longrightarrow> message_exists d m \<Longrightarrow> db_ok (link_attachment m a d)"
  by (auto simp: link_attachment_def db_ok_def exists_defs)

lemma db_ok_same_messages:
  assumes "db_ok d" and "map m_id ms = map m_id (t_messages d)"
    and "map m_conversation ms = map m_conversation (t_messages d)"
  shows "db_ok (d\<lparr>t_messages := ms\<rparr>)"
proof -
  have i: "m_id ` set ms = m_id ` set (t_messages d)"
    using arg_cong [OF assms(2), of set] by simp
  have c: "m_conversation ` set ms = m_conversation ` set (t_messages d)"
    using arg_cong [OF assms(3), of set] by simp
  have "\<forall>m \<in> set ms. conversation_exists d (m_conversation m)"
  proof
    fix m assume "m \<in> set ms"
    then have "m_conversation m \<in> m_conversation ` set (t_messages d)" using c by blast
    then show "conversation_exists d (m_conversation m)" using assms(1) by (auto simp: db_ok_def)
  qed
  then show ?thesis using assms(1,2) i by (simp add: db_ok_def exists_defs)
qed

lemma update_messages_ok:
  assumes "db_ok d" and "\<And>m. m_id (f m) = m_id m" and "\<And>m. m_conversation (f m) = m_conversation m"
  shows "db_ok (update_messages P f d)"
  unfolding update_messages_def using assms by (intro db_ok_same_messages) simp_all

lemma delete_messages_of_Inr:
  assumes "delete_messages_of c d = Inr d'"
  shows "d' = d\<lparr>t_messages := filter (\<lambda>m. m_conversation m \<noteq> c) (t_messages d),
      t_reactions := filter (\<lambda>r. \<not> (\<exists>m \<in> set (t_messages d). m_conversation m = c \<and> m_id m = re_message r))
                       (t_reactions d)\<rparr>"
    and "\<not> (\<exists>a \<in> set (t_attachments d). \<exists>i. at_message a = Some i \<and>
      (\<exists>m \<in> set (t_messages d). m_conversation m = c \<and> m_id m = i))"
  using assms by (auto simp: delete_messages_of_def split: if_splits)

lemma delete_conversation_row_Inr:
  assumes "delete_conversation_row c d = Inr d'"
  shows "d' = d\<lparr>t_conversations := filter (\<lambda>x. conv_ID x \<noteq> c) (t_conversations d),
      t_tags := filter (\<lambda>t. tg_conversation t \<noteq> c) (t_tags d),
      t_prefs := filter (\<lambda>p. np_conversation p \<noteq> c) (t_prefs d)\<rparr>"
    and "conversation_exists d c \<Longrightarrow> m \<in> set (t_messages d) \<Longrightarrow> m_conversation m \<noteq> c"
    and "conversation_exists d c \<Longrightarrow> e \<in> set (t_encrypted d) \<Longrightarrow> em_conversation e \<noteq> c"
  using assms by (auto simp: delete_conversation_row_def split: if_splits)

lemma delete_messages_of_ok:
  assumes "delete_messages_of c d = Inr d'" and "db_ok d"
  shows "db_ok d'"
proof -
  note d' = delete_messages_of_Inr(1) [OF assms(1)] and refused = delete_messages_of_Inr(2) [OF assms(1)]
  have keep: "message_exists d i \<Longrightarrow> \<not> (\<exists>m \<in> set (t_messages d). m_conversation m = c \<and> m_id m = i) \<Longrightarrow>
      message_exists d' i" for i
    by (auto simp: d' message_exists_def)
  have "\<forall>a \<in> set (t_attachments d'). \<forall>m. at_message a = Some m \<longrightarrow> message_exists d' m"
    using refused keep assms(2) by (simp add: d' db_ok_def)
  moreover have "\<forall>r \<in> set (t_reactions d'). message_exists d' (re_message r)"
    using keep assms(2) by (simp add: d' db_ok_def)
  ultimately show ?thesis
    using assms(2) by (simp add: db_ok_def d' user_exists_def agent_exists_def conversation_exists_def
        distinct_map_filter)
qed

lemma delete_conversation_row_ok:
  assumes "delete_conversation_row c d = Inr d'" and "db_ok d"
  shows "db_ok d'"
proof -
  note d' = delete_conversation_row_Inr(1) [OF assms(1)] and refs = delete_conversation_row_Inr(2,3) [OF assms(1)]
  have keep: "conversation_exists d i \<Longrightarrow> i \<noteq> c \<Longrightarrow> conversation_exists d' i" for i
    by (auto simp: d' conversation_exists_def)
  have "\<forall>m \<in> set (t_messages d'). conversation_exists d' (m_conversation m)"
    using refs(1) keep assms(2) by (simp add: d' db_ok_def) metis
  moreover have "\<forall>e \<in> set (t_encrypted d'). conversation_exists d' (em_conversation e)"
    using refs(2) keep assms(2) by (simp add: d' db_ok_def) metis
  moreover have "\<forall>t \<in> set (t_tags d'). conversation_exists d' (tg_conversation t)"
    "\<forall>p \<in> set (t_prefs d'). conversation_exists d' (np_conversation p)"
    using keep assms(2) by (simp_all add: d' db_ok_def)
  ultimately show ?thesis
    using assms(2) by (simp add: db_ok_def d' user_exists_def agent_exists_def message_exists_def
        distinct_map_filter)
qed

end
