(* ===== verification/Conversations.thy ===== *)
theory Conversations
  imports Database "HOL-Library.Sublist"
begin

section \<open>Conversations and messages in the database\<close>

text \<open>
  The functions of conversations.go. Each takes the environment (clock and engine errors), its Go
  arguments and the database, and returns its Go results with the database after it; a Go error is
  the left side of a sum or an optional error.
\<close>

subsection \<open>Operations\<close>

definition getConversation :: "env \<Rightarrow> string \<Rightarrow> database \<Rightarrow> go_error + Conversation option" where
  "getConversation e convID d =
     (if sql_fails e ''getConversation'' then Inl ErrSQL
      else Inr (find (\<lambda>c. conv_ID c = convID) (t_conversations d)))"

definition message_metadata :: "RoutedMessage \<Rightarrow> json" where
  "message_metadata msg =
     JObj ([(''sender_type'', JStr (SenderType msg)), (''sender_id'', JStr (SenderID msg))] @
           (if AttachmentIDs msg \<noteq> [] then [(''attachment_ids'', JArr (map JStr (AttachmentIDs msg)))] else []))"

definition message_row_of :: "string \<Rightarrow> int \<Rightarrow> RoutedMessage \<Rightarrow> message_row" where
  "message_row_of i now msg =
     \<lparr>m_id = i, m_conversation = ConversationID msg, m_sender_type = SenderType msg,
      m_sender_id = SenderID msg, m_content = Content msg, m_metadata = message_metadata msg,
      m_created_at = now, m_read_at = None, m_edited_at = None, m_is_deleted = False\<rparr>"

text \<open>The loop over the attachment ids; the errors of these updates are ignored.\<close>

fun link_attachments :: "(string \<Rightarrow> bool) \<Rightarrow> string \<Rightarrow> string list \<Rightarrow> database \<Rightarrow> database" where
  "link_attachments fails msg [] d = d"
| "link_attachments fails msg (a # as) d =
     link_attachments fails msg as (if fails a then d else link_attachment msg a d)"

definition storeMessage :: "env \<Rightarrow> RoutedMessage \<Rightarrow> database \<Rightarrow> go_error option \<times> database" where
  "storeMessage e msg d =
     (let i = generateID ''msg'' (clock e ''storeMessage.id'') in
      if sql_fails e ''storeMessage'' then (Some ErrSQL, d)
      else (case insert_message (message_row_of i (clock e ''storeMessage.created'') msg) d of
              Inl err \<Rightarrow> (Some err, d)
            | Inr d1 \<Rightarrow> (None, link_attachments (\<lambda>a. sql_fails e (''storeMessage.link.'' @ a)) i (AttachmentIDs msg) d1)))"

text \<open>\<open>storeMessagesBatch\<close>: the loop inside the transaction, message by message; the clock of \<open>generateID\<close>
  and the errors of the inserts are per index, the errors of the attachment updates (ignored by the
  code) per index and attachment.\<close>

fun batch_loop ::
  "(nat \<Rightarrow> int) \<Rightarrow> (nat \<Rightarrow> bool) \<Rightarrow> (nat \<Rightarrow> string \<Rightarrow> bool) \<Rightarrow> int \<Rightarrow> nat \<Rightarrow> RoutedMessage list \<Rightarrow> database \<Rightarrow>
   go_error + (string list \<times> database)" where
  "batch_loop ids fails links_fail now n [] d = Inr ([], d)"
| "batch_loop ids fails links_fail now n (msg # msgs) d =
     (let i = generateID ''msg'' (ids n) in
      if fails n then Inl ErrSQL
      else (case insert_message (message_row_of i now msg) d of
              Inl err \<Rightarrow> Inl err
            | Inr d1 \<Rightarrow>
                (case batch_loop ids fails links_fail now (Suc n) msgs
                        (link_attachments (links_fail n) i (AttachmentIDs msg) d1) of
                   Inl err \<Rightarrow> Inl err
                 | Inr (is, d2) \<Rightarrow> Inr (i # is, d2))))"

definition storeMessagesBatch ::
  "env \<Rightarrow> (nat \<Rightarrow> int) \<Rightarrow> (nat \<Rightarrow> bool) \<Rightarrow> (nat \<Rightarrow> string \<Rightarrow> bool) \<Rightarrow> RoutedMessage list \<Rightarrow> database \<Rightarrow>
   (go_error + string list) \<times> database" where
  "storeMessagesBatch e ids fails links_fail msgs d =
     (if msgs = [] then (Inr [], d)
      else if sql_fails e ''batch.begin'' \<or> sql_fails e ''batch.prepare'' then (Inl ErrSQL, d)
      else (case batch_loop ids fails links_fail (clock e ''batch.now'') 0 msgs d of
              Inl err \<Rightarrow> (Inl err, d)
            | Inr (is, d1) \<Rightarrow> if sql_fails e ''batch.commit'' then (Inl ErrSQL, d) else (Inr is, d1)))"

definition deleteConversation :: "env \<Rightarrow> string \<Rightarrow> string \<Rightarrow> database \<Rightarrow> go_error option \<times> database" where
  "deleteConversation e convID userID d =
     (case getConversation e convID d of
        Inl err \<Rightarrow> (Some err, d)
      | Inr None \<Rightarrow> (Some ErrNoRows, d)
      | Inr (Some conv) \<Rightarrow>
          if conv_UserID conv \<noteq> userID then (Some (ErrText ''unauthorized''), d)
          else if sql_fails e ''deleteConversation.messages'' then (Some ErrSQL, d)
          else (case delete_messages_of convID d of
                  Inl err \<Rightarrow> (Some err, d)
                | Inr d1 \<Rightarrow>
                    if sql_fails e ''deleteConversation.conversation'' then (Some ErrSQL, d1)
                    else (case delete_conversation_row convID d1 of
                            Inl err \<Rightarrow> (Some err, d1)
                          | Inr d2 \<Rightarrow> (None, d2))))"

text \<open>bcrypt and \<open>HashAPIKey\<close> are parameters: \<open>verify hash password\<close>, and \<open>hash password\<close> which may fail.\<close>

definition changeUserPassword ::
  "(string \<Rightarrow> string \<Rightarrow> bool) \<Rightarrow> (string \<Rightarrow> string option) \<Rightarrow> env \<Rightarrow> string \<Rightarrow> string \<Rightarrow> string \<Rightarrow> database \<Rightarrow>
   go_error option \<times> database" where
  "changeUserPassword verify hash e userID oldPassword newPassword d =
     (if sql_fails e ''changeUserPassword.select'' then (Some ErrSQL, d)
      else (case find (\<lambda>u. u_id u = userID) (t_users d) of
              None \<Rightarrow> (Some ErrNoRows, d)
            | Some u \<Rightarrow>
                if \<not> verify (u_password_hash u) oldPassword then (Some (ErrText ''invalid old password''), d)
                else if length newPassword < 6 then (Some (ErrText ''new password must be at least 6 characters''), d)
                else (case hash newPassword of
                        None \<Rightarrow> (Some (ErrText ''bcrypt''), d)
                      | Some h \<Rightarrow>
                          if sql_fails e ''changeUserPassword.update'' then (Some ErrSQL, d)
                          else (None, d\<lparr>t_users := map (\<lambda>u. if u_id u = userID then u\<lparr>u_password_hash := h\<rparr> else u)
                                                    (t_users d)\<rparr>))))"

text \<open>SQL \<open>LIKE\<close>: \<open>%\<close> matches any sequence, \<open>_\<close> any character, letters match case-insensitively (ASCII).\<close>

fun sql_like :: "string \<Rightarrow> string \<Rightarrow> bool" where
  "sql_like [] s \<longleftrightarrow> s = []"
| "sql_like (p # ps) [] \<longleftrightarrow> p = CHR ''%'' \<and> sql_like ps []"
| "sql_like (p # ps) (c # cs) \<longleftrightarrow>
     (if p = CHR ''%'' then sql_like ps (c # cs) \<or> sql_like (p # ps) cs
      else (p = CHR ''_'' \<or> ascii_lower p = ascii_lower c) \<and> sql_like ps cs)"

definition searchMessages :: "env \<Rightarrow> string \<Rightarrow> string \<Rightarrow> int \<Rightarrow> database \<Rightarrow> go_error + message_row list" where
  "searchMessages e userID query limit0 d =
     (let limit = (if limit0 \<le> 0 then 50 else limit0) in
      if query = [] then Inl (ErrText ''empty search query'')
      else if sql_fails e ''searchMessages'' then Inl ErrSQL
      else Inr (take (nat limit) (order_desc m_created_at
             (filter (\<lambda>m. (\<exists>c \<in> set (t_conversations d). conv_ID c = m_conversation m \<and> conv_UserID c = userID) \<and>
                          sql_like (''%'' @ query @ ''%'') (m_content m)) (t_messages d)))))"

text \<open>\<open>WHERE conversation_id = ? AND sender_type = 'agent' AND read_at IS NULL\<close>\<close>

definition unread_from_agent :: "string \<Rightarrow> message_row \<Rightarrow> bool" where
  "unread_from_agent convID m \<longleftrightarrow>
     m_conversation m = convID \<and> m_sender_type m = ''agent'' \<and> m_read_at m = None"

definition set_read_at :: "int \<Rightarrow> message_row \<Rightarrow> message_row" where
  "set_read_at now m = m\<lparr>m_read_at := Some now\<rparr>"

definition markMessagesRead :: "env \<Rightarrow> string \<Rightarrow> string \<Rightarrow> database \<Rightarrow> (go_error + nat) \<times> database" where
  "markMessagesRead e convID userID d =
     (case getConversation e convID d of
        Inl err \<Rightarrow> (Inl err, d)
      | Inr None \<Rightarrow> (Inl ErrNoRows, d)
      | Inr (Some conv) \<Rightarrow>
          if conv_UserID conv \<noteq> userID then (Inl (ErrText ''unauthorized''), d)
          else if sql_fails e ''markMessagesRead'' then (Inl ErrSQL, d)
          else (Inr (length (filter (unread_from_agent convID) (t_messages d))),
                update_messages (unread_from_agent convID) (set_read_at (clock e ''markMessagesRead'')) d))"

text \<open>\<open>created_at\<close> of a conversation is the database's \<open>CURRENT_TIMESTAMP\<close>, in whole seconds; the returned
  struct leaves it zero.\<close>

definition CreateConversation :: "env \<Rightarrow> string \<Rightarrow> string \<Rightarrow> database \<Rightarrow> (go_error + Conversation) \<times> database" where
  "CreateConversation e userID agentID d =
     (let i = ''conv_'' @ decimal (clock e ''CreateConversation.id'');
          row = \<lparr>conv_ID = i, conv_UserID = userID, conv_AgentID = agentID,
                 conv_CreatedAt = clock e ''CreateConversation.created'' div second * second\<rparr>
      in if sql_fails e ''CreateConversation'' then (Inl ErrSQL, d)
         else (case insert_conversation row d of
                 Inl err \<Rightarrow> (Inl err, d)
               | Inr d1 \<Rightarrow> (Inr (row\<lparr>conv_CreatedAt := zero_time\<rparr>), d1)))"

definition GetOrCreateConversation :: "env \<Rightarrow> string \<Rightarrow> string \<Rightarrow> database \<Rightarrow> (go_error + Conversation) \<times> database" where
  "GetOrCreateConversation e userID agentID d =
     (if sql_fails e ''GetOrCreateConversation'' then (Inl ErrSQL, d)
      else (case order_desc conv_CreatedAt
                   (filter (\<lambda>c. conv_UserID c = userID \<and> conv_AgentID c = agentID) (t_conversations d)) of
              [] \<Rightarrow> CreateConversation e userID agentID d
            | conv # _ \<Rightarrow> (Inr conv, d)))"

subsection \<open>Storing messages\<close>

lemma link_attachments_frame [simp]:
  "t_messages (link_attachments f m as d) = t_messages d"
  "t_conversations (link_attachments f m as d) = t_conversations d"
  "t_users (link_attachments f m as d) = t_users d" "t_agents (link_attachments f m as d) = t_agents d"
  "t_queue (link_attachments f m as d) = t_queue d" "t_reactions (link_attachments f m as d) = t_reactions d"
  "t_prefs (link_attachments f m as d) = t_prefs d" "t_devices (link_attachments f m as d) = t_devices d"
  by (induction f m as d rule: link_attachments.induct) (simp_all add: link_attachment_def)

lemma message_exists_link [simp]: "message_exists (link_attachment m a d) i = message_exists d i"
  by (simp add: message_exists_def link_attachment_def)

lemma link_attachments_ok: "db_ok d \<Longrightarrow> message_exists d m \<Longrightarrow> db_ok (link_attachments f m as d)"
  by (induction f m as d rule: link_attachments.induct) (simp_all add: link_attachment_ok)

lemma storeMessage_cases:
  obtains (failed) err where "storeMessage e msg d = (Some err, d)"
  | (stored) d' where "storeMessage e msg d = (None, d')" "conversation_exists d (ConversationID msg)"
      "t_messages d' = t_messages d @
         [message_row_of (generateID ''msg'' (clock e ''storeMessage.id'')) (clock e ''storeMessage.created'') msg]"
      "t_conversations d' = t_conversations d" "t_queue d' = t_queue d" "db_ok d \<Longrightarrow> db_ok d'"
proof (cases "sql_fails e ''storeMessage''")
  case True
  then show ?thesis by (intro failed) (simp add: storeMessage_def)
next
  case False
  let ?i = "generateID ''msg'' (clock e ''storeMessage.id'')"
  let ?m = "message_row_of ?i (clock e ''storeMessage.created'') msg"
  show ?thesis
  proof (cases "insert_message ?m d")
    case (Inl err)
    then show ?thesis using False by (intro failed) (simp add: storeMessage_def Let_def)
  next
    case (Inr d1)
    let ?d' = "link_attachments (\<lambda>a. sql_fails e (''storeMessage.link.'' @ a)) ?i (AttachmentIDs msg) d1"
    have d1: "d1 = d\<lparr>t_messages := t_messages d @ [?m]\<rparr>" and c: "conversation_exists d (ConversationID msg)"
      using Inr by (auto simp: insert_message_def message_row_of_def split: if_splits)
    have "db_ok d \<Longrightarrow> db_ok ?d'"
      using insert_message_ok [OF Inr]
      by (intro link_attachments_ok) (auto simp: d1 message_exists_def message_row_of_def)
    moreover have "storeMessage e msg d = (None, ?d')" using False Inr by (simp add: storeMessage_def Let_def)
    ultimately show ?thesis using c d1 by (intro stored [of ?d']) simp_all
  qed
qed

text \<open>C19: \<open>storeMessagesBatch\<close> is all or nothing. Either it fails and the database is exactly as before,
  or every message is stored, in order, with the returned ids, which are new and distinct.\<close>

theorem batch_atomic:
  assumes "storeMessagesBatch e ids fails links_fail msgs d = (res, d')" and "db_ok d"
  shows "(case res of
      Inl err \<Rightarrow> d' = d
    | Inr is \<Rightarrow> length is = length msgs \<and> distinct is \<and> set is \<inter> m_id ` set (t_messages d) = {} \<and>
        t_messages d' = t_messages d @ map (\<lambda>(i, msg). message_row_of i (clock e ''batch.now'') msg) (zip is msgs)) \<and>
    db_ok d'"
proof -
  have loop: "length is = length ms \<and> distinct is \<and> set is \<inter> m_id ` set (t_messages d) = {} \<and>
      t_messages d' = t_messages d @ map (\<lambda>(i, msg). message_row_of i now msg) (zip is ms) \<and> db_ok d'"
    if "batch_loop ids fails links_fail now n ms d = Inr (is, d')" "db_ok d" for now n ms d "is" d'
    using that
  proof (induction ids fails links_fail now n ms d arbitrary: "is" d' rule: batch_loop.induct)
    case (2 ids fails links_fail now n msg msgs d)
    let ?i = "generateID ''msg'' (ids n)"
    from "2.prems"(1) obtain d1 js d2 where ok: "\<not> fails n"
      and ins: "insert_message (message_row_of ?i now msg) d = Inr d1"
      and rest: "batch_loop ids fails links_fail now (Suc n) msgs (link_attachments (links_fail n) ?i (AttachmentIDs msg) d1) = Inr (js, d2)"
      and res: "is = ?i # js" "d' = d2"
      by (auto simp: Let_def split: if_splits sum.splits)
    let ?d1 = "link_attachments (links_fail n) ?i (AttachmentIDs msg) d1"
    have new: "?i \<notin> m_id ` set (t_messages d)" and d1: "t_messages d1 = t_messages d @ [message_row_of ?i now msg]"
      using ins by (auto simp: insert_message_def message_exists_def message_row_of_def split: if_splits)
    have "db_ok ?d1"
      using insert_message_ok [OF ins "2.prems"(2)] d1
      by (intro link_attachments_ok) (simp_all add: message_exists_def message_row_of_def)
    from "2.IH" [OF refl ok ins rest this] new d1 res show ?case
      by (auto simp: message_row_of_def)
  qed simp
  show ?thesis
  proof (cases res)
    case (Inl err)
    then show ?thesis
      using assms by (auto simp: storeMessagesBatch_def split: if_splits sum.splits)
  next
    case (Inr js)
    then have "msgs = [] \<and> js = [] \<and> d' = d \<or> batch_loop ids fails links_fail (clock e ''batch.now'') 0 msgs d = Inr (js, d')"
      using assms by (auto simp: storeMessagesBatch_def split: if_splits sum.splits)
    then show ?thesis using loop [OF _ assms(2), of "clock e ''batch.now''" 0 msgs js d'] assms(2) Inr by auto
  qed
qed

subsection \<open>Deleting a conversation\<close>

lemma getConversation_found:
  "getConversation e i d = Inr (Some c) \<Longrightarrow> c \<in> set (t_conversations d) \<and> conv_ID c = i"
  by (auto simp: getConversation_def dest: find_key_SomeD split: if_splits)

text \<open>C20: only the owner deletes a conversation, and a successful deletion removes the conversation, its
  messages with exactly their reactions, its tags and its notification preferences, and nothing else:
  every other row of these tables and every other table is as before; the constraints still hold.\<close>

theorem deleteConversation_correct:
  assumes "deleteConversation e convID userID d = (None, d')" and "db_ok d"
  shows "(\<exists>c \<in> set (t_conversations d). conv_ID c = convID \<and> conv_UserID c = userID) \<and>
    d' = d\<lparr>t_conversations := filter (\<lambda>c. conv_ID c \<noteq> convID) (t_conversations d),
           t_messages := filter (\<lambda>m. m_conversation m \<noteq> convID) (t_messages d),
           t_reactions := filter (\<lambda>r. \<not> (\<exists>m \<in> set (t_messages d). m_conversation m = convID \<and> m_id m = re_message r))
                            (t_reactions d),
           t_tags := filter (\<lambda>t. tg_conversation t \<noteq> convID) (t_tags d),
           t_prefs := filter (\<lambda>p. np_conversation p \<noteq> convID) (t_prefs d)\<rparr> \<and>
    db_ok d'"
proof -
  from assms(1) obtain c d1 where c: "getConversation e convID d = Inr (Some c)" "conv_UserID c = userID"
    and d1: "delete_messages_of convID d = Inr d1" and d2: "delete_conversation_row convID d1 = Inr d'"
    by (auto simp: deleteConversation_def split: sum.splits option.splits if_splits)
  have "db_ok d'" using delete_messages_of_ok [OF d1 assms(2)] delete_conversation_row_ok [OF d2] by blast
  then show ?thesis
    using getConversation_found [OF c(1)] c(2)
    by (auto simp: delete_messages_of_Inr(1) [OF d1] delete_conversation_row_Inr(1) [OF d2])
qed

text \<open>C40: a conversation with encrypted messages cannot be deleted, but its plain messages are: unless an
  attachment is linked to one of them (then the first DELETE is already refused) or the database reports
  another error, the deletion of the messages and their reactions is committed before the deletion of the
  conversation is refused by the foreign key of \<open>encrypted_messages\<close>, and the caller is told that the
  operation failed.\<close>

theorem deleteConversation_loses_messages:
  assumes "\<And>s. \<not> sql_fails e s" and "db_ok d" and "c \<in> set (t_conversations d)" and "conv_UserID c = userID"
    and "\<exists>x \<in> set (t_encrypted d). em_conversation x = conv_ID c"
    and "\<forall>a \<in> set (t_attachments d). \<forall>m \<in> set (t_messages d). m_conversation m = conv_ID c \<longrightarrow> at_message a \<noteq> Some (m_id m)"
  shows "\<exists>d'. deleteConversation e (conv_ID c) userID d = (Some ErrForeignKey, d') \<and>
    d' = d\<lparr>t_messages := filter (\<lambda>m. m_conversation m \<noteq> conv_ID c) (t_messages d),
           t_reactions := filter (\<lambda>r. \<not> (\<exists>m \<in> set (t_messages d). m_conversation m = conv_ID c \<and> m_id m = re_message r))
                            (t_reactions d)\<rparr>"
proof -
  have "find (\<lambda>x. conv_ID x = conv_ID c) (t_conversations d) = Some c"
    using assms(2,3) by (intro find_key) (simp_all add: db_ok_def)
  then have conv: "getConversation e (conv_ID c) d = Inr (Some c)"
    using assms(1) by (simp add: getConversation_def)
  obtain d1 where d1: "delete_messages_of (conv_ID c) d = Inr d1"
    using assms(6) by (fastforce simp: delete_messages_of_def)
  note e1 = delete_messages_of_Inr(1) [OF d1]
  have "conversation_exists d1 (conv_ID c)" using assms(3) by (simp add: e1 conversation_exists_def)
  then have "delete_conversation_row (conv_ID c) d1 = Inl ErrForeignKey"
    using assms(5) by (simp add: delete_conversation_row_def e1)
  with conv d1 assms(1,4) show ?thesis by (simp add: deleteConversation_def e1)
qed

subsection \<open>Reading a page of messages\<close>

definition getMessageReactions :: "env \<Rightarrow> string \<Rightarrow> database \<Rightarrow> go_error + reaction_row list" where
  "getMessageReactions e messageID d =
     (if sql_fails e (''getMessageReactions.'' @ messageID) then Inl ErrSQL
      else Inr (order_asc re_created_at (filter (\<lambda>r. re_message r = messageID) (t_reactions d))))"

text \<open>The loop \<open>for i, j := 0, len-1; i < j; i, j = i+1, j-1\<close> that reverses a page in place.\<close>

function swap_loop :: "'a list \<Rightarrow> nat \<Rightarrow> nat \<Rightarrow> 'a list" where
  "swap_loop xs i j = (if i < j then swap_loop (xs[i := xs ! j, j := xs ! i]) (Suc i) (j - 1) else xs)"
  by auto
termination by (relation "measure (\<lambda>(_, i, j). j - i)") auto

declare swap_loop.simps [simp del]

text \<open>The text comparison \<open>created_at < before\<close> is done by the database on its own rendering of
  timestamps and is the parameter \<open>older\<close>.\<close>

definition page_rows :: "(string \<Rightarrow> int \<Rightarrow> bool) \<Rightarrow> string \<Rightarrow> int \<Rightarrow> string \<Rightarrow> database \<Rightarrow> message_row list" where
  "page_rows older convID limit before d =
     (if before \<noteq> [] then
        take (nat limit) (order_desc m_created_at
          (filter (\<lambda>m. m_conversation m = convID \<and> older before (m_created_at m)) (t_messages d)))
      else
        take (nat limit) (order_asc m_created_at (filter (\<lambda>m. m_conversation m = convID) (t_messages d))))"

definition with_reactions :: "env \<Rightarrow> database \<Rightarrow> message_row \<Rightarrow> message_row \<times> reaction_row list" where
  "with_reactions e d m =
     (m, case getMessageReactions e (m_id m) d of Inl _ \<Rightarrow> [] | Inr rs \<Rightarrow> rs)"

text \<open>The connection pool of \<open>database/sql\<close>: a query takes a connection and keeps it until its rows are
  closed; when \<open>max_open\<close> connections are in use it waits until one is returned. As for \<open>SetMaxOpenConns\<close>,
  \<open>max_open = 0\<close> is no limit.\<close>

definition pool_get :: "nat \<Rightarrow> nat \<Rightarrow> nat option" where
  "pool_get max_open in_use = (if max_open = 0 \<or> in_use < max_open then Some (Suc in_use) else None)"

lemma pool_get_first: "pool_get max_open 0 = Some 1"
  by (auto simp: pool_get_def)

text \<open>The loop over the rows. The rows of the page hold a connection all the while; each call of
  \<open>getMessageReactions\<close> takes another and returns it. A call that finds no free connection waits, and
  since a request that is alone is the only one that could return one, it waits for ever: the result \<open>None\<close>.
  A row that cannot be scanned ends the loop with the error; an error of \<open>rows.Next\<close> ends it early and is
  reported by \<open>rows.Err\<close> with the messages read so far, which the caller drops.\<close>

fun page_loop :: "nat \<Rightarrow> nat \<Rightarrow> env \<Rightarrow> database \<Rightarrow> message_row list \<Rightarrow> (go_error + (message_row \<times> reaction_row list) list) option" where
  "page_loop max_open in_use e d [] =
     (if sql_fails e ''getConversationMessages.end'' then Some (Inl ErrSQL) else Some (Inr []))"
| "page_loop max_open in_use e d (m # ms) =
     (if sql_fails e (''getConversationMessages.next.'' @ m_id m) then Some (Inl ErrSQL)
      else if sql_fails e (''getConversationMessages.scan.'' @ m_id m) then Some (Inl ErrSQL)
      else (case pool_get max_open in_use of
              None \<Rightarrow> None
            | Some _ \<Rightarrow>
                (case page_loop max_open in_use e d ms of
                   None \<Rightarrow> None
                 | Some (Inl err) \<Rightarrow> Some (Inl err)
                 | Some (Inr page) \<Rightarrow> Some (Inr (with_reactions e d m # page)))))"

definition default_limit :: "int \<Rightarrow> int" where
  "default_limit limit = (if limit \<le> 0 then 50 else limit)"

definition getConversationMessages ::
  "(string \<Rightarrow> int \<Rightarrow> bool) \<Rightarrow> nat \<Rightarrow> env \<Rightarrow> string \<Rightarrow> int \<Rightarrow> string \<Rightarrow> database \<Rightarrow>
   (go_error + (message_row \<times> reaction_row list) list) option" where
  "getConversationMessages older max_open e convID limit before d =
     (case pool_get max_open 0 of
        None \<Rightarrow> None
      | Some in_use \<Rightarrow>
          if sql_fails e ''getConversationMessages'' then Some (Inl ErrSQL)
          else (case page_loop max_open in_use e d (page_rows older convID (default_limit limit) before d) of
                  None \<Rightarrow> None
                | Some (Inl err) \<Rightarrow> Some (Inl err)
                | Some (Inr messages) \<Rightarrow>
                    Some (Inr (if before \<noteq> [] \<and> messages \<noteq> [] then swap_loop messages 0 (length messages - 1)
                               else messages))))"

lemma page_loop_page: "page_loop max_open k e d ms = Some (Inr page) \<Longrightarrow> page = map (with_reactions e d) ms"
  by (induction ms arbitrary: page) (auto split: if_splits option.splits sum.splits)

lemma length_swap_loop [simp]: "length (swap_loop xs i j) = length xs"
  by (induction xs i j rule: swap_loop.induct) (subst swap_loop.simps, simp)

lemma swap_loop_nth:
  "i + j + 1 = length xs \<Longrightarrow> k < length xs \<Longrightarrow>
   swap_loop xs i j ! k = (if i \<le> k \<and> k \<le> j then xs ! (i + j - k) else xs ! k)"
proof (induction xs i j rule: swap_loop.induct)
  case (1 xs i j)
  show ?case
  proof (cases "i < j")
    case True
    let ?ys = "xs[i := xs ! j, j := xs ! i]"
    have "swap_loop xs i j ! k = swap_loop ?ys (Suc i) (j - 1) ! k" using True by (subst swap_loop.simps) simp
    also have "\<dots> = (if Suc i \<le> k \<and> k \<le> j - 1 then ?ys ! (Suc i + (j - 1) - k) else ?ys ! k)"
      using True "1.prems" by (intro "1.IH") simp_all
    also have "\<dots> = (if i \<le> k \<and> k \<le> j then xs ! (i + j - k) else xs ! k)"
      using True "1.prems" by (auto simp: nth_list_update)
    finally show ?thesis .
  next
    case False
    then have "swap_loop xs i j = xs" by (subst swap_loop.simps) simp
    moreover have "k = i + j - k" if "i \<le> k" "k \<le> j" using that False by simp
    ultimately show ?thesis by auto
  qed
qed

lemma swap_loop_rev: "xs \<noteq> [] \<Longrightarrow> swap_loop xs 0 (length xs - 1) = rev xs"
proof (rule nth_equalityI)
  fix k assume "xs \<noteq> []" and "k < length (swap_loop xs 0 (length xs - 1))"
  then have "k < length xs" "k \<le> length xs - 1" by simp_all
  then show "swap_loop xs 0 (length xs - 1) ! k = rev xs ! k" by (simp add: swap_loop_nth rev_nth)
qed simp

lemma sorted_take_sort: "sorted (map k (take n (sort_key k xs)))"
  by (metis sorted_wrt_take sorted_sort_key take_map)

lemma rev_desc_sorted: "sorted (map m_created_at (rev (take n (order_desc m_created_at xs))))"
proof -
  have "sorted (map (\<lambda>x. - m_created_at x) (take n (order_desc m_created_at xs)))"
    unfolding order_desc_def by (rule sorted_take_sort)
  then show ?thesis by (simp add: rev_map [symmetric] sorted_wrt_rev sorted_wrt_map)
qed

lemma dropped_not_newer:
  assumes "x \<in> set xs" and "x \<notin> set (take n (order_desc m_created_at xs))"
    and "y \<in> set (take n (order_desc m_created_at xs))"
  shows "m_created_at x \<le> m_created_at y"
proof -
  let ?s = "order_desc m_created_at xs"
  have "x \<in> set (drop n ?s)"
    using assms(1,2) by (metis Un_iff append_take_drop_id order_desc_def set_append set_sort)
  moreover have "sorted (map (\<lambda>m. - m_created_at m) (take n ?s @ drop n ?s))"
    unfolding order_desc_def by simp
  then have "\<forall>a \<in> set (take n ?s). \<forall>b \<in> set (drop n ?s). - m_created_at a \<le> - m_created_at b"
    unfolding map_append sorted_append by simp
  ultimately show ?thesis using assms(3) by fastforce
qed

text \<open>C21: a page read with a cursor is in chronological order, holds at most \<open>limit\<close> messages, all of
  that conversation and older than the cursor, and is the newest such page: every older message of
  the conversation that is not on it was created no later than every message on it.\<close>

theorem page_before_cursor:
  assumes "getConversationMessages older max_open e convID limit before d = Some (Inr page)"
    and "before \<noteq> []" and "0 < limit"
  shows "sorted (map (m_created_at \<circ> fst) page) \<and> length page \<le> nat limit \<and>
    (\<forall>m \<in> set (map fst page). m \<in> set (t_messages d) \<and> m_conversation m = convID \<and> older before (m_created_at m)) \<and>
    (\<forall>m \<in> set (t_messages d). m_conversation m = convID \<and> older before (m_created_at m) \<and> m \<notin> set (map fst page) \<longrightarrow>
       (\<forall>p \<in> set (map fst page). m_created_at m \<le> m_created_at p))"
proof -
  let ?older = "filter (\<lambda>m. m_conversation m = convID \<and> older before (m_created_at m)) (t_messages d)"
  let ?rows = "take (nat limit) (order_desc m_created_at ?older)"
  have rows: "page_rows older convID (default_limit limit) before d = ?rows"
    using assms(2,3) by (simp add: page_rows_def default_limit_def)
  obtain messages k where "page_loop max_open k e d ?rows = Some (Inr messages)"
    "page = (if messages \<noteq> [] then swap_loop messages 0 (length messages - 1) else messages)"
    using assms(1,2) by (auto simp: getConversationMessages_def rows split: option.splits if_splits sum.splits)
  then have "page = rev (map (with_reactions e d) ?rows)"
    using swap_loop_rev [of messages] by (auto dest!: page_loop_page)
  then have fst_page: "map fst page = rev ?rows"
    by (simp add: rev_map [symmetric] with_reactions_def comp_def)
  then have "sorted (map (m_created_at \<circ> fst) page)"
    using rev_desc_sorted [of "nat limit" ?older] by (metis map_map)
  moreover have "length page \<le> nat limit" using arg_cong [OF fst_page, of length] by simp
  moreover have "\<forall>m \<in> set (map fst page). m \<in> set ?older"
    unfolding fst_page by (auto simp: order_desc_def dest: in_set_takeD)
  moreover have "\<forall>m \<in> set ?older. m \<notin> set (map fst page) \<longrightarrow> (\<forall>p \<in> set (map fst page). m_created_at m \<le> m_created_at p)"
    unfolding fst_page using dropped_not_newer by (metis set_rev)
  ultimately show ?thesis by simp
qed

text \<open>A request that is alone waits for ever exactly when the pool has a single connection and its first row
  can be read: with SQLite, which is opened that way, for every conversation that is not empty.\<close>

lemma page_loop_alone: "max_open \<noteq> 1 \<Longrightarrow> page_loop max_open 1 e d ms \<noteq> None"
  by (induction ms) (auto simp: pool_get_def split: option.splits sum.splits)

lemma page_loop_waits:
  assumes "\<And>s. \<not> sql_fails e s"
  shows "page_loop max_open 1 e d ms = None \<longleftrightarrow> max_open = 1 \<and> ms \<noteq> []"
proof (cases "max_open = 1")
  case True
  then show ?thesis by (cases ms) (simp_all add: assms pool_get_def)
qed (use page_loop_alone in blast)

lemma page_waits_alone:
  assumes "\<And>s. \<not> sql_fails e s"
  shows "getConversationMessages older max_open e convID limit before d = None \<longleftrightarrow>
    max_open = 1 \<and> page_rows older convID (default_limit limit) before d \<noteq> []"
proof -
  let ?rows = "page_rows older convID (default_limit limit) before d"
  have "getConversationMessages older max_open e convID limit before d = None \<longleftrightarrow> page_loop max_open 1 e d ?rows = None"
    by (simp add: getConversationMessages_def pool_get_first assms split: option.split sum.split)
  with page_loop_waits [OF assms] show ?thesis by simp
qed

subsection \<open>Read marks\<close>

lemma markMessagesRead_Inr:
  assumes "markMessagesRead e convID userID d = (Inr n, d')"
  shows "n = length (filter (unread_from_agent convID) (t_messages d))"
    and "d' = update_messages (unread_from_agent convID) (set_read_at (clock e ''markMessagesRead'')) d"
  using assms by (auto simp: markMessagesRead_def split: sum.splits option.splits if_splits)

text \<open>marking a conversation read is idempotent: a second call by the owner reports 0 messages and
  changes nothing; and it only ever touches unread agent messages of that conversation.\<close>

theorem markMessagesRead_idempotent:
  assumes "markMessagesRead e convID userID d = (Inr n, d1)"
    and "markMessagesRead e' convID userID d1 = (Inr n', d2)"
  shows "n' = 0 \<and> d2 = d1 \<and> n = length (filter (unread_from_agent convID) (t_messages d)) \<and>
    length (t_messages d1) = length (t_messages d) \<and>
    (\<forall>i < length (t_messages d). t_messages d1 ! i \<noteq> t_messages d ! i \<longrightarrow>
       unread_from_agent convID (t_messages d ! i))"
proof -
  let ?P = "unread_from_agent convID"
  note d1 = markMessagesRead_Inr [OF assms(1)] and d2 = markMessagesRead_Inr [OF assms(2)]
  have none: "\<not> ?P m" if "m \<in> set (t_messages d1)" for m
  proof -
    let ?f = "\<lambda>m. if ?P m then set_read_at (clock e ''markMessagesRead'') m else m"
    have "t_messages d1 = map ?f (t_messages d)" unfolding d1(2) update_messages_def by simp
    with that have "m \<in> ?f ` set (t_messages d)" by (simp only: set_map)
    then obtain m0 where "m = ?f m0" by (rule imageE)
    moreover have "\<not> ?P (set_read_at t m0)" for t by (simp add: unread_from_agent_def set_read_at_def)
    ultimately show ?thesis by (cases "?P m0") simp_all
  qed
  then have "map (\<lambda>m. if ?P m then set_read_at (clock e' ''markMessagesRead'') m else m) (t_messages d1) = t_messages d1"
    by (intro map_idI) simp
  then have "d2 = d1" unfolding d2(2) update_messages_def by simp
  moreover have "n' = 0" using none by (simp add: d2(1) filter_empty_conv)
  moreover have "\<forall>i < length (t_messages d). t_messages d1 ! i \<noteq> t_messages d ! i \<longrightarrow> ?P (t_messages d ! i)"
    unfolding d1(2) update_messages_def by simp
  moreover have "length (t_messages d1) = length (t_messages d)" unfolding d1(2) update_messages_def by simp
  ultimately show ?thesis using d1(1) by blast
qed

subsection \<open>Finding or creating a conversation\<close>

lemma CreateConversation_Inr:
  assumes "CreateConversation e userID agentID d = (Inr c, d1)"
  obtains row where "c = row\<lparr>conv_CreatedAt := zero_time\<rparr>" "conv_UserID row = userID \<and> conv_AgentID row = agentID"
    "d1 = d\<lparr>t_conversations := t_conversations d @ [row]\<rparr>"
proof -
  define row where "row = \<lparr>conv_ID = ''conv_'' @ decimal (clock e ''CreateConversation.id''), conv_UserID = userID,
    conv_AgentID = agentID, conv_CreatedAt = clock e ''CreateConversation.created'' div second * second\<rparr>"
  have "c = row\<lparr>conv_CreatedAt := zero_time\<rparr> \<and> d1 = d\<lparr>t_conversations := t_conversations d @ [row]\<rparr>"
    using assms unfolding row_def
    by (simp add: CreateConversation_def insert_conversation_def Let_def split: if_splits)
  then show ?thesis using that [of row] by (simp add: row_def)
qed

text \<open>after a successful \<open>GetOrCreateConversation\<close> a second call for the same pair returns the same
  conversation and adds no row; the conversation returned is one between that user and that agent.\<close>

theorem GetOrCreateConversation_stable:
  assumes "GetOrCreateConversation e userID agentID d = (Inr c, d1)"
    and "\<not> sql_fails e' ''GetOrCreateConversation''"
  shows "conv_UserID c = userID \<and> conv_AgentID c = agentID \<and>
    (\<exists>c'. GetOrCreateConversation e' userID agentID d1 = (Inr c', d1) \<and> conv_ID c' = conv_ID c) \<and>
    (d1 = d \<or> (\<forall>x \<in> set (t_conversations d). conv_UserID x \<noteq> userID \<or> conv_AgentID x \<noteq> agentID))"
proof -
  let ?P = "\<lambda>x. conv_UserID x = userID \<and> conv_AgentID x = agentID"
  let ?s = "order_desc conv_CreatedAt (filter ?P (t_conversations d))"
  have set_s: "set ?s = set (filter ?P (t_conversations d))" by (simp add: order_desc_def)
  have nf: "\<not> sql_fails e ''GetOrCreateConversation''"
    using assms(1) by (auto simp: GetOrCreateConversation_def split: if_splits)
  show ?thesis
  proof (cases ?s)
    case (Cons x xs)
    then have "c = x" "d1 = d" using assms(1) nf by (simp_all add: GetOrCreateConversation_def)
    moreover have "?P x" using set_s Cons by auto
    ultimately show ?thesis using assms(2) Cons by (simp add: GetOrCreateConversation_def)
  next
    case Nil
    then have empty: "filter ?P (t_conversations d) = []" using set_s by simp
    from assms(1) nf Nil have "CreateConversation e userID agentID d = (Inr c, d1)"
      by (simp add: GetOrCreateConversation_def)
    then obtain row where c: "c = row\<lparr>conv_CreatedAt := zero_time\<rparr>" "?P row"
      and d1: "d1 = d\<lparr>t_conversations := t_conversations d @ [row]\<rparr>"
      by (rule CreateConversation_Inr)
    then have "order_desc conv_CreatedAt (filter ?P (t_conversations d1)) = [row]"
      using empty by (simp add: order_desc_def)
    then show ?thesis using c assms(2) empty
      by (auto simp: GetOrCreateConversation_def filter_empty_conv)
  qed
qed

subsection \<open>Passwords\<close>

text \<open>a password change needs the old password and a new one of at least six bytes; it changes the
  hash of that user only, and afterwards the new password verifies, if bcrypt verifies what it
  hashed. A change that fails leaves the database as it was.\<close>

theorem changeUserPassword_correct:
  assumes "changeUserPassword verify hash e userID old new d = (res, d')"
    and "\<And>p h. hash p = Some h \<Longrightarrow> verify h p"
    and "db_ok d"
  shows "case res of
      Some err \<Rightarrow> d' = d
    | None \<Rightarrow> 6 \<le> length new \<and>
        (\<exists>u \<in> set (t_users d). u_id u = userID \<and> verify (u_password_hash u) old) \<and>
        (\<forall>u \<in> set (t_users d'). u_id u = userID \<longrightarrow> verify (u_password_hash u) new) \<and>
        (\<forall>u. u_id u \<noteq> userID \<longrightarrow> (u \<in> set (t_users d') \<longleftrightarrow> u \<in> set (t_users d))) \<and>
        map u_id (t_users d') = map u_id (t_users d)"
proof (cases res)
  case (Some err)
  then show ?thesis
    using assms(1) by (auto simp: changeUserPassword_def split: if_splits option.splits)
next
  case None
  from assms(1) None obtain u h where u: "find (\<lambda>u. u_id u = userID) (t_users d) = Some u"
    "verify (u_password_hash u) old" "6 \<le> length new" "hash new = Some h"
    and d': "d' = d\<lparr>t_users := map (\<lambda>u. if u_id u = userID then u\<lparr>u_password_hash := h\<rparr> else u) (t_users d)\<rparr>"
    by (auto simp: changeUserPassword_def split: if_splits option.splits)
  show ?thesis
    using None find_key_SomeD [OF u(1)] u(2-) assms(2) [OF u(4)] by (auto simp: d')
qed

subsection \<open>Search\<close>

lemma like_percent: "sql_like (CHR ''%'' # p) s \<longleftrightarrow> (\<exists>xs ys. s = xs @ ys \<and> sql_like p ys)"
proof (induction s)
  case Nil
  then show ?case by simp
next
  case (Cons c cs)
  have "(\<exists>xs ys. c # cs = xs @ ys \<and> sql_like p ys) \<longleftrightarrow>
      sql_like p (c # cs) \<or> (\<exists>xs ys. cs = xs @ ys \<and> sql_like p ys)"
    by (auto simp: Cons_eq_append_conv)
  then show ?case using Cons by simp
qed

definition plain_query :: "string \<Rightarrow> bool" where
  "plain_query q \<longleftrightarrow> CHR ''%'' \<notin> set q \<and> CHR ''_'' \<notin> set q"

lemma like_plain_prefix:
  "plain_query q \<Longrightarrow> sql_like (q @ ''%'') s \<longleftrightarrow> prefix (map ascii_lower q) (map ascii_lower s)"
proof (induction q arbitrary: s)
  case Nil
  have "sql_like ''%'' s" by (induction s) simp_all
  then show ?case by simp
next
  case (Cons p q)
  then show ?case by (cases s) (auto simp: plain_query_def)
qed

lemma like_contains:
  assumes "plain_query q"
  shows "sql_like (''%'' @ q @ ''%'') s \<longleftrightarrow> sublist (map ascii_lower q) (map ascii_lower s)"
proof -
  have "sql_like (''%'' @ q @ ''%'') s \<longleftrightarrow>
      (\<exists>xs ys. s = xs @ ys \<and> prefix (map ascii_lower q) (map ascii_lower ys))"
    using like_percent [of "q @ ''%''" s] like_plain_prefix [OF assms] by simp
  also have "\<dots> \<longleftrightarrow> sublist (map ascii_lower q) (map ascii_lower s)"
  proof
    assume "\<exists>xs ys. s = xs @ ys \<and> prefix (map ascii_lower q) (map ascii_lower ys)"
    then obtain xs ys zs where "s = xs @ ys" "map ascii_lower ys = map ascii_lower q @ zs"
      by (auto simp: prefix_def)
    then have "map ascii_lower s = map ascii_lower xs @ map ascii_lower q @ zs" by simp
    then show "sublist (map ascii_lower q) (map ascii_lower s)" unfolding sublist_def by blast
  next
    assume "sublist (map ascii_lower q) (map ascii_lower s)"
    then obtain ps ss where "map ascii_lower s = ps @ map ascii_lower q @ ss" by (auto simp: sublist_def)
    then have "map ascii_lower (drop (length ps) s) = map ascii_lower q @ ss"
      by (simp add: drop_map [symmetric])
    then have "prefix (map ascii_lower q) (map ascii_lower (drop (length ps) s))" by (simp add: prefix_def)
    then show "\<exists>xs ys. s = xs @ ys \<and> prefix (map ascii_lower q) (map ascii_lower ys)"
      by (metis append_take_drop_id)
  qed
  finally show ?thesis .
qed

text \<open>for a query without wildcard characters the search returns messages of the user's own
  conversations only, each containing the query up to ASCII case, newest first and at most \<open>limit\<close>;
  if fewer than \<open>limit\<close> are returned, no matching message is missing.\<close>

theorem searchMessages_correct:
  assumes "searchMessages e userID q limit d = Inr ms" and "plain_query q" and "0 < limit"
  shows "(\<forall>m \<in> set ms. m \<in> set (t_messages d) \<and>
      (\<exists>c \<in> set (t_conversations d). conv_ID c = m_conversation m \<and> conv_UserID c = userID) \<and>
      sublist (map ascii_lower q) (map ascii_lower (m_content m))) \<and>
    sorted (map (\<lambda>m. - m_created_at m) ms) \<and> length ms \<le> nat limit \<and>
    (length ms < nat limit \<longrightarrow> (\<forall>m \<in> set (t_messages d).
       (\<exists>c \<in> set (t_conversations d). conv_ID c = m_conversation m \<and> conv_UserID c = userID) \<and>
       sublist (map ascii_lower q) (map ascii_lower (m_content m)) \<longrightarrow> m \<in> set ms))"
proof -
  let ?hits = "filter (\<lambda>m. (\<exists>c \<in> set (t_conversations d). conv_ID c = m_conversation m \<and> conv_UserID c = userID) \<and>
      sublist (map ascii_lower q) (map ascii_lower (m_content m))) (t_messages d)"
  have ms: "ms = take (nat limit) (order_desc m_created_at ?hits)"
    using assms like_contains [OF assms(2)] by (simp add: searchMessages_def Let_def split: if_splits)
  have "set ms \<subseteq> set ?hits" unfolding ms by (auto simp: order_desc_def dest: in_set_takeD)
  moreover have "sorted (map (\<lambda>m. - m_created_at m) ms)"
    unfolding ms order_desc_def by (rule sorted_take_sort)
  moreover have "length ms \<le> nat limit" by (simp add: ms)
  moreover have "set ?hits \<subseteq> set ms" if "length ms < nat limit"
  proof -
    have "length (order_desc m_created_at ?hits) \<le> nat limit" using that by (simp add: ms)
    then have "ms = order_desc m_created_at ?hits" by (simp add: ms)
    then show ?thesis by (simp add: order_desc_def)
  qed
  ultimately show ?thesis by auto
qed

subsection \<open>Concrete databases\<close>

definition quiet_env :: env where
  "quiet_env = \<lparr>sql_fails = (\<lambda>_. False), clock = (\<lambda>_. 1000)\<rparr>"

text \<open>User \<open>u\<close> and agent \<open>a\<close> with one conversation \<open>c\<close> that holds one message from the agent.\<close>

definition example_message :: message_row where
  "example_message = \<lparr>m_id = ''m1'', m_conversation = ''c'', m_sender_type = ''agent'', m_sender_id = ''a'',
     m_content = ''say hello'', m_metadata = JNull, m_created_at = 5, m_read_at = None, m_edited_at = None,
     m_is_deleted = False\<rparr>"

definition example_db :: database where
  "example_db = empty_db\<lparr>
     t_users := [\<lparr>u_id = ''u'', u_username = ''alice'', u_password_hash = ''secret''\<rparr>],
     t_agents := [\<lparr>a_id = ''a'', a_name = ''a'', a_model = [], a_personality = [], a_specialty = [], a_status = ''offline''\<rparr>],
     t_conversations := [\<lparr>conv_ID = ''c'', conv_UserID = ''u'', conv_AgentID = ''a'', conv_CreatedAt = 0\<rparr>],
     t_messages := [example_message]\<rparr>"

lemma example_db_ok: "db_ok example_db"
  by (simp add: db_ok_def example_db_def example_message_def empty_db_def exists_defs)

lemma example_db_tables [simp]:
  "t_conversations example_db = [\<lparr>conv_ID = ''c'', conv_UserID = ''u'', conv_AgentID = ''a'', conv_CreatedAt = 0\<rparr>]"
  "t_messages example_db = [example_message]" "t_attachments example_db = []" "t_encrypted example_db = []"
  "t_users example_db = [\<lparr>u_id = ''u'', u_username = ''alice'', u_password_hash = ''secret''\<rparr>]"
  by (simp_all add: example_db_def empty_db_def)

lemma quiet_env_simps [simp]: "sql_fails quiet_env s = False" "clock quiet_env s = 1000"
  by (simp_all add: quiet_env_def)

lemma example_conversation:
  "getConversation quiet_env ''c'' example_db =
     Inr (Some \<lparr>conv_ID = ''c'', conv_UserID = ''u'', conv_AgentID = ''a'', conv_CreatedAt = 0\<rparr>)"
  by (simp add: getConversation_def)

definition example_routed :: RoutedMessage where
  "example_routed = \<lparr>rm_type = ''message'', ConversationID = ''c'', Content = ''hi'', AttachmentIDs = [],
     SenderType = ''client'', SenderID = ''u'', RecipientID = ''a'', Timestamp = []\<rparr>"

theorem batch_atomic_witness:
  "\<exists>is. fst (storeMessagesBatch quiet_env (\<lambda>n. int n) (\<lambda>_. False) (\<lambda>_ _. True) [example_routed] example_db) = Inr is \<and>
     length is = 1"
proof -
  let ?b = "storeMessagesBatch quiet_env (\<lambda>n. int n) (\<lambda>_. False) (\<lambda>_ _. True) [example_routed] example_db"
  obtain res d' where b: "?b = (res, d')" by (cases ?b)
  have "\<exists>is. res = Inr is"
    using b by (auto simp: storeMessagesBatch_def insert_message_def message_exists_def conversation_exists_def
        example_routed_def message_row_of_def example_message_def generateID_def Let_def split: if_splits)
  then obtain "is" where "res = Inr is" by blast
  with batch_atomic [OF b example_db_ok] b show ?thesis by simp
qed

theorem deleteConversation_correct_witness:
  "t_messages (snd (deleteConversation quiet_env ''c'' ''u'' example_db)) = []"
proof -
  obtain res d' where b: "deleteConversation quiet_env ''c'' ''u'' example_db = (res, d')"
    by (cases "deleteConversation quiet_env ''c'' ''u'' example_db")
  have "res = None"
    using b by (auto simp: deleteConversation_def example_conversation delete_messages_of_def
        delete_conversation_row_def conversation_exists_def example_message_def split: if_splits)
  with deleteConversation_correct [of quiet_env "''c''" "''u''" example_db d'] b example_db_ok show ?thesis
    by (simp add: example_message_def)
qed

definition example_encrypted :: encrypted_row where
  "example_encrypted = \<lparr>em_id = ''e1'', em_conversation = ''c'', em_sender_id = ''u'', em_sender_type = ''user'',
     em_ciphertext = ''x'', em_iv = ''y'', em_recipient_key_id = [], em_sender_key_id = [],
     em_algorithm = ''aes-256-gcm'', em_created_at = 6\<rparr>"

theorem deleteConversation_loses_messages_witness:
  "\<exists>d'. deleteConversation quiet_env ''c'' ''u'' (example_db\<lparr>t_encrypted := [example_encrypted]\<rparr>) =
      (Some ErrForeignKey, d') \<and> t_messages d' = [] \<and> length (t_conversations d') = 1"
proof -
  let ?d = "example_db\<lparr>t_encrypted := [example_encrypted]\<rparr>"
  let ?c = "\<lparr>conv_ID = ''c'', conv_UserID = ''u'', conv_AgentID = ''a'', conv_CreatedAt = 0\<rparr>"
  have "db_ok ?d" using example_db_ok
    by (simp add: db_ok_def exists_defs example_encrypted_def)
  with deleteConversation_loses_messages [of quiet_env ?d ?c "''u''"] show ?thesis
    by (fastforce simp: example_encrypted_def example_message_def)
qed

theorem page_before_cursor_witness:
  "\<exists>page. getConversationMessages (\<lambda>b t. t < 9) 2 quiet_env ''c'' 10 ''2026'' example_db = Some (Inr page) \<and>
     sorted (map (m_created_at \<circ> fst) page) \<and> length page \<le> 10"
proof -
  obtain page where p: "getConversationMessages (\<lambda>b t. t < 9) 2 quiet_env ''c'' 10 ''2026'' example_db = Some (Inr page)"
    by (simp add: getConversationMessages_def page_rows_def order_desc_def default_limit_def pool_get_def
        example_message_def)
  from page_before_cursor [OF this] p show ?thesis by simp
qed

theorem markMessagesRead_idempotent_witness:
  "\<exists>d1. markMessagesRead quiet_env ''c'' ''u'' example_db = (Inr 1, d1) \<and>
     markMessagesRead quiet_env ''c'' ''u'' d1 = (Inr 0, d1)"
proof -
  let ?d1 = "update_messages (unread_from_agent ''c'') (set_read_at 1000) example_db"
  have 1: "markMessagesRead quiet_env ''c'' ''u'' example_db = (Inr 1, ?d1)"
    by (simp add: markMessagesRead_def example_conversation unread_from_agent_def example_message_def)
  have "getConversation quiet_env ''c'' ?d1 = getConversation quiet_env ''c'' example_db"
    by (simp add: getConversation_def update_messages_def)
  then obtain n d2 where 2: "markMessagesRead quiet_env ''c'' ''u'' ?d1 = (Inr n, d2)"
    by (simp add: markMessagesRead_def example_conversation)
  from markMessagesRead_idempotent [OF 1 2] 1 2 show ?thesis by auto
qed

theorem GetOrCreateConversation_stable_witness:
  "\<exists>c. GetOrCreateConversation quiet_env ''u'' ''a'' example_db = (Inr c, example_db) \<and> conv_ID c = ''c''"
proof -
  let ?c = "\<lparr>conv_ID = ''c'', conv_UserID = ''u'', conv_AgentID = ''a'', conv_CreatedAt = 0\<rparr>"
  have 1: "GetOrCreateConversation quiet_env ''u'' ''a'' example_db = (Inr ?c, example_db)"
    by (simp add: GetOrCreateConversation_def order_desc_def)
  from GetOrCreateConversation_stable [OF this, of quiet_env] show ?thesis by auto
qed

theorem changeUserPassword_correct_witness:
  "\<exists>d'. changeUserPassword (\<lambda>h p. h = p) Some quiet_env ''u'' ''secret'' ''better'' example_db = (None, d') \<and>
     (\<forall>u \<in> set (t_users d'). u_id u = ''u'' \<longrightarrow> u_password_hash u = ''better'')"
proof -
  obtain d' where 1: "changeUserPassword (\<lambda>h p. h = p) Some quiet_env ''u'' ''secret'' ''better'' example_db = (None, d')"
    by (simp add: changeUserPassword_def)
  from changeUserPassword_correct [OF this _ example_db_ok] 1 show ?thesis by simp
qed

theorem searchMessages_correct_witness:
  "searchMessages quiet_env ''u'' ''hello'' 10 example_db = Inr [example_message] \<and>
   sublist (map ascii_lower ''hello'') (map ascii_lower (m_content example_message))"
proof -
  have "sql_like (''%'' @ ''hello'' @ ''%'') (m_content example_message)"
    by (simp add: example_message_def ascii_lower_def)
  then have 1: "searchMessages quiet_env ''u'' ''hello'' 10 example_db = Inr [example_message]"
    by (simp add: searchMessages_def order_desc_def) (simp add: example_message_def)
  have "plain_query ''hello''" by (simp add: plain_query_def)
  from searchMessages_correct [OF 1 this] 1 show ?thesis by simp
qed

end
