(* ===== verification/Reader_Pool.thy ===== *)
theory Reader_Pool
  imports Conversations
begin

section \<open>Concurrent readers on the connection pool\<close>

text \<open>
  \<open>getConversationMessages\<close> of conversations.go keeps the connection of its page while it asks the pool for a
  second one for the reactions of each row (\<open>getMessageReactions\<close> of reactions.go). Here several requests do so
  at the same time, each in the steps of the code at which it takes or returns a connection. A request
  that uses a single connection is the case of an empty page. The theorem says exactly when such
  requests can come to a stop for ever.
\<close>

subsection \<open>The steps of a request\<close>

text \<open>\<open>Waiting n\<close>: before its first query, whose result has \<open>n\<close> rows. \<open>Reading n\<close>: the rows are open, \<open>n\<close> of them are
  left. \<open>Asking n\<close>: in \<open>getMessageReactions\<close>, before its query. \<open>Fetching n\<close>: the rows of the reactions are open
  too.\<close>

datatype reader = Waiting nat | Reading nat | Asking nat | Fetching nat | Finished

primrec held :: "reader \<Rightarrow> nat" where
  "held (Waiting n) = 0"
| "held (Reading n) = 1"
| "held (Asking n) = 1"
| "held (Fetching n) = 2"
| "held Finished = 0"

inductive reader_step :: "nat \<Rightarrow> nat \<Rightarrow> reader \<Rightarrow> reader \<Rightarrow> bool" for max_open in_use where
  page_query: "pool_get max_open in_use = Some k \<Longrightarrow> reader_step max_open in_use (Waiting n) (Reading n)"
| page_query_failed: "pool_get max_open in_use = Some k \<Longrightarrow> reader_step max_open in_use (Waiting n) Finished"
| next_row: "reader_step max_open in_use (Reading (Suc n)) (Asking n)"
| row_failed: "reader_step max_open in_use (Reading (Suc n)) Finished"
| reactions_query: "pool_get max_open in_use = Some k \<Longrightarrow> reader_step max_open in_use (Asking n) (Fetching n)"
| reactions_query_failed: "pool_get max_open in_use = Some k \<Longrightarrow> reader_step max_open in_use (Asking n) (Reading n)"
| reactions_read: "reader_step max_open in_use (Fetching n) (Reading n)"
| page_end: "reader_step max_open in_use (Reading 0) Finished"

inductive_simps reader_step_simps:
  "reader_step m k (Waiting n) r" "reader_step m k (Reading n) r" "reader_step m k (Asking n) r"
  "reader_step m k (Fetching n) r" "reader_step m k Finished r"

definition connections_in_use :: "reader list \<Rightarrow> nat" where
  "connections_in_use rs = sum_list (map held rs)"

text \<open>One of the requests takes a step.\<close>

inductive pool_step :: "nat \<Rightarrow> reader list \<Rightarrow> reader list \<Rightarrow> bool" for max_open where
  "i < length rs \<Longrightarrow> reader_step max_open (connections_in_use rs) (rs ! i) r \<Longrightarrow> pool_step max_open rs (rs[i := r])"

text \<open>The requests for the pages of some conversations, before they start.\<close>

definition page_request :: "(string \<Rightarrow> int \<Rightarrow> bool) \<Rightarrow> database \<Rightarrow> string \<times> int \<times> string \<Rightarrow> reader" where
  "page_request older d = (\<lambda>(convID, limit, before). Waiting (length (page_rows older convID (default_limit limit) before d)))"

definition shows_a_message :: "(string \<Rightarrow> int \<Rightarrow> bool) \<Rightarrow> database \<Rightarrow> string \<times> int \<times> string \<Rightarrow> bool" where
  "shows_a_message older d = (\<lambda>(convID, limit, before). page_rows older convID (default_limit limit) before d \<noteq> [])"

definition stuck :: "nat \<Rightarrow> reader list \<Rightarrow> bool" where
  "stuck max_open rs \<longleftrightarrow> (\<forall>rs'. \<not> pool_step max_open rs rs') \<and> (\<exists>r \<in> set rs. r \<noteq> Finished)"

subsection \<open>Every run ends\<close>

primrec weight :: "reader \<Rightarrow> nat" where
  "weight (Waiting n) = 3 * n + 2"
| "weight (Reading n) = 3 * n + 1"
| "weight (Asking n) = 3 * n + 3"
| "weight (Fetching n) = 3 * n + 2"
| "weight Finished = 0"

lemma reader_step_weight: "reader_step m k r r' \<Longrightarrow> weight r' < weight r"
  by (induction rule: reader_step.induct) simp_all

lemma sum_list_update_less:
  fixes f :: "'a \<Rightarrow> nat"
  assumes "i < length xs" and "f y < f (xs ! i)"
  shows "sum_list (map f (xs[i := y])) < sum_list (map f xs)"
proof -
  have "sum_list (map f xs) = sum_list (map f (take i xs)) + f (xs ! i) + sum_list (map f (drop (Suc i) xs))"
    using id_take_nth_drop [OF assms(1)] by (metis (no_types, lifting) add.assoc list.simps(9) map_append sum_list.Cons sum_list_append)
  with assms show ?thesis by (simp add: upd_conv_take_nth_drop)
qed

lemma pool_step_wf: "wf {(rs', rs). pool_step m rs rs'}"
proof (rule wf_subset [OF wf_measure [of "\<lambda>rs. sum_list (map weight rs)"]], safe)
  fix rs rs' assume "pool_step m rs rs'"
  then show "(rs', rs) \<in> measure (\<lambda>rs. sum_list (map weight rs))"
    by cases (simp add: sum_list_update_less reader_step_weight)
qed

subsection \<open>Only readers with rows to read hold a connection for ever\<close>

text \<open>What a request with a page of \<open>n\<close> rows can have become.\<close>

fun comes_from :: "nat \<Rightarrow> reader \<Rightarrow> bool" where
  "comes_from n (Waiting k) \<longleftrightarrow> k = n"
| "comes_from n (Reading k) \<longleftrightarrow> k \<le> n"
| "comes_from n (Asking k) \<longleftrightarrow> k < n"
| "comes_from n (Fetching k) \<longleftrightarrow> k < n"
| "comes_from n Finished \<longleftrightarrow> True"

lemma comes_from_step: "reader_step m k r r' \<Longrightarrow> comes_from n r \<Longrightarrow> comes_from n r'"
  by (induction rule: reader_step.induct) simp_all

lemma pool_run_comes_from:
  "(pool_step m)\<^sup>*\<^sup>* (map Waiting ns) rs \<Longrightarrow> list_all2 comes_from ns rs"
proof (induction rule: rtranclp_induct)
  case base
  then show ?case by (simp add: list_all2_conv_all_nth)
next
  case (step rs rs')
  from step(2) show ?case
  proof cases
    case (1 i r)
    with step.IH have "comes_from (ns ! i) r"
      by (auto simp: list_all2_conv_all_nth intro: comes_from_step)
    with step.IH \<open>i < length rs\<close> show ?thesis unfolding \<open>rs' = _\<close> by (auto simp: list_all2_conv_all_nth nth_list_update)
  qed
qed

definition is_asking :: "reader \<Rightarrow> bool" where
  "is_asking r \<longleftrightarrow> (case r of Asking _ \<Rightarrow> True | _ \<Rightarrow> False)"

definition is_idle :: "reader \<Rightarrow> bool" where
  "is_idle r \<longleftrightarrow> (case r of Reading _ \<Rightarrow> False | Fetching _ \<Rightarrow> False | _ \<Rightarrow> True)"

lemma asking_bounded:
  "list_all2 comes_from ns rs \<Longrightarrow> length (filter is_asking rs) \<le> length (filter (\<lambda>n. 0 < n) ns)"
  by (induction rule: list_all2_induct) (auto simp: is_asking_def split: reader.splits)

lemma idle_in_use: "\<forall>r \<in> set rs. is_idle r \<Longrightarrow> connections_in_use rs = length (filter is_asking rs)"
  by (induction rs) (auto simp: connections_in_use_def is_idle_def is_asking_def split: reader.splits)

lemma pool_stepI: "i < length rs \<Longrightarrow> reader_step m (connections_in_use rs) (rs ! i) r \<Longrightarrow> \<exists>rs'. pool_step m rs rs'"
  by (blast intro: pool_step.intros)

text \<open>A state in which nothing moves although a request is unfinished: all connections are held by requests
  that wait for a second one.\<close>

lemma stuck_iff:
  "stuck m rs \<longleftrightarrow> 0 < m \<and> m \<le> length (filter is_asking rs) \<and> (\<forall>r \<in> set rs. is_idle r)"
proof
  assume s: "stuck m rs"
  have no: "\<not> reader_step m (connections_in_use rs) r r'" if "r \<in> set rs" for r r'
    using s that pool_stepI unfolding stuck_def in_set_conv_nth by metis
  have idle: "\<forall>r \<in> set rs. is_idle r"
  proof
    fix r assume "r \<in> set rs"
    note no = no [OF this]
    show "is_idle r"
    proof (cases r)
      case (Reading n)
      with no show ?thesis by (cases n) (auto simp: reader_step_simps)
    qed (use no in \<open>auto simp: is_idle_def reader_step_simps\<close>)
  qed
  obtain r where r: "r \<in> set rs" "r \<noteq> Finished" using s by (auto simp: stuck_def)
  with no [OF r(1)] idle have "pool_get m (connections_in_use rs) = None"
    by (cases r) (auto simp: reader_step_simps is_idle_def)
  with idle_in_use [OF idle] idle show "0 < m \<and> m \<le> length (filter is_asking rs) \<and> (\<forall>r \<in> set rs. is_idle r)"
    by (auto simp: pool_get_def split: if_splits)
next
  assume a: "0 < m \<and> m \<le> length (filter is_asking rs) \<and> (\<forall>r \<in> set rs. is_idle r)"
  have full: "pool_get m (connections_in_use rs) = None"
    using a by (simp add: idle_in_use pool_get_def)
  have "\<not> pool_step m rs rs'" for rs'
  proof
    assume "pool_step m rs rs'"
    then obtain i r where i: "i < length rs" and st: "reader_step m (connections_in_use rs) (rs ! i) r" by cases auto
    have "is_idle (rs ! i)" using a i by simp
    with st full show False by (cases "rs ! i") (auto simp: reader_step_simps is_idle_def)
  qed
  moreover have "filter is_asking rs \<noteq> []" using a by auto
  then obtain r where "r \<in> set rs" "is_asking r" by (auto simp: filter_empty_conv)
  then have "\<exists>r \<in> set rs. r \<noteq> Finished" by (intro bexI [of _ r]) (auto simp: is_asking_def)
  ultimately show "stuck m rs" by (simp add: stuck_def)
qed

subsection \<open>Such a state is reached\<close>

text \<open>Of the requests for pages of \<open>ns\<close> rows, those at the positions \<open>A\<close> have read their first row.\<close>

definition first_rows_read :: "nat list \<Rightarrow> nat set \<Rightarrow> reader list" where
  "first_rows_read ns A = map (\<lambda>i. if i \<in> A then Asking (ns ! i - 1) else Waiting (ns ! i)) [0..<length ns]"

lemma first_rows_read_idle: "\<forall>r \<in> set (first_rows_read ns A). is_idle r"
  by (auto simp: first_rows_read_def is_idle_def)

lemma first_rows_read_asking:
  assumes "A \<subseteq> {..<length ns}"
  shows "length (filter is_asking (first_rows_read ns A)) = card A"
proof -
  have "filter is_asking (first_rows_read ns A) =
      map (\<lambda>i. if i \<in> A then Asking (ns ! i - 1) else Waiting (ns ! i)) (filter (\<lambda>i. i \<in> A) [0..<length ns])"
    unfolding first_rows_read_def filter_map
    by (rule arg_cong2 [where f = map]) (auto simp: comp_def is_asking_def intro: filter_cong)
  moreover have "length (filter (\<lambda>i. i \<in> A) [0..<length ns]) = card A"
    using assms by (subst distinct_card [symmetric]) (auto intro: arg_cong [where f = card])
  ultimately show ?thesis by simp
qed

lemma first_rows_read_run:
  assumes "A \<subseteq> {i. i < length ns \<and> 0 < ns ! i}" and "card A \<le> m"
  shows "(pool_step m)\<^sup>*\<^sup>* (map Waiting ns) (first_rows_read ns A)"
proof -
  have "finite A" using assms(1) by (rule finite_subset) simp
  then show ?thesis using assms
  proof (induction A rule: finite_induct)
    case empty
    have "first_rows_read ns {} = map Waiting ns" by (rule nth_equalityI) (simp_all add: first_rows_read_def)
    then show ?case by simp
  next
    case (insert i A)
    let ?rs = "first_rows_read ns A" and ?rs1 = "(first_rows_read ns A)[i := Reading (ns ! i)]"
    have i: "i < length ns" "0 < ns ! i" "i \<notin> A" and A: "A \<subseteq> {i. i < length ns \<and> 0 < ns ! i}" "card A < m"
      using insert by auto
    have len: "length ?rs = length ns" by (simp add: first_rows_read_def)
    have free: "pool_get m (connections_in_use ?rs) = Some (Suc (connections_in_use ?rs))"
      using A by (subst (1 2) idle_in_use [OF first_rows_read_idle], subst (1 2) first_rows_read_asking)
        (auto simp: pool_get_def)
    have "pool_step m ?rs ?rs1"
      using i free by (intro pool_step.intros) (auto simp: len first_rows_read_def reader_step_simps)
    moreover have "pool_step m ?rs1 (?rs1[i := Asking (ns ! i - 1)])"
      using i by (intro pool_step.intros) (auto simp: len reader_step_simps gr0_conv_Suc)
    moreover have "?rs1[i := Asking (ns ! i - 1)] = first_rows_read ns (insert i A)"
      using i by (intro nth_equalityI) (auto simp: first_rows_read_def nth_list_update)
    ultimately show ?case using insert.IH A by (metis less_imp_le rtranclp.rtrancl_into_rtrancl)
  qed
qed

lemma stuck_reachable:
  assumes "0 < m" and "m \<le> length (filter (\<lambda>n. 0 < n) ns)"
  shows "\<exists>rs. (pool_step m)\<^sup>*\<^sup>* (map Waiting ns) rs \<and> stuck m rs"
proof -
  have "card {i. i < length ns \<and> 0 < ns ! i} = length (filter (\<lambda>n. 0 < n) ns)" by (simp add: length_filter_conv_card)
  then obtain A where A: "A \<subseteq> {i. i < length ns \<and> 0 < ns ! i}" "card A = m"
    using assms(2) by (metis obtain_subset_with_card_n)
  then have "stuck m (first_rows_read ns A)"
    using assms(1) first_rows_read_idle by (subst stuck_iff, subst first_rows_read_asking) auto
  with first_rows_read_run [OF A(1)] A(2) show ?thesis by blast
qed

text \<open>C38: reading pages of messages can block the server for ever. When requests for pages are served at
  the same time from a pool of \<open>max_open\<close> connections, a state from which nothing moves although requests
  are unanswered can be reached exactly when the pool is limited and at least \<open>max_open\<close> of the requests
  have a message to show; each of these then holds the connection of its page and waits for one for the
  reactions. With fewer such requests every one is answered: every run ends, and it ends with all
  requests finished. SQLite is opened with one connection, so a single request is enough.\<close>

theorem page_readers_exhaust_pool:
  "((\<exists>rs. (pool_step max_open)\<^sup>*\<^sup>* (map (page_request older d) qs) rs \<and> stuck max_open rs) \<longleftrightarrow>
      0 < max_open \<and> max_open \<le> length (filter (shows_a_message older d) qs)) \<and>
   wf {(rs', rs). pool_step max_open rs rs'}"
proof -
  define size where "size = (\<lambda>(convID, limit, before). length (page_rows older convID (default_limit limit) before d))"
  let ?ns = "map size qs"
  have start: "map (page_request older d) qs = map Waiting ?ns"
    by (simp add: page_request_def size_def case_prod_unfold)
  have count: "length (filter (\<lambda>n. 0 < n) ?ns) = length (filter (shows_a_message older d) qs)"
    by (simp add: filter_map comp_def size_def shows_a_message_def case_prod_unfold)
  have "0 < max_open \<and> max_open \<le> length (filter (\<lambda>n. 0 < n) ?ns)"
    if "(pool_step max_open)\<^sup>*\<^sup>* (map Waiting ?ns) rs" "stuck max_open rs" for rs
    using asking_bounded [OF pool_run_comes_from [OF that(1)]] that(2) by (auto simp: stuck_iff)
  with stuck_reachable [of max_open ?ns] show ?thesis unfolding start count by (auto simp: pool_step_wf)
qed

end
