(* ===== verification/Rate_Limit.thy ===== *)
theory Rate_Limit
  imports Prelude
begin

section \<open>Rate limiters\<close>

text \<open>
  The three fixed-window limiters of the server: \<open>RateLimiter\<close> (middleware.go, per connection and per
  user for WebSocket messages), \<open>rateLimiter\<close> (auth.go, connection attempts per agent) and
  \<open>TieredRateLimiter\<close> (rate_limit_tiers.go, HTTP requests per user, with plans). The instants they read
  from the clock are arguments.

  The locale \<open>window_limiter\<close> is the contract they share; what a client may rely on, the number of
  requests let through in one window whatever else is interleaved, is proved once inside it.
\<close>

subsection \<open>The contract of a fixed-window limiter\<close>

text \<open>Running a sequence of timed requests, each with the answer it got.\<close>

fun requests :: "(int \<Rightarrow> 'k \<Rightarrow> 's \<Rightarrow> bool \<times> 's) \<Rightarrow> (int \<times> 'k) list \<Rightarrow> 's \<Rightarrow> ('k \<times> bool) list \<times> 's" where
  "requests allow [] s = ([], s)"
| "requests allow ((t, k) # xs) s =
     (let (ok, s1) = allow t k s; (rs, s2) = requests allow xs s1 in ((k, ok) # rs, s2))"

definition granted :: "'k \<Rightarrow> ('k \<times> bool) list \<Rightarrow> nat" where
  "granted k rs = length (filter (\<lambda>(j, ok). j = k \<and> ok) rs)"

definition asked :: "'k \<Rightarrow> (int \<times> 'k) list \<Rightarrow> nat" where
  "asked k xs = length (filter (\<lambda>(t, j). j = k) xs)"

lemma granted_simps [simp]:
  "granted k [] = 0"
  "granted k ((j, ok) # rs) = (if j = k \<and> ok then Suc (granted k rs) else granted k rs)"
  by (auto simp: granted_def)

lemma asked_simps [simp]:
  "asked k [] = 0" "asked k ((t, j) # xs) = (if j = k then Suc (asked k xs) else asked k xs)"
  by (auto simp: asked_def)

locale window_limiter =
  fixes allow :: "int \<Rightarrow> 'k \<Rightarrow> 's \<Rightarrow> bool \<times> 's"
    and active :: "int \<Rightarrow> 'k \<Rightarrow> 's \<Rightarrow> bool"
    and used :: "'k \<Rightarrow> 's \<Rightarrow> int"
    and lim :: "'k \<Rightarrow> 's \<Rightarrow> int"
    and window :: "'k \<Rightarrow> 's \<Rightarrow> int"
    and ok :: "'s \<Rightarrow> bool"
  assumes ok_allow: "ok s \<Longrightarrow> ok (snd (allow t k s))"
    and opens: "ok s \<Longrightarrow> \<not> active t k s \<Longrightarrow> 1 \<le> lim k s \<Longrightarrow>
      fst (allow t k s) \<and> used k (snd (allow t k s)) = 1 \<and>
      (\<forall>u. active u k (snd (allow t k s)) \<longleftrightarrow> u \<le> t + window k s)"
    and grants: "ok s \<Longrightarrow> active t k s \<Longrightarrow> 0 \<le> used k s \<Longrightarrow> used k s < lim k s \<Longrightarrow>
      used k s < int64_max \<Longrightarrow>
      fst (allow t k s) \<and> used k (snd (allow t k s)) = used k s + 1"
    and denies: "ok s \<Longrightarrow> active t k s \<Longrightarrow> 0 \<le> used k s \<Longrightarrow> lim k s \<le> used k s \<Longrightarrow>
      used k s < int64_max \<Longrightarrow>
      \<not> fst (allow t k s) \<and> used k s \<le> used k (snd (allow t k s)) \<and>
      used k (snd (allow t k s)) \<le> used k s + 1"
    and keeps: "ok s \<Longrightarrow> active t k s \<Longrightarrow> active u k (snd (allow t k s)) = active u k s"
    and lim_same: "ok s \<Longrightarrow> lim k (snd (allow t j s)) = lim k s"
    and others: "ok s \<Longrightarrow> j \<noteq> k \<Longrightarrow> active u j (snd (allow t k s)) = active u j s \<and>
      used j (snd (allow t k s)) = used j s"
begin

lemma window_open:
  assumes "ok s" and "0 \<le> used k s" and "used k s + int (asked k xs) \<le> int64_max"
    and "\<forall>(t, j) \<in> set xs. j = k \<longrightarrow> active t k s"
  shows "int (granted k (fst (requests allow xs s))) = max 0 (min (int (asked k xs)) (lim k s - used k s))"
  using assms
proof (induction xs arbitrary: s)
  case (Cons x xs)
  obtain t j where x: "x = (t, j)" by (cases x)
  define s1 where "s1 = snd (allow t j s)"
  have g: "granted k (fst (requests allow (x # xs) s)) =
      (if j = k \<and> fst (allow t j s) then Suc (granted k (fst (requests allow xs s1)))
       else granted k (fst (requests allow xs s1)))"
    by (simp add: x s1_def split: prod.splits)
  have ok1: "ok s1" and lim1: "lim k s1 = lim k s"
    using ok_allow lim_same Cons.prems(1) by (simp_all add: s1_def)
  show ?case
  proof (cases "j = k")
    case False
    then have "active u k s1 = active u k s" "used k s1 = used k s" for u
      using others [OF Cons.prems(1)] by (simp_all add: s1_def)
    with Cons.IH [OF ok1] Cons.prems False lim1 g x show ?thesis by simp
  next
    case True
    have act: "active t k s" using Cons.prems(4) True x by simp
    have act1: "active u k s1 = active u k s" for u
      using keeps [OF Cons.prems(1) act] True by (simp add: s1_def)
    have lt: "used k s < int64_max" using Cons.prems(3) True x by simp
    have IH: "0 \<le> used k s1 \<Longrightarrow> used k s1 \<le> used k s + 1 \<Longrightarrow>
        int (granted k (fst (requests allow xs s1))) = max 0 (min (int (asked k xs)) (lim k s - used k s1))"
      using Cons.IH [OF ok1] Cons.prems act1 lim1 x True by simp
    show ?thesis
    proof (cases "used k s < lim k s")
      case lt': True
      from grants [OF Cons.prems(1) act Cons.prems(2) lt' lt] True
      have "fst (allow t j s)" "used k s1 = used k s + 1" by (simp_all add: s1_def)
      with IH Cons.prems(2) g True lt' x show ?thesis by simp
    next
      case False
      from denies [OF Cons.prems(1) act Cons.prems(2) _ lt] True False
      have "\<not> fst (allow t j s)" "used k s \<le> used k s1" "used k s1 \<le> used k s + 1"
        by (simp_all add: s1_def)
      with IH Cons.prems(2) g False x True show ?thesis by simp
    qed
  qed
qed simp

theorem window_quota:
  assumes "ok s" and "\<not> active t0 k s" and "1 \<le> lim k s" and "int (asked k xs) < int64_max"
    and "\<forall>(t, j) \<in> set xs. j = k \<longrightarrow> t \<le> t0 + window k s"
  shows "int (granted k (fst (requests allow ((t0, k) # xs) s))) = min (int (asked k xs) + 1) (lim k s)"
proof -
  define s1 where "s1 = snd (allow t0 k s)"
  have o: "fst (allow t0 k s)" "used k s1 = 1" "\<And>u. active u k s1 \<longleftrightarrow> u \<le> t0 + window k s"
    using opens [OF assms(1-3)] by (simp_all add: s1_def)
  have "ok s1" "lim k s1 = lim k s"
    using ok_allow lim_same assms(1) by (simp_all add: s1_def)
  then have "int (granted k (fst (requests allow xs s1))) = max 0 (min (int (asked k xs)) (lim k s - 1))"
    using window_open [of s1 k xs] o assms(4,5) by simp
  moreover have "granted k (fst (requests allow ((t0, k) # xs) s)) = Suc (granted k (fst (requests allow xs s1)))"
    using o(1) by (simp add: s1_def Let_def case_prod_beta)
  ultimately show ?thesis using assms(3) by simp
qed

end

subsection \<open>RateLimiter (middleware.go)\<close>

record rateCounter =
  rc_count :: int
  rc_expires :: int

record RateLimiter =
  counters :: "(string, rateCounter) gomap"
  rl_limit :: int
  rl_window :: int

definition NewRateLimiter :: "int \<Rightarrow> int \<Rightarrow> RateLimiter" where
  "NewRateLimiter limit window = \<lparr>counters = [], rl_limit = limit, rl_window = window\<rparr>"

text \<open>\<open>now.After(counter.expires)\<close> is \<open>expires < now\<close>.\<close>

definition RateLimiter_Allow :: "int \<Rightarrow> string \<Rightarrow> RateLimiter \<Rightarrow> bool \<times> RateLimiter" where
  "RateLimiter_Allow now i rl =
     (let fresh = (True, rl\<lparr>counters := gm_set i \<lparr>rc_count = 1, rc_expires = now + rl_window rl\<rparr> (counters rl)\<rparr>)
      in case gm_get (counters rl) i of
           None \<Rightarrow> fresh
         | Some counter \<Rightarrow>
             if rc_expires counter < now then fresh
             else (let n = wrap64 (rc_count counter + 1);
                       rl' = rl\<lparr>counters := gm_set i (counter\<lparr>rc_count := n\<rparr>) (counters rl)\<rparr>
                   in (if n > rl_limit rl then (False, rl') else (True, rl'))))"

definition RateLimiter_cleanup :: "int \<Rightarrow> RateLimiter \<Rightarrow> RateLimiter" where
  "RateLimiter_cleanup now rl =
     rl\<lparr>counters := filter (\<lambda>(_, counter). \<not> rc_expires counter < now) (counters rl)\<rparr>"

definition RateLimiter_Reset :: "RateLimiter \<Rightarrow> RateLimiter" where
  "RateLimiter_Reset rl = rl\<lparr>counters := []\<rparr>"

definition RateLimiter_Count :: "string \<Rightarrow> RateLimiter \<Rightarrow> int" where
  "RateLimiter_Count i rl = (case gm_get (counters rl) i of None \<Rightarrow> 0 | Some c \<Rightarrow> rc_count c)"

definition rl_active :: "int \<Rightarrow> string \<Rightarrow> RateLimiter \<Rightarrow> bool" where
  "rl_active now i rl = (case gm_get (counters rl) i of None \<Rightarrow> False | Some c \<Rightarrow> now \<le> rc_expires c)"

interpretation message_limiter: window_limiter RateLimiter_Allow rl_active RateLimiter_Count
  "\<lambda>_. rl_limit" "\<lambda>_. rl_window" "\<lambda>_. True"
  by unfold_locales
    (auto simp: RateLimiter_Allow_def rl_active_def RateLimiter_Count_def Let_def wrap64_id_inc
      split: option.splits)

text \<open>C13: however requests of other connections are interleaved, in the window that a request of \<open>k\<close>
  opens at \<open>t0\<close> the limiter lets through exactly the first \<open>limit\<close> requests of \<open>k\<close>.\<close>

theorem RateLimiter_quota:
  assumes "\<not> rl_active t0 k rl" and "1 \<le> rl_limit rl" and "int (asked k xs) < int64_max"
    and "\<forall>(t, j) \<in> set xs. j = k \<longrightarrow> t \<le> t0 + rl_window rl"
  shows "int (granted k (fst (requests RateLimiter_Allow ((t0, k) # xs) rl))) =
         min (int (asked k xs) + 1) (rl_limit rl)"
  using message_limiter.window_quota [OF _ assms] by simp

theorem RateLimiter_quota_witness:
  "int (granted ''c'' (fst (requests RateLimiter_Allow
     [(0, ''c''), (1, ''d''), (2, ''c''), (3, ''c'')] (NewRateLimiter 2 minute)))) = 2"
  using RateLimiter_quota [of 0 "''c''" "NewRateLimiter 2 minute" "[(1, ''d''), (2, ''c''), (3, ''c'')]"]
  by (simp add: NewRateLimiter_def rl_active_def int64_max_def)

text \<open>Two limiters that give the same answers from \<open>now\<close> on: expired counters do not matter.\<close>

definition rl_equiv :: "int \<Rightarrow> RateLimiter \<Rightarrow> RateLimiter \<Rightarrow> bool" where
  "rl_equiv now rl rl' \<longleftrightarrow> rl_limit rl' = rl_limit rl \<and> rl_window rl' = rl_window rl \<and>
     (\<forall>i. gm_get (counters rl) i = gm_get (counters rl') i \<or>
        \<not> rl_active now i rl \<and> \<not> rl_active now i rl')"

lemma rl_equiv_Allow:
  assumes "rl_equiv now rl rl'" and "now \<le> t"
  shows "fst (RateLimiter_Allow t i rl) = fst (RateLimiter_Allow t i rl') \<and>
    rl_equiv t (snd (RateLimiter_Allow t i rl)) (snd (RateLimiter_Allow t i rl'))"
proof -
  have eqv: "gm_get (counters rl) j = gm_get (counters rl') j \<or> \<not> rl_active t j rl \<and> \<not> rl_active t j rl'" for j
  proof -
    have "rl_active t j r \<Longrightarrow> rl_active now j r" for r
      using assms(2) by (auto simp: rl_active_def split: option.splits)
    then show ?thesis using assms(1) unfolding rl_equiv_def by blast
  qed
  have lw: "rl_limit rl' = rl_limit rl" "rl_window rl' = rl_window rl"
    using assms(1) by (simp_all add: rl_equiv_def)
  have fresh: "RateLimiter_Allow t i r =
      (True, r\<lparr>counters := gm_set i \<lparr>rc_count = 1, rc_expires = t + rl_window r\<rparr> (counters r)\<rparr>)"
    if "\<not> rl_active t i r" for r
    using that by (auto simp: RateLimiter_Allow_def rl_active_def Let_def split: option.splits)
  show ?thesis
  proof (cases "rl_active t i rl \<or> rl_active t i rl'")
    case True
    with eqv have "gm_get (counters rl) i = gm_get (counters rl') i" by blast
    with eqv lw show ?thesis
      by (auto simp: RateLimiter_Allow_def rl_equiv_def rl_active_def Let_def split: option.splits)
  next
    case False
    then show ?thesis using eqv lw by (auto simp: fresh rl_equiv_def rl_active_def)
  qed
qed

lemma rl_equiv_cleanup: "gm_ok (counters rl) \<Longrightarrow> rl_equiv now rl (RateLimiter_cleanup now rl)"
  by (auto simp: rl_equiv_def RateLimiter_cleanup_def rl_active_def gm_get_filter split: option.splits)

lemma rl_equiv_requests:
  "rl_equiv now rl rl' \<Longrightarrow> sorted (map fst xs) \<Longrightarrow> \<forall>t \<in> fst ` set xs. now \<le> t \<Longrightarrow>
   fst (requests RateLimiter_Allow xs rl) = fst (requests RateLimiter_Allow xs rl')"
proof (induction xs arbitrary: now rl rl')
  case (Cons x xs)
  obtain t i where x: "x = (t, i)" by (cases x)
  from Cons.prems x have "now \<le> t" by simp
  from rl_equiv_Allow [OF Cons.prems(1) this, of i] Cons.IH [of t "snd (RateLimiter_Allow t i rl)"
      "snd (RateLimiter_Allow t i rl')"] Cons.prems(2) x
  show ?case by (simp add: Let_def case_prod_beta)
qed simp

text \<open>the background cleanup of \<open>RateLimiter\<close> is invisible: every later sequence of requests gets the
  same answers with and without it.\<close>

theorem RateLimiter_cleanup_invisible:
  assumes "gm_ok (counters rl)" and "sorted (map fst xs)" and "\<forall>t \<in> fst ` set xs. now \<le> t"
  shows "fst (requests RateLimiter_Allow xs (RateLimiter_cleanup now rl)) =
         fst (requests RateLimiter_Allow xs rl)"
  using rl_equiv_requests [OF rl_equiv_cleanup [OF assms(1)] assms(2,3)] by simp

theorem RateLimiter_cleanup_invisible_witness:
  "fst (requests RateLimiter_Allow [(100, ''c'')]
     (RateLimiter_cleanup 90 \<lparr>counters = [(''c'', \<lparr>rc_count = 3, rc_expires = 50\<rparr>)], rl_limit = 2, rl_window = 60\<rparr>)) =
   fst (requests RateLimiter_Allow [(100, ''c'')]
     \<lparr>counters = [(''c'', \<lparr>rc_count = 3, rc_expires = 50\<rparr>)], rl_limit = 2, rl_window = 60\<rparr>)"
  by (rule RateLimiter_cleanup_invisible) (simp_all add: gm_ok_def)

subsection \<open>The two limits on WebSocket messages\<close>

text \<open>The decisions of \<open>checkRateLimit\<close>: \<open>messageRateLimiter\<close> first, then \<open>userRateLimiter\<close>, both asked
  about \<open>conn.id\<close>; each call reads the clock itself.\<close>

datatype rate_verdict = WithinLimits | ConnExceeded | UserExceeded

record message_limits =
  messageRateLimiter :: RateLimiter
  userRateLimiter :: RateLimiter

definition new_message_limits :: message_limits where
  "new_message_limits = \<lparr>messageRateLimiter = NewRateLimiter 60 minute,
     userRateLimiter = NewRateLimiter 120 minute\<rparr>"

definition check_limits :: "int \<Rightarrow> int \<Rightarrow> string \<Rightarrow> message_limits \<Rightarrow> rate_verdict \<times> message_limits" where
  "check_limits now1 now2 i ml =
     (let (connAllowed, m) = RateLimiter_Allow now1 i (messageRateLimiter ml);
          ml1 = ml\<lparr>messageRateLimiter := m\<rparr>
      in if \<not> connAllowed then (ConnExceeded, ml1)
         else (let (userAllowed, u) = RateLimiter_Allow now2 i (userRateLimiter ml1);
                   ml2 = ml1\<lparr>userRateLimiter := u\<rparr>
               in if \<not> userAllowed then (UserExceeded, ml2) else (WithinLimits, ml2)))"

fun run_checks :: "(int \<times> int \<times> string) list \<Rightarrow> message_limits \<Rightarrow> rate_verdict list \<times> message_limits" where
  "run_checks [] ml = ([], ml)"
| "run_checks ((t1, t2, i) # xs) ml =
     (let (v, ml1) = check_limits t1 t2 i ml; (vs, ml2) = run_checks xs ml1 in (v # vs, ml2))"

text \<open>Successive calls read a clock that does not go back.\<close>

fun clock_ok :: "int \<Rightarrow> (int \<times> int \<times> string) list \<Rightarrow> bool" where
  "clock_ok prev [] = True"
| "clock_ok prev ((t1, t2, i) # xs) \<longleftrightarrow> prev \<le> t1 \<and> t1 \<le> t2 \<and> clock_ok t2 xs"

text \<open>Within one user window there are at most two connection windows, of 60 messages each.\<close>

definition counters_related :: "int \<Rightarrow> int \<Rightarrow> rateCounter option \<Rightarrow> rateCounter option \<Rightarrow> bool" where
  "counters_related prev n m u \<longleftrightarrow>
     (case u of
        None \<Rightarrow> m = None
      | Some uc \<Rightarrow>
          (case m of
             None \<Rightarrow> False
           | Some mc \<Rightarrow>
               1 \<le> rc_count mc \<and> rc_count mc \<le> n \<and> rc_expires uc \<le> prev + minute \<and> 1 \<le> rc_count uc \<and>
               (rc_expires mc \<le> rc_expires uc \<and> rc_count uc \<le> rc_count mc \<and> rc_count uc \<le> 60 \<or>
                rc_expires uc \<le> rc_expires mc \<and> rc_count uc \<le> 60 + min (rc_count mc) 60)))"

definition limits_inv :: "int \<Rightarrow> int \<Rightarrow> message_limits \<Rightarrow> bool" where
  "limits_inv prev n ml \<longleftrightarrow>
     rl_limit (messageRateLimiter ml) = 60 \<and> rl_window (messageRateLimiter ml) = minute \<and>
     rl_limit (userRateLimiter ml) = 120 \<and> rl_window (userRateLimiter ml) = minute \<and>
     (\<forall>i. counters_related prev n (gm_get (counters (messageRateLimiter ml)) i)
            (gm_get (counters (userRateLimiter ml)) i))"

lemma counters_related_mono:
  "counters_related prev n m u \<Longrightarrow> prev \<le> prev' \<Longrightarrow> n \<le> n' \<Longrightarrow> counters_related prev' n' m u"
  by (auto simp: counters_related_def split: option.splits)

text \<open>The effect of one check on the two counters of its id: \<open>set_both\<close> stores both counters.\<close>

definition set_both :: "string \<Rightarrow> rateCounter \<Rightarrow> rateCounter \<Rightarrow> message_limits \<Rightarrow> message_limits" where
  "set_both i mc uc ml = ml\<lparr>
     messageRateLimiter := (messageRateLimiter ml)\<lparr>counters := gm_set i mc (counters (messageRateLimiter ml))\<rparr>,
     userRateLimiter := (userRateLimiter ml)\<lparr>counters := gm_set i uc (counters (userRateLimiter ml))\<rparr>\<rparr>"

lemma limits_inv_set_both:
  assumes "limits_inv prev n ml" and "prev \<le> t" and "counters_related t (n + 1) (Some mc) (Some uc)"
  shows "limits_inv t (n + 1) (set_both i mc uc ml)"
  using assms counters_related_mono [of prev n _ _ t "n + 1"]
  by (simp add: limits_inv_def set_both_def)

lemma limits_inv_set_message:
  assumes "limits_inv prev n ml" and "prev \<le> t" and "gm_get (counters (userRateLimiter ml)) i = Some uc"
    and "counters_related t (n + 1) (Some mc) (Some uc)"
  shows "limits_inv t (n + 1) (ml\<lparr>messageRateLimiter :=
     (messageRateLimiter ml)\<lparr>counters := gm_set i mc (counters (messageRateLimiter ml))\<rparr>\<rparr>)"
  using assms counters_related_mono [of prev n _ _ t "n + 1"]
  by (simp add: limits_inv_def)

lemma check_limits_step:
  assumes "limits_inv prev n ml" and "prev \<le> t1" and "t1 \<le> t2" and "0 \<le> n" and "n + 1 < int64_max"
  shows "fst (check_limits t1 t2 i ml) \<noteq> UserExceeded \<and> limits_inv t2 (n + 1) (snd (check_limits t1 t2 i ml))"
proof -
  let ?m = "messageRateLimiter ml" and ?u = "userRateLimiter ml"
  have L: "rl_limit ?m = 60" "rl_window ?m = minute" "rl_limit ?u = 120" "rl_window ?u = minute"
    using assms(1) by (simp_all add: limits_inv_def)
  have rel: "counters_related prev n (gm_get (counters ?m) i) (gm_get (counters ?u) i)"
    using assms(1) by (simp add: limits_inv_def)
  have t: "prev \<le> t2" using assms(2,3) by simp
  note put = limits_inv_set_both [OF assms(1) t, of _ _ i]
  let ?m1 = "\<lparr>rc_count = 1, rc_expires = t1 + minute\<rparr>" and ?u1 = "\<lparr>rc_count = 1, rc_expires = t2 + minute\<rparr>"
  show ?thesis
  proof (cases "gm_get (counters ?u) i")
    case None
    with rel have "gm_get (counters ?m) i = None" by (simp add: counters_related_def)
    with None L have "check_limits t1 t2 i ml = (WithinLimits, set_both i ?m1 ?u1 ml)"
      by (simp add: check_limits_def RateLimiter_Allow_def set_both_def)
    then show ?thesis using put [of ?m1 ?u1] assms(3,4) by (simp add: counters_related_def)
  next
    case (Some uc)
    with rel obtain mc where m: "gm_get (counters ?m) i = Some mc"
      and mc: "1 \<le> rc_count mc" "rc_count mc \<le> n"
      and uc: "rc_expires uc \<le> prev + minute" "1 \<le> rc_count uc"
      and AB: "rc_expires mc \<le> rc_expires uc \<and> rc_count uc \<le> rc_count mc \<and> rc_count uc \<le> 60 \<or>
       rc_expires uc \<le> rc_expires mc \<and> rc_count uc \<le> 60 + min (rc_count mc) 60"
      by (auto simp: counters_related_def split: option.splits)
    let ?m2 = "mc\<lparr>rc_count := rc_count mc + 1\<rparr>" and ?u2 = "uc\<lparr>rc_count := rc_count uc + 1\<rparr>"
    have w: "wrap64 (rc_count mc + 1) = rc_count mc + 1" "wrap64 (rc_count uc + 1) = rc_count uc + 1"
      using mc uc(2) AB assms(5) by (auto intro!: wrap64_id_inc simp: int64_max_def)
    have ustep: "check_limits t1 t2 i ml =
        (if rc_expires uc < t2 then (WithinLimits, set_both i m' ?u1 ml)
         else if rc_count uc < 120 then (WithinLimits, set_both i m' ?u2 ml)
         else (UserExceeded, set_both i m' ?u2 ml))"
      if "RateLimiter_Allow t1 i ?m = (True, ?m\<lparr>counters := gm_set i m' (counters ?m)\<rparr>)" for m'
      using that Some L w by (simp add: check_limits_def RateLimiter_Allow_def [of t2] Let_def set_both_def)
    show ?thesis
    proof (cases "rc_expires mc < t1")
      case True
      then have "RateLimiter_Allow t1 i ?m = (True, ?m\<lparr>counters := gm_set i ?m1 (counters ?m)\<rparr>)"
        using m L by (simp add: RateLimiter_Allow_def)
      note u = ustep [OF this]
      have "rc_expires uc < t2 \<or> rc_count uc \<le> 60" using AB True assms(3) by auto
      moreover have "counters_related t2 (n + 1) (Some ?m1) (Some ?u1)"
        "rc_count uc \<le> 60 \<Longrightarrow> counters_related t2 (n + 1) (Some ?m1) (Some ?u2)"
        using assms(2-4) uc by (auto simp: counters_related_def)
      ultimately show ?thesis using u put by auto
    next
      case False
      show ?thesis
      proof (cases "rc_count mc < 60")
        case True
        then have "RateLimiter_Allow t1 i ?m = (True, ?m\<lparr>counters := gm_set i ?m2 (counters ?m)\<rparr>)"
          using m L False w by (simp add: RateLimiter_Allow_def)
        note u = ustep [OF this]
        have "rc_count uc < 120" using AB True by auto
        moreover have "rc_expires mc \<le> t2 + minute \<or> rc_expires uc \<le> rc_expires mc" using AB uc t by linarith
        then have "counters_related t2 (n + 1) (Some ?m2) (Some ?u1)"
          using mc uc(1) t by (auto simp: counters_related_def)
        moreover have "counters_related t2 (n + 1) (Some ?m2) (Some ?u2)"
          using mc uc t AB True by (auto simp: counters_related_def)
        ultimately show ?thesis using u put by auto
      next
        case full: False
        then have "check_limits t1 t2 i ml = (ConnExceeded, ml\<lparr>messageRateLimiter :=
            ?m\<lparr>counters := gm_set i ?m2 (counters ?m)\<rparr>\<rparr>)"
          using m L False w by (simp add: check_limits_def RateLimiter_Allow_def)
        moreover have "counters_related t2 (n + 1) (Some ?m2) (Some uc)"
          using mc uc t AB by (auto simp: counters_related_def)
        ultimately show ?thesis using limits_inv_set_message [OF assms(1) t Some] by simp
      qed
    qed
  qed
qed

lemma run_checks_within:
  "limits_inv prev n ml \<Longrightarrow> clock_ok prev xs \<Longrightarrow> 0 \<le> n \<Longrightarrow> n + int (length xs) < int64_max \<Longrightarrow>
   UserExceeded \<notin> set (fst (run_checks xs ml))"
proof (induction xs arbitrary: prev n ml)
  case (Cons x xs)
  obtain t1 t2 i where x: "x = (t1, t2, i)" by (cases x)
  from Cons.prems x have s: "fst (check_limits t1 t2 i ml) \<noteq> UserExceeded"
    "limits_inv t2 (n + 1) (snd (check_limits t1 t2 i ml))"
    using check_limits_step [OF Cons.prems(1), of t1 t2 i] by auto
  from Cons.IH [OF s(2)] Cons.prems x s(1) show ?case
    by (auto simp: Let_def case_prod_beta)
qed simp

text \<open>the second limit is dead code. Both limiters are asked about the same id, and 60 messages per
  connection window always stop a sender before 120 messages per user window do: whatever the
  sequence of checks, no one is ever refused by \<open>userRateLimiter\<close>.\<close>

theorem user_limit_never_reached:
  assumes "clock_ok t0 xs" and "int (length xs) < int64_max"
  shows "UserExceeded \<notin> set (fst (run_checks xs new_message_limits))"
  by (rule run_checks_within [of t0 0, OF _ assms(1)])
    (use assms(2) in \<open>simp_all add: limits_inv_def new_message_limits_def NewRateLimiter_def counters_related_def\<close>)

theorem user_limit_never_reached_witness:
  "UserExceeded \<notin> set (fst (run_checks (replicate 200 (0, 0, ''c'')) new_message_limits))"
proof -
  have "clock_ok 0 (replicate n (0, 0, ''c''))" for n by (induction n) simp_all
  then show ?thesis by (intro user_limit_never_reached [of 0]) (simp_all add: int64_max_def)
qed

subsection \<open>rateLimiter (auth.go): agent connection attempts\<close>

record rateLimitEntry =
  rle_count :: int
  firstSeen :: int

record rateLimiter =
  attempts :: "(string, rateLimitEntry) gomap"

definition maxAgentAttempts :: int where "maxAgentAttempts = 10"
definition agentRateWindow :: int where "agentRateWindow = minute"

text \<open>\<open>time.Since(entry.firstSeen)\<close> and \<open>time.Now()\<close> read the clock one after the other; the two instants
  are the arguments \<open>now1\<close> and \<open>now2\<close>.\<close>

definition rateLimiter_Allow2 :: "int \<Rightarrow> int \<Rightarrow> string \<Rightarrow> rateLimiter \<Rightarrow> bool \<times> rateLimiter" where
  "rateLimiter_Allow2 now1 now2 agentID r =
     (let fresh = (True, r\<lparr>attempts := gm_set agentID \<lparr>rle_count = 1, firstSeen = now2\<rparr> (attempts r)\<rparr>)
      in case gm_get (attempts r) agentID of
           None \<Rightarrow> fresh
         | Some entry \<Rightarrow>
             if time_sub now1 (firstSeen entry) > agentRateWindow then fresh
             else if rle_count entry \<ge> maxAgentAttempts then (False, r)
             else (True, r\<lparr>attempts :=
                     gm_set agentID (entry\<lparr>rle_count := wrap64 (rle_count entry + 1)\<rparr>) (attempts r)\<rparr>))"

abbreviation rateLimiter_Allow :: "int \<Rightarrow> string \<Rightarrow> rateLimiter \<Rightarrow> bool \<times> rateLimiter" where
  "rateLimiter_Allow now \<equiv> rateLimiter_Allow2 now now"

definition rateLimiter_Clean :: "int \<Rightarrow> rateLimiter \<Rightarrow> rateLimiter" where
  "rateLimiter_Clean now r =
     r\<lparr>attempts := filter (\<lambda>(_, entry). \<not> time_sub now (firstSeen entry) > agentRateWindow) (attempts r)\<rparr>"

definition rateLimiter_Reset :: "rateLimiter \<Rightarrow> rateLimiter" where
  "rateLimiter_Reset r = r\<lparr>attempts := []\<rparr>"

definition al_active :: "int \<Rightarrow> string \<Rightarrow> rateLimiter \<Rightarrow> bool" where
  "al_active now i r = (case gm_get (attempts r) i of None \<Rightarrow> False | Some e \<Rightarrow> now - firstSeen e \<le> minute)"

definition al_used :: "string \<Rightarrow> rateLimiter \<Rightarrow> int" where
  "al_used i r = (case gm_get (attempts r) i of None \<Rightarrow> 0 | Some e \<Rightarrow> rle_count e)"

lemma agent_window [simp]: "time_sub t u > agentRateWindow \<longleftrightarrow> t - u > minute"
  by (simp add: agentRateWindow_def time_sub_gt int64_max_def)

interpretation agent_limiter: window_limiter rateLimiter_Allow al_active al_used
  "\<lambda>_ _. maxAgentAttempts" "\<lambda>_ _. minute" "\<lambda>_. True"
  by unfold_locales
    (auto simp: rateLimiter_Allow2_def al_active_def al_used_def Let_def wrap64_id_inc
      split: option.splits)

text \<open>within one minute of its first attempt an agent id gets exactly its first 10 connection
  attempts through, whatever attempts other agents make in between.\<close>

theorem agent_attempts_quota:
  assumes "\<not> al_active t0 a r" and "int (asked a xs) < int64_max"
    and "\<forall>(t, j) \<in> set xs. j = a \<longrightarrow> t \<le> t0 + minute"
  shows "int (granted a (fst (requests rateLimiter_Allow ((t0, a) # xs) r))) =
         min (int (asked a xs) + 1) 10"
  using agent_limiter.window_quota [OF _ assms(1) _ assms(2)] assms(3)
  by (simp add: maxAgentAttempts_def)

theorem agent_attempts_quota_witness:
  "int (granted ''a'' (fst (requests rateLimiter_Allow
     ((0, ''a'') # replicate 12 (5, ''a'')) \<lparr>attempts = []\<rparr>))) = 10"
proof -
  have "asked ''a'' (replicate 12 (5, ''a'')) = 12" by (simp add: numeral_eq_Suc asked_def)
  with agent_attempts_quota [of 0 "''a''" "\<lparr>attempts = []\<rparr>" "replicate 12 (5, ''a'')"]
  show ?thesis by (simp add: al_active_def int64_max_def)
qed

end
