(* ===== verification/Hub_Invariant.thy ===== *)
theory Hub_Invariant
  imports Hub_Delivery "HOL-Library.Sublist"
begin

section \<open>Hub invariant: the registry in every reachable state\<close>

text \<open>
  The registry invariant says that the hub only ever lists live connections under their own
  identity: an agent's entry is an open agent connection with that id; a user's entry is a non-empty
  list of distinct open client connections of that user with distinct non-empty device ids; a
  connection's \<open>closed\<close> flag and its channel agree; and a connection waiting to be registered is open and
  in no entry. It is kept by every step of \<open>hub_step\<close>; from it follow the absence of panics and the
  behaviour of registration and unregistration.
\<close>

subsection \<open>The invariant\<close>

definition conns_inv :: "hub \<Rightarrow> bool" where
  "conns_inv h \<longleftrightarrow> (\<forall>r c. heap h r = Some c \<longrightarrow>
     r < next_ref h \<and> (closed c \<longleftrightarrow> ch_closed (send c)) \<and>
     length (ch_buf (send c)) \<le> ch_cap (send c))"

definition live_as :: "hub \<Rightarrow> bool \<Rightarrow> string \<Rightarrow> conn_ref \<Rightarrow> bool" where
  "live_as h is_agent i r \<longleftrightarrow>
     r \<notin> set (registering h) \<and>
     (\<exists>c. heap h r = Some c \<and> (connType c = ''agent'') = is_agent \<and> conn_id c = i \<and> \<not> closed c)"

definition device_of :: "hub \<Rightarrow> conn_ref \<Rightarrow> string" where
  "device_of h r = (case heap h r of None \<Rightarrow> [] | Some c \<Rightarrow> deviceID c)"

definition devices_ok :: "hub \<Rightarrow> conn_ref list \<Rightarrow> bool" where
  "devices_ok h rs \<longleftrightarrow> distinct rs \<and> distinct (filter (\<lambda>d. d \<noteq> []) (map (device_of h) rs))"

definition agents_inv :: "hub \<Rightarrow> bool" where
  "agents_inv h \<longleftrightarrow> gm_ok (agents h) \<and>
     (\<forall>a r. gm_get (agents h) a = Some r \<longrightarrow> live_as h True a r)"

definition clients_inv :: "hub \<Rightarrow> bool" where
  "clients_inv h \<longleftrightarrow> gm_ok (clientConns h) \<and>
     (\<forall>u rs. gm_get (clientConns h) u = Some rs \<longrightarrow>
        rs \<noteq> [] \<and> devices_ok h rs \<and> (\<forall>r \<in> set rs. live_as h False u r))"

definition waiting_inv :: "hub \<Rightarrow> bool" where
  "waiting_inv h \<longleftrightarrow> distinct (registering h) \<and>
     (\<forall>r \<in> set (registering h). \<exists>c. heap h r = Some c \<and> \<not> closed c) \<and>
     (\<forall>r \<in> set (unregistering h). heap h r \<noteq> None \<and> r \<notin> set (registering h))"

definition hub_inv :: "hub \<Rightarrow> bool" where
  "hub_inv h \<longleftrightarrow> conns_inv h \<and> agents_inv h \<and> clients_inv h \<and> waiting_inv h"

lemmas hub_inv_defs = hub_inv_def conns_inv_def agents_inv_def clients_inv_def waiting_inv_def

subsection \<open>States that agree on what the invariant reads\<close>

text \<open>One connection looks like another to the registry: only buffer contents, the status and the
  heartbeat may differ.\<close>

definition conn_like :: "connection \<Rightarrow> connection \<Rightarrow> bool" where
  "conn_like c c' \<longleftrightarrow> connType c' = connType c \<and> conn_id c' = conn_id c \<and>
     deviceID c' = deviceID c \<and> closed c' = closed c \<and>
     ch_closed (send c') = ch_closed (send c) \<and>
     (length (ch_buf (send c)) \<le> ch_cap (send c) \<longrightarrow> length (ch_buf (send c')) \<le> ch_cap (send c'))"

definition like :: "hub \<Rightarrow> hub \<Rightarrow> bool" where
  "like h h' \<longleftrightarrow> agents h' = agents h \<and> clientConns h' = clientConns h \<and>
     next_ref h' = next_ref h \<and> registering h' = registering h \<and>
     (\<forall>r. rel_option conn_like (heap h r) (heap h' r))"

lemma conn_sent_like: "conn_sent c c' \<Longrightarrow> conn_like c c'"
  using conn_sent_fields [of c c'] conn_sent_length [of c c'] by (simp add: conn_like_def)

lemma sends_only_like: "sends_only h h' \<Longrightarrow> like h h'"
proof -
  assume so: "sends_only h h'"
  have "rel_option conn_like (heap h r) (heap h' r)" for r
    using so unfolding sends_only_def
    by (auto elim!: option.rel_mono_strong intro: conn_sent_like dest: spec [of _ r])
  then show ?thesis using sends_only_frame [OF so] by (simp add: like_def)
qed

lemma like_refl [simp]: "like h h"
  by (simp add: like_def conn_like_def option.rel_refl)

lemma like_set_conn:
  "heap h r = Some c \<Longrightarrow> conn_like c c' \<Longrightarrow> like h (set_conn r c' h)"
  by (auto simp: like_def set_conn_def conn_like_def option.rel_refl)

lemma like_conn:
  assumes "like h h'" and "heap h r = Some c"
  obtains c' where "heap h' r = Some c'" "conn_like c c'"
  using assms unfolding like_def by (cases "heap h' r") (auto dest: spec [of _ r])

lemma like_conn_rev:
  assumes "like h h'" and "heap h' r = Some c'"
  obtains c where "heap h r = Some c" "conn_like c c'"
  using assms unfolding like_def by (cases "heap h r") (auto dest: spec [of _ r])

lemma like_live:
  assumes "like h h'" and "live_as h ia i r"
  shows "live_as h' ia i r"
proof -
  from assms(2) obtain c where c: "heap h r = Some c" "(connType c = ''agent'') = ia"
    "conn_id c = i" "\<not> closed c" "r \<notin> set (registering h)"
    by (auto simp: live_as_def)
  with assms(1) obtain c' where "heap h' r = Some c'" "conn_like c c'" by (blast elim: like_conn)
  with c assms(1) show ?thesis by (simp add: live_as_def conn_like_def like_def)
qed

lemma like_device: "like h h' \<Longrightarrow> device_of h' r = device_of h r"
  unfolding like_def device_of_def
  by (cases "heap h r"; cases "heap h' r") (auto simp: conn_like_def dest: spec [of _ r])

lemma like_devices_ok: "like h h' \<Longrightarrow> devices_ok h' rs = devices_ok h rs"
  using like_device [of h h'] by (simp add: devices_ok_def cong: map_cong)

lemma like_inv:
  assumes "like h h'" and "hub_inv h" and "unregistering h' = unregistering h"
  shows "hub_inv h'"
proof -
  have "conns_inv h'"
    using assms(1,2) unfolding hub_inv_def conns_inv_def
    by (auto elim!: like_conn_rev [OF assms(1)] simp: conn_like_def like_def)
  moreover have "agents_inv h'" and "clients_inv h'"
    using assms like_live [OF assms(1)] like_devices_ok [OF assms(1)]
    by (auto simp: hub_inv_defs like_def)
  moreover have "waiting_inv h'"
    using assms unfolding hub_inv_def waiting_inv_def
    by (metis (no_types, lifting) conn_like_def like_conn like_def not_None_eq)
  ultimately show ?thesis by (simp add: hub_inv_def)
qed

lemma sends_only_inv: "sends_only h h' \<Longrightarrow> hub_inv h \<Longrightarrow> hub_inv h'"
  by (rule like_inv) (auto simp: sends_only_like sends_only_frame)

lemma add_metric_inv [simp]: "hub_inv (add_metric f h) = hub_inv h"
  by (simp add: add_metric_def hub_inv_defs live_as_def devices_ok_def
      device_of_def [abs_def])

lemma broadcastPresence_inv [simp]: "hub_inv h \<Longrightarrow> hub_inv (broadcastPresence i ct b h)"
  by (rule sends_only_inv [of h]) (simp_all add: broadcastPresence_def)

subsection \<open>Retiring a connection\<close>

lemma frame_set_conn [simp]:
  "agents (set_conn r c h) = agents h" "clientConns (set_conn r c h) = clientConns h"
  "next_ref (set_conn r c h) = next_ref h" "registering (set_conn r c h) = registering h"
  "unregistering (set_conn r c h) = unregistering h"
  by (simp_all add: set_conn_def)

lemma retire_open:
  assumes "heap h r = Some c" and "\<not> ch_closed (send c)"
  shows "retire r h = Some (set_conn r (c\<lparr>closed := True, send := (send c)\<lparr>ch_closed := True\<rparr>\<rparr>) h)"
  using assms by (simp add: retire_def close_send_def MarkClosed_def set_conn_def)

lemma retire_once_open:
  assumes "hub_inv h" and "heap h r = Some c"
  shows "retire_once r h = Some (if closed c then h
           else set_conn r (c\<lparr>closed := True, send := (send c)\<lparr>ch_closed := True\<rparr>\<rparr>) h)"
  using assms retire_open [of h r c]
  by (auto simp: retire_once_def IsClosed_def hub_inv_defs)

text \<open>Closing a connection that no entry lists and that is not waiting keeps the invariant.\<close>

lemma close_unlisted_inv:
  assumes "hub_inv h" and "heap h r = Some c" and "r \<notin> set (registering h)"
    and "\<forall>a. gm_get (agents h) a \<noteq> Some r"
    and "\<forall>u rs. gm_get (clientConns h) u = Some rs \<longrightarrow> r \<notin> set rs"
  shows "hub_inv (set_conn r (c\<lparr>closed := True, send := (send c)\<lparr>ch_closed := True\<rparr>\<rparr>) h)"
    (is "hub_inv ?h'")
proof -
  have dev: "device_of ?h' q = device_of h q" for q
    using assms(2) by (simp add: device_of_def)
  have live: "q \<noteq> r \<Longrightarrow> live_as h ia i q \<Longrightarrow> live_as ?h' ia i q" for ia i q
    by (auto simp: live_as_def set_conn_def)
  have "conns_inv ?h'"
    using assms(1,2) by (auto simp: hub_inv_def conns_inv_def set_conn_def)
  moreover have "agents_inv ?h'"
    using assms(1,4) live unfolding hub_inv_def agents_inv_def
    by simp metis
  moreover have "clients_inv ?h'"
    using assms(1,5) live unfolding hub_inv_def clients_inv_def devices_ok_def
    by (simp add: dev [abs_def]) metis
  moreover have "waiting_inv ?h'"
    using assms(1,3) by (auto simp: hub_inv_def waiting_inv_def set_conn_def)
  ultimately show ?thesis by (simp add: hub_inv_def)
qed


subsection \<open>Registration\<close>

lemma live_open:
  assumes "conns_inv h" and "live_as h ia i r"
  obtains c where "heap h r = Some c" "(connType c = ''agent'') = ia" "conn_id c = i"
    "\<not> closed c" "\<not> ch_closed (send c)" "r \<notin> set (registering h)"
  using assms by (auto simp: live_as_def conns_inv_def)

lemma live_unique: "live_as h ia i r \<Longrightarrow> live_as h ja j r \<Longrightarrow> ia = ja \<and> i = j"
  by (auto simp: live_as_def)

text \<open>A connection that a handler is about to register: open, and listed nowhere.\<close>

definition fresh_conn :: "hub \<Rightarrow> conn_ref \<Rightarrow> connection \<Rightarrow> bool" where
  "fresh_conn h r c \<longleftrightarrow> heap h r = Some c \<and> \<not> closed c \<and> r \<notin> set (registering h) \<and>
     r \<notin> set (unregistering h) \<and>
     (\<forall>a. gm_get (agents h) a \<noteq> Some r) \<and>
     (\<forall>u rs. gm_get (clientConns h) u = Some rs \<longrightarrow> r \<notin> set rs)"

lemma waiting_fresh:
  assumes "hub_inv h" and "r \<in> set (registering h)"
  obtains c where "fresh_conn (h\<lparr>registering := remove1 r (registering h)\<rparr>) r c"
    "hub_inv (h\<lparr>registering := remove1 r (registering h)\<rparr>)"
proof -
  let ?h = "h\<lparr>registering := remove1 r (registering h)\<rparr>"
  have sub: "set (remove1 r (registering h)) \<subseteq> set (registering h)" by (rule set_remove1_subset)
  have live: "live_as h ia i q \<Longrightarrow> live_as ?h ia i q" for ia i q
    using sub by (auto simp: live_as_def)
  have dev: "devices_ok ?h rs = devices_ok h rs" for rs
    by (simp add: devices_ok_def device_of_def [abs_def])
  from assms obtain c where c: "heap h r = Some c" "\<not> closed c"
    by (auto simp: hub_inv_defs)
  have "fresh_conn ?h r c"
    using assms c unfolding fresh_conn_def hub_inv_defs
    by (auto simp: live_as_def set_remove1_eq)
  moreover have "hub_inv ?h"
    using assms live dev sub unfolding hub_inv_defs by simp
  ultimately show ?thesis by (rule that)
qed

lemma view_registry [simp]:
  "live_as (h\<lparr>agents := x\<rparr>) = live_as h" "live_as (h\<lparr>clientConns := y\<rparr>) = live_as h"
  "devices_ok (h\<lparr>agents := x\<rparr>) = devices_ok h" "devices_ok (h\<lparr>clientConns := y\<rparr>) = devices_ok h"
  by (simp_all add: fun_eq_iff live_as_def devices_ok_def device_of_def [abs_def])

lemma set_agent_inv:
  "hub_inv h \<Longrightarrow> live_as h True a r \<Longrightarrow> hub_inv (h\<lparr>agents := gm_set a r (agents h)\<rparr>)"
  by (simp add: hub_inv_defs)

lemma del_agent_inv: "hub_inv h \<Longrightarrow> hub_inv (h\<lparr>agents := gm_del a (agents h)\<rparr>)"
  by (simp add: hub_inv_defs)

lemma set_clients_inv:
  "hub_inv h \<Longrightarrow> rs \<noteq> [] \<Longrightarrow> devices_ok h rs \<Longrightarrow> \<forall>r \<in> set rs. live_as h False u r \<Longrightarrow>
   hub_inv (h\<lparr>clientConns := gm_set u rs (clientConns h)\<rparr>)"
  by (simp add: hub_inv_defs)

lemma del_clients_inv: "hub_inv h \<Longrightarrow> hub_inv (h\<lparr>clientConns := gm_del u (clientConns h)\<rparr>)"
  by (simp add: hub_inv_defs)

lemma set_conn_commute:
  "(set_conn r c h)\<lparr>agents := x\<rparr> = set_conn r c (h\<lparr>agents := x\<rparr>)"
  "(set_conn r c h)\<lparr>clientConns := y\<rparr> = set_conn r c (h\<lparr>clientConns := y\<rparr>)"
  by (simp_all add: set_conn_def)

abbreviation shut :: "connection \<Rightarrow> connection" where
  "shut c \<equiv> c\<lparr>closed := True, send := (send c)\<lparr>ch_closed := True\<rparr>\<rparr>"

lemma listed_once:
  assumes "hub_inv h"
  shows "gm_get (agents h) a = Some r \<Longrightarrow> gm_get (agents h) b = Some r \<Longrightarrow> a = b"
    and "gm_get (agents h) a = Some r \<Longrightarrow> gm_get (clientConns h) u = Some rs \<Longrightarrow> r \<notin> set rs"
    and "gm_get (clientConns h) u = Some rs \<Longrightarrow> gm_get (clientConns h) v = Some qs \<Longrightarrow>
         r \<in> set rs \<Longrightarrow> r \<in> set qs \<Longrightarrow> u = v"
proof -
  have A: "gm_get (agents h) a = Some r \<Longrightarrow> live_as h True a r" for a r
    using assms by (simp add: hub_inv_def agents_inv_def)
  have C: "gm_get (clientConns h) u = Some rs \<Longrightarrow> r \<in> set rs \<Longrightarrow> live_as h False u r" for u rs r
    using assms by (simp add: hub_inv_def clients_inv_def)
  show "gm_get (agents h) a = Some r \<Longrightarrow> gm_get (agents h) b = Some r \<Longrightarrow> a = b"
    using A live_unique by blast
  show "gm_get (agents h) a = Some r \<Longrightarrow> gm_get (clientConns h) u = Some rs \<Longrightarrow> r \<notin> set rs"
    using A C live_unique by blast
  show "gm_get (clientConns h) u = Some rs \<Longrightarrow> gm_get (clientConns h) v = Some qs \<Longrightarrow>
         r \<in> set rs \<Longrightarrow> r \<in> set qs \<Longrightarrow> u = v"
    using C live_unique by blast
qed

text \<open>The state after registering an agent, before the presence broadcast and the metric.\<close>

lemma register_agent_result:
  assumes inv: "hub_inv h" and fresh: "fresh_conn h r conn" and ag: "connType conn = ''agent''"
  obtains h2 where
    "register_agent now r conn h =
       Some (broadcastPresence (conn_id conn) ''agent'' True (add_metric ConnectionsTotal_update h2))"
    "hub_inv h2"
    "agents h2 = gm_set (conn_id conn) r (agents h)" "clientConns h2 = clientConns h"
    "heap h2 r = Some (conn\<lparr>lastHeartbeat := now\<rparr>)"
    "\<And>q. q \<noteq> r \<Longrightarrow> gm_get (agents h) (conn_id conn) \<noteq> Some q \<Longrightarrow> heap h2 q = heap h q"
    "\<And>q. gm_get (agents h) (conn_id conn) = Some q \<Longrightarrow> IsClosed q h2"
proof -
  let ?a = "conn_id conn" and ?c = "conn\<lparr>lastHeartbeat := now\<rparr>"
  let ?h1 = "set_conn r ?c h"
  let ?h2 = "?h1\<lparr>agents := gm_set ?a r (agents h)\<rparr>"
  from fresh have r: "heap h r = Some conn" "\<not> closed conn" "r \<notin> set (registering h)"
    by (auto simp: fresh_conn_def)
  have "like h ?h1" by (rule like_set_conn [OF r(1)]) (simp add: conn_like_def)
  then have inv1: "hub_inv ?h1" using inv by (rule like_inv) simp
  have "live_as ?h1 True ?a r" using r ag by (simp add: live_as_def)
  with inv1 have inv2: "hub_inv ?h2" using set_agent_inv by fastforce
  show ?thesis
  proof (cases "gm_get (agents h) ?a")
    case None
    then have "register_agent now r conn h =
        Some (broadcastPresence ?a ''agent'' True (add_metric ConnectionsTotal_update ?h2))"
      by (simp add: register_agent_def Let_def)
    then show ?thesis by (rule that) (use None inv2 in simp_all)
  next
    case (Some old)
    have "live_as h True ?a old" using Some inv by (auto simp: hub_inv_defs)
    with inv obtain c where c: "heap h old = Some c" "\<not> ch_closed (send c)" "old \<notin> set (registering h)"
      by (auto simp: hub_inv_def elim: live_open)
    from Some fresh have neq: "old \<noteq> r" by (auto simp: fresh_conn_def)
    let ?h3 = "set_conn old (shut c) ?h2"
    have "\<forall>b. gm_get (agents ?h2) b \<noteq> Some old"
      using listed_once(1) [OF inv Some] neq by auto
    moreover have "\<forall>u rs. gm_get (clientConns ?h2) u = Some rs \<longrightarrow> old \<notin> set rs"
      using listed_once(2) [OF inv Some] by auto
    ultimately have "hub_inv ?h3"
      using inv2 c neq by (intro close_unlisted_inv) simp_all
    moreover have "register_agent now r conn h =
        Some (broadcastPresence ?a ''agent'' True (add_metric ConnectionsTotal_update ?h3))"
      using Some c neq by (simp add: register_agent_def Let_def retire_open set_conn_commute)
    ultimately show ?thesis
      by (intro that [of ?h3]) (use Some c neq in \<open>simp_all add: IsClosed_def\<close>)
  qed
qed

lemma GetClientConns_inv:
  assumes "hub_inv h"
  shows "devices_ok h (GetClientConns u h)" and "\<forall>r \<in> set (GetClientConns u h). live_as h False u r"
  using assms by (cases "gm_get (clientConns h) u"; simp add: GetClientConns_def hub_inv_defs devices_ok_def)+

lemma fresh_not_client: "fresh_conn h r c \<Longrightarrow> r \<notin> set (GetClientConns u h)"
  by (auto simp: fresh_conn_def GetClientConns_def split: option.splits)

lemma devices_ok_replace:
  assumes "devices_ok h rs" and "i < length rs" and "r \<notin> set rs" and "device_of h (rs ! i) = device_of h r"
  shows "devices_ok h (rs[i := r])"
proof -
  have "map (device_of h) (rs[i := r]) = map (device_of h) rs"
    using assms(2,4) by (metis list_update_id map_update)
  with assms show ?thesis by (simp add: devices_ok_def distinct_list_update)
qed

lemma devices_ok_snoc:
  assumes "devices_ok h rs" and "r \<notin> set rs"
    and "device_of h r \<noteq> [] \<longrightarrow> device_of h r \<notin> device_of h ` set rs"
  shows "devices_ok h (rs @ [r])"
  using assms by (auto simp: devices_ok_def)

lemma same_device_iff:
  "heap h r = Some c \<Longrightarrow> heap h q \<noteq> None \<Longrightarrow>
   same_device h c q \<longleftrightarrow> device_of h q = device_of h r \<and> device_of h r \<noteq> []"
  by (auto simp: same_device_def device_of_def)

text \<open>Registering a client connection: either it takes the place of the connection with the same
  device id, which is closed, or it is appended.\<close>

lemma register_client_result:
  assumes inv: "hub_inv h" and fresh: "fresh_conn h r conn" and cl: "connType conn \<noteq> ''agent''"
  obtains h2 where
    "register_client r conn h = Some (add_metric ConnectionsTotal_update h2)" "hub_inv h2"
    "agents h2 = agents h" "heap h2 r = Some conn"
    "case find_index (same_device h conn) (GetClientConns (conn_id conn) h) of
       None \<Rightarrow> GetClientConns (conn_id conn) h2 = GetClientConns (conn_id conn) h @ [r] \<and> heap h2 = heap h
     | Some i \<Rightarrow> GetClientConns (conn_id conn) h2 = (GetClientConns (conn_id conn) h)[i := r] \<and>
         IsClosed (GetClientConns (conn_id conn) h ! i) h2 \<and>
         (\<forall>q. q \<noteq> GetClientConns (conn_id conn) h ! i \<longrightarrow> heap h2 q = heap h q)"
    "\<And>v. v \<noteq> conn_id conn \<Longrightarrow> GetClientConns v h2 = GetClientConns v h"
proof -
  let ?u = "conn_id conn" and ?rs = "GetClientConns (conn_id conn) h"
  from fresh have r: "heap h r = Some conn" "\<not> closed conn" "r \<notin> set (registering h)"
    by (auto simp: fresh_conn_def)
  have r_new: "r \<notin> set ?rs" using fresh by (rule fresh_not_client)
  have rs_ok: "devices_ok h ?rs" and rs_live: "\<forall>q \<in> set ?rs. live_as h False ?u q"
    using GetClientConns_inv [OF inv] by blast+
  have r_live: "live_as h False ?u r" using r cl by (simp add: live_as_def)
  have dev: "same_device h conn q \<longleftrightarrow> device_of h q = device_of h r \<and> device_of h r \<noteq> []"
    if "q \<in> set ?rs" for q
    using that rs_live same_device_iff [OF r(1)] by (auto simp: live_as_def)
  show ?thesis
  proof (cases "find_index (same_device h conn) ?rs")
    case None
    let ?h2 = "h\<lparr>clientConns := gm_set ?u (?rs @ [r]) (clientConns h)\<rparr>"
    have "device_of h r \<noteq> [] \<longrightarrow> device_of h r \<notin> device_of h ` set ?rs"
      using None dev by (auto simp: find_index_None image_iff)
    then have "devices_ok h (?rs @ [r])" by (rule devices_ok_snoc [OF rs_ok r_new])
    then have "hub_inv ?h2" using inv rs_live r_live by (intro set_clients_inv) auto
    moreover have "register_client r conn h = Some (add_metric ConnectionsTotal_update ?h2)"
      using None by (simp add: register_client_def Let_def)
    ultimately show ?thesis
      by (intro that [of ?h2]) (use None r in \<open>simp_all add: GetClientConns_def\<close>)
  next
    case (Some i)
    then have i: "i < length ?rs" and sd: "same_device h conn (?rs ! i)"
      using find_index_SomeD by blast+
    let ?e = "?rs ! i"
    have e_in: "?e \<in> set ?rs" using i by simp
    with rs_live inv obtain c where c: "heap h ?e = Some c" "\<not> ch_closed (send c)" "?e \<notin> set (registering h)"
      by (auto simp: hub_inv_def elim!: live_open)
    have neq: "?e \<noteq> r" using e_in r_new by auto
    let ?h1 = "h\<lparr>clientConns := gm_set ?u (?rs[i := r]) (clientConns h)\<rparr>"
    let ?h2 = "set_conn ?e (shut c) ?h1"
    have "devices_ok h (?rs[i := r])" using rs_ok i r_new dev [OF e_in] sd by (intro devices_ok_replace) auto
    moreover have "\<forall>q \<in> set (?rs[i := r]). live_as h False ?u q"
      using rs_live r_live set_update_subset_insert [of ?rs i r] by blast
    ultimately have inv1: "hub_inv ?h1" using inv i by (intro set_clients_inv) auto
    have some: "gm_get (clientConns h) ?u = Some ?rs"
      using i by (auto simp: GetClientConns_def split: option.splits)
    have "?e \<notin> set (?rs[i := r])"
      using rs_ok i neq by (auto simp: devices_ok_def set_update_distinct)
    then have "\<forall>v qs. gm_get (clientConns ?h1) v = Some qs \<longrightarrow> ?e \<notin> set qs"
      using listed_once(3) [OF inv some _ e_in] by auto
    moreover have "\<forall>a. gm_get (agents ?h1) a \<noteq> Some ?e"
      using listed_once(2) [OF inv _ some] e_in by auto
    ultimately have "hub_inv ?h2"
      using inv1 c by (intro close_unlisted_inv) simp_all
    moreover have "register_client r conn h = Some (add_metric ConnectionsTotal_update ?h2)"
      using Some c by (simp add: register_client_def Let_def retire_open set_conn_commute)
    ultimately show ?thesis
      by (intro that [of ?h2]) (use Some r neq c in \<open>simp_all add: GetClientConns_def IsClosed_def\<close>)
  qed
qed

lemma hub_register_ok:
  assumes "hub_inv h" and "fresh_conn h r conn"
  shows "\<exists>h'. hub_register now r h = Some h' \<and> hub_inv h'"
proof (cases "connType conn = ''agent''")
  case True
  obtain h2 where "register_agent now r conn h =
       Some (broadcastPresence (conn_id conn) ''agent'' True (add_metric ConnectionsTotal_update h2))"
    and "hub_inv h2"
    by (rule register_agent_result [OF assms True, of now])
  with True assms(2) show ?thesis by (simp add: hub_register_def fresh_conn_def)
next
  case False
  obtain h2 where "register_client r conn h = Some (add_metric ConnectionsTotal_update h2)"
    and "hub_inv h2"
    by (rule register_client_result [OF assms False])
  with False assms(2) show ?thesis by (simp add: hub_register_def fresh_conn_def)
qed

subsection \<open>Unregistration\<close>

lemma remove_client_result:
  assumes inv: "hub_inv h"
  shows "hub_inv (remove_client r u h)"
    and "set (GetClientConns u (remove_client r u h)) = set (GetClientConns u h) - {r}"
    and "v \<noteq> u \<Longrightarrow> GetClientConns v (remove_client r u h) = GetClientConns v h"
    and "agents (remove_client r u h) = agents h" and "heap (remove_client r u h) = heap h"
    and "registering (remove_client r u h) = registering h"
proof -
  let ?rs = "GetClientConns u h"
  have ok: "devices_ok h ?rs" and live: "\<forall>q \<in> set ?rs. live_as h False u q"
    using GetClientConns_inv [OF inv] by blast+
  have sub: "devices_ok h (swap_remove i ?rs) \<and> set (swap_remove i ?rs) = set ?rs - {r}"
    if "find_index (\<lambda>e. e = r) ?rs = Some i" for i
  proof -
    from that have i: "i < length ?rs" and r: "?rs ! i = r" by (auto dest: find_index_SomeD)
    have d: "distinct ?rs" using ok by (simp add: devices_ok_def)
    have m: "mset (swap_remove i ?rs) = mset (remove1 r ?rs)"
      using i r by (simp add: mset_swap_remove)
    have "mset (filter (\<lambda>d. d \<noteq> []) (map (device_of h) (swap_remove i ?rs))) =
          mset (filter (\<lambda>d. d \<noteq> []) (map (device_of h) (remove1 r ?rs)))"
      by (metis m mset_filter mset_map)
    then have "distinct (filter (\<lambda>d. d \<noteq> []) (map (device_of h) (swap_remove i ?rs))) =
          distinct (filter (\<lambda>d. d \<noteq> []) (map (device_of h) (remove1 r ?rs)))"
      by (rule mset_eq_imp_distinct_iff)
    moreover have "distinct (filter (\<lambda>d. d \<noteq> []) (map (device_of h) (remove1 r ?rs)))"
      using ok d unfolding devices_ok_def
      by (simp add: distinct_remove1_removeAll removeAll_filter_not_eq filter_map distinct_map inj_on_def)
    ultimately show ?thesis
      using set_swap_remove [OF i d] r by (simp add: devices_ok_def)
  qed
  show "hub_inv (remove_client r u h)"
    using inv live sub
    by (auto simp: remove_client_def Let_def split: option.splits
        intro!: set_clients_inv del_clients_inv)
  show "set (GetClientConns u (remove_client r u h)) = set ?rs - {r}"
  proof (cases "find_index (\<lambda>e. e = r) ?rs")
    case None
    then have "r \<notin> set ?rs" by (auto simp: find_index_None)
    with None show ?thesis by (simp add: remove_client_def Let_def)
  next
    case (Some i)
    with sub show ?thesis by (auto simp: remove_client_def Let_def GetClientConns_def)
  qed
  show "v \<noteq> u \<Longrightarrow> GetClientConns v (remove_client r u h) = GetClientConns v h"
    by (simp add: remove_client_def Let_def GetClientConns_def split: option.splits)
  show "agents (remove_client r u h) = agents h" and "heap (remove_client r u h) = heap h"
    and "registering (remove_client r u h) = registering h"
    by (simp_all add: remove_client_def Let_def split: option.splits)
qed

definition unlisted :: "hub \<Rightarrow> conn_ref \<Rightarrow> bool" where
  "unlisted h r \<longleftrightarrow> (\<forall>a. GetAgent a h \<noteq> Some r) \<and> (\<forall>u. r \<notin> set (GetClientConns u h))"

lemma unlistedI:
  assumes inv: "hub_inv h" and c: "heap h r = Some c"
    and "connType c = ''agent'' \<Longrightarrow> gm_get (agents h) (conn_id c) \<noteq> Some r"
    and "connType c \<noteq> ''agent'' \<Longrightarrow> r \<notin> set (GetClientConns (conn_id c) h)"
  shows "unlisted h r"
proof -
  have "gm_get (agents h) a \<noteq> Some r" for a
  proof
    assume a: "gm_get (agents h) a = Some r"
    then have "live_as h True a r" using inv by (simp add: hub_inv_def agents_inv_def)
    with c have "connType c = ''agent''" "conn_id c = a" by (simp_all add: live_as_def)
    with assms(3) a show False by simp
  qed
  moreover have "r \<notin> set (GetClientConns u h)" for u
  proof
    assume u: "r \<in> set (GetClientConns u h)"
    then have "live_as h False u r" using GetClientConns_inv(2) [OF inv] by blast
    with c have "connType c \<noteq> ''agent''" "conn_id c = u" by (simp_all add: live_as_def)
    with assms(4) u show False by simp
  qed
  ultimately show ?thesis by (simp add: unlisted_def GetAgent_def)
qed

lemma close_unlisted:
  assumes "hub_inv h" and "heap h r = Some c" and "r \<notin> set (registering h)" and "unlisted h r"
  shows "hub_inv (set_conn r (shut c) h)"
proof -
  have "r \<notin> set rs" if "gm_get (clientConns h) u = Some rs" for u rs
  proof -
    have "r \<notin> set (GetClientConns u h)" using assms(4) by (simp add: unlisted_def)
    with that show ?thesis by (simp add: GetClientConns_def)
  qed
  moreover have "\<forall>a. gm_get (agents h) a \<noteq> Some r"
    using assms(4) by (simp add: unlisted_def GetAgent_def)
  ultimately show ?thesis using assms(1-3) by (intro close_unlisted_inv) blast+
qed

lemma unregister_agent_result:
  assumes inv: "hub_inv h" and c: "heap h r = Some conn" and ag: "connType conn = ''agent''"
    and w: "r \<notin> set (registering h)"
  shows "unregister_agent r conn h =
      Some (if gm_get (agents h) (conn_id conn) = Some r
            then broadcastPresence (conn_id conn) ''agent'' False
                   (set_conn r (shut conn) (h\<lparr>agents := gm_del (conn_id conn) (agents h)\<rparr>))
            else h)"
    and "gm_get (agents h) (conn_id conn) = Some r \<Longrightarrow>
      hub_inv (set_conn r (shut conn) (h\<lparr>agents := gm_del (conn_id conn) (agents h)\<rparr>))"
proof -
  let ?h1 = "h\<lparr>agents := gm_del (conn_id conn) (agents h)\<rparr>"
  have inv1: "hub_inv ?h1" using inv by (rule del_agent_inv)
  show "unregister_agent r conn h =
      Some (if gm_get (agents h) (conn_id conn) = Some r
            then broadcastPresence (conn_id conn) ''agent'' False (set_conn r (shut conn) ?h1) else h)"
  proof (cases "gm_get (agents h) (conn_id conn) = Some r")
    case True
    then have "live_as h True (conn_id conn) r" using inv by (simp add: hub_inv_defs)
    with c have "\<not> closed conn" by (simp add: live_as_def)
    with True show ?thesis
      using retire_once_open [OF inv1, of r conn] c by (simp add: unregister_agent_def)
  qed (simp add: unregister_agent_def)
  have c1: "heap ?h1 r = Some conn" using c by simp
  have "gm_get (agents ?h1) (conn_id conn) \<noteq> Some r" by simp
  then have "unlisted ?h1 r" using unlistedI [OF inv1 c1] ag by blast
  then show "hub_inv (set_conn r (shut conn) ?h1)"
    using inv1 c w by (intro close_unlisted) simp_all
qed

lemma unregister_client_result:
  assumes inv: "hub_inv h" and c: "heap h r = Some conn" and cl: "connType conn \<noteq> ''agent''"
    and w: "r \<notin> set (registering h)"
  shows "unregister_client r conn h =
      Some (if closed conn then remove_client r (conn_id conn) h
            else set_conn r (shut conn) (remove_client r (conn_id conn) h))"
    and "hub_inv (if closed conn then remove_client r (conn_id conn) h
            else set_conn r (shut conn) (remove_client r (conn_id conn) h))"
proof -
  let ?h1 = "remove_client r (conn_id conn) h"
  note rc = remove_client_result [OF inv]
  have c1: "heap ?h1 r = Some conn" using c rc(5) by simp
  show "unregister_client r conn h = Some (if closed conn then ?h1 else set_conn r (shut conn) ?h1)"
    using retire_once_open [OF rc(1) c1] by (simp add: unregister_client_def)
  have "r \<notin> set (GetClientConns (conn_id conn) ?h1)" by (simp add: rc(2))
  then have "unlisted ?h1 r" using unlistedI [OF rc(1) c1] cl by blast
  then have "hub_inv (set_conn r (shut conn) ?h1)"
    using rc(1,6) c1 w by (intro close_unlisted) simp_all
  with rc(1) show "hub_inv (if closed conn then ?h1 else set_conn r (shut conn) ?h1)" by simp
qed

lemma hub_unregister_ok:
  assumes "hub_inv h" and "heap h r \<noteq> None" and "r \<notin> set (registering h)"
  shows "\<exists>h'. hub_unregister r h = Some h' \<and> hub_inv h'"
proof -
  from assms(2) obtain conn where c: "heap h r = Some conn" by blast
  show ?thesis
  proof (cases "connType conn = ''agent''")
    case True
    with c show ?thesis
      using unregister_agent_result [OF assms(1) c True assms(3)] assms(1)
      by (auto simp: hub_unregister_def)
  next
    case False
    with c show ?thesis
      using unregister_client_result [OF assms(1) c False assms(3)]
      by (simp add: hub_unregister_def)
  qed
qed

subsection \<open>Every step keeps the invariant\<close>

lemma newHub_inv: "hub_inv (newHub mx)"
  by (simp add: newHub_def hub_inv_defs)

lemma start_register_inv:
  assumes "hub_inv h" and "\<not> closed c" and "\<not> ch_closed (send c)" and "ch_buf (send c) = []"
  shows "hub_inv (start_register c h)"
proof -
  let ?h' = "start_register c h"
  have fresh: "heap h (next_ref h) = None" using assms(1) by (cases "heap h (next_ref h)") (auto simp: hub_inv_defs)
  have heap': "heap ?h' r = (if r = next_ref h then Some c else heap h r)" for r
    by (simp add: start_register_def)
  have known: "heap h r \<noteq> None \<Longrightarrow> r \<noteq> next_ref h" for r using fresh by auto
  have live: "live_as h ia i r \<Longrightarrow> live_as ?h' ia i r" for ia i r
    using known [of r] by (auto simp: live_as_def start_register_def)
  have dev: "devices_ok ?h' rs" if "\<forall>r \<in> set rs. live_as h False u r" "devices_ok h rs" for u rs
  proof -
    have "device_of ?h' q = device_of h q" if "q \<in> set rs" for q
    proof -
      have "q \<noteq> next_ref h" using that \<open>\<forall>r \<in> set rs. live_as h False u r\<close> known [of q]
        by (auto simp: live_as_def)
      then show ?thesis by (simp add: device_of_def heap')
    qed
    then have "map (device_of ?h') rs = map (device_of h) rs" by simp
    with that(2) show ?thesis by (simp only: devices_ok_def)
  qed
  have "conns_inv ?h'"
    using assms by (auto simp: hub_inv_def conns_inv_def heap' start_register_def split: if_splits
        dest!: less_SucI)
  moreover have "agents_inv ?h'" using assms(1) live by (auto simp: hub_inv_defs start_register_def)
  moreover have "clients_inv ?h'"
    using assms(1) live dev unfolding hub_inv_def clients_inv_def by (simp add: start_register_def) blast
  moreover have "waiting_inv ?h'"
  proof -
    have "next_ref h \<notin> set (registering h)"
      using assms(1) fresh by (auto simp: hub_inv_defs)
    with assms(1,2) fresh show ?thesis
      by (auto simp: hub_inv_def waiting_inv_def start_register_def)
  qed
  ultimately show ?thesis by (simp add: hub_inv_def)
qed

lemma hub_step_inv: "hub_step h h' \<Longrightarrow> hub_inv h \<Longrightarrow> hub_inv h'"
proof (induction rule: hub_step.induct)
  case (connect_agent h i ver now)
  then show ?case by (rule start_register_inv) (simp_all add: new_connection_def make_chan_def)
next
  case (connect_client h i dev ver now)
  then show ?case by (rule start_register_inv) (simp_all add: new_connection_def make_chan_def)
next
  case (run_register r h now h')
  from run_register.prems run_register.hyps(1) obtain c where
    "fresh_conn (h\<lparr>registering := remove1 r (registering h)\<rparr>) r c"
    "hub_inv (h\<lparr>registering := remove1 r (registering h)\<rparr>)"
    by (rule waiting_fresh)
  from hub_register_ok [OF this(2,1), of now] run_register.hyps(2) show ?case by simp
next
  case (readPump_exit h r)
  then show ?case by (auto simp: hub_inv_defs live_as_def devices_ok_def device_of_def [abs_def])
next
  case (monitor_tick h now timeout)
  have "heap h r \<noteq> None \<and> r \<notin> set (registering h)" if "r \<in> set (stale_agents now timeout h)" for r
  proof -
    from that obtain a where "(a, r) \<in> set (agents h)" by (auto simp: stale_agents_def)
    then have "live_as h True a r"
      using monitor_tick by (simp add: hub_inv_def agents_inv_def gm_get_Some_iff)
    then show ?thesis by (auto simp: live_as_def)
  qed
  with monitor_tick show ?case
    by (auto simp: checkStaleAgents_def Let_def hub_inv_defs live_as_def devices_ok_def
        device_of_def [abs_def])
next
  case (run_unregister r h h')
  let ?h = "h\<lparr>unregistering := remove1 r (unregistering h)\<rparr>"
  have "hub_inv ?h"
    using run_unregister.prems set_remove1_subset [of r "unregistering h"]
    by (auto simp: hub_inv_defs live_as_def devices_ok_def device_of_def [abs_def])
  moreover have "heap ?h r \<noteq> None" "r \<notin> set (registering ?h)"
    using run_unregister.prems run_unregister.hyps(1) by (auto simp: hub_inv_defs)
  ultimately show ?case using hub_unregister_ok [of ?h r] run_unregister.hyps(2) by auto
next
  case (run_broadcast h d)
  then show ?case unfolding hub_broadcast_def
    by (meson sends_only_inv sends_only_send_all)
next
  case (safe_send h r d)
  then show ?case by (meson sends_only_inv sends_only_send_to)
next
  case (set_status h a s)
  have "like h (SetAgentStatus a s h)"
    by (auto simp: SetAgentStatus_def conn_like_def split: option.splits intro!: like_set_conn)
  then show ?case
    using set_status by (rule like_inv) (simp add: SetAgentStatus_def split: option.splits)
next
  case (touch h now r)
  have "like h (TouchHeartbeat now r h)"
    by (auto simp: TouchHeartbeat_def conn_like_def split: option.splits intro!: like_set_conn)
  then show ?case
    using touch by (rule like_inv) (simp add: TouchHeartbeat_def split: option.splits)
next
  case (write_pump h r)
  have "like h (set_conn r (c\<lparr>send := (send c)\<lparr>ch_buf := ds\<rparr>\<rparr>) h)"
    if "heap h r = Some c" "ch_buf (send c) = d # ds" for c d ds
    using that by (intro like_set_conn) (auto simp: conn_like_def)
  then have "hub_inv (set_conn r (c\<lparr>send := (send c)\<lparr>ch_buf := ds\<rparr>\<rparr>) h)"
    if "heap h r = Some c" "ch_buf (send c) = d # ds" for c d ds
    using that write_pump like_inv by fastforce
  then show ?case
    using write_pump by (auto simp: writePump_recv_def split: option.splits list.splits)
qed

lemma hub_reachable_inv: "hub_reachable h \<Longrightarrow> hub_inv h"
  by (induction rule: hub_reachable.induct) (auto intro: newHub_inv hub_step_inv)

end
