(* ===== verification/Hub_Registry.thy ===== *)
theory Hub_Registry
  imports Hub_Invariant
begin

section \<open>Hub registry: the behaviour of registration, unregistration and monitoring\<close>

text \<open>
  The properties of \<open>Hub.run\<close> and of the heartbeat monitor in reachable states: no panic, who is listed
  after a registration or an unregistration, which connections are closed by it, and that a closed
  connection is never reopened and receives nothing more.
\<close>

subsection \<open>Listed connections\<close>

lemma agent_live: "hub_inv h \<Longrightarrow> gm_get (agents h) a = Some r \<Longrightarrow> live_as h True a r"
  by (simp add: hub_inv_def agents_inv_def)

lemma client_live: "hub_inv h \<Longrightarrow> r \<in> set (GetClientConns u h) \<Longrightarrow> live_as h False u r"
  using GetClientConns_inv(2) by blast

lemma set_all_clients:
  assumes "hub_inv h"
  shows "q \<in> set (all_clients h) \<longleftrightarrow> (\<exists>u. q \<in> set (GetClientConns u h))"
proof -
  have ok: "gm_ok (clientConns h)" using assms by (simp add: hub_inv_def clients_inv_def)
  have "q \<in> set (all_clients h) \<longleftrightarrow> (\<exists>u rs. gm_get (clientConns h) u = Some rs \<and> q \<in> set rs)"
    unfolding all_clients_def by (simp add: gm_get_Some_iff [OF ok]) (metis snd_conv surj_pair)
  also have "\<dots> \<longleftrightarrow> (\<exists>u. q \<in> set (GetClientConns u h))"
  proof -
    have "(\<exists>rs. gm_get (clientConns h) u = Some rs \<and> q \<in> set rs) \<longleftrightarrow> q \<in> set (GetClientConns u h)" for u
      by (cases "gm_get (clientConns h) u") (simp_all add: GetClientConns_def)
    then show ?thesis by simp
  qed
  finally show ?thesis .
qed

lemma distinct_concat_snd:
  "gm_ok m \<Longrightarrow> \<forall>k v. (k, v) \<in> set m \<longrightarrow> distinct v \<Longrightarrow>
   \<forall>k v l w x. (k, v) \<in> set m \<longrightarrow> (l, w) \<in> set m \<longrightarrow> x \<in> set v \<longrightarrow> x \<in> set w \<longrightarrow> k = l \<Longrightarrow>
   distinct (concat (map snd m))"
proof (induction m)
  case (Cons p m)
  obtain k v where p: "p = (k, v)" by (cases p)
  have "set v \<inter> \<Union> (set ` snd ` set m) = {}"
  proof (rule equals0I)
    fix x assume "x \<in> set v \<inter> \<Union> (set ` snd ` set m)"
    then obtain l w where lw: "x \<in> set v" "(l, w) \<in> set m" "x \<in> set w" by force
    have "(k, v) \<in> set (p # m)" "(l, w) \<in> set (p # m)" using p lw(2) by simp_all
    then have "k = l" using Cons.prems(3) lw(1,3) by blast
    moreover have "l \<noteq> k" using Cons.prems(1) p lw(2) by (force simp: gm_ok_def)
    ultimately show False by simp
  qed
  moreover have "distinct (concat (map snd m))"
  proof (rule Cons.IH)
    show "gm_ok m" using Cons.prems(1) by (simp add: gm_ok_def)
    show "\<forall>k v. (k, v) \<in> set m \<longrightarrow> distinct v" using Cons.prems(2) by simp
    show "\<forall>k v l w x. (k, v) \<in> set m \<longrightarrow> (l, w) \<in> set m \<longrightarrow> x \<in> set v \<longrightarrow> x \<in> set w \<longrightarrow> k = l"
      using Cons.prems(3) by (meson list.set_intros(2))
  qed
  ultimately show ?case using Cons.prems(2) p by simp
qed simp

lemma distinct_all_clients:
  assumes "hub_inv h"
  shows "distinct (all_clients h)"
  unfolding all_clients_def
proof (rule distinct_concat_snd)
  show ok: "gm_ok (clientConns h)" using assms by (simp add: hub_inv_def clients_inv_def)
  show "\<forall>k v. (k, v) \<in> set (clientConns h) \<longrightarrow> distinct v"
    using assms by (simp add: hub_inv_def clients_inv_def devices_ok_def gm_get_Some_iff)
  show "\<forall>k v l w x. (k, v) \<in> set (clientConns h) \<longrightarrow> (l, w) \<in> set (clientConns h) \<longrightarrow>
      x \<in> set v \<longrightarrow> x \<in> set w \<longrightarrow> k = l"
    using listed_once(3) [OF assms] by (simp add: gm_get_Some_iff [OF ok])
qed

lemma outbox_broadcastPresence:
  assumes "hub_inv h"
  shows "outbox (broadcastPresence i ct b h) q =
    (if (\<exists>u. q \<in> set (GetClientConns u h)) \<and> accepts h q
     then outbox h q @ [presence_update i ct b] else outbox h q)"
  using outbox_send_all [OF distinct_all_clients [OF assms]] set_all_clients [OF assms]
  by (simp add: broadcastPresence_def)

lemma IsClosed_sends_only: "sends_only h h' \<Longrightarrow> IsClosed r h' = IsClosed r h"
proof (cases "heap h r")
  case None
  assume "sends_only h h'"
  then have "heap h' r = None" using None sends_only_None by blast
  with None show ?thesis by (simp add: IsClosed_def)
next
  case (Some c)
  assume "sends_only h h'"
  then obtain c' where "heap h' r = Some c'" "conn_sent c c'" using Some by (rule sends_only_conn)
  with Some show ?thesis by (simp add: IsClosed_def conn_sent_fields(4))
qed

lemma sends_only_broadcastPresence [simp]: "sends_only h (broadcastPresence i ct b h)"
  by (simp add: broadcastPresence_def)

lemma frame_broadcastPresence [simp]:
  "agents (broadcastPresence i ct b h) = agents h"
  "clientConns (broadcastPresence i ct b h) = clientConns h"
  "IsClosed r (broadcastPresence i ct b h) = IsClosed r h"
  by (simp_all add: sends_only_frame [OF sends_only_broadcastPresence]
      IsClosed_sends_only [OF sends_only_broadcastPresence])

lemma frame_add_metric [simp]:
  "agents (add_metric f h) = agents h" "clientConns (add_metric f h) = clientConns h"
  "heap (add_metric f h) = heap h" "registering (add_metric f h) = registering h"
  by (simp_all add: add_metric_def)

lemma IsClosed_add_metric [simp]: "IsClosed r (add_metric f h) = IsClosed r h"
  by (simp add: IsClosed_def)

lemma same_heap_views:
  "heap h' q = heap h q \<Longrightarrow> outbox h' q = outbox h q"
  "heap h' q = heap h q \<Longrightarrow> accepts h' q = accepts h q"
  "heap h' q = heap h q \<Longrightarrow> IsClosed q h' = IsClosed q h"
  by (simp_all add: outbox_def accepts_def IsClosed_def)

lemma GetClientConns_cong: "clientConns h' = clientConns h \<Longrightarrow> GetClientConns u h' = GetClientConns u h"
  by (simp add: GetClientConns_def)

lemma GetClientConns_waiting [simp]:
  "GetClientConns u (h\<lparr>registering := x\<rparr>) = GetClientConns u h"
  "GetClientConns u (h\<lparr>unregistering := x\<rparr>) = GetClientConns u h"
  by (simp_all add: GetClientConns_def)

lemma unregister_waiting:
  assumes "hub_inv h" and "r \<in> set (unregistering h)"
  shows "hub_inv (h\<lparr>unregistering := remove1 r (unregistering h)\<rparr>)"
    and "heap h r \<noteq> None" and "r \<notin> set (registering h)"
  using assms set_remove1_subset [of r "unregistering h"]
  by (auto simp: hub_inv_defs live_as_def devices_ok_def device_of_def [abs_def])

subsection \<open>Every reachable state\<close>

text \<open>C5: in every reachable state of the hub, whatever the interleaving of the hub loop, the connect
  handlers, the pumps, the monitor and the senders: each agent entry is an open agent connection
  with that id; each user entry is a non-empty list of distinct open connections of that user with
  pairwise different non-empty device ids; a connection's closed flag agrees with its channel; and
  no buffer exceeds its capacity.\<close>

theorem hub_reachable_invariant: "hub_reachable h \<Longrightarrow> hub_inv h"
  by (rule hub_reachable_inv)

text \<open>C6: in a reachable state the hub loop never panics, neither on a registration nor on an
  unregistration: no channel is closed twice and no unknown connection is met.\<close>

theorem hub_never_panics:
  assumes "hub_reachable h"
  shows "(\<forall>r \<in> set (registering h).
            hub_register now r (h\<lparr>registering := remove1 r (registering h)\<rparr>) \<noteq> None) \<and>
         (\<forall>r \<in> set (unregistering h).
            hub_unregister r (h\<lparr>unregistering := remove1 r (unregistering h)\<rparr>) \<noteq> None)"
proof -
  note inv = hub_reachable_inv [OF assms]
  have "hub_register now r (h\<lparr>registering := remove1 r (registering h)\<rparr>) \<noteq> None"
    if r: "r \<in> set (registering h)" for r
  proof -
    obtain c where "fresh_conn (h\<lparr>registering := remove1 r (registering h)\<rparr>) r c"
      "hub_inv (h\<lparr>registering := remove1 r (registering h)\<rparr>)"
      by (rule waiting_fresh [OF inv r])
    from hub_register_ok [OF this(2,1), of now] show ?thesis by auto
  qed
  moreover have "hub_unregister r (h\<lparr>unregistering := remove1 r (unregistering h)\<rparr>) \<noteq> None"
    if "r \<in> set (unregistering h)" for r
    using hub_unregister_ok [OF unregister_waiting(1) [OF inv that]]
      unregister_waiting(2,3) [OF inv that] by auto
  ultimately show ?thesis by blast
qed

subsection \<open>Registration\<close>

text \<open>C9: when the hub loop registers an agent connection, \<open>GetAgent\<close> returns the new connection, the
  connection it replaces (if any) is closed, every other agent and every user's list are unchanged,
  and every listed client connection with room in its buffer gets the presence update.\<close>

theorem register_agent_takes_over:
  assumes "hub_reachable h" and "r \<in> set (registering h)" and "heap h r = Some conn"
    and "connType conn = ''agent''"
    and "hub_register now r (h\<lparr>registering := remove1 r (registering h)\<rparr>) = Some h'"
  shows "GetAgent (conn_id conn) h' = Some r \<and> \<not> IsClosed r h' \<and>
    (\<forall>old. GetAgent (conn_id conn) h = Some old \<longrightarrow> old \<noteq> r \<and> IsClosed old h') \<and>
    (\<forall>a. a \<noteq> conn_id conn \<longrightarrow> GetAgent a h' = GetAgent a h) \<and>
    (\<forall>u. GetClientConns u h' = GetClientConns u h) \<and>
    (\<forall>u q. q \<in> set (GetClientConns u h) \<longrightarrow> outbox h' q =
       (if accepts h q then outbox h q @ [presence_update (conn_id conn) ''agent'' True] else outbox h q))"
proof -
  let ?h = "h\<lparr>registering := remove1 r (registering h)\<rparr>"
  obtain c where fresh: "fresh_conn ?h r c" and inv: "hub_inv ?h"
    by (rule waiting_fresh [OF hub_reachable_inv [OF assms(1)] assms(2)])
  then have c: "c = conn" using assms(3) by (simp add: fresh_conn_def)
  obtain h2 where ra: "register_agent now r conn ?h = Some (broadcastPresence (conn_id conn) ''agent'' True
      (add_metric ConnectionsTotal_update h2))" and inv2: "hub_inv h2"
    and ag: "agents h2 = gm_set (conn_id conn) r (agents ?h)" and cl: "clientConns h2 = clientConns ?h"
    and hr: "heap h2 r = Some (conn\<lparr>lastHeartbeat := now\<rparr>)"
    and other: "\<And>q. q \<noteq> r \<Longrightarrow> gm_get (agents ?h) (conn_id conn) \<noteq> Some q \<Longrightarrow> heap h2 q = heap ?h q"
    and old: "\<And>q. gm_get (agents ?h) (conn_id conn) = Some q \<Longrightarrow> IsClosed q h2"
    using register_agent_result [OF inv fresh [unfolded c] assms(4), of now] by blast
  let ?m = "add_metric ConnectionsTotal_update h2"
  have h': "h' = broadcastPresence (conn_id conn) ''agent'' True ?m"
    using assms(3-5) ra by (simp add: hub_register_def)
  have GCC: "GetClientConns u ?m = GetClientConns u h" for u
    by (rule GetClientConns_cong) (simp add: cl)
  have cb: "outbox h' q = (if accepts h q then outbox h q @ [presence_update (conn_id conn) ''agent'' True]
      else outbox h q)" if q: "q \<in> set (GetClientConns u h)" for u q
  proof -
    have lq: "live_as ?h False u q"
      using GetClientConns_inv(2) [OF inv, of u] q by auto
    have "q \<noteq> r" using fresh_not_client [OF fresh, of u] q by auto
    moreover have "gm_get (agents ?h) (conn_id conn) \<noteq> Some q"
      using agent_live [OF inv] lq live_unique by blast
    ultimately have hq: "heap ?m q = heap h q" using other [of q] by simp
    have "\<exists>u. q \<in> set (GetClientConns u ?m)" using q GCC by metis
    then show ?thesis
      using outbox_broadcastPresence [of ?m] inv2 same_heap_views(1,2) [OF hq] by (simp add: h')
  qed
  have "old \<noteq> r" if "GetAgent (conn_id conn) h = Some old" for old
    using that fresh by (auto simp: fresh_conn_def GetAgent_def)
  moreover have "\<not> IsClosed r h2" using fresh c hr by (simp add: fresh_conn_def IsClosed_def)
  moreover have "GetClientConns u h' = GetClientConns u h" for u
    by (rule GetClientConns_cong) (simp add: h' cl)
  ultimately show ?thesis
    using ag old cb by (simp add: GetAgent_def h')
qed

text \<open>C11: when the hub loop registers a client connection, the user's list gets the new connection: in
  place of the connection with the same non-empty device id, which is closed, or else at the end.
  No other connection is touched, and no agent's or other user's entry.\<close>

theorem register_client_multi_device:
  assumes "hub_reachable h" and "r \<in> set (registering h)" and "heap h r = Some conn"
    and "connType conn \<noteq> ''agent''"
    and "hub_register now r (h\<lparr>registering := remove1 r (registering h)\<rparr>) = Some h'"
  shows "(case find_index (same_device h conn) (GetClientConns (conn_id conn) h) of
       None \<Rightarrow> GetClientConns (conn_id conn) h' = GetClientConns (conn_id conn) h @ [r] \<and> heap h' = heap h
     | Some i \<Rightarrow> GetClientConns (conn_id conn) h' = (GetClientConns (conn_id conn) h)[i := r] \<and>
         IsClosed (GetClientConns (conn_id conn) h ! i) h' \<and>
         (\<forall>q. q \<noteq> GetClientConns (conn_id conn) h ! i \<longrightarrow> heap h' q = heap h q)) \<and>
    (\<forall>u. u \<noteq> conn_id conn \<longrightarrow> GetClientConns u h' = GetClientConns u h) \<and>
    agents h' = agents h"
proof -
  let ?h = "h\<lparr>registering := remove1 r (registering h)\<rparr>" and ?u = "conn_id conn"
  obtain c where fresh: "fresh_conn ?h r c" and inv: "hub_inv ?h"
    by (rule waiting_fresh [OF hub_reachable_inv [OF assms(1)] assms(2)])
  then have c: "c = conn" using assms(3) by (simp add: fresh_conn_def)
  have sd: "same_device ?h conn = same_device h conn" by (simp add: same_device_def fun_eq_iff)
  show ?thesis
  proof (rule register_client_result [OF inv fresh [unfolded c] assms(4)])
    fix h2
    assume rc: "register_client r conn ?h = Some (add_metric ConnectionsTotal_update h2)"
      and ag: "agents h2 = agents ?h"
      and cs: "case find_index (same_device ?h conn) (GetClientConns ?u ?h) of
         None \<Rightarrow> GetClientConns ?u h2 = GetClientConns ?u ?h @ [r] \<and> heap h2 = heap ?h
       | Some i \<Rightarrow> GetClientConns ?u h2 = (GetClientConns ?u ?h)[i := r] \<and>
           IsClosed (GetClientConns ?u ?h ! i) h2 \<and>
           (\<forall>q. q \<noteq> GetClientConns ?u ?h ! i \<longrightarrow> heap h2 q = heap ?h q)"
      and others: "\<And>v. v \<noteq> ?u \<Longrightarrow> GetClientConns v h2 = GetClientConns v ?h"
    let ?m = "add_metric ConnectionsTotal_update h2"
    have h': "h' = ?m" using assms(3-5) rc by (simp add: hub_register_def)
    have G: "GetClientConns v ?m = GetClientConns v h2" for v by (rule GetClientConns_cong) simp
    have I: "IsClosed q ?m = IsClosed q h2" for q by (rule same_heap_views(3)) simp
    show ?thesis
      unfolding h' G I
      using cs others ag unfolding sd by (auto split: option.splits)
  qed
qed

subsection \<open>Unregistration\<close>

text \<open>C10: an agent connection that has been replaced unregisters late (its read pump ends, or the
  monitor reports it) without any effect: the newer connection stays registered. If it is still the
  registered one, it is removed and closed, and only its own entry is removed.\<close>

theorem unregister_agent_exact:
  assumes "hub_reachable h" and "r \<in> set (unregistering h)" and "heap h r = Some conn"
    and "connType conn = ''agent''"
    and "hub_unregister r (h\<lparr>unregistering := remove1 r (unregistering h)\<rparr>) = Some h'"
  shows "if GetAgent (conn_id conn) h = Some r
         then GetAgent (conn_id conn) h' = None \<and> IsClosed r h' \<and>
           (\<forall>a. a \<noteq> conn_id conn \<longrightarrow> GetAgent a h' = GetAgent a h) \<and>
           (\<forall>u. GetClientConns u h' = GetClientConns u h)
         else h' = h\<lparr>unregistering := remove1 r (unregistering h)\<rparr>"
proof -
  let ?h = "h\<lparr>unregistering := remove1 r (unregistering h)\<rparr>"
  note inv = hub_reachable_inv [OF assms(1)]
  note w = unregister_waiting [OF inv assms(2)]
  have c: "heap ?h r = Some conn" and reg: "r \<notin> set (registering ?h)"
    using assms(3) w(3) by simp_all
  note res = unregister_agent_result(1) [OF w(1) c assms(4) reg]
  show ?thesis
  proof (cases "GetAgent (conn_id conn) h = Some r")
    case True
    let ?h1 = "set_conn r (shut conn) (?h\<lparr>agents := gm_del (conn_id conn) (agents ?h)\<rparr>)"
    have h': "h' = broadcastPresence (conn_id conn) ''agent'' False ?h1"
      using assms(3-5) res True by (simp add: hub_unregister_def GetAgent_def)
    have "IsClosed r ?h1" by (simp add: IsClosed_def)
    with True show ?thesis unfolding h' by (simp add: GetAgent_def GetClientConns_def)
  next
    case False
    then show ?thesis using assms(3-5) res by (simp add: hub_unregister_def GetAgent_def)
  qed
qed

text \<open>unregistering a client connection removes exactly that connection from its user's list and
  closes it; the user's other devices, the other users and the agents are unchanged.\<close>

theorem unregister_client_exact:
  assumes "hub_reachable h" and "r \<in> set (unregistering h)" and "heap h r = Some conn"
    and "connType conn \<noteq> ''agent''"
    and "hub_unregister r (h\<lparr>unregistering := remove1 r (unregistering h)\<rparr>) = Some h'"
  shows "set (GetClientConns (conn_id conn) h') = set (GetClientConns (conn_id conn) h) - {r} \<and>
    IsClosed r h' \<and> (\<forall>q. q \<noteq> r \<longrightarrow> heap h' q = heap h q) \<and>
    (\<forall>u. u \<noteq> conn_id conn \<longrightarrow> GetClientConns u h' = GetClientConns u h) \<and> agents h' = agents h"
proof -
  let ?h = "h\<lparr>unregistering := remove1 r (unregistering h)\<rparr>" and ?u = "conn_id conn"
  note w = unregister_waiting [OF hub_reachable_inv [OF assms(1)] assms(2)]
  have c: "heap ?h r = Some conn" and reg: "r \<notin> set (registering ?h)"
    using assms(3) w(3) by simp_all
  note rc = remove_client_result [OF w(1), where r = r and u = ?u]
  have h': "h' = (if closed conn then remove_client r ?u ?h
      else set_conn r (shut conn) (remove_client r ?u ?h))" (is "_ = ?h'")
    using unregister_client_result(1) [OF w(1) c assms(4) reg] assms(3-5)
    by (simp add: hub_unregister_def)
  have G: "GetClientConns v ?h' = GetClientConns v (remove_client r ?u ?h)" for v
    by (rule GetClientConns_cong) simp
  have "IsClosed r ?h'" using c rc(5) by (simp add: IsClosed_def)
  then show ?thesis
    unfolding h' G using rc(2,3,4,5) by simp
qed

subsection \<open>A closed connection is final\<close>

lemma send_to_closed: "IsClosed r h \<Longrightarrow> heap (send_to q d h) r = heap h r"
  by (cases "q = r") (auto simp: IsClosed_def send_to_def SafeSend_def heap_SafeSend_other
      split: option.splits send_result.splits)

lemma send_all_closed: "IsClosed r h \<Longrightarrow> heap (send_all rs d h) r = heap h r"
proof -
  have "IsClosed r h \<Longrightarrow> heap (fold (\<lambda>q. send_to q d) rs h) r = heap h r"
  proof (induction rs arbitrary: h)
    case (Cons q rs)
    note same = send_to_closed [OF Cons.prems, of q d]
    have "IsClosed r (send_to q d h)" using same_heap_views(3) [OF same] Cons.prems by simp
    from Cons.IH [OF this] same show ?case by simp
  qed simp
  then show "IsClosed r h \<Longrightarrow> ?thesis" by (simp add: send_all_def)
qed

lemma broadcastPresence_closed: "IsClosed r h \<Longrightarrow> heap (broadcastPresence i ct b h) r = heap h r"
  by (simp add: broadcastPresence_def send_all_closed)

lemma live_not_closed: "live_as h ia i r \<Longrightarrow> \<not> IsClosed r h"
  by (auto simp: live_as_def IsClosed_def)

lemma hub_register_closed:
  assumes "hub_inv h" and "q \<in> set (registering h)" and "IsClosed r h"
    and "hub_register now q (h\<lparr>registering := remove1 q (registering h)\<rparr>) = Some h'"
  shows "heap h' r = heap h r"
proof -
  let ?h = "h\<lparr>registering := remove1 q (registering h)\<rparr>"
  obtain c where fresh: "fresh_conn ?h q c" and inv: "hub_inv ?h"
    by (rule waiting_fresh [OF assms(1,2)])
  have cl: "IsClosed r ?h" using assms(3) by (simp add: IsClosed_def)
  then have neq: "r \<noteq> q" using fresh by (auto simp: fresh_conn_def IsClosed_def)
  show ?thesis
  proof (cases "connType c = ''agent''")
    case True
    obtain h2 where ra: "register_agent now q c ?h = Some (broadcastPresence (conn_id c) ''agent'' True
        (add_metric ConnectionsTotal_update h2))"
      and o: "\<And>p. p \<noteq> q \<Longrightarrow> gm_get (agents ?h) (conn_id c) \<noteq> Some p \<Longrightarrow> heap h2 p = heap ?h p"
      by (rule register_agent_result [OF inv fresh True, of now], erule that, simp)
    have "gm_get (agents ?h) (conn_id c) \<noteq> Some r"
    proof
      assume "gm_get (agents ?h) (conn_id c) = Some r"
      from live_not_closed [OF agent_live [OF inv this]] cl show False by simp
    qed
    then have hr: "heap h2 r = heap h r" using o [OF neq] by simp
    from same_heap_views(3) [OF hr] have "IsClosed r h2" using assms(3) by simp
    then show ?thesis
      using assms(4) ra True fresh hr
      by (auto simp: hub_register_def fresh_conn_def broadcastPresence_closed)
  next
    case False
    show ?thesis
    proof (rule register_client_result [OF inv fresh False])
      fix h2
      assume rc: "register_client q c ?h = Some (add_metric ConnectionsTotal_update h2)"
        and cs: "case find_index (same_device ?h c) (GetClientConns (conn_id c) ?h) of
           None \<Rightarrow> GetClientConns (conn_id c) h2 = GetClientConns (conn_id c) ?h @ [q] \<and> heap h2 = heap ?h
         | Some i \<Rightarrow> GetClientConns (conn_id c) h2 = (GetClientConns (conn_id c) ?h)[i := q] \<and>
             IsClosed (GetClientConns (conn_id c) ?h ! i) h2 \<and>
             (\<forall>p. p \<noteq> GetClientConns (conn_id c) ?h ! i \<longrightarrow> heap h2 p = heap ?h p)"
      have "heap h2 r = heap h r"
      proof (cases "find_index (same_device ?h c) (GetClientConns (conn_id c) ?h)")
        case (Some i)
        then have "GetClientConns (conn_id c) ?h ! i \<in> set (GetClientConns (conn_id c) ?h)"
          using find_index_SomeD nth_mem by metis
        then have "r \<noteq> GetClientConns (conn_id c) ?h ! i"
          using client_live [OF inv] live_not_closed cl by blast
        with cs Some show ?thesis by simp
      qed (use cs in simp)
      then show ?thesis using assms(4) rc False fresh by (auto simp: hub_register_def fresh_conn_def)
    qed
  qed
qed

lemma hub_unregister_closed:
  assumes "hub_inv h" and "heap h q = Some conn" and "q \<notin> set (registering h)" and "IsClosed r h"
    and "hub_unregister q h = Some h'"
  shows "heap h' r = heap h r"
proof (cases "connType conn = ''agent''")
  case True
  note res = unregister_agent_result(1) [OF assms(1,2) True assms(3)]
  show ?thesis
  proof (cases "gm_get (agents h) (conn_id conn) = Some q")
    case g: True
    have "r \<noteq> q" using agent_live [OF assms(1) g] live_not_closed assms(4) by blast
    then have "heap (set_conn q (shut conn) (h\<lparr>agents := gm_del (conn_id conn) (agents h)\<rparr>)) r = heap h r"
      (is "heap ?h1 r = _") by simp
    moreover from same_heap_views(3) [OF this] have "IsClosed r ?h1" using assms(4) by simp
    moreover have "h' = broadcastPresence (conn_id conn) ''agent'' False ?h1"
      using assms(2,5) res g True by (simp add: hub_unregister_def)
    ultimately show ?thesis by (simp only: broadcastPresence_closed)
  qed (use assms(2,5) res True in \<open>simp add: hub_unregister_def\<close>)
next
  case False
  note res = unregister_client_result(1) [OF assms(1,2) False assms(3)]
  have "closed conn" if "q = r" using that assms(2,4) by (simp add: IsClosed_def)
  then show ?thesis
    using assms(2,5) res False remove_client_result(5) [OF assms(1)]
    by (auto simp: hub_unregister_def split: if_splits)
qed

lemma suffix_tl: "suffix ds (d # ds)"
  by (simp add: suffix_def)

text \<open>C12: once a connection is closed no step of the system reopens it or puts anything more into its
  buffer; its write pump can only drain what was already there.\<close>

theorem closed_connection_final:
  assumes "hub_reachable h" and "hub_step h h'" and "IsClosed r h"
  shows "IsClosed r h' \<and> suffix (outbox h' r) (outbox h r)"
proof -
  note inv = hub_reachable_inv [OF assms(1)]
  have same: "?thesis" if "heap h' r = heap h r"
    using assms(3) same_heap_views(1,3) [OF that] by simp
  have fresh: "r \<noteq> next_ref h" using inv assms(3) by (auto simp: hub_inv_def conns_inv_def IsClosed_def split: option.splits)
  show ?thesis
    using assms(2)
  proof (cases rule: hub_step.cases)
    case (connect_agent i ver now)
    then show ?thesis using fresh by (intro same) (simp add: start_register_def)
  next
    case (connect_client i dev ver now)
    then show ?thesis using fresh by (intro same) (simp add: start_register_def)
  next
    case (run_register q now)
    then show ?thesis by (intro same hub_register_closed [OF inv _ assms(3)])
  next
    case (run_unregister q)
    note w = unregister_waiting [OF inv run_unregister(1)]
    from w(2) obtain conn where "heap h q = Some conn" by blast
    with w(3) run_unregister(2) assms(3)
      hub_unregister_closed [OF w(1), of q conn r h']
    show ?thesis by (intro same) (simp add: IsClosed_def)
  next
    case (run_broadcast d)
    have 1: "heap (send_all (map snd (agents h)) d h) r = heap h r" (is "heap ?h1 r = _")
      by (rule send_all_closed [OF assms(3)])
    from same_heap_views(3) [OF 1] have "IsClosed r ?h1" using assms(3) by simp
    then show ?thesis using run_broadcast 1
      by (intro same) (simp add: hub_broadcast_def send_all_closed)
  next
    case (set_status a st)
    then show ?thesis using assms(3)
      by (auto simp: SetAgentStatus_def IsClosed_def outbox_def split: option.splits)
  next
    case (touch now q)
    then show ?thesis using assms(3)
      by (auto simp: TouchHeartbeat_def IsClosed_def outbox_def split: option.splits)
  next
    case (write_pump q)
    then show ?thesis using assms(3)
      by (auto simp: writePump_recv_def IsClosed_def outbox_def suffix_tl
          split: option.splits list.splits)
  qed (intro same; simp add: send_to_closed [OF assms(3)] checkStaleAgents_def Let_def)+
qed

subsection \<open>Heartbeat monitoring\<close>

text \<open>one run of the monitor hands to the hub loop exactly the registered agents whose last
  heartbeat is older than the timeout, each once, and adds their number to the stale-agent counter.\<close>

theorem checkStaleAgents_exact:
  assumes "hub_reachable h" and "0 \<le> timeout" and "timeout < int64_max"
  shows "\<exists>rs. unregistering (checkStaleAgents now timeout h) = unregistering h @ rs \<and> distinct rs \<and>
    set rs = {r. \<exists>a c. GetAgent a h = Some r \<and> heap h r = Some c \<and> now - lastHeartbeat c > timeout} \<and>
    staleAgents (checkStaleAgents now timeout h) = wrap64 (staleAgents h + int (card (set rs)))"
proof -
  let ?rs = "stale_agents now timeout h"
  note inv = hub_reachable_inv [OF assms(1)]
  have ok: "gm_ok (agents h)" using inv by (simp add: hub_inv_def agents_inv_def)
  have "inj_on snd (set (agents h))"
    using listed_once(1) [OF inv] by (auto simp: inj_on_def gm_get_Some_iff [OF ok])
  then have d: "distinct ?rs"
    using ok unfolding stale_agents_def gm_ok_def
    by (intro distinct_filter) (auto simp: distinct_map)
  have "set ?rs = {r. \<exists>a c. GetAgent a h = Some r \<and> heap h r = Some c \<and> now - lastHeartbeat c > timeout}"
    unfolding stale_agents_def GetAgent_def gm_get_Some_iff [OF ok]
    by (force simp: time_sub_gt [OF assms(2,3)] split: option.splits)
  moreover have "card (set ?rs) = length ?rs" using d by (rule distinct_card)
  ultimately show ?thesis
    using d by (intro exI [of _ ?rs] conjI) (simp_all add: checkStaleAgents_def Let_def del: Collect_conj_eq)
qed

subsection \<open>Concrete runs\<close>

text \<open>Two short runs of the hub on which the properties above are applied: agent \<open>a\<close> connects, is
  registered, and connects again; user \<open>u\<close> does the same from one device.\<close>

definition run_loop_register :: "int \<Rightarrow> conn_ref \<Rightarrow> hub \<Rightarrow> hub" where
  "run_loop_register now r h = the (hub_register now r (h\<lparr>registering := remove1 r (registering h)\<rparr>))"

definition agent_run :: "nat \<Rightarrow> hub" where
  "agent_run n = (let
     c = new_connection ''agent'' ''a'' [] ''v1'' 0;
     t1 = start_register c (newHub None);
     t2 = run_loop_register 5 0 t1;
     t3 = start_register c t2;
     t4 = run_loop_register 7 1 t3;
     t5 = t4\<lparr>unregistering := unregistering t4 @ [0]\<rparr>
   in [t1, t2, t3, t4, t5] ! n)"

definition client_run :: "nat \<Rightarrow> hub" where
  "client_run n = (let
     c = new_connection ''client'' ''u'' ''d'' ''v1'' 0;
     t1 = start_register c (newHub None);
     t2 = run_loop_register 5 0 t1;
     t3 = start_register c t2;
     t4 = t2\<lparr>unregistering := unregistering t2 @ [0]\<rparr>
   in [t1, t2, t3, t4] ! n)"

lemmas run_defs = agent_run_def client_run_def run_loop_register_def newHub_def start_register_def
  new_connection_def make_chan_def hub_register_def register_agent_def register_client_def
  gm_set_def gm_get_def retire_def MarkClosed_def close_send_def set_conn_def Let_def
  add_metric_def broadcastPresence_def all_clients_def send_all_def GetClientConns_def
  same_device_def zero_time_def GetAgent_def IsClosed_def

lemma agent_run_reachable: "n < 5 \<Longrightarrow> hub_reachable (agent_run n)"
proof -
  have 0: "hub_reachable (agent_run 0)"
    using hub_next [OF hub_start connect_agent] by (simp add: agent_run_def Let_def)
  have "hub_register 5 0 ((agent_run 0)\<lparr>registering := remove1 0 (registering (agent_run 0))\<rparr>) =
      Some (agent_run 1)" by (simp add: run_defs)
  then have 1: "hub_reachable (agent_run 1)"
    by (rule hub_next [OF 0 run_register, rotated]) (simp add: run_defs)
  have 2: "hub_reachable (agent_run 2)"
    using hub_next [OF 1 connect_agent] by (simp add: agent_run_def Let_def)
  have "hub_register 7 1 ((agent_run 2)\<lparr>registering := remove1 1 (registering (agent_run 2))\<rparr>) =
      Some (agent_run 3)" by (simp add: run_defs)
  then have 3: "hub_reachable (agent_run 3)"
    by (rule hub_next [OF 2 run_register, rotated]) (simp add: run_defs)
  have "agent_run 4 = (agent_run 3)\<lparr>unregistering := unregistering (agent_run 3) @ [0]\<rparr>"
    by (simp add: agent_run_def Let_def)
  then have 4: "hub_reachable (agent_run 4)"
    using hub_next [OF 3 readPump_exit [of "agent_run 3" 0]] by (simp add: run_defs)
  assume "n < 5"
  then have "n \<in> {0, 1, 2, 3, 4}" by auto
  with 0 1 2 3 4 show ?thesis by blast
qed

lemma client_run_reachable: "n < 4 \<Longrightarrow> hub_reachable (client_run n)"
proof -
  have 0: "hub_reachable (client_run 0)"
    using hub_next [OF hub_start connect_client] by (simp add: client_run_def Let_def)
  have "hub_register 5 0 ((client_run 0)\<lparr>registering := remove1 0 (registering (client_run 0))\<rparr>) =
      Some (client_run 1)" by (simp add: run_defs)
  then have 1: "hub_reachable (client_run 1)"
    by (rule hub_next [OF 0 run_register, rotated]) (simp add: run_defs)
  have 2: "hub_reachable (client_run 2)"
    using hub_next [OF 1 connect_client] by (simp add: client_run_def Let_def)
  have "client_run 3 = (client_run 1)\<lparr>unregistering := unregistering (client_run 1) @ [0]\<rparr>"
    by (simp add: client_run_def Let_def)
  then have 3: "hub_reachable (client_run 3)"
    using hub_next [OF 1 readPump_exit [of "client_run 1" 0]] by (simp add: run_defs)
  assume "n < 4"
  then have "n \<in> {0, 1, 2, 3}" by auto
  with 0 1 2 3 show ?thesis by blast
qed

theorem hub_reachable_invariant_witness: "hub_inv (agent_run 3)"
  by (rule hub_reachable_invariant) (simp add: agent_run_reachable)

theorem hub_never_panics_witness:
  "hub_register 7 1 ((agent_run 2)\<lparr>registering := []\<rparr>) \<noteq> None \<and>
   hub_unregister 0 ((agent_run 4)\<lparr>unregistering := []\<rparr>) \<noteq> None"
  using hub_never_panics [of "agent_run 2" 7] hub_never_panics [of "agent_run 4" 7]
  by (simp add: agent_run_reachable) (simp add: run_defs)

theorem register_agent_takes_over_witness:
  "GetAgent ''a'' (agent_run 3) = Some 1 \<and> IsClosed 0 (agent_run 3)"
proof -
  have "hub_register 7 1 ((agent_run 2)\<lparr>registering := remove1 1 (registering (agent_run 2))\<rparr>) =
      Some (agent_run 3)" by (simp add: run_defs)
  moreover have "1 \<in> set (registering (agent_run 2))"
    "heap (agent_run 2) 1 = Some (new_connection ''agent'' ''a'' [] ''v1'' 0)"
    "GetAgent ''a'' (agent_run 2) = Some 0"
    by (simp_all add: run_defs)
  ultimately show ?thesis
    using register_agent_takes_over [of "agent_run 2" 1 "new_connection ''agent'' ''a'' [] ''v1'' 0" 7 "agent_run 3"]
    by (simp add: agent_run_reachable new_connection_def)
qed

theorem register_client_multi_device_witness:
  "\<exists>h'. hub_register 9 1 ((client_run 2)\<lparr>registering := []\<rparr>) = Some h' \<and>
     GetClientConns ''u'' h' = [1] \<and> IsClosed 0 h'"
proof -
  let ?c = "new_connection ''client'' ''u'' ''d'' ''v1'' 0"
  have r: "registering (client_run 2) = [1]" and c: "heap (client_run 2) 1 = Some ?c"
    and f: "find_index (same_device (client_run 2) ?c) (GetClientConns ''u'' (client_run 2)) = Some 0"
    and G: "GetClientConns ''u'' (client_run 2) = [0]"
    by (simp_all add: run_defs)
  obtain h' where h': "hub_register 9 1 ((client_run 2)\<lparr>registering := []\<rparr>) = Some h'"
    by (cases "hub_register 9 1 ((client_run 2)\<lparr>registering := []\<rparr>)") (simp_all add: run_defs)
  then show ?thesis
    using register_client_multi_device [of "client_run 2" 1 ?c 9 h'] r c f G
    by (simp add: client_run_reachable new_connection_def)
qed

theorem unregister_agent_exact_witness:
  "hub_unregister 0 ((agent_run 4)\<lparr>unregistering := []\<rparr>) = Some ((agent_run 4)\<lparr>unregistering := []\<rparr>)"
proof -
  have r: "unregistering (agent_run 4) = [0]" and g: "GetAgent ''a'' (agent_run 4) = Some 1"
    by (simp_all add: run_defs)
  obtain c where c: "heap (agent_run 4) 0 = Some c" "connType c = ''agent''" "conn_id c = ''a''"
    by (simp add: run_defs)
  obtain h' where h': "hub_unregister 0 ((agent_run 4)\<lparr>unregistering := []\<rparr>) = Some h'"
    by (cases "hub_unregister 0 ((agent_run 4)\<lparr>unregistering := []\<rparr>)")
      (simp_all add: run_defs hub_unregister_def unregister_agent_def)
  then show ?thesis
    using unregister_agent_exact [of "agent_run 4" 0 c h'] r g c
    by (simp add: agent_run_reachable)
qed

theorem unregister_client_exact_witness:
  "\<exists>h'. hub_unregister 0 ((client_run 3)\<lparr>unregistering := []\<rparr>) = Some h' \<and>
     GetClientConns ''u'' h' = [] \<and> IsClosed 0 h'"
proof -
  have r: "unregistering (client_run 3) = [0]" and g: "GetClientConns ''u'' (client_run 3) = [0]"
    by (simp_all add: run_defs)
  obtain c where c: "heap (client_run 3) 0 = Some c" "connType c = ''client''" "conn_id c = ''u''"
    by (simp add: run_defs)
  obtain h' where h': "hub_unregister 0 ((client_run 3)\<lparr>unregistering := []\<rparr>) = Some h'"
    by (cases "hub_unregister 0 ((client_run 3)\<lparr>unregistering := []\<rparr>)")
      (simp_all add: run_defs hub_unregister_def unregister_client_def remove_client_def
        swap_remove_def retire_once_def gm_del_def)
  then show ?thesis
    using unregister_client_exact [of "client_run 3" 0 c h'] r g c
    by (simp add: client_run_reachable)
qed

theorem closed_connection_final_witness:
  "IsClosed 0 (send_to 0 JNull (agent_run 3)) \<and>
   suffix (outbox (send_to 0 JNull (agent_run 3)) 0) (outbox (agent_run 3) 0)"
  by (rule closed_connection_final [OF agent_run_reachable safe_send]) (simp_all add: run_defs)

theorem checkStaleAgents_exact_witness:
  "\<exists>rs. unregistering (checkStaleAgents (100 * second) (90 * second) (agent_run 3)) =
      unregistering (agent_run 3) @ rs \<and> distinct rs \<and>
    set rs = {r. \<exists>a c. GetAgent a (agent_run 3) = Some r \<and> heap (agent_run 3) r = Some c \<and>
      100 * second - lastHeartbeat c > 90 * second} \<and>
    staleAgents (checkStaleAgents (100 * second) (90 * second) (agent_run 3)) =
      wrap64 (staleAgents (agent_run 3) + int (card (set rs)))"
  by (rule checkStaleAgents_exact [OF agent_run_reachable]) (simp_all add: int64_max_def)

end
