(* ===== verification/Routing.thy ===== *)
theory Routing
  imports Conversations Rate_Limit Hub_Registry
begin

section \<open>Routing: from a WebSocket frame to delivery\<close>

text \<open>
  routing.go and \<open>checkRateLimit\<close> of middleware.go: what one frame received on a connection does to the
  server. The state is the hub, the offline queue, the database, the two message limiters, and the
  list of the calls \<open>go notifyUser(...)\<close> that have been started. A frame is handled by the read pump of
  its connection; the model is the whole handler, run to its end.

  The sender is a reference to its connection, whose type and id never change.
\<close>

record notification =
  nt_user :: string
  nt_title :: string
  nt_body :: string
  nt_conversation :: string

record server =
  srv_hub :: hub
  srv_queue :: OfflineQueue
  srv_db :: database
  srv_limits :: message_limits
  srv_notified :: "notification list"

text \<open>The presence settings that the heartbeat acknowledgment reports.\<close>

record presence_config =
  agentPresenceEnabled :: bool
  agentPresenceInterval :: int
  agentPresenceTimeout :: int

definition sender_type :: "conn_ref \<Rightarrow> server \<Rightarrow> string" where
  "sender_type r s = (case heap (srv_hub s) r of None \<Rightarrow> [] | Some c \<Rightarrow> connType c)"

definition sender_id :: "conn_ref \<Rightarrow> server \<Rightarrow> string" where
  "sender_id r s = (case heap (srv_hub s) r of None \<Rightarrow> [] | Some c \<Rightarrow> conn_id c)"

definition on_hub :: "(hub \<Rightarrow> hub) \<Rightarrow> server \<Rightarrow> server" where
  "on_hub f s = s\<lparr>srv_hub := f (srv_hub s)\<rparr>"

definition error_message :: "string \<Rightarrow> json" where
  "error_message m = OutgoingMessage ''error'' (JObj [(''error'', JStr m)])"

definition sendError :: "conn_ref \<Rightarrow> string \<Rightarrow> server \<Rightarrow> server" where
  "sendError r m = on_hub (send_to r (error_message m))"

definition checkRateLimit :: "env \<Rightarrow> conn_ref \<Rightarrow> server \<Rightarrow> bool \<times> server" where
  "checkRateLimit e r s =
     (let (v, ml) = check_limits (clock e ''checkRateLimit.conn'') (clock e ''checkRateLimit.user'')
                      (sender_id r s) (srv_limits s);
          s1 = s\<lparr>srv_limits := ml\<rparr>;
          count = on_hub (\<lambda>h. add_metric ErrorsTotal_update (add_metric RateLimited_update h))
      in case v of
           WithinLimits \<Rightarrow> (True, s1)
         | ConnExceeded \<Rightarrow> (False, sendError r ''rate limit exceeded: too many messages'' (count s1))
         | UserExceeded \<Rightarrow> (False, sendError r ''rate limit exceeded: user message quota reached'' (count s1)))"

text \<open>\<open>truncate\<close> counts bytes.\<close>

definition truncate :: "string \<Rightarrow> nat \<Rightarrow> string" where
  "truncate str n =
     (if length str \<le> n then str
      else if n \<le> 3 then take n str
      else take (n - 3) str @ ''...'')"

subsection \<open>Chat messages\<close>

text \<open>\<open>offlineQueue.Enqueue\<close> followed by \<open>persistQueue\<close>.\<close>

definition enqueue_offline :: "env \<Rightarrow> string \<Rightarrow> json \<Rightarrow> server \<Rightarrow> server" where
  "enqueue_offline e recipient d s =
     s\<lparr>srv_queue := Enqueue (clock e ''Enqueue'') recipient d (srv_queue s),
       srv_db := (srv_db s)\<lparr>t_queue :=
         the (persistQueue (sql_fails e ''persistQueue'') (clock e ''persistQueue'') recipient d (Some (t_queue (srv_db s))))\<rparr>\<rparr>"

definition notify_later :: "string \<Rightarrow> RoutedMessage \<Rightarrow> server \<Rightarrow> server" where
  "notify_later recipient msg s =
     s\<lparr>srv_notified := srv_notified s @
        [\<lparr>nt_user = recipient, nt_title = ''New Message'', nt_body = truncate (Content msg) 100,
          nt_conversation = ConversationID msg\<rparr>]\<rparr>"

definition deliver_to_user :: "env \<Rightarrow> string \<Rightarrow> RoutedMessage \<Rightarrow> json \<Rightarrow> server \<Rightarrow> server" where
  "deliver_to_user e recipient msg outgoing s =
     (let conns = GetClientConns recipient (srv_hub s) in
      if conns \<noteq> [] then
        (let (delivered, h) = send_count conns outgoing (srv_hub s);
             s1 = s\<lparr>srv_hub := h\<rparr>
         in if delivered = 0 then notify_later recipient msg (enqueue_offline e recipient outgoing s1) else s1)
      else notify_later recipient msg (enqueue_offline e recipient outgoing s))"

definition deliver_to_agent :: "env \<Rightarrow> string \<Rightarrow> json \<Rightarrow> server \<Rightarrow> server" where
  "deliver_to_agent e recipient outgoing s =
     (case GetAgent recipient (srv_hub s) of
        Some agent \<Rightarrow>
          (let (ok, h) = SafeSend agent outgoing (srv_hub s);
               s1 = s\<lparr>srv_hub := h\<rparr>
           in if ok then s1 else enqueue_offline e recipient outgoing s1)
      | None \<Rightarrow> enqueue_offline e recipient outgoing s)"

definition message_sent_ack :: "string \<Rightarrow> json" where
  "message_sent_ack conv =
     OutgoingMessage ''message_sent'' (JObj [(''conversation_id'', JStr conv), (''status'', JStr ''delivered'')])"

text \<open>The message the server stores and forwards: the client's content and attachments under the
  identity of the connection.\<close>

definition authored :: "string \<Rightarrow> string \<Rightarrow> string \<Rightarrow> RoutedMessage \<Rightarrow> RoutedMessage" where
  "authored ct i recipient msg =
     msg\<lparr>SenderType := ct, SenderID := i, rm_type := ''message'', RecipientID := recipient\<rparr>"

definition routeChatMessage :: "env \<Rightarrow> conn_ref \<Rightarrow> json option \<Rightarrow> server \<Rightarrow> server" where
  "routeChatMessage e r dat s =
     (case (case dat of None \<Rightarrow> None | Some j \<Rightarrow> unmarshal_routed j) of
        None \<Rightarrow> sendError r ''invalid message data'' s
      | Some msg0 \<Rightarrow>
          if Content msg0 = [] then sendError r ''content is required'' s
          else if ConversationID msg0 = [] then sendError r ''conversation_id is required'' s
          else
            (let ct = sender_type r s; i = sender_id r s in
             case getConversation e (ConversationID msg0) (srv_db s) of
               Inl _ \<Rightarrow> sendError r ''conversation not found'' s
             | Inr None \<Rightarrow> sendError r ''conversation not found'' s
             | Inr (Some conv) \<Rightarrow>
                 if ct = ''agent'' \<and> conv_AgentID conv \<noteq> i then
                   sendError r ''not authorized for this conversation'' s
                 else if ct = ''client'' \<and> conv_UserID conv \<noteq> i then
                   sendError r ''not authorized for this conversation'' s
                 else
                   (let recipient = (if ct = ''agent'' then conv_UserID conv else conv_AgentID conv);
                        msg = authored ct i recipient msg0
                    in case storeMessage e msg (srv_db s) of
                         (Some _, _) \<Rightarrow> sendError r ''failed to store message'' s
                       | (None, d) \<Rightarrow>
                           (let s1 = s\<lparr>srv_db := d\<rparr>;
                                outgoing = OutgoingMessage ''message'' (marshal_routed msg);
                                s2 = (if ct = ''agent'' then deliver_to_user e recipient msg outgoing s1
                                      else deliver_to_agent e recipient outgoing s1)
                            in on_hub (send_to r (message_sent_ack (ConversationID msg))) s2))))"

subsection \<open>Typing, status and heartbeat\<close>

definition unmarshal_fields :: "string list \<Rightarrow> json option \<Rightarrow> string list option" where
  "unmarshal_fields names dat =
     (case dat of
        None \<Rightarrow> None
      | Some j \<Rightarrow> (case struct_members j of
                    None \<Rightarrow> None
                  | Some ms \<Rightarrow> those (map (\<lambda>n. get_str n ms) names)))"

text \<open>The event goes to every device of the user, or to the agent.\<close>

definition forward :: "string \<Rightarrow> Conversation \<Rightarrow> json \<Rightarrow> server \<Rightarrow> server" where
  "forward ct conv d s =
     (if ct = ''agent'' then on_hub (send_all (GetClientConns (conv_UserID conv) (srv_hub s)) d) s
      else (case GetAgent (conv_AgentID conv) (srv_hub s) of
              None \<Rightarrow> s
            | Some agent \<Rightarrow> on_hub (send_to agent d) s))"

definition typing_event :: "string \<Rightarrow> string \<Rightarrow> string \<Rightarrow> json" where
  "typing_event conv ct i = OutgoingMessage ''typing''
     (JObj [(''conversation_id'', JStr conv), (''sender_id'', JStr i), (''sender_type'', JStr ct)])"

definition routeTypingIndicator :: "env \<Rightarrow> conn_ref \<Rightarrow> json option \<Rightarrow> server \<Rightarrow> server" where
  "routeTypingIndicator e r dat s =
     (case unmarshal_fields [''conversation_id''] dat of
        Some [convID] \<Rightarrow>
          if convID = [] then s
          else (case getConversation e convID (srv_db s) of
                  Inr (Some conv) \<Rightarrow>
                    (let ct = sender_type r s; i = sender_id r s in
                     if ct = ''agent'' \<and> conv_AgentID conv \<noteq> i then s
                     else if ct = ''client'' \<and> conv_UserID conv \<noteq> i then s
                     else forward ct conv (typing_event convID ct i) s)
                | _ \<Rightarrow> s)
      | _ \<Rightarrow> s)"

definition status_broadcast :: "string \<Rightarrow> string \<Rightarrow> string \<Rightarrow> json" where
  "status_broadcast ct i st = OutgoingMessage ''status''
     (JObj [(''sender_id'', JStr i), (''sender_type'', JStr ct), (''status'', JStr st)])"

definition status_event :: "string \<Rightarrow> string \<Rightarrow> string \<Rightarrow> string \<Rightarrow> json" where
  "status_event conv ct i st = OutgoingMessage ''status''
     (JObj [(''conversation_id'', JStr conv), (''sender_id'', JStr i), (''sender_type'', JStr ct), (''status'', JStr st)])"

definition routeStatusUpdate :: "env \<Rightarrow> conn_ref \<Rightarrow> json option \<Rightarrow> server \<Rightarrow> server" where
  "routeStatusUpdate e r dat s =
     (case unmarshal_fields [''conversation_id'', ''status''] dat of
        Some [convID, st] \<Rightarrow>
          (let ct = sender_type r s; i = sender_id r s;
               s1 = (if ct = ''agent'' \<and> st \<noteq> [] then
                       on_hub (\<lambda>h. BroadcastToAllClients (status_broadcast ct i st) (SetAgentStatus i st h)) s
                     else s)
           in if convID = [] then s1
              else (case getConversation e convID (srv_db s1) of
                      Inr (Some conv) \<Rightarrow> forward ct conv (status_event convID ct i st) s1
                    | _ \<Rightarrow> s1))
      | _ \<Rightarrow> s)"

definition heartbeat_ack :: "(int \<Rightarrow> string) \<Rightarrow> presence_config \<Rightarrow> int \<Rightarrow> json" where
  "heartbeat_ack fmt cfg now = OutgoingMessage ''heartbeat_ack''
     (JObj [(''interval_s'', JNum (dur_seconds (agentPresenceInterval cfg))),
            (''monitoring'', JBool (agentPresenceEnabled cfg)),
            (''server_time'', JStr (fmt now)),
            (''timeout_s'', JNum (dur_seconds (agentPresenceTimeout cfg)))])"

text \<open>The rendering of an instant as RFC 3339 text with nanoseconds is the parameter \<open>fmt\<close>.\<close>

definition routeHeartbeat :: "(int \<Rightarrow> string) \<Rightarrow> presence_config \<Rightarrow> env \<Rightarrow> conn_ref \<Rightarrow> server \<Rightarrow> server" where
  "routeHeartbeat fmt cfg e r s =
     on_hub (send_to r (heartbeat_ack fmt cfg (clock e ''heartbeat.ack'')))
       (on_hub (TouchHeartbeat (clock e ''heartbeat.touch'') r) s)"

definition routeMessage :: "(int \<Rightarrow> string) \<Rightarrow> presence_config \<Rightarrow> env \<Rightarrow> conn_ref \<Rightarrow> frame \<Rightarrow> server \<Rightarrow> server" where
  "routeMessage fmt cfg e r raw s =
     (let (ok, s1) = checkRateLimit e r s in
      if \<not> ok then s1
      else (case unmarshal_incoming raw of
              None \<Rightarrow> sendError r ''invalid message format'' s1
            | Some msg \<Rightarrow>
                if im_type msg = ''message'' then routeChatMessage e r (im_data msg) s1
                else if im_type msg = ''typing'' then routeTypingIndicator e r (im_data msg) s1
                else if im_type msg = ''status'' then routeStatusUpdate e r (im_data msg) s1
                else if im_type msg = ''heartbeat'' then routeHeartbeat fmt cfg e r s1
                else sendError r (''unknown message type: '' @ im_type msg) s1))"

text \<open>One iteration of the loop of \<open>readPump\<close>: a frame has been read from the socket.\<close>

definition readPump_message :: "(int \<Rightarrow> string) \<Rightarrow> presence_config \<Rightarrow> env \<Rightarrow> conn_ref \<Rightarrow> frame \<Rightarrow> server \<Rightarrow> server" where
  "readPump_message fmt cfg e r message s =
     routeMessage fmt cfg e r message
       (on_hub (\<lambda>h. add_metric MessagesIn_update (h\<lparr>messagesRouted := wrap64 (messagesRouted h + 1)\<rparr>)) s)"

end
