(* ===== verification/Http.thy ===== *)
theory Http
  imports Routing
begin

section \<open>HTTP: requests, responses, tokens and middleware\<close>

text \<open>
  What the HTTP side of the server uses of \<open>net/http\<close>: a request is its method, path, headers, query and
  form values, JSON body and remote address; a response is its status code, headers and JSON body.
  A handler maps a request and a state to a response and a state.

  The JWT library is a parameter, the record \<open>jwt_lib\<close>: whether a token text parses and names an HMAC
  method, the claims it carries if its signature and times are valid for a key at an instant, and
  the signing of claims.
\<close>

text \<open>What \<open>ParseMultipartForm\<close> and \<open>FormFile("file")\<close> make of the body of an upload.\<close>

record uploaded_file =
  up_filename :: string
  up_size :: int
  up_type :: string \<comment> \<open>the \<open>Content-Type\<close> of the part\<close>
  up_content :: string

datatype multipart = BadForm | NoFile | FilePart uploaded_file

record http_request =
  rq_method :: string
  rq_path :: string
  rq_header :: "string \<Rightarrow> string" \<comment> \<open>\<open>r.Header.Get\<close>\<close>
  rq_query :: "string \<Rightarrow> string"  \<comment> \<open>\<open>r.URL.Query().Get\<close>\<close>
  rq_form :: "string \<Rightarrow> string"   \<comment> \<open>\<open>r.FormValue\<close>\<close>
  rq_body :: frame
  rq_remote :: string
  rq_multipart :: multipart
  rq_user :: "string option"       \<comment> \<open>the context value set by \<open>authMiddleware\<close>\<close>

record http_response =
  rs_code :: nat
  rs_headers :: "(string, string) gomap"
  rs_body :: json

type_synonym 's handler = "http_request \<Rightarrow> 's \<Rightarrow> http_response \<times> 's"

definition StatusText :: "nat \<Rightarrow> string" where
  "StatusText code =
     (if code = 200 then ''OK'' else if code = 204 then ''No Content''
      else if code = 400 then ''Bad Request'' else if code = 401 then ''Unauthorized''
      else if code = 403 then ''Forbidden'' else if code = 404 then ''Not Found''
      else if code = 405 then ''Method Not Allowed'' else if code = 409 then ''Conflict''
      else if code = 429 then ''Too Many Requests'' else if code = 500 then ''Internal Server Error''
      else if code = 503 then ''Service Unavailable'' else [])"

definition writeJSON :: "nat \<Rightarrow> json \<Rightarrow> http_response" where
  "writeJSON code body =
     \<lparr>rs_code = code, rs_headers = [(''Content-Type'', ''application/json'')], rs_body = body\<rparr>"

text \<open>A handler that encodes its answer without calling \<open>WriteHeader\<close> answers 200.\<close>

abbreviation ok_json :: "json \<Rightarrow> http_response" where
  "ok_json \<equiv> writeJSON 200"

definition writeJSONError :: "nat \<Rightarrow> string \<Rightarrow> http_response" where
  "writeJSONError code m = writeJSON code (JObj [(''error'', JStr m), (''status'', JStr (StatusText code))])"

definition str_obj :: "(string \<times> string) list \<Rightarrow> json" where
  "str_obj kvs = JObj (map (\<lambda>(k, v). (k, JStr v)) kvs)"

lemma rs_code_write [simp]: "rs_code (writeJSON c b) = c" "rs_code (writeJSONError c m) = c"
  by (simp_all add: writeJSON_def writeJSONError_def)

subsection \<open>Tokens\<close>

record Claims =
  UserID :: string
  Username :: string

record jwt_lib =
  jwt_is_hmac :: "string \<Rightarrow> bool option" \<comment> \<open>None: not a token at all\<close>
  jwt_verified :: "string \<Rightarrow> int \<Rightarrow> string \<Rightarrow> Claims option" \<comment> \<open>key, instant, token\<close>
  jwt_sign :: "string \<Rightarrow> Claims \<Rightarrow> int \<Rightarrow> int \<Rightarrow> string option" \<comment> \<open>key, claims, issued, expires\<close>

text \<open>What the library documents: a token signed with a key verifies with it until it expires; the expiry
  time is kept in whole seconds.\<close>

definition jwt_sound :: "jwt_lib \<Rightarrow> bool" where
  "jwt_sound J \<longleftrightarrow> (\<forall>k c iat exp tok. jwt_sign J k c iat exp = Some tok \<longrightarrow>
     tok \<noteq> [] \<and> jwt_is_hmac J tok = Some True \<and> (\<forall>now. iat \<le> now \<and> now < exp div second * second \<longrightarrow> jwt_verified J k now tok = Some c))"

definition ValidateJWT :: "jwt_lib \<Rightarrow> string \<Rightarrow> int \<Rightarrow> string \<Rightarrow> string + Claims" where
  "ValidateJWT J jwtSecret now tok =
     (if tok = [] then Inl ''empty token''
      else (case jwt_is_hmac J tok of
              None \<Rightarrow> Inl ''token is malformed''
            | Some False \<Rightarrow> Inl ''unexpected signing method''
            | Some True \<Rightarrow> (case jwt_verified J jwtSecret now tok of
                              None \<Rightarrow> Inl ''token is invalid''
                            | Some claims \<Rightarrow> Inr claims)))"

definition GenerateJWT :: "jwt_lib \<Rightarrow> string \<Rightarrow> int \<Rightarrow> int \<Rightarrow> string \<Rightarrow> string \<Rightarrow> string option" where
  "GenerateJWT J jwtSecret now1 now2 userID username =
     jwt_sign J jwtSecret \<lparr>UserID = userID, Username = username\<rparr> now2 (now1 + 24 * hour)"

text \<open>\<open>if len(token) > 7 && token[:7] == "Bearer " { token = token[7:] }\<close>\<close>

definition strip_bearer :: "string \<Rightarrow> string" where
  "strip_bearer tok = (if length tok > 7 \<and> take 7 tok = ''Bearer '' then drop 7 tok else tok)"

text \<open>The settings and libraries a handler reads.\<close>

record config =
  cf_jwt :: jwt_lib
  cf_jwtSecret :: string
  cf_agentSecret :: string  \<comment> \<open>the variable \<open>agentSecret\<close>\<close>
  cf_envAgentSecret :: string \<comment> \<open>what \<open>getAgentSecret()\<close> reads now\<close>
  cf_adminSecret :: string
  cf_corsAllowedOrigins :: string
  cf_verify :: "string \<Rightarrow> string \<Rightarrow> bool" \<comment> \<open>\<open>bcrypt.CompareHashAndPassword\<close>\<close>
  cf_hash :: "string \<Rightarrow> string option" \<comment> \<open>\<open>bcrypt.GenerateFromPassword\<close>\<close>
  cf_rfc3339 :: "int \<Rightarrow> string" \<comment> \<open>\<open>Time.Format(time.RFC3339)\<close>\<close>
  cf_json_time :: "int \<Rightarrow> string" \<comment> \<open>RFC 3339 with nanoseconds, as \<open>time.Time\<close> is encoded\<close>
  cf_db_time :: "int \<Rightarrow> string" \<comment> \<open>the text the database driver stores for an instant\<close>

definition request_claims :: "config \<Rightarrow> env \<Rightarrow> http_request \<Rightarrow> string + Claims" where
  "request_claims cf e rq =
     ValidateJWT (cf_jwt cf) (cf_jwtSecret cf) (clock e ''ValidateJWT'') (strip_bearer (rq_header rq ''Authorization''))"

text \<open>The opening that the user handlers share: the method check, then the bearer token. A handler that
  reaches its body knows the claims of the token.\<close>

definition user_endpoint :: "config \<Rightarrow> env \<Rightarrow> string \<Rightarrow> (Claims \<Rightarrow> 's handler) \<Rightarrow> 's handler" where
  "user_endpoint cf e httpMethod body rq s =
     (if rq_method rq \<noteq> httpMethod then (writeJSONError 405 ''method not allowed'', s)
      else (case request_claims cf e rq of
              Inl _ \<Rightarrow> (writeJSONError 401 ''unauthorized'', s)
            | Inr claims \<Rightarrow> body claims rq s))"

lemma user_endpoint_refuses:
  "request_claims cf e rq = Inl err \<Longrightarrow>
     snd (user_endpoint cf e m body rq s) = s \<and> rs_code (fst (user_endpoint cf e m body rq s)) \<in> {401, 405}"
  by (simp add: user_endpoint_def)

lemma user_endpoint_opens:
  "request_claims cf e rq = Inr claims \<Longrightarrow> rq_method rq = m \<Longrightarrow>
     user_endpoint cf e m body rq s = body claims rq s"
  by (simp add: user_endpoint_def)

text \<open>The environment that one of several calls of the same function sees.\<close>

definition at_call :: "string \<Rightarrow> env \<Rightarrow> env" where
  "at_call call e = \<lparr>sql_fails = (\<lambda>p. sql_fails e (call @ p)), clock = (\<lambda>p. clock e (call @ p))\<rparr>"

subsection \<open>Middleware\<close>

definition isOriginAllowed :: "string \<Rightarrow> string \<Rightarrow> bool" where
  "isOriginAllowed corsAllowedOrigins origin \<longleftrightarrow>
     corsAllowedOrigins = ''*'' \<or>
     (\<exists>allowed \<in> set (map trim_space (split_on CHR '','' corsAllowedOrigins)). allowed = origin \<or> allowed = ''*'')"

definition csrfMiddleware :: "config \<Rightarrow> 's handler \<Rightarrow> 's handler" where
  "csrfMiddleware cf next rq s =
     (if rq_method rq \<in> {''GET'', ''HEAD'', ''OPTIONS''} then next rq s
      else if rq_header rq ''X-Requested-With'' = ''XMLHttpRequest'' then next rq s
      else if rq_header rq ''X-CSRF-Token'' \<noteq> [] then next rq s
      else if rq_header rq ''Origin'' \<noteq> [] \<and> isOriginAllowed (cf_corsAllowedOrigins cf) (rq_header rq ''Origin'') then next rq s
      else if rq_header rq ''Authorization'' \<noteq> [] then next rq s
      else if rq_header rq ''X-Agent-Secret'' \<noteq> [] then next rq s
      else (writeJSONError 403 ''CSRF validation failed: missing Origin, X-Requested-With, X-CSRF-Token, or Authorization header'', s))"

definition set_header :: "string \<Rightarrow> string \<Rightarrow> http_response \<Rightarrow> http_response" where
  "set_header k v rs = rs\<lparr>rs_headers := gm_set k v (rs_headers rs)\<rparr>"

text \<open>The CORS headers; \<open>corsMiddleware\<close> sets them before the handler runs, and the handlers never touch
  them, so they are added to the response here.\<close>

definition cors_headers :: "config \<Rightarrow> string \<Rightarrow> http_response \<Rightarrow> http_response" where
  "cors_headers cf origin rs =
     (if origin = [] then rs
      else
        (let rs1 = (if cf_corsAllowedOrigins cf = ''*'' then set_header ''Access-Control-Allow-Origin'' ''*'' rs
                    else if isOriginAllowed (cf_corsAllowedOrigins cf) origin
                         then set_header ''Access-Control-Allow-Origin'' origin rs else rs)
         in set_header ''Access-Control-Max-Age'' ''86400''
              (set_header ''Access-Control-Expose-Headers'' ''X-RateLimit-Limit, X-RateLimit-Remaining, X-RateLimit-Reset''
                (set_header ''Access-Control-Allow-Headers'' ''Content-Type, Authorization, X-Agent-Secret''
                  (set_header ''Access-Control-Allow-Methods'' ''GET, POST, PUT, DELETE, OPTIONS'' rs1)))))"

definition corsMiddleware :: "config \<Rightarrow> 's handler \<Rightarrow> 's handler" where
  "corsMiddleware cf next rq s =
     (if rq_method rq = ''OPTIONS'' then
        (cors_headers cf (rq_header rq ''Origin'') \<lparr>rs_code = 204, rs_headers = [], rs_body = JNull\<rparr>, s)
      else (let (rs, s') = next rq s in (cors_headers cf (rq_header rq ''Origin'') rs, s')))"

definition ValidateAdminSecret :: "config \<Rightarrow> string \<Rightarrow> bool" where
  "ValidateAdminSecret cf secret \<longleftrightarrow> secret = cf_adminSecret cf"

definition adminAuthMiddleware :: "config \<Rightarrow> 's handler \<Rightarrow> 's handler" where
  "adminAuthMiddleware cf next rq s =
     (let s0 = rq_header rq ''X-Admin-Secret'';
          s1 = (if s0 = [] then rq_form rq ''admin_secret'' else s0);
          s2 = (if s1 = [] then rq_query rq ''admin_secret'' else s1)
      in if ValidateAdminSecret cf s2 then next rq s else (writeJSONError 401 ''unauthorized'', s))"

definition authMiddleware :: "config \<Rightarrow> env \<Rightarrow> 's handler \<Rightarrow> 's handler" where
  "authMiddleware cf e next rq s =
     (case request_claims cf e rq of
        Inl _ \<Rightarrow> (writeJSONError 401 ''unauthorized'', s)
      | Inr claims \<Rightarrow> next (rq\<lparr>rq_user := Some (UserID claims)\<rparr>) s)"

definition getUserID :: "http_request \<Rightarrow> string option" where
  "getUserID rq = (case rq_user rq of None \<Rightarrow> None | Some u \<Rightarrow> if u = [] then None else Some u)"

definition securityHeadersMiddleware :: "'s handler \<Rightarrow> 's handler" where
  "securityHeadersMiddleware next rq s =
     (let (rs, s') = next rq s in
      (foldr (\<lambda>(k, v). set_header k v)
         [(''X-Content-Type-Options'', ''nosniff''), (''X-Frame-Options'', ''DENY''),
          (''X-XSS-Protection'', ''1; mode=block''), (''Referrer-Policy'', ''strict-origin-when-cross-origin''),
          (''Permissions-Policy'', ''camera=(), microphone=(), geolocation=()''),
          (''Content-Security-Policy'',
           ''default-src 'self'; script-src 'self' 'unsafe-inline' 'unsafe-eval'; style-src 'self' 'unsafe-inline'; '' @
           ''img-src 'self' data: blob:; connect-src 'self' ws: wss:; font-src 'self'; frame-ancestors 'none'; '' @
           ''form-action 'self'; base-uri 'self'' @ [CHR 0x27])] rs, s'))"

text \<open>\<open>strings.Index\<close> and \<open>strings.LastIndex\<close> of one byte.\<close>

definition last_index :: "char \<Rightarrow> string \<Rightarrow> nat option" where
  "last_index c s = (case find_index (\<lambda>x. x = c) (rev s) of None \<Rightarrow> None | Some i \<Rightarrow> Some (length s - 1 - i))"

definition extractIP :: "http_request \<Rightarrow> string" where
  "extractIP rq =
     (let xff = rq_header rq ''X-Forwarded-For''; xri = rq_header rq ''X-Real-IP'' in
      if xff \<noteq> [] then
        (case find_index (\<lambda>x. x = CHR '','') xff of
           Some idx \<Rightarrow> trim_space (take idx xff)
         | None \<Rightarrow> trim_space xff)
      else if xri \<noteq> [] then trim_space xri
      else (case last_index CHR '':'' (rq_remote rq) of
              Some idx \<Rightarrow> take idx (rq_remote rq)
            | None \<Rightarrow> rq_remote rq))"

text \<open>The per-IP limiters (\<open>ipRateLimitMiddleware\<close>, \<open>authRateLimitMiddleware\<close>): the limiter and the metrics are
  reached through the accessors of the state.\<close>

definition ip_limit_middleware ::
  "('s \<Rightarrow> RateLimiter) \<Rightarrow> (RateLimiter \<Rightarrow> 's \<Rightarrow> 's) \<Rightarrow> ('s \<Rightarrow> 's) \<Rightarrow> string \<Rightarrow> int \<Rightarrow> 's handler \<Rightarrow> 's handler" where
  "ip_limit_middleware get put count_refused message now next rq s =
     (let (ok, rl) = RateLimiter_Allow now (extractIP rq) (get s);
          s1 = put rl s
      in if ok then next rq s1
         else (set_header ''Retry-After'' ''60'' (writeJSONError 429 message), count_refused s1))"

end
