(* ===== verification/Replay.thy ===== *)
theory Replay
  imports Offline_Queue
begin

section \<open>Replay of queued messages on reconnection\<close>

text \<open>
  \<open>replayOfflineMessages\<close> of queue.go: it drains the recipient's queue, deletes the persisted copy, and
  only then sends the messages to the new connection, stopping at the first send that fails. The
  theorems say what the recipient gets, in which situation that is everything, what is lost
  otherwise, and when a restart of the server keeps the queue.
\<close>

record replay_state =
  rp_hub :: hub
  rp_queue :: OfflineQueue
  rp_table :: queue_table

definition safeSendToConn :: "conn_ref \<Rightarrow> json \<Rightarrow> hub \<Rightarrow> bool \<times> hub" where
  "safeSendToConn r d h = SafeSend r d h"

text \<open>Only messages and read receipts are replayed.\<close>

definition replayable :: "json \<Rightarrow> bool" where
  "replayable d \<longleftrightarrow> (case outgoing_type d of None \<Rightarrow> False | Some t \<Rightarrow> t = ''message'' \<or> t = ''read_receipt'')"

fun replay_loop :: "conn_ref \<Rightarrow> json list \<Rightarrow> hub \<Rightarrow> hub" where
  "replay_loop r [] h = h"
| "replay_loop r (d # ds) h =
     (if replayable d then
        (let (ok, h1) = safeSendToConn r d h in if ok then replay_loop r ds h1 else h1)
      else replay_loop r ds h)"

text \<open>The arguments are the clock read by \<open>Drain\<close> and whether the \<open>DELETE\<close> fails; \<open>rp_queue\<close> is never \<open>nil\<close>
  once the hub exists.\<close>

definition replayOfflineMessages :: "int \<Rightarrow> bool \<Rightarrow> conn_ref \<Rightarrow> string \<Rightarrow> replay_state \<Rightarrow> replay_state" where
  "replayOfflineMessages now del_fails r i s =
     (let (messages, q) = Drain now i (rp_queue s);
          s1 = s\<lparr>rp_queue := q\<rparr>
      in if messages = [] then s1
         else s1\<lparr>rp_table := deleteQueueMessages del_fails i (rp_table s1),
                 rp_hub := replay_loop r messages (rp_hub s1)\<rparr>)"

subsection \<open>What the new connection receives\<close>

definition room :: "conn_ref \<Rightarrow> hub \<Rightarrow> nat" where
  "room r h = (case heap h r of
     None \<Rightarrow> 0
   | Some c \<Rightarrow> if closed c \<or> ch_closed (send c) then 0 else ch_cap (send c) - length (ch_buf (send c)))"

lemma room_accepts: "room r h = 0 \<longleftrightarrow> \<not> accepts h r"
  by (auto simp: room_def accepts_def split: option.splits)

lemma room_send: "accepts h r \<Longrightarrow> room r (snd (SafeSend r d h)) = room r h - 1"
  by (erule SafeSend_accepted [where d = d]) (simp add: room_def)

lemma replay_loop_fold:
  "replay_loop r ds h = fold (\<lambda>d h. snd (SafeSend r d h)) (filter replayable ds) h"
proof (induction ds arbitrary: h)
  case (Cons d ds)
  have stuck: "fold (\<lambda>d h. snd (SafeSend r d h)) xs h = h" if "\<not> accepts h r" for xs
    using that by (induction xs) (simp_all add: SafeSend_refused)
  show ?case
  proof (cases "accepts h r")
    case True
    then show ?thesis
      using Cons hub_delivery.result [of r d h] by (simp add: safeSendToConn_def case_prod_beta Let_def)
  next
    case False
    then show ?thesis using Cons stuck by (simp add: safeSendToConn_def SafeSend_refused)
  qed
qed simp

lemma outbox_replay_loop: "outbox (replay_loop r ds h) r = outbox h r @ take (room r h) (filter replayable ds)"
  unfolding replay_loop_fold
  by (rule hub_delivery.box_send_list [where n = "room r"]) (simp_all add: room_accepts room_send)

lemma outbox_replay_loop_other: "q \<noteq> r \<Longrightarrow> outbox (replay_loop r ds h) q = outbox h q"
proof -
  assume "q \<noteq> r"
  then have "outbox (fold (\<lambda>d h. snd (SafeSend r d h)) xs h) q = outbox h q" for xs
    by (induction xs arbitrary: h) (simp_all add: hub_delivery.box_send)
  then show ?thesis by (simp add: replay_loop_fold)
qed

lemma replay_queue_of:
  "queue_of j (rp_queue (replayOfflineMessages now f r i s)) = (if j = i then [] else queue_of j (rp_queue s))"
  by (simp add: replayOfflineMessages_def Let_def case_prod_beta queue_of_Drain)

lemma replay_queue_params:
  "maxLen (rp_queue (replayOfflineMessages now f r i s)) = maxLen (rp_queue s)"
  "ttl (rp_queue (replayOfflineMessages now f r i s)) = ttl (rp_queue s)"
  by (simp_all add: replayOfflineMessages_def Let_def case_prod_beta Drain_def)

lemma replay_table:
  "rp_table (replayOfflineMessages now f r i s) =
     (if \<exists>m \<in> set (queue_of i (rp_queue s)). \<not> expired now (rp_queue s) m
      then deleteQueueMessages f i (rp_table s) else rp_table s)"
  by (auto simp: replayOfflineMessages_def Let_def case_prod_beta fst_Drain filter_empty_conv)

lemma replay_hub:
  "rp_hub (replayOfflineMessages now f r i s) = replay_loop r (fst (Drain now i (rp_queue s))) (rp_hub s)"
  by (simp add: replayOfflineMessages_def Let_def case_prod_beta)

lemma fresh_room: "heap h r = Some (new_connection ct i dev ver now) \<Longrightarrow> room r h = 256"
  by (simp add: room_def new_connection_def make_chan_def)

text \<open>C18: a replay to a connection that has as many free places in its buffer as there are queued
  messages (a connection starts with 256, and the server's queue holds at most 100 per recipient)
  appends to the connection's buffer every queued message that has not expired and is a message or read
  receipt, in the order they were queued, and nothing else; no other connection receives anything. The
  recipient's queue is then empty and every other recipient's is as before. The persisted copy: when at
  least one message had not expired and the DELETE succeeds, exactly the recipient's rows are gone;
  when all had expired (or none was queued) or the DELETE fails, the table is as it was.\<close>

theorem replay_delivers_all:
  assumes "length (queue_of i (rp_queue s)) \<le> room r (rp_hub s)"
  shows "let s' = replayOfflineMessages now del_fails r i s;
             live = filter (\<lambda>m. \<not> expired now (rp_queue s) m) (queue_of i (rp_queue s)) in
     outbox (rp_hub s') r = outbox (rp_hub s) r @ filter replayable (map data live) \<and>
     (\<forall>q. q \<noteq> r \<longrightarrow> outbox (rp_hub s') q = outbox (rp_hub s) q) \<and>
     queue_of i (rp_queue s') = [] \<and>
     (\<forall>j. j \<noteq> i \<longrightarrow> queue_of j (rp_queue s') = queue_of j (rp_queue s)) \<and>
     rp_table s' = (if live \<noteq> [] \<and> \<not> del_fails
                    then map_option (filter (\<lambda>row. oq_recipient row \<noteq> i)) (rp_table s) else rp_table s)"
proof -
  let ?live = "filter (\<lambda>m. \<not> expired now (rp_queue s) m) (queue_of i (rp_queue s))"
  have "length (filter replayable (map data ?live)) \<le> room r (rp_hub s)"
    by (rule order_trans [OF length_filter_le], simp, rule order_trans [OF length_filter_le assms])
  then have "outbox (rp_hub (replayOfflineMessages now del_fails r i s)) r =
      outbox (rp_hub s) r @ filter replayable (map data ?live)"
    by (simp add: replay_hub fst_Drain outbox_replay_loop)
  moreover have "rp_table (replayOfflineMessages now del_fails r i s) = (if ?live \<noteq> [] \<and> \<not> del_fails
      then map_option (filter (\<lambda>row. oq_recipient row \<noteq> i)) (rp_table s) else rp_table s)"
    by (auto simp: replay_table deleteQueueMessages_def filter_empty_conv split: option.split)
  ultimately show ?thesis by (simp add: Let_def replay_queue_of replay_hub outbox_replay_loop_other)
qed

text \<open>messages that do not get through are lost. If the connection is already closed when the
  replay runs, none of the queued messages is delivered, and they are in neither the queue nor the
  table afterwards.\<close>

theorem replay_to_closed_connection_loses:
  assumes "IsClosed r (rp_hub s)" and "rp_table s = Some rows"
    and "\<exists>m \<in> set (queue_of i (rp_queue s)). \<not> expired now (rp_queue s) m"
  shows "let s' = replayOfflineMessages now False r i s in
     rp_hub s' = rp_hub s \<and> queue_of i (rp_queue s') = [] \<and>
     rp_table s' = Some (filter (\<lambda>row. oq_recipient row \<noteq> i) rows)"
proof -
  have ne: "fst (Drain now i (rp_queue s)) \<noteq> []" using assms(3) by (auto simp: fst_Drain filter_empty_conv)
  have "\<not> accepts (rp_hub s) r" using assms(1) by (auto simp: accepts_def IsClosed_def split: option.splits)
  then have "fold (\<lambda>d h. snd (SafeSend r d h)) xs (rp_hub s) = rp_hub s" for xs
    by (induction xs) (simp_all add: SafeSend_refused)
  then show ?thesis
    using ne assms(2) replay_queue_of [of i now False r i s]
    by (simp add: Let_def replayOfflineMessages_def case_prod_beta deleteQueueMessages_def replay_loop_fold)
qed

text \<open>messages that expire in the queue come back after a restart. When everything queued for a
  recipient has expired, the replay delivers nothing and leaves the table alone; loading the table
  afterwards stamps the rows with the time of loading, so that the next replay delivers them.\<close>

theorem expired_messages_resurrected:
  assumes "\<forall>m \<in> set (queue_of i (rp_queue s)). expired now (rp_queue s) m" and "rp_table s = Some rows"
    and "\<And>j. clk j = t" and "t \<le> later" and "later - t \<le> 7 * 24 * hour"
  shows "let s' = replayOfflineMessages now False r i s;
             q' = loadQueueFromDB False (\<lambda>_. False) clk (rp_table s') (newOfflineQueue 100 (7 * 24 * hour))
         in rp_hub s' = rp_hub s \<and> rp_table s' = Some rows \<and>
            fst (Drain later i q') = lastn 100 (map oq_data (filter (\<lambda>row. oq_recipient row = i) rows))"
proof -
  let ?q0 = "newOfflineQueue 100 (7 * 24 * hour)"
  have nothing: "fst (Drain now i (rp_queue s)) = []" using assms(1) by (simp add: fst_Drain)
  then have s': "rp_hub (replayOfflineMessages now False r i s) = rp_hub s"
    "rp_table (replayOfflineMessages now False r i s) = Some rows"
    using assms(2) by (simp_all add: replayOfflineMessages_def Let_def case_prod_beta)
  have good: "queue_good ?q0" "queue_box i ?q0 = []"
    by (simp_all add: queue_good_def newOfflineQueue_def queue_box_def queue_of_def)
  have times: "(u, j, d) \<in> set (timed_rows clk n rows) \<Longrightarrow> u = t" for u j d n
    by (induction rows arbitrary: n) (auto simp: assms(3))
  have "fst (Drain later i (enqueue_all (timed_rows clk 0 rows) ?q0)) =
      map snd (filter (\<lambda>(u, d). \<not> time_sub later u > ttl ?q0)
        (lastn 100 (map (\<lambda>(u, _, d). (u, d)) (filter (\<lambda>(_, j, _). j = i) (timed_rows clk 0 rows)))))"
    (is "_ = map snd (filter ?live ?xs)")
    using offline_mailbox.fetch_post_all [OF good, of later "timed_rows clk 0 rows"]
    by (simp add: enqueue_all_post newOfflineQueue_def)
  also have "filter ?live ?xs = ?xs"
  proof (rule filter_True, rule ballI)
    fix x assume "x \<in> set ?xs"
    then have "x \<in> set (map (\<lambda>(u, _, d). (u, d)) (filter (\<lambda>(_, j, _). j = i) (timed_rows clk 0 rows)))"
      using set_lastn by (rule subsetD [rotated])
    then obtain u d where x: "x = (u, d)" "u = t" using times by auto
    then show "?live x"
      using assms(4,5) by (simp add: newOfflineQueue_def time_sub_def int64_max_def int64_min_def)
  qed
  also have "map snd ?xs = lastn 100 (map oq_data (filter (\<lambda>row. oq_recipient row = i) rows))"
    using timed_rows_data [of i clk 0 rows] by (simp add: map_lastn comp_def case_prod_unfold)
  finally show ?thesis
    using s' by (simp add: Let_def loadQueueFromDB_def load_rows_enqueue_all)
qed

subsection \<open>Surviving a restart\<close>

text \<open>The life of the queue and its table across starts of the server, as long as no SQL statement fails:
  a message is queued in memory and then in the table, a recipient connects (its queue is empty or
  holds a message that has not expired), the hourly clean-up finds no stale row, the hub does anything
  at all, the server is restarted.\<close>

inductive queue_run :: "int \<Rightarrow> int \<Rightarrow> replay_state \<Rightarrow> bool" for ml life where
  first_start: "queue_run ml life \<lparr>rp_hub = h, rp_queue = newOfflineQueue ml life, rp_table = Some []\<rparr>"
| queued: "queue_run ml life s \<Longrightarrow>
    queue_run ml life (s\<lparr>rp_queue := Enqueue t i d (rp_queue s), rp_table := persistQueue False t' i d (rp_table s)\<rparr>)"
| replayed: "queue_run ml life s \<Longrightarrow>
    queue_of i (rp_queue s) = [] \<or> (\<exists>m \<in> set (queue_of i (rp_queue s)). \<not> expired now (rp_queue s) m) \<Longrightarrow>
    queue_run ml life (replayOfflineMessages now False r i s)"
| cleaned: "queue_run ml life s \<Longrightarrow> cleanStaleQueueMessages False now age (rp_table s) = rp_table s \<Longrightarrow>
    queue_run ml life (s\<lparr>rp_table := cleanStaleQueueMessages False now age (rp_table s)\<rparr>)"
| hub_steps: "queue_run ml life s \<Longrightarrow> queue_run ml life (s\<lparr>rp_hub := h\<rparr>)"
| restarted: "queue_run ml life s \<Longrightarrow>
    queue_run ml life (s\<lparr>rp_hub := h, rp_queue :=
      loadQueueFromDB False (\<lambda>_. False) clk (rp_table s) (newOfflineQueue ml life)\<rparr>)"

text \<open>The relation between the queue and its table that such a run keeps.\<close>

definition queue_matches :: "int \<Rightarrow> replay_state \<Rightarrow> bool" where
  "queue_matches ml s \<longleftrightarrow> maxLen (rp_queue s) = ml \<and>
     (\<exists>rows. rp_table s = Some rows \<and>
       (\<forall>j. map data (queue_of j (rp_queue s)) = lastn (nat ml) (map oq_data (filter (\<lambda>row. oq_recipient row = j) rows))))"

lemma maxLen_new: "maxLen (newOfflineQueue ml life) = (if ml \<le> 0 then 100 else ml)"
  by (simp add: newOfflineQueue_def)

lemma queue_matches_queued:
  assumes "queue_matches ml s" and "1 \<le> ml"
  shows "queue_matches ml (s\<lparr>rp_queue := Enqueue t i d (rp_queue s), rp_table := persistQueue False t' i d (rp_table s)\<rparr>)"
  using assms by (auto simp: queue_matches_def persistQueue_def queue_of_Enqueue map_lastn lastn_snoc)

lemma queue_matches_replayed:
  assumes "queue_matches ml s"
    and "queue_of i (rp_queue s) = [] \<or> (\<exists>m \<in> set (queue_of i (rp_queue s)). \<not> expired now (rp_queue s) m)"
  shows "queue_matches ml (replayOfflineMessages now False r i s)"
proof -
  obtain rows where rows: "rp_table s = Some rows" "maxLen (rp_queue s) = ml"
    "map data (queue_of j (rp_queue s)) = lastn (nat ml) (map oq_data (filter (\<lambda>row. oq_recipient row = j) rows))" for j
    using assms(1) by (auto simp: queue_matches_def)
  show ?thesis
  proof (cases "\<exists>m \<in> set (queue_of i (rp_queue s)). \<not> expired now (rp_queue s) m")
    case True
    let ?rows = "filter (\<lambda>row. oq_recipient row \<noteq> i) rows"
    have "rp_table (replayOfflineMessages now False r i s) = Some ?rows"
      using True rows(1) by (simp add: replay_table deleteQueueMessages_def)
    moreover have "map data (queue_of j (rp_queue (replayOfflineMessages now False r i s))) =
        lastn (nat ml) (map oq_data (filter (\<lambda>row. oq_recipient row = j) ?rows))" for j
    proof (cases "j = i")
      case False
      then have "filter (\<lambda>row. oq_recipient row = j) ?rows = filter (\<lambda>row. oq_recipient row = j) rows"
        by (auto simp: intro: filter_cong)
      with False show ?thesis by (simp only: replay_queue_of rows(3) if_False)
    qed (simp add: replay_queue_of lastn_def)
    ultimately show ?thesis using rows(2) by (simp add: queue_matches_def replay_queue_params)
  next
    case False
    then have "queue_of i (rp_queue s) = []" using assms(2) by blast
    then have "queue_of j (rp_queue (replayOfflineMessages now False r i s)) = queue_of j (rp_queue s)" for j
      by (simp add: replay_queue_of)
    with False rows show ?thesis by (simp add: queue_matches_def replay_queue_params replay_table)
  qed
qed

lemma queue_run_matches:
  "queue_run ml life s \<Longrightarrow> queue_matches (maxLen (newOfflineQueue ml life)) s"
proof (induction rule: queue_run.induct)
  case (first_start h)
  then show ?case by (simp add: queue_matches_def newOfflineQueue_def queue_of_def lastn_def)
next
  case (queued s t i d t')
  then show ?case by (intro queue_matches_queued) (simp_all add: maxLen_new)
next
  case (replayed s i now r)
  then show ?case by (intro queue_matches_replayed) simp_all
next
  case (cleaned s now age)
  then show ?case by (simp add: queue_matches_def)
next
  case (hub_steps s h)
  then show ?case by (simp add: queue_matches_def)
next
  case (restarted s h clk)
  then obtain rows where "rp_table s = Some rows" by (auto simp: queue_matches_def)
  then show ?case
    by (simp add: queue_matches_def loadQueueFromDB_data)
      (simp add: loadQueueFromDB_def load_rows_enqueue_all enqueue_all_params)
qed

text \<open>C16: a restart keeps the offline queue. After any sequence of queued messages, replays to connecting
  recipients, other hub activity and restarts, starting with an empty table, the queue that the next
  start loads from the table has for every recipient the same messages in the same order as the queue
  in memory, although the table is not trimmed to the queue's bound. The runs covered: a message is in both
  copies before the next one is queued, no SQL statement on the table fails, every replay finds its recipient's queue empty or with a message that has not expired,
  and the clean-up finds no stale row (otherwise the copies part: a replay of expired messages only
  leaves their rows behind).\<close>

theorem restart_restores_queue:
  assumes "queue_run ml life s"
  shows "map data (queue_of i (loadQueueFromDB False (\<lambda>_. False) clk (rp_table s) (newOfflineQueue ml life))) =
         map data (queue_of i (rp_queue s))"
  using queue_run_matches [OF assms] by (auto simp: queue_matches_def loadQueueFromDB_data)

subsection \<open>Concrete runs\<close>

text \<open>User \<open>u\<close> has a queued message and reconnects.\<close>

definition replay_example :: "connection \<Rightarrow> replay_state" where
  "replay_example c =
     \<lparr>rp_hub = set_conn 0 c (newHub None),
      rp_queue = Enqueue 5 ''u'' (OutgoingMessage ''message'' JNull) (newOfflineQueue 100 (7 * 24 * hour)),
      rp_table = persistQueue False 5 ''u'' (OutgoingMessage ''message'' JNull) (Some [])\<rparr>"

lemma replay_example_queue:
  "queue_of ''u'' (rp_queue (replay_example c)) =
     [\<lparr>data = OutgoingMessage ''message'' JNull, queuedAt = 5, sentCount = 0\<rparr>]"
  "ttl (rp_queue (replay_example c)) = 7 * 24 * hour"
  by (simp_all add: replay_example_def Enqueue_def newOfflineQueue_def queue_of_def)

lemma replay_example_live:
  "\<not> expired 10 (rp_queue (replay_example c)) \<lparr>data = d, queuedAt = 5, sentCount = 0\<rparr>"
  by (simp add: expired_def replay_example_queue time_sub_def int64_min_def int64_max_def)

theorem replay_delivers_all_witness:
  "let s' = replayOfflineMessages 10 False 0 ''u'' (replay_example (new_connection ''client'' ''u'' [] ''v1'' 7))
   in outbox (rp_hub s') 0 = [OutgoingMessage ''message'' JNull] \<and> rp_table s' = Some []"
proof -
  let ?c = "new_connection ''client'' ''u'' [] ''v1'' 7"
  have "room 0 (rp_hub (replay_example ?c)) = 256" by (rule fresh_room) (simp add: replay_example_def)
  moreover have "outbox (rp_hub (replay_example ?c)) 0 = []"
    "rp_table (replay_example ?c) =
       Some [\<lparr>oq_recipient = ''u'', oq_data = OutgoingMessage ''message'' JNull, oq_queued_at = rfc3339_seconds 5\<rparr>]"
    by (simp_all add: replay_example_def outbox_def new_connection_def make_chan_def persistQueue_def)
  ultimately show ?thesis using replay_delivers_all [of "''u''" "replay_example ?c" 0 10 False]
    by (simp add: Let_def replay_example_queue replay_example_live replayable_def)
qed

theorem replay_to_closed_connection_loses_witness:
  "let s' = replayOfflineMessages 10 False 0 ''u''
       (replay_example ((new_connection ''client'' ''u'' [] ''v1'' 7)\<lparr>closed := True\<rparr>))
   in outbox (rp_hub s') 0 = [] \<and> queue_of ''u'' (rp_queue s') = [] \<and> rp_table s' = Some []"
proof -
  let ?c = "(new_connection ''client'' ''u'' [] ''v1'' 7)\<lparr>closed := True\<rparr>"
  have "IsClosed 0 (rp_hub (replay_example ?c))" "outbox (rp_hub (replay_example ?c)) 0 = []"
    "rp_table (replay_example ?c) =
       Some [\<lparr>oq_recipient = ''u'', oq_data = OutgoingMessage ''message'' JNull, oq_queued_at = rfc3339_seconds 5\<rparr>]"
    by (simp_all add: replay_example_def IsClosed_def outbox_def new_connection_def make_chan_def persistQueue_def)
  with replay_to_closed_connection_loses [of 0 "replay_example ?c" _ "''u''" 10] show ?thesis
    by (simp add: Let_def replay_example_queue replay_example_live)
qed

theorem expired_messages_resurrected_witness:
  "fst (Drain (40 * 24 * hour) ''u'' (loadQueueFromDB False (\<lambda>_. False) (\<lambda>_. 39 * 24 * hour)
     (rp_table (replayOfflineMessages (30 * 24 * hour) False 0 ''u''
       (replay_example (new_connection ''client'' ''u'' [] ''v1'' 7)))) (newOfflineQueue 100 (7 * 24 * hour)))) =
   [OutgoingMessage ''message'' JNull]"
proof -
  let ?s = "replay_example (new_connection ''client'' ''u'' [] ''v1'' 7)"
  have "\<forall>m \<in> set (queue_of ''u'' (rp_queue ?s)). expired (30 * 24 * hour) (rp_queue ?s) m"
    by (simp add: replay_example_queue expired_def time_sub_def int64_max_def int64_min_def)
  moreover have "rp_table ?s =
       Some [\<lparr>oq_recipient = ''u'', oq_data = OutgoingMessage ''message'' JNull, oq_queued_at = rfc3339_seconds 5\<rparr>]"
    by (simp add: replay_example_def persistQueue_def)
  ultimately show ?thesis
    using expired_messages_resurrected [of "''u''" ?s "30 * 24 * hour" _ "\<lambda>_. 39 * 24 * hour" "39 * 24 * hour"
        "40 * 24 * hour" 0]
    by (auto simp: Let_def lastn_def)
qed

text \<open>User \<open>u\<close> is sent two messages, connects, and is sent two more; user \<open>v\<close> never connects.\<close>

definition restart_example :: replay_state where
  "restart_example =
     (let queue = \<lambda>i d s. s\<lparr>rp_queue := Enqueue 5 i d (rp_queue s), rp_table := persistQueue False 5 i d (rp_table s)\<rparr>;
          s0 = \<lparr>rp_hub = newHub None, rp_queue = newOfflineQueue 2 hour, rp_table = Some []\<rparr>
      in queue ''u'' (JNum 4) (queue ''u'' (JNum 3)
           (replayOfflineMessages 10 False 0 ''u'' (queue ''v'' (JNum 2) (queue ''u'' (JNum 1) s0)))))"

theorem restart_restores_queue_witness:
  "let q = loadQueueFromDB False (\<lambda>_. False) (\<lambda>_. 9) (rp_table restart_example) (newOfflineQueue 2 hour)
   in map data (queue_of ''u'' q) = [JNum 3, JNum 4] \<and> map data (queue_of ''v'' q) = [JNum 2]"
proof -
  let ?q = "\<lambda>i d s. s\<lparr>rp_queue := Enqueue 5 i d (rp_queue s), rp_table := persistQueue False 5 i d (rp_table s)\<rparr>"
  let ?s0 = "\<lparr>rp_hub = newHub None, rp_queue = newOfflineQueue 2 hour, rp_table = Some []\<rparr>"
  let ?s1 = "?q ''v'' (JNum 2) (?q ''u'' (JNum 1) ?s0)"
  have par: "maxLen (newOfflineQueue 2 hour) = 2" "ttl (newOfflineQueue 2 hour) = hour"
    "queue_of j (newOfflineQueue 2 hour) = []" for j
    by (simp_all add: newOfflineQueue_def queue_of_def)
  have "\<exists>m \<in> set (queue_of ''u'' (rp_queue ?s1)). \<not> expired 10 (rp_queue ?s1) m"
    by (simp add: queue_of_Enqueue par lastn_def expired_def time_sub_def int64_min_def int64_max_def)
  then have run: "queue_run 2 hour restart_example"
    unfolding restart_example_def Let_def
    by (intro queue_run.queued queue_run.replayed queue_run.first_start disjI2)
  have "map data (queue_of ''u'' (rp_queue restart_example)) = [JNum 3, JNum 4]"
    "map data (queue_of ''v'' (rp_queue restart_example)) = [JNum 2]"
    by (simp_all add: restart_example_def Let_def queue_of_Enqueue replay_queue_of replay_queue_params par lastn_def)
  with restart_restores_queue [OF run, of "''u''" "\<lambda>_. 9"] restart_restores_queue [OF run, of "''v''" "\<lambda>_. 9"]
  show ?thesis by (simp add: Let_def)
qed

end
