(* ===== verification/Rate_Tiers.thy ===== *)
theory Rate_Tiers
  imports Rate_Limit
begin

section \<open>Tiered rate limits for the HTTP API\<close>

text \<open>
  \<open>TieredRateLimiter\<close> of rate_limit_tiers.go: per-user windows whose size depends on the user's plan, the
  \<open>Retry-After\<close> value it returns, its clean-up, and the hand-written \<open>itoa\<close> that prints the headers. It is
  another instance of \<open>window_limiter\<close>.
\<close>

record RateLimitTier =
  Name :: string
  Burst :: int
  Window :: int
  PerSecond :: int

definition TierFree :: RateLimitTier where
  "TierFree = \<lparr>Name = ''free'', Burst = 60, Window = minute, PerSecond = 1\<rparr>"

definition TierPro :: RateLimitTier where
  "TierPro = \<lparr>Name = ''pro'', Burst = 300, Window = minute, PerSecond = 5\<rparr>"

definition TierEnterprise :: RateLimitTier where
  "TierEnterprise = \<lparr>Name = ''enterprise'', Burst = 1500, Window = minute, PerSecond = 25\<rparr>"

lemmas tier_defs = TierFree_def TierPro_def TierEnterprise_def

record userRateLimitState =
  us_count :: int
  windowEnd :: int
  tier :: RateLimitTier

record TieredRateLimiter =
  limits :: "(string, userRateLimitState) gomap"

definition NewTieredRateLimiter :: TieredRateLimiter where
  "NewTieredRateLimiter = \<lparr>limits = []\<rparr>"

definition Tiered_Reset :: "TieredRateLimiter \<Rightarrow> TieredRateLimiter" where
  "Tiered_Reset trl = trl\<lparr>limits := []\<rparr>"

record tier_answer =
  allowed :: bool
  remaining :: int
  retryAfter :: int

text \<open>The entry that \<open>Allow\<close> counts in: created for a new user, reset when its window is over.\<close>

definition current_entry :: "int \<Rightarrow> string \<Rightarrow> TieredRateLimiter \<Rightarrow> userRateLimitState" where
  "current_entry now userID trl =
     (let entry = (case gm_get (limits trl) userID of
                     None \<Rightarrow> \<lparr>us_count = 0, windowEnd = now + Window TierFree, tier = TierFree\<rparr>
                   | Some e \<Rightarrow> e)
      in if windowEnd entry < now
         then entry\<lparr>us_count := 0, windowEnd := now + Window (tier entry)\<rparr> else entry)"

definition Tiered_Allow :: "int \<Rightarrow> string \<Rightarrow> TieredRateLimiter \<Rightarrow> tier_answer \<times> TieredRateLimiter" where
  "Tiered_Allow now userID trl =
     (let entry0 = current_entry now userID trl;
          entry = entry0\<lparr>us_count := wrap64 (us_count entry0 + 1)\<rparr>;
          trl' = trl\<lparr>limits := gm_set userID entry (limits trl)\<rparr>;
          rest = wrap64 (Burst (tier entry) - us_count entry);
          rest' = (if rest < 0 then 0 else rest)
      in if us_count entry > Burst (tier entry)
         then (let ra = dur_seconds (time_sub (windowEnd entry) now) + 1
               in (\<lparr>allowed = False, remaining = 0, retryAfter = (if ra < 1 then 1 else ra)\<rparr>, trl'))
         else (\<lparr>allowed = True, remaining = rest', retryAfter = 0\<rparr>, trl'))"

definition SetTier :: "int \<Rightarrow> string \<Rightarrow> RateLimitTier \<Rightarrow> TieredRateLimiter \<Rightarrow> TieredRateLimiter" where
  "SetTier now userID t trl =
     (case gm_get (limits trl) userID of
        Some entry \<Rightarrow>
          trl\<lparr>limits := gm_set userID (entry\<lparr>tier := t, us_count := 0, windowEnd := now + Window t\<rparr>) (limits trl)\<rparr>
      | None \<Rightarrow>
          trl\<lparr>limits := gm_set userID \<lparr>us_count = 0, windowEnd = now + Window t, tier = t\<rparr> (limits trl)\<rparr>)"

definition GetTier :: "string \<Rightarrow> TieredRateLimiter \<Rightarrow> RateLimitTier" where
  "GetTier userID trl = (case gm_get (limits trl) userID of Some entry \<Rightarrow> tier entry | None \<Rightarrow> TierFree)"

definition GetRemaining :: "int \<Rightarrow> string \<Rightarrow> TieredRateLimiter \<Rightarrow> int" where
  "GetRemaining now userID trl =
     (case gm_get (limits trl) userID of
        None \<Rightarrow> Burst TierFree
      | Some entry \<Rightarrow>
          if windowEnd entry < now then Burst (tier entry)
          else (let rest = wrap64 (Burst (tier entry) - us_count entry) in if rest < 0 then 0 else rest))"

definition cleanupOnce :: "int \<Rightarrow> TieredRateLimiter \<Rightarrow> TieredRateLimiter" where
  "cleanupOnce now trl =
     trl\<lparr>limits := filter (\<lambda>(_, entry). \<not> (windowEnd entry < now \<and> time_sub now (windowEnd entry) > 10 * minute))
                    (limits trl)\<rparr>"

subsection \<open>Well-formed limiters\<close>

definition known_tier :: "RateLimitTier \<Rightarrow> bool" where
  "known_tier t \<longleftrightarrow> t \<in> {TierFree, TierPro, TierEnterprise}"

definition tiers_ok :: "TieredRateLimiter \<Rightarrow> bool" where
  "tiers_ok trl \<longleftrightarrow> gm_ok (limits trl) \<and>
     (\<forall>u e. gm_get (limits trl) u = Some e \<longrightarrow> known_tier (tier e))"

lemma known_tier_facts:
  "known_tier t \<Longrightarrow> Window t = minute" "known_tier t \<Longrightarrow> 60 \<le> Burst t" "known_tier t \<Longrightarrow> Burst t \<le> 1500"
  "known_tier TierFree" "known_tier TierPro" "known_tier TierEnterprise"
  by (auto simp: known_tier_def tier_defs)

lemma current_entry_tier: "tier (current_entry now u trl) = GetTier u trl"
  by (auto simp: current_entry_def GetTier_def Let_def split: option.splits)

lemma GetTier_known: "tiers_ok trl \<Longrightarrow> known_tier (GetTier u trl)"
  by (auto simp: tiers_ok_def GetTier_def known_tier_facts split: option.splits)

lemma GetTier_set [simp]: "GetTier u (trl\<lparr>limits := gm_set v e (limits trl)\<rparr>) =
    (if u = v then tier e else GetTier u trl)"
  by (simp add: GetTier_def)

definition tl_active :: "int \<Rightarrow> string \<Rightarrow> TieredRateLimiter \<Rightarrow> bool" where
  "tl_active now u trl = (case gm_get (limits trl) u of None \<Rightarrow> False | Some e \<Rightarrow> now \<le> windowEnd e)"

definition tl_used :: "string \<Rightarrow> TieredRateLimiter \<Rightarrow> int" where
  "tl_used u trl = (case gm_get (limits trl) u of None \<Rightarrow> 0 | Some e \<Rightarrow> us_count e)"

definition tl_allow :: "int \<Rightarrow> string \<Rightarrow> TieredRateLimiter \<Rightarrow> bool \<times> TieredRateLimiter" where
  "tl_allow now u trl = (allowed (fst (Tiered_Allow now u trl)), snd (Tiered_Allow now u trl))"

lemma Tiered_Allow_state:
  "snd (Tiered_Allow now u trl) = trl\<lparr>limits := gm_set u
     ((current_entry now u trl)\<lparr>us_count := wrap64 (us_count (current_entry now u trl) + 1)\<rparr>) (limits trl)\<rparr>"
  by (simp add: Tiered_Allow_def Let_def)

lemma Tiered_Allow_allowed:
  "allowed (fst (Tiered_Allow now u trl)) \<longleftrightarrow>
     wrap64 (us_count (current_entry now u trl) + 1) \<le> Burst (GetTier u trl)"
  by (simp add: Tiered_Allow_def Let_def current_entry_tier)

lemma current_entry_active:
  "tl_active now u trl \<Longrightarrow> gm_get (limits trl) u = Some (current_entry now u trl)"
  by (auto simp: tl_active_def current_entry_def Let_def split: option.splits)

lemma current_entry_fresh:
  assumes "tiers_ok trl" and "\<not> tl_active now u trl"
  shows "us_count (current_entry now u trl) = 0" and "windowEnd (current_entry now u trl) = now + minute"
  using assms known_tier_facts(1) [OF GetTier_known [OF assms(1)], of u]
  by (auto simp: tl_active_def current_entry_def Let_def GetTier_def tier_defs split: option.splits)

interpretation tier_limiter: window_limiter tl_allow tl_active tl_used
  "\<lambda>u trl. Burst (GetTier u trl)" "\<lambda>_ _. minute" tiers_ok
proof unfold_locales
  fix trl t k u j
  assume ok: "tiers_ok trl"
  note facts = known_tier_facts(2,3) [OF GetTier_known [OF ok]]
  show "tiers_ok (snd (tl_allow t k trl))"
    using ok GetTier_known [OF ok, of k]
    by (auto simp: tiers_ok_def tl_allow_def Tiered_Allow_state current_entry_tier)
  show "Burst (GetTier k (snd (tl_allow t j trl))) = Burst (GetTier k trl)"
    by (auto simp: tl_allow_def Tiered_Allow_state current_entry_tier)
  show "\<not> tl_active t k trl \<Longrightarrow> 1 \<le> Burst (GetTier k trl) \<Longrightarrow>
      fst (tl_allow t k trl) \<and> tl_used k (snd (tl_allow t k trl)) = 1 \<and>
      (\<forall>u. tl_active u k (snd (tl_allow t k trl)) \<longleftrightarrow> u \<le> t + minute)"
    using current_entry_fresh [OF ok, of t k] facts(1) [of k]
    by (simp add: tl_allow_def Tiered_Allow_state Tiered_Allow_allowed tl_used_def tl_active_def wrap64_def)
  show "tl_active t k trl \<Longrightarrow> tl_active u k (snd (tl_allow t k trl)) = tl_active u k trl"
    using current_entry_active [of t k trl]
    by (simp add: tl_allow_def Tiered_Allow_state tl_active_def)
  show "j \<noteq> k \<Longrightarrow> tl_active u j (snd (tl_allow t k trl)) = tl_active u j trl \<and>
      tl_used j (snd (tl_allow t k trl)) = tl_used j trl"
    by (simp add: tl_allow_def Tiered_Allow_state tl_active_def tl_used_def)
  assume act: "tl_active t k trl" and nn: "0 \<le> tl_used k trl" and lt: "tl_used k trl < int64_max"
  have used: "tl_used k trl = us_count (current_entry t k trl)"
    using current_entry_active [OF act] by (simp add: tl_used_def)
  have w: "wrap64 (us_count (current_entry t k trl) + 1) = us_count (current_entry t k trl) + 1"
    using nn lt used by (intro wrap64_id_inc) simp_all
  show "tl_used k trl < Burst (GetTier k trl) \<Longrightarrow>
      fst (tl_allow t k trl) \<and> tl_used k (snd (tl_allow t k trl)) = tl_used k trl + 1"
    using used w by (simp add: tl_allow_def Tiered_Allow_state Tiered_Allow_allowed tl_used_def)
  show "Burst (GetTier k trl) \<le> tl_used k trl \<Longrightarrow>
      \<not> fst (tl_allow t k trl) \<and> tl_used k trl \<le> tl_used k (snd (tl_allow t k trl)) \<and>
      tl_used k (snd (tl_allow t k trl)) \<le> tl_used k trl + 1"
    using used w by (simp add: tl_allow_def Tiered_Allow_state Tiered_Allow_allowed tl_used_def)
qed

text \<open>C14: in the window a request of user \<open>u\<close> opens, exactly the first \<open>Burst\<close> requests of \<open>u\<close>'s plan are
  let through, whatever the other users do meanwhile.\<close>

theorem Tiered_quota:
  assumes "tiers_ok trl" and "\<not> tl_active t0 u trl" and "int (asked u xs) < int64_max"
    and "\<forall>(t, j) \<in> set xs. j = u \<longrightarrow> t \<le> t0 + minute"
  shows "int (granted u (fst (requests tl_allow ((t0, u) # xs) trl))) =
         min (int (asked u xs) + 1) (Burst (GetTier u trl))"
proof -
  have "1 \<le> Burst (GetTier u trl)"
    using known_tier_facts(2) [OF GetTier_known [OF assms(1)], of u] by simp
  from tier_limiter.window_quota [OF assms(1,2) this assms(3,4)] show ?thesis .
qed

theorem Tiered_quota_witness:
  "int (granted ''u'' (fst (requests tl_allow ((0, ''u'') # replicate 70 (5, ''u'')) NewTieredRateLimiter))) = 60"
proof -
  have "asked ''u'' (replicate 70 (5, ''u'')) = 70" by (simp add: asked_def filter_replicate)
  with Tiered_quota [of NewTieredRateLimiter 0 "''u''" "replicate 70 (5, ''u'')"]
  show ?thesis
    by (simp add: tl_active_def int64_max_def tiers_ok_def NewTieredRateLimiter_def GetTier_def TierFree_def)
qed

subsection \<open>The answers\<close>

lemma retryAfter_value:
  assumes "tiers_ok trl" and "\<not> allowed (fst (Tiered_Allow now u trl))" and "0 \<le> tl_used u trl"
    and "tl_used u trl < int64_max"
  shows "tl_active now u trl"
    and "retryAfter (fst (Tiered_Allow now u trl)) =
           dur_seconds (time_sub (windowEnd (current_entry now u trl)) now) + 1"
    and "now \<le> windowEnd (current_entry now u trl)"
proof -
  show act: "tl_active now u trl"
  proof (rule ccontr)
    assume "\<not> tl_active now u trl"
    from current_entry_fresh(1) [OF assms(1) this] assms(2)
      known_tier_facts(2) [OF GetTier_known [OF assms(1)], of u]
    show False by (simp add: Tiered_Allow_allowed wrap64_def)
  qed
  then show le: "now \<le> windowEnd (current_entry now u trl)"
    using current_entry_active [OF act] by (simp add: tl_active_def)
  have "0 \<le> time_sub (windowEnd (current_entry now u trl)) now"
    using le by (simp add: time_sub_def int64_min_def int64_max_def)
  then have "0 \<le> dur_seconds (time_sub (windowEnd (current_entry now u trl)) now)"
    by (simp add: dur_seconds_def)
  moreover have over: "Burst (tier (current_entry now u trl)) < wrap64 (us_count (current_entry now u trl) + 1)"
    using assms(2) by (simp add: Tiered_Allow_allowed current_entry_tier)
  ultimately show "retryAfter (fst (Tiered_Allow now u trl)) =
           dur_seconds (time_sub (windowEnd (current_entry now u trl)) now) + 1"
    using over by (simp add: Tiered_Allow_def Let_def)
qed

text \<open>the \<open>Retry-After\<close> value of a refusal is at least one second, and honest: a user who waits that
  long is let through.\<close>

theorem retry_after_is_enough:
  assumes "tiers_ok trl" and "0 \<le> tl_used u trl" and "tl_used u trl < int64_max"
    and "\<forall>e. gm_get (limits trl) u = Some e \<longrightarrow> windowEnd e - now \<le> int64_max"
    and "Tiered_Allow now u trl = (a, trl')" and "\<not> allowed a"
    and "t \<ge> now + retryAfter a * second"
  shows "1 \<le> retryAfter a \<and> allowed (fst (Tiered_Allow t u trl'))"
proof -
  let ?e = "current_entry now u trl"
  have a: "a = fst (Tiered_Allow now u trl)" and trl': "trl' = snd (Tiered_Allow now u trl)"
    using assms(5) by simp_all
  note v = retryAfter_value [OF assms(1) assms(6) [unfolded a] assms(2,3)]
  have d: "time_sub (windowEnd ?e) now = windowEnd ?e - now"
    using v(3) assms(4) current_entry_active [OF v(1)]
    by (auto simp: time_sub_def int64_min_def int64_max_def)
  have ra: "retryAfter a = (windowEnd ?e - now) div second + 1"
    using v(2,3) d by (simp add: a dur_seconds_def)
  have "windowEnd ?e - now < ((windowEnd ?e - now) div second + 1) * second"
  proof -
    have "(windowEnd ?e - now) mod second < second" by simp
    moreover have "second * ((windowEnd ?e - now) div second) + (windowEnd ?e - now) mod second = windowEnd ?e - now"
      by (rule mult_div_mod_eq)
    ultimately show ?thesis unfolding distrib_right by linarith
  qed
  then have late: "windowEnd ?e < t" using assms(7) ra by (simp add: algebra_simps)
  have ok': "tiers_ok trl'"
    using tier_limiter.ok_allow [OF assms(1), of now u] by (simp add: trl' tl_allow_def)
  have "\<not> tl_active t u trl'"
    using late by (simp add: trl' Tiered_Allow_state tl_active_def)
  from current_entry_fresh(1) [OF ok' this] known_tier_facts(2) [OF GetTier_known [OF ok'], of u]
  have "allowed (fst (Tiered_Allow t u trl'))" by (simp add: Tiered_Allow_allowed wrap64_def)
  moreover have "1 \<le> retryAfter a" using ra v(3) by simp
  ultimately show ?thesis by simp
qed

theorem retry_after_is_enough_witness:
  "allowed (fst (Tiered_Allow (61 * second) ''u''
     (snd (Tiered_Allow 0 ''u'' \<lparr>limits = [(''u'', \<lparr>us_count = 60, windowEnd = minute, tier = TierFree\<rparr>)]\<rparr>))))"
proof -
  let ?trl = "\<lparr>limits = [(''u'', \<lparr>us_count = 60, windowEnd = minute, tier = TierFree\<rparr>)]\<rparr>"
  have g: "gm_get (limits ?trl) u = (if u = ''u'' then Some \<lparr>us_count = 60, windowEnd = minute, tier = TierFree\<rparr>
      else None)" for u
    by (simp add: gm_get_def)
  have "tiers_ok ?trl" using g by (auto simp: tiers_ok_def gm_ok_def known_tier_facts)
  moreover obtain a trl' where A: "Tiered_Allow 0 ''u'' ?trl = (a, trl')" by (cases "Tiered_Allow 0 ''u'' ?trl")
  moreover have "current_entry 0 ''u'' ?trl = \<lparr>us_count = 60, windowEnd = minute, tier = TierFree\<rparr>"
    by (simp add: current_entry_def gm_get_def)
  with A have "\<not> allowed a \<and> retryAfter a = 61"
    by (simp add: Tiered_Allow_def Let_def TierFree_def wrap64_def dur_seconds_def
        time_sub_def int64_min_def int64_max_def) auto
  ultimately show ?thesis
    using retry_after_is_enough [of ?trl "''u''" 0 a trl' "61 * second"] A
    by (simp add: gm_get_def tl_used_def int64_max_def)
qed

text \<open>the clean-up of idle users forgets their plan. A user with a paid plan who makes no request
  until ten minutes after the end of the window falls back to the free tier, although nobody changed
  the plan.\<close>

theorem cleanup_forgets_tier:
  assumes "gm_ok (limits trl)" and "GetTier u trl = TierPro"
    and "gm_get (limits trl) u = Some e" and "now - windowEnd e > 10 * minute"
  shows "GetTier u (cleanupOnce now trl) = TierFree \<and>
    (\<exists>e'. gm_get (limits (SetTier t u TierPro trl)) u = Some e' \<and>
       GetTier u (cleanupOnce (windowEnd e' + 10 * minute + 1) (SetTier t u TierPro trl)) = TierFree)"
proof -
  have clean: "GetTier u (cleanupOnce now trl) = TierFree"
    if "gm_ok (limits trl)" "gm_get (limits trl) u = Some e" "now - windowEnd e > 10 * minute" for now trl e
  proof -
    have "time_sub now (windowEnd e) > 10 * minute" using that(3) time_sub_gt by (simp add: int64_max_def)
    then show ?thesis using that by (auto simp: GetTier_def cleanupOnce_def gm_get_filter)
  qed
  obtain e' where e': "gm_get (limits (SetTier t u TierPro trl)) u = Some e'"
    using assms(3) by (simp add: SetTier_def)
  have "gm_ok (limits (SetTier t u TierPro trl))" using assms(1,3) by (simp add: SetTier_def)
  from clean [OF this e', of "windowEnd e' + 10 * minute + 1"] clean [OF assms(1,3,4)] e'
  show ?thesis by auto
qed

theorem cleanup_forgets_tier_witness:
  "GetTier ''u'' (cleanupOnce (20 * minute) (SetTier 0 ''u'' TierPro NewTieredRateLimiter)) = TierFree"
proof -
  have "SetTier 0 ''u'' TierPro NewTieredRateLimiter =
      \<lparr>limits = [(''u'', \<lparr>us_count = 0, windowEnd = minute, tier = TierPro\<rparr>)]\<rparr>"
    by (simp add: SetTier_def NewTieredRateLimiter_def gm_set_def tier_defs)
  with cleanup_forgets_tier [of "SetTier 0 ''u'' TierPro NewTieredRateLimiter" "''u''"
      "\<lparr>us_count = 0, windowEnd = minute, tier = TierPro\<rparr>" "20 * minute" 0]
  show ?thesis by (simp add: gm_ok_def GetTier_def gm_get_def)
qed

subsection \<open>itoa\<close>

text \<open>The loop of \<open>itoa\<close> fills a 20-byte buffer from the right; the argument \<open>acc\<close> is the part of the buffer
  already written.\<close>

function itoa_loop :: "int \<Rightarrow> string \<Rightarrow> string" where
  "itoa_loop n acc = (if n > 0 then itoa_loop (n div 10) (char_of (48 + nat (n mod 10)) # acc) else acc)"
  by auto
termination by (relation "measure (\<lambda>(n, _). nat n)") auto

declare itoa_loop.simps [simp del]

definition itoa :: "int \<Rightarrow> string" where
  "itoa n = (if n = 0 then ''0''
     else (let neg = n < 0;
               m = (if neg then wrap64 (- n) else n);
               buf = itoa_loop m []
           in if neg then CHR ''-'' # buf else buf))"

lemma itoa_loop_digits: "0 < n \<Longrightarrow> itoa_loop n acc = nat_digits (nat n) @ acc"
proof (induction n acc rule: itoa_loop.induct)
  case (1 n acc)
  show ?case
  proof (cases "n < 10")
    case True
    then have "n div 10 = 0" "n mod 10 = n" using "1.prems" by simp_all
    then have "itoa_loop n acc = char_of (48 + nat n) # acc"
      using "1.prems" by (subst itoa_loop.simps) (simp add: itoa_loop.simps [of 0])
    moreover have "nat_digits (nat n) = [char_of (48 + nat n)]"
      using True "1.prems" by (subst nat_digits.simps) (simp add: digit_char_def)
    ultimately show ?thesis by simp
  next
    case False
    have nd: "nat n div 10 = nat (n div 10)" "nat n mod 10 = nat (n mod 10)"
      using False by (simp_all add: nat_div_distrib nat_mod_distrib)
    have "itoa_loop n acc = itoa_loop (n div 10) (char_of (48 + nat (n mod 10)) # acc)"
      using "1.prems" by (subst itoa_loop.simps) simp
    also have "\<dots> = nat_digits (nat (n div 10)) @ char_of (48 + nat (n mod 10)) # acc"
      using "1.IH" "1.prems" False by simp
    also have "\<dots> = nat_digits (nat n) @ acc"
      using False by (subst (2) nat_digits.simps) (simp add: nd digit_char_def)
    finally show ?thesis .
  qed
qed

lemma length_nat_digits: "n < 10 ^ Suc k \<Longrightarrow> length (nat_digits n) \<le> Suc k"
proof (induction k arbitrary: n)
  case 0
  then show ?case by (subst nat_digits.simps) simp
next
  case (Suc k)
  then have "n div 10 < 10 ^ Suc k" by (simp add: less_mult_imp_div_less)
  from Suc.IH [OF this] show ?case by (subst nat_digits.simps) simp
qed

text \<open>\<open>itoa\<close> prints every 64-bit integer except the least one as \<open>%d\<close> would, and its output always
  fits the 20-byte buffer; for the least integer, whose negation overflows, it prints only the sign.\<close>

theorem itoa_correct:
  assumes "int64_min \<le> n" and "n \<le> int64_max"
  shows "itoa n = (if n = int64_min then ''-'' else decimal n) \<and> length (itoa n) \<le> 20"
proof -
  have pos: "itoa_loop m [] = nat_digits (nat m) \<and> length (nat_digits (nat m)) \<le> 19"
    if "0 < m" "m \<le> int64_max" for m
  proof -
    have "nat m < 10 ^ Suc 18" using that by (simp add: int64_max_def nat_less_iff)
    from length_nat_digits [OF this] itoa_loop_digits [OF that(1), of "[]"] show ?thesis by simp
  qed
  consider "n = 0" | "0 < n" | "n = int64_min" | "int64_min < n" "n < 0" using assms(1) by linarith
  then show ?thesis
  proof cases
    case 1
    moreover have "digit_char 0 = CHR ''0''" by code_simp
    ultimately show ?thesis
      by (simp add: itoa_def decimal_def int64_min_def nat_digits.simps)
  next
    case 2
    with pos [of n] assms(2) show ?thesis by (auto simp: itoa_def decimal_def Let_def int64_min_def)
  next
    case 3
    then have "wrap64 (- n) = int64_min" by (simp add: wrap64_def int64_min_def)
    with 3 show ?thesis by (simp add: itoa_def Let_def int64_min_def itoa_loop.simps)
  next
    case 4
    then have "wrap64 (- n) = - n" by (intro wrap64_id) (simp_all add: int64_min_def int64_max_def)
    with 4 pos [of "- n"] show ?thesis
      by (auto simp: itoa_def decimal_def Let_def int64_min_def int64_max_def)
  qed
qed

theorem itoa_correct_witness: "itoa 1500 = decimal 1500 \<and> length (itoa 1500) \<le> 20"
  using itoa_correct [of 1500] by (auto simp: int64_min_def int64_max_def)

end
