(* ===== verification/Logger.thy ===== *)
theory Logger
  imports Wire "HOL-Library.List_Lexorder" "HOL-Library.Char_ord"
begin

section \<open>Logger: structured log entries\<close>

text \<open>
  logger.go: a logger has a minimum level and fields that every entry carries; an entry below the level is dropped,
  the others are one JSON object per line. The mutex only serialises the writes.
\<close>

datatype LogLevel = LogDebug | LogInfo | LogWarn | LogError

fun level_rank :: "LogLevel \<Rightarrow> nat" where
  "level_rank LogDebug = 0"
| "level_rank LogInfo = 1"
| "level_rank LogWarn = 2"
| "level_rank LogError = 3"

lemma level_rank_inject: "level_rank a = level_rank b \<longleftrightarrow> a = b"
  by (cases a; cases b) simp_all

instantiation LogLevel :: linorder
begin

definition less_eq_LogLevel :: "LogLevel \<Rightarrow> LogLevel \<Rightarrow> bool" where
  "a \<le> b \<longleftrightarrow> level_rank a \<le> level_rank b"

definition less_LogLevel :: "LogLevel \<Rightarrow> LogLevel \<Rightarrow> bool" where
  "a < b \<longleftrightarrow> level_rank a < level_rank b"

instance
  by standard (auto simp: less_eq_LogLevel_def less_LogLevel_def level_rank_inject)

end

fun LogLevel_String :: "LogLevel \<Rightarrow> string" where
  "LogLevel_String LogDebug = ''debug''"
| "LogLevel_String LogInfo = ''info''"
| "LogLevel_String LogWarn = ''warn''"
| "LogLevel_String LogError = ''error''"

type_synonym log_fields = "(string, json) gomap"

record Logger =
  lg_level :: LogLevel
  lg_fields :: log_fields

definition NewLogger :: "LogLevel \<Rightarrow> Logger" where
  "NewLogger lvl = \<lparr>lg_level = lvl, lg_fields = []\<rparr>"

definition SetLevel :: "LogLevel \<Rightarrow> Logger \<Rightarrow> Logger" where
  "SetLevel lvl l = l\<lparr>lg_level := lvl\<rparr>"

text \<open>\<open>for k, v := range fields { m[k] = v }\<close>\<close>

definition put_all :: "log_fields \<Rightarrow> log_fields \<Rightarrow> log_fields" where
  "put_all fs m = fold (\<lambda>(k, v). gm_set k v) fs m"

definition WithFields :: "log_fields \<Rightarrow> Logger \<Rightarrow> Logger" where
  "WithFields fs l = l\<lparr>lg_fields := put_all fs (put_all (lg_fields l) [])\<rparr>"

definition mergeOpt :: "log_fields list \<Rightarrow> log_fields" where
  "mergeOpt fs = fold put_all fs []"

definition entry_fields :: "string \<Rightarrow> LogLevel \<Rightarrow> string \<Rightarrow> log_fields \<Rightarrow> Logger \<Rightarrow> log_fields" where
  "entry_fields ts lvl msg fs l =
     put_all fs (put_all (lg_fields l)
       (gm_set ''msg'' (JStr msg) (gm_set ''level'' (JStr (LogLevel_String lvl)) (gm_set ''ts'' (JStr ts) []))))"

text \<open>The line that is written, if any; \<open>json.Marshal\<close> writes the keys of a map in order.\<close>

definition logEntry :: "string \<Rightarrow> LogLevel \<Rightarrow> string \<Rightarrow> log_fields \<Rightarrow> Logger \<Rightarrow> json option" where
  "logEntry ts lvl msg fs l =
     (if lvl < lg_level l then None
      else Some (JObj (sort_key fst (entry_fields ts lvl msg fs l))))"

definition log_Debug :: "string \<Rightarrow> string \<Rightarrow> log_fields list \<Rightarrow> Logger \<Rightarrow> json option" where
  "log_Debug ts msg fs l = logEntry ts LogDebug msg (mergeOpt fs) l"

definition log_Info :: "string \<Rightarrow> string \<Rightarrow> log_fields list \<Rightarrow> Logger \<Rightarrow> json option" where
  "log_Info ts msg fs l = logEntry ts LogInfo msg (mergeOpt fs) l"

definition log_Warn :: "string \<Rightarrow> string \<Rightarrow> log_fields list \<Rightarrow> Logger \<Rightarrow> json option" where
  "log_Warn ts msg fs l = logEntry ts LogWarn msg (mergeOpt fs) l"

definition log_Error :: "string \<Rightarrow> string \<Rightarrow> log_fields list \<Rightarrow> Logger \<Rightarrow> json option" where
  "log_Error ts msg fs l = logEntry ts LogError msg (mergeOpt fs) l"

subsection \<open>Which entries, and what they say\<close>

lemma put_all_get:
  "gm_ok fs \<Longrightarrow> gm_get (put_all fs m) k = (case gm_get fs k of Some v \<Rightarrow> Some v | None \<Rightarrow> gm_get m k)"
  unfolding put_all_def
proof (induction fs arbitrary: m)
  case (Cons x xs)
  obtain a v where x: "x = (a, v)" by (cases x)
  have a: "gm_get xs a = None" using Cons.prems by (auto simp: x gm_get_def gm_ok_def map_of_eq_None_iff)
  have "gm_ok xs" using Cons.prems by (simp add: gm_ok_def)
  from Cons.IH [OF this, of "gm_set a v m"] a show ?case
    by (auto simp: x split: option.splits) (auto simp: gm_get_def)
qed simp

lemma put_all_ok: "gm_ok m \<Longrightarrow> gm_ok (put_all fs m)"
  unfolding put_all_def by (induction fs arbitrary: m) auto

lemma mergeOpt_ok: "gm_ok (mergeOpt fss)"
proof -
  have "gm_ok m \<Longrightarrow> gm_ok (fold put_all fss m)" for m by (induction fss arbitrary: m) (simp_all add: put_all_ok)
  then show ?thesis by (simp add: mergeOpt_def)
qed

lemma gm_get_sort: "gm_ok m \<Longrightarrow> gm_get (sort_key fst m) k = gm_get m k"
  unfolding gm_get_def gm_ok_def
  by (rule map_of_eqI [THEN fun_cong]) (auto simp: map_of_eq_Some_iff distinct_map)

lemma log_entry_lookup:
  assumes "gm_ok fs" and "gm_ok (lg_fields l)" and "logEntry ts lvl msg fs l = Some (JObj ms)"
  shows "gm_get ms k = (case gm_get fs k of Some v \<Rightarrow> Some v | None \<Rightarrow>
          (case gm_get (lg_fields l) k of Some v \<Rightarrow> Some v | None \<Rightarrow>
             (if k = ''msg'' then Some (JStr msg) else if k = ''level'' then Some (JStr (LogLevel_String lvl))
              else if k = ''ts'' then Some (JStr ts) else None)))"
proof -
  have ok: "gm_ok (entry_fields ts lvl msg fs l)" by (simp add: entry_fields_def put_all_ok)
  have "ms = sort_key fst (entry_fields ts lvl msg fs l)" using assms(3) by (simp add: logEntry_def split: if_splits)
  then show ?thesis
    using gm_get_sort [OF ok, of k] assms(1,2) by (simp add: entry_fields_def put_all_get split: option.splits)
qed

text \<open>An entry is written exactly when its level reaches the level of the logger. The value of a key in it is
  the one of the call, else the one of the logger, else the time, level and message: a field of the call that is
  called \<open>level\<close> or \<open>msg\<close> hides the real one.\<close>

theorem log_entry_contents:
  assumes "gm_ok fs" and "gm_ok (lg_fields l)"
  shows "(logEntry ts lvl msg fs l = None \<longleftrightarrow> lvl < lg_level l) \<and>
    (\<forall>ms k. logEntry ts lvl msg fs l = Some (JObj ms) \<longrightarrow>
       gm_get ms k = (case gm_get fs k of Some v \<Rightarrow> Some v | None \<Rightarrow>
          (case gm_get (lg_fields l) k of Some v \<Rightarrow> Some v | None \<Rightarrow>
             (if k = ''msg'' then Some (JStr msg) else if k = ''level'' then Some (JStr (LogLevel_String lvl))
              else if k = ''ts'' then Some (JStr ts) else None))))"
  using log_entry_lookup [OF assms] by (auto simp: logEntry_def)

theorem log_entry_contents_witness:
  "\<exists>ms. log_Info ''now'' ''hello'' [[(''k'', JNum 1)], [(''level'', JStr ''fake'')]] (NewLogger LogInfo) = Some (JObj ms) \<and>
     gm_get ms ''level'' = Some (JStr ''fake'') \<and> gm_get ms ''msg'' = Some (JStr ''hello'')"
proof -
  let ?f = "mergeOpt [[(''k'', JNum 1)], [(''level'', JStr ''fake'')]]"
  have f: "?f = [(''k'', JNum 1), (''level'', JStr ''fake'')]" by (simp add: mergeOpt_def put_all_def gm_set_def)
  have "gm_ok (lg_fields (NewLogger LogInfo))" by (simp add: NewLogger_def)
  from log_entry_contents [where fs = ?f and l = "NewLogger LogInfo" and ts = "''now''" and lvl = LogInfo and msg = "''hello''",
      OF mergeOpt_ok this]
  show ?thesis by (auto simp: log_Info_def f NewLogger_def logEntry_def gm_get_def)
qed

end
