(* ===== verification/Auth.thy ===== *)
theory Auth
  imports Http Replay Rate_Tiers Logger
begin

section \<open>Authentication, registration and connection\<close>

text \<open>
  auth.go, protocol.go, and the handlers of handlers.go that authenticate: login, registration of users
  and agents, password change, and the two WebSocket connect handlers. The state \<open>app\<close> adds to the
  server the limiters that only HTTP requests use (agent connection attempts, requests per IP address,
  authentication requests per IP address, requests per user by plan), the uploaded files and the
  counter of request ids.

  A connect handler that succeeds ends, for the hub, in a connection waiting to be registered
  (\<open>start_register\<close>); what happens after the hub loop has taken it (\<open>replay_offline\<close>, \<open>sendWelcomeMessage\<close>)
  are separate operations, since they run in goroutines of their own. The upgrade of the HTTP
  connection is the WebSocket library's: the argument \<open>upgrade\<close> takes the origin check and the request
  and returns the error response it writes, or \<open>None\<close> when the upgrade succeeds.
\<close>

text \<open>The CPU profile that is being taken, if any: \<open>stopFunc\<close> is represented by the path of the file it closes.\<close>

record cpu_profile_state =
  cpu_stopFunc :: "string option"
  cpu_active :: bool

record app =
  app_server :: server
  agentRateLimiter :: rateLimiter
  ipRateLimiter :: RateLimiter
  authIPLimiter :: RateLimiter
  globalTieredLimiter :: TieredRateLimiter
  app_files :: "(string, string) gomap" \<comment> \<open>the upload directory: path and content\<close>
  requestIDCounter :: int
  DefaultLogger :: Logger
  log_lines :: "json list" \<comment> \<open>what the logger has written for HTTP requests\<close>
  cpuProfileState :: cpu_profile_state

definition new_app :: "server \<Rightarrow> int \<Rightarrow> app" where
  "new_app s n = \<lparr>app_server = s, agentRateLimiter = \<lparr>attempts = []\<rparr>, ipRateLimiter = NewRateLimiter 300 minute,
     authIPLimiter = NewRateLimiter n minute, globalTieredLimiter = NewTieredRateLimiter, app_files = [],
     requestIDCounter = 0, DefaultLogger = NewLogger LogInfo, log_lines = [], cpuProfileState = \<lparr>cpu_stopFunc = None, cpu_active = False\<rparr>\<rparr>"

definition on_server :: "(server \<Rightarrow> http_response \<times> server) \<Rightarrow> app \<Rightarrow> http_response \<times> app" where
  "on_server f a = (let (rs, s) = f (app_server a) in (rs, a\<lparr>app_server := s\<rparr>))"

definition count_error :: "app \<Rightarrow> app" where
  "count_error a = a\<lparr>app_server := on_hub (add_metric ErrorsTotal_update) (app_server a)\<rparr>"

text \<open>\<open>requestIDMiddleware\<close>: a request keeps its \<open>X-Request-ID\<close> or gets one from the clock and a 64-bit
  counter; downstream handlers and the client see it.\<close>

definition requestIDMiddleware :: "env \<Rightarrow> app handler \<Rightarrow> app handler" where
  "requestIDMiddleware e next rq a =
     (let h = rq_header rq ''X-Request-ID'';
          n = (requestIDCounter a + 1) mod 2 ^ 64;
          requestID = (if h = [] then ''req-'' @ decimal (clock e ''requestID'') @ ''-'' @ decimal n else h);
          a1 = (if h = [] then a\<lparr>requestIDCounter := n\<rparr> else a);
          (rs, a2) = next (rq\<lparr>rq_header := (rq_header rq)(''X-Request-ID'' := requestID)\<rparr>) a1
      in (set_header ''X-Request-ID'' requestID rs, a2))"

subsection \<open>Limits per IP address\<close>

definition count_limited :: "app \<Rightarrow> app" where
  "count_limited a = a\<lparr>app_server := on_hub (add_metric RateLimited_update) (app_server a)\<rparr>"

definition ipRateLimitMiddleware :: "env \<Rightarrow> app handler \<Rightarrow> app handler" where
  "ipRateLimitMiddleware e = ip_limit_middleware ipRateLimiter (\<lambda>rl a. a\<lparr>ipRateLimiter := rl\<rparr>) count_limited
     ''rate limit exceeded: too many requests from this IP'' (clock e ''ipRateLimiter'')"

definition authRateLimitMiddleware :: "env \<Rightarrow> app handler \<Rightarrow> app handler" where
  "authRateLimitMiddleware e = ip_limit_middleware authIPLimiter (\<lambda>rl a. a\<lparr>authIPLimiter := rl\<rparr>) count_limited
     ''rate limit exceeded: too many auth attempts from this IP'' (clock e ''authIPLimiter'')"

subsection \<open>Agents\<close>

definition ValidateAgentSecret :: "config \<Rightarrow> env \<Rightarrow> string \<Rightarrow> string \<Rightarrow> app \<Rightarrow> string option \<times> app" where
  "ValidateAgentSecret cf e agentID secret a =
     (if secret = [] then (Some ''missing agent secret'', a)
      else (let (ok, rl) = rateLimiter_Allow2 (clock e ''agentLimiter.since'') (clock e ''agentLimiter.now'')
                             agentID (agentRateLimiter a);
                a1 = a\<lparr>agentRateLimiter := rl\<rparr>
            in if \<not> ok then (Some ''rate limited: too many connection attempts'', a1)
               else if secret \<noteq> cf_agentSecret cf then (Some ''invalid agent secret'', a1)
               else (None, a1)))"

definition update_agent :: "string \<Rightarrow> (agent_row \<Rightarrow> agent_row) \<Rightarrow> database \<Rightarrow> database" where
  "update_agent i f d = d\<lparr>t_agents := map (\<lambda>a. if a_id a = i then f a else a) (t_agents d)\<rparr>"

text \<open>The conditional updates, one statement after the other; a failing one ends the function.\<close>

fun agent_updates :: "env \<Rightarrow> string \<Rightarrow> (string \<times> bool \<times> (agent_row \<Rightarrow> agent_row)) list \<Rightarrow> database \<Rightarrow> go_error option \<times> database" where
  "agent_updates e i [] d = (None, d)"
| "agent_updates e i ((place, wanted, f) # us) d =
     (if wanted then
        (if sql_fails e place then (Some ErrSQL, d) else agent_updates e i us (update_agent i f d))
      else agent_updates e i us d)"

definition RegisterAgentOnConnect ::
  "env \<Rightarrow> string \<Rightarrow> string \<Rightarrow> string \<Rightarrow> string \<Rightarrow> string \<Rightarrow> database \<Rightarrow> go_error option \<times> database" where
  "RegisterAgentOnConnect e agentID name0 model personality specialty d =
     (let name = (if name0 = [] then agentID else name0) in
      if sql_fails e ''RegisterAgent.select'' then (Some ErrSQL, d)
      else if \<not> agent_exists d agentID then
        (if sql_fails e ''RegisterAgent.insert'' then (Some ErrSQL, d)
         else (None, d\<lparr>t_agents := t_agents d @
                 [\<lparr>a_id = agentID, a_name = name, a_model = model, a_personality = personality,
                   a_specialty = specialty, a_status = ''offline''\<rparr>]\<rparr>))
      else agent_updates e agentID
             [(''RegisterAgent.model'', model \<noteq> [], \<lambda>a. a\<lparr>a_model := model\<rparr>),
              (''RegisterAgent.personality'', personality \<noteq> [], \<lambda>a. a\<lparr>a_personality := personality\<rparr>),
              (''RegisterAgent.specialty'', specialty \<noteq> [], \<lambda>a. a\<lparr>a_specialty := specialty\<rparr>),
              (''RegisterAgent.name'', name \<noteq> agentID, \<lambda>a. a\<lparr>a_name := name\<rparr>)] d)"

subsection \<open>Protocol versions\<close>

definition ProtocolVersion :: string where "ProtocolVersion = ''v1''"
definition SupportedVersions :: string where "SupportedVersions = ''v1''"

definition isSupportedVersion :: "string \<Rightarrow> bool" where
  "isSupportedVersion v \<longleftrightarrow> (\<exists>sv \<in> set (split_on CHR '','' SupportedVersions). trim_space sv = v)"

definition negotiateProtocol :: "http_request \<Rightarrow> string" where
  "negotiateProtocol rq =
     (case find isSupportedVersion (map trim_space (split_on CHR '','' (rq_header rq ''Sec-WebSocket-Protocol''))) of
        Some p \<Rightarrow> p
      | None \<Rightarrow>
          (let v = rq_query rq ''protocol_version'' in
           if v \<noteq> [] \<and> isSupportedVersion v then v else ProtocolVersion))"

definition upgrade_headers :: "string \<Rightarrow> (string, string) gomap" where
  "upgrade_headers ver = (if ver \<noteq> [] \<and> isSupportedVersion ver then [(''Sec-WebSocket-Protocol'', ver)] else [])"

definition welcome_message :: "connection \<Rightarrow> json" where
  "welcome_message c = OutgoingMessage ''connected''
     (JObj ((if deviceID c \<noteq> [] then [(''device_id'', JStr (deviceID c))] else []) @
       [(''id'', JStr (conn_id c)), (''protocol_version'', JStr (negotiatedVersion c)),
        (''status'', JStr ''connected''),
        (''supported_versions'', JArr (map JStr (split_on CHR '','' SupportedVersions)))]))"

definition sendWelcomeMessage :: "conn_ref \<Rightarrow> server \<Rightarrow> server" where
  "sendWelcomeMessage r s =
     (case heap (srv_hub s) r of None \<Rightarrow> s | Some c \<Rightarrow> on_hub (send_to r (welcome_message c)) s)"

definition replay_offline :: "env \<Rightarrow> conn_ref \<Rightarrow> string \<Rightarrow> server \<Rightarrow> server" where
  "replay_offline e r i s =
     (let rp = replayOfflineMessages (clock e ''Drain'') (sql_fails e ''deleteQueueMessages'') r i
                 \<lparr>rp_hub = srv_hub s, rp_queue = srv_queue s, rp_table = Some (t_queue (srv_db s))\<rparr>
      in s\<lparr>srv_hub := rp_hub rp, srv_queue := rp_queue rp,
           srv_db := (srv_db s)\<lparr>t_queue := the (rp_table rp)\<rparr>\<rparr>)"

subsection \<open>Connecting\<close>

text \<open>\<open>upgrader.CheckOrigin\<close>\<close>

definition CheckOrigin :: "config \<Rightarrow> http_request \<Rightarrow> bool" where
  "CheckOrigin cf rq \<longleftrightarrow>
     (let origin = rq_header rq ''Origin'' in
      origin = [] \<or> isOriginAllowed (cf_corsAllowedOrigins cf) origin)"

definition upgrade_response :: "string \<Rightarrow> http_response" where
  "upgrade_response ver = \<lparr>rs_code = 101, rs_headers = upgrade_headers ver, rs_body = JNull\<rparr>"

definition open_connection :: "connection \<Rightarrow> app \<Rightarrow> app" where
  "open_connection c a = a\<lparr>app_server := on_hub (start_register c) (app_server a)\<rparr>"

type_synonym upgrade_lib = "(http_request \<Rightarrow> bool) \<Rightarrow> http_request \<Rightarrow> http_response option"

definition handleAgentConnect :: "config \<Rightarrow> env \<Rightarrow> upgrade_lib \<Rightarrow> app handler" where
  "handleAgentConnect cf e upgrade rq a =
     (let agentID = rq_query rq ''agent_id''; secret = rq_query rq ''agent_secret'' in
      if agentID = [] then (writeJSONError 400 ''missing agent_id parameter'', a)
      else if secret = [] then (writeJSONError 401 ''missing agent_secret parameter'', a)
      else (case ValidateAgentSecret cf e agentID secret a of
              (Some err, a1) \<Rightarrow>
                (writeJSONError (if err = ''rate limited: too many connection attempts'' then 429 else 401)
                   (''authentication failed: '' @ err), count_error a1)
            | (None, a1) \<Rightarrow>
                (case RegisterAgentOnConnect e agentID (rq_query rq ''name'') (rq_query rq ''model'')
                        (rq_query rq ''personality'') (rq_query rq ''specialty'') (srv_db (app_server a1)) of
                   (err, d) \<Rightarrow>
                     (let a2 = a1\<lparr>app_server := (app_server a1)\<lparr>srv_db := d\<rparr>\<rparr>;
                          ver = negotiateProtocol rq
                      in if err \<noteq> None then (writeJSONError 500 ''failed to register agent'', a2)
                         else (case upgrade (CheckOrigin cf) rq of
                                 Some rs \<Rightarrow> (rs, a2)
                               | None \<Rightarrow>
                                   (upgrade_response ver,
                                    open_connection (new_connection ''agent'' agentID [] ver (clock e ''connectedAt'')) a2))))))"

definition handleClientConnect :: "config \<Rightarrow> env \<Rightarrow> upgrade_lib \<Rightarrow> app handler" where
  "handleClientConnect cf e upgrade rq a =
     (let tok = rq_query rq ''token'' in
      if tok = [] then (writeJSONError 401 ''missing token parameter'', a)
      else (case ValidateJWT (cf_jwt cf) (cf_jwtSecret cf) (clock e ''ValidateJWT'') tok of
              Inl err \<Rightarrow> (writeJSONError 401 (''authentication failed: '' @ err), count_error a)
            | Inr claims \<Rightarrow>
                (let ver = negotiateProtocol rq in
                 case upgrade (CheckOrigin cf) rq of
                   Some rs \<Rightarrow> (rs, a)
                 | None \<Rightarrow>
                     (upgrade_response ver,
                      open_connection (new_connection ''client'' (UserID claims) (rq_query rq ''device_id'') ver
                                         (clock e ''connectedAt'')) a))))"

subsection \<open>Accounts\<close>

definition handleLogin :: "config \<Rightarrow> env \<Rightarrow> server handler" where
  "handleLogin cf e rq s =
     (let username = rq_form rq ''username''; password = rq_form rq ''password'' in
      if rq_method rq \<noteq> ''POST'' then (writeJSONError 405 ''method not allowed'', s)
      else if username = [] \<or> password = [] then (writeJSONError 400 ''missing username or password'', s)
      else if sql_fails e ''handleLogin'' then (writeJSONError 500 ''internal error'', s)
      else (case find (\<lambda>u. u_username u = username) (t_users (srv_db s)) of
              None \<Rightarrow> (writeJSONError 401 ''invalid credentials'', s)
            | Some u \<Rightarrow>
                if \<not> cf_verify cf (u_password_hash u) password then (writeJSONError 401 ''invalid credentials'', s)
                else (case GenerateJWT (cf_jwt cf) (cf_jwtSecret cf) (clock e ''GenerateJWT.exp'') (clock e ''GenerateJWT.iat'')
                             (u_id u) username of
                        None \<Rightarrow> (writeJSONError 500 ''internal error'', s)
                      | Some tok \<Rightarrow>
                          (writeJSON 200 (str_obj [(''token'', tok), (''user_id'', u_id u), (''username'', username)]), s))))"

text \<open>\<open>INSERT INTO agents ... ON CONFLICT(id) DO UPDATE\<close>\<close>

definition upsert_agent :: "agent_row \<Rightarrow> database \<Rightarrow> database" where
  "upsert_agent row d =
     (if agent_exists d (a_id row)
      then update_agent (a_id row) (\<lambda>a. a\<lparr>a_name := a_name row, a_model := a_model row,
             a_personality := a_personality row, a_specialty := a_specialty row\<rparr>) d
      else d\<lparr>t_agents := t_agents d @ [row]\<rparr>)"

definition handleRegisterAgent :: "config \<Rightarrow> env \<Rightarrow> server handler" where
  "handleRegisterAgent cf e rq s =
     (let secret0 = rq_header rq ''X-Agent-Secret'';
          secret = (if secret0 = [] then rq_form rq ''agent_secret'' else secret0);
          agentID = rq_form rq ''agent_id''; name0 = rq_form rq ''name'';
          model = rq_form rq ''model''; personality = rq_form rq ''personality''; specialty = rq_form rq ''specialty'';
          name = (if name0 = [] then agentID else name0)
      in if rq_method rq \<noteq> ''POST'' then (writeJSONError 405 ''method not allowed'', s)
         else if secret \<noteq> cf_agentSecret cf then (writeJSONError 401 ''invalid agent secret'', s)
         else if agentID = [] then (writeJSONError 400 ''missing agent_id'', s)
         else if sql_fails e ''handleRegisterAgent'' then (writeJSONError 500 ''failed to register agent: '', s)
         else (writeJSON 200 (str_obj [(''agent_id'', agentID), (''model'', model), (''personality'', personality),
                 (''specialty'', specialty), (''status'', ''registered'')]),
               s\<lparr>srv_db := upsert_agent \<lparr>a_id = agentID, a_name = name, a_model = model, a_personality = personality,
                    a_specialty = specialty, a_status = ''offline''\<rparr> (srv_db s)\<rparr>))"

definition username_char :: "char \<Rightarrow> bool" where
  "username_char c \<longleftrightarrow>
     (let n = (of_char c :: nat) in
      (97 \<le> n \<and> n \<le> 122) \<or> (65 \<le> n \<and> n \<le> 90) \<or> (48 \<le> n \<and> n \<le> 57) \<or> c = CHR ''_'')"

definition handleRegisterUser :: "config \<Rightarrow> env \<Rightarrow> server handler" where
  "handleRegisterUser cf e rq s =
     (let username = rq_form rq ''username''; password = rq_form rq ''password'';
          userID = generateID ''user'' (clock e ''user.id'') in
      if rq_method rq \<noteq> ''POST'' then (writeJSONError 405 ''method not allowed'', s)
      else if username = [] \<or> password = [] then (writeJSONError 400 ''missing username or password'', s)
      else if length username < 3 \<or> length username > 50 then
        (writeJSONError 400 ''username must be between 3 and 50 characters'', s)
      else if \<not> list_all username_char username then
        (writeJSONError 400 ''username must contain only letters, numbers, and underscores'', s)
      else (case cf_hash cf password of
              None \<Rightarrow> (writeJSONError 500 ''internal error'', s)
            | Some h \<Rightarrow>
                if sql_fails e ''handleRegisterUser'' then (writeJSONError 500 ''failed to register user: '', s)
                else if user_exists (srv_db s) userID \<or> username \<in> u_username ` set (t_users (srv_db s)) then
                  (writeJSONError 409 ''username already exists'', s)
                else
                  (writeJSON 200 (str_obj [(''status'', ''registered''), (''user_id'', userID), (''username'', username)]),
                   s\<lparr>srv_db := (srv_db s)\<lparr>t_users := t_users (srv_db s) @
                      [\<lparr>u_id = userID, u_username = username, u_password_hash = h\<rparr>]\<rparr>\<rparr>)))"

definition handleChangePassword :: "config \<Rightarrow> env \<Rightarrow> server handler" where
  "handleChangePassword cf e rq s =
     (if rq_method rq \<noteq> ''POST'' then (writeJSONError 405 ''method not allowed'', s)
      else (case request_claims cf e rq of
              Inl _ \<Rightarrow> (writeJSONError 401 ''unauthorized'', s)
            | Inr claims \<Rightarrow>
                (let oldPassword = rq_form rq ''old_password''; newPassword = rq_form rq ''new_password'' in
                 if oldPassword = [] \<or> newPassword = [] then
                   (writeJSONError 400 ''missing old_password or new_password'', s)
                 else (case changeUserPassword (cf_verify cf) (cf_hash cf) e (UserID claims) oldPassword newPassword (srv_db s) of
                         (Some err, d) \<Rightarrow>
                           (if err = ErrText ''invalid old password'' then writeJSONError 401 ''invalid old password''
                            else if err = ErrNoRows then writeJSONError 404 ''user not found''
                            else writeJSONError 400 (case err of ErrText m \<Rightarrow> m | _ \<Rightarrow> ''database error''),
                            s\<lparr>srv_db := d\<rparr>)
                       | (None, d) \<Rightarrow>
                           (writeJSON 200 (str_obj [(''status'', ''password_changed'')]), s\<lparr>srv_db := d\<rparr>)))))"

end
