(* ===== verification/Routing_Safety.thy ===== *)
theory Routing_Safety
  imports Routing
begin

section \<open>Routing: who may send what to whom, and nothing is lost\<close>

text \<open>
  The properties of message routing: a stored message carries the identity of the connection it came
  in on and belongs to a conversation of that sender; a stored message reaches a connection of the
  recipient or waits in its queue; every device of a user gets an agent's message; a refused or
  rate-limited frame has no effect beyond the sender's own error message.
\<close>

subsection \<open>Frames\<close>

lemma on_hub_simps [simp]:
  "srv_hub (on_hub f s) = f (srv_hub s)" "srv_queue (on_hub f s) = srv_queue s"
  "srv_db (on_hub f s) = srv_db s" "srv_limits (on_hub f s) = srv_limits s"
  "srv_notified (on_hub f s) = srv_notified s"
  by (simp_all add: on_hub_def)

lemma sendError_simps [simp]:
  "srv_queue (sendError r m s) = srv_queue s" "srv_db (sendError r m s) = srv_db s"
  "srv_limits (sendError r m s) = srv_limits s" "srv_notified (sendError r m s) = srv_notified s"
  by (simp_all add: sendError_def)

lemma enqueue_offline_simps [simp]:
  "srv_hub (enqueue_offline e i d s) = srv_hub s" "srv_limits (enqueue_offline e i d s) = srv_limits s"
  "srv_queue (enqueue_offline e i d s) = Enqueue (clock e ''Enqueue'') i d (srv_queue s)"
  "srv_notified (enqueue_offline e i d s) = srv_notified s"
  "t_messages (srv_db (enqueue_offline e i d s)) = t_messages (srv_db s)"
  "t_conversations (srv_db (enqueue_offline e i d s)) = t_conversations (srv_db s)"
  by (simp_all add: enqueue_offline_def)

lemma notify_later_simps [simp]:
  "srv_hub (notify_later i m s) = srv_hub s" "srv_queue (notify_later i m s) = srv_queue s"
  "srv_db (notify_later i m s) = srv_db s"
  by (simp_all add: notify_later_def)

lemma outbox_add_metric [simp]: "outbox (add_metric f h) q = outbox h q" "accepts (add_metric f h) q = accepts h q"
  by (simp_all add: outbox_def accepts_def)

lemma outbox_sendError: "q \<noteq> r \<Longrightarrow> outbox (srv_hub (sendError r m s)) q = outbox (srv_hub s) q"
  by (simp add: sendError_def outbox_send_to)

lemma outbox_mono: "set (outbox h q) \<subseteq> set (outbox (send_to r d h) q)"
  by (auto simp: outbox_send_to)

lemma t_messages_deliver:
  "t_messages (srv_db (deliver_to_user e i msg out s)) = t_messages (srv_db s)"
  "t_messages (srv_db (deliver_to_agent e i out s)) = t_messages (srv_db s)"
  by (simp_all add: deliver_to_user_def deliver_to_agent_def Let_def case_prod_beta split: option.splits)

lemma sender_sends_only:
  assumes "sends_only (srv_hub s) (srv_hub s')"
  shows "sender_type r s' = sender_type r s" and "sender_id r s' = sender_id r s"
proof -
  have "sender_type r s' = sender_type r s \<and> sender_id r s' = sender_id r s"
  proof (cases "heap (srv_hub s) r")
    case None
    then have "heap (srv_hub s') r = None" using sends_only_None [OF assms] by blast
    with None show ?thesis by (simp add: sender_type_def sender_id_def)
  next
    case (Some c)
    with assms obtain c' where "heap (srv_hub s') r = Some c'" "conn_sent c c'" by (rule sends_only_conn)
    with Some show ?thesis by (simp add: sender_type_def sender_id_def conn_sent_fields(1,2))
  qed
  then show "sender_type r s' = sender_type r s" and "sender_id r s' = sender_id r s" by simp_all
qed

lemma sender_sendError [simp]:
  "sender_type q (sendError r m s) = sender_type q s" "sender_id q (sendError r m s) = sender_id q s"
  by (rule sender_sends_only, simp add: sendError_def)+

lemma sender_frame [simp]:
  "sender_type r (s\<lparr>srv_limits := x\<rparr>) = sender_type r s" "sender_id r (s\<lparr>srv_limits := x\<rparr>) = sender_id r s"
  "sender_type r (s\<lparr>srv_db := y\<rparr>) = sender_type r s" "sender_id r (s\<lparr>srv_db := y\<rparr>) = sender_id r s"
  "sender_type r (on_hub (\<lambda>h. add_metric f (add_metric g h)) s) = sender_type r s"
  "sender_id r (on_hub (\<lambda>h. add_metric f (add_metric g h)) s) = sender_id r s"
  by (simp_all add: sender_type_def sender_id_def)

subsection \<open>The two outcomes of a chat message\<close>

definition participant :: "string \<Rightarrow> string \<Rightarrow> Conversation \<Rightarrow> bool" where
  "participant ct i conv \<longleftrightarrow> (ct = ''agent'' \<longrightarrow> conv_AgentID conv = i) \<and> (ct = ''client'' \<longrightarrow> conv_UserID conv = i)"

definition recipient_of :: "string \<Rightarrow> Conversation \<Rightarrow> string" where
  "recipient_of ct conv = (if ct = ''agent'' then conv_UserID conv else conv_AgentID conv)"

lemma routeChatMessage_cases:
  obtains (refused) m where "routeChatMessage e r dat s = sendError r m s"
  | (accepted) msg0 conv msg d where
      "Option.bind dat unmarshal_routed = Some msg0"
      "getConversation e (ConversationID msg0) (srv_db s) = Inr (Some conv)"
      "participant (sender_type r s) (sender_id r s) conv"
      "msg = authored (sender_type r s) (sender_id r s) (recipient_of (sender_type r s) conv) msg0"
      "storeMessage e msg (srv_db s) = (None, d)"
      "routeChatMessage e r dat s =
         on_hub (send_to r (message_sent_ack (ConversationID msg0)))
           (if sender_type r s = ''agent''
            then deliver_to_user e (recipient_of (sender_type r s) conv) msg
                   (OutgoingMessage ''message'' (marshal_routed msg)) (s\<lparr>srv_db := d\<rparr>)
            else deliver_to_agent e (recipient_of (sender_type r s) conv)
                   (OutgoingMessage ''message'' (marshal_routed msg)) (s\<lparr>srv_db := d\<rparr>))"
proof (cases "Option.bind dat unmarshal_routed")
  case None
  then have "(case dat of None \<Rightarrow> None | Some j \<Rightarrow> unmarshal_routed j) = None" by (cases dat) simp_all
  then show ?thesis by (intro refused) (simp add: routeChatMessage_def)
next
  case (Some msg0)
  then have dat: "(case dat of None \<Rightarrow> None | Some j \<Rightarrow> unmarshal_routed j) = Some msg0" by (cases dat) simp_all
  note frame = Some
  show ?thesis
  proof (cases "Content msg0 = [] \<or> ConversationID msg0 = []")
    case True
    then show ?thesis using dat by (cases "Content msg0 = []") (auto intro: refused simp: routeChatMessage_def)
  next
    case nonempty: False
    show ?thesis
    proof (cases "\<exists>conv. getConversation e (ConversationID msg0) (srv_db s) = Inr (Some conv) \<and>
        participant (sender_type r s) (sender_id r s) conv")
      case False
      show ?thesis
      proof (cases "getConversation e (ConversationID msg0) (srv_db s)")
        case (Inl err)
        then show ?thesis using dat nonempty by (intro refused) (simp add: routeChatMessage_def Let_def)
      next
        case (Inr c)
        then show ?thesis
          using dat nonempty False
          by (cases c) (auto intro!: refused simp: routeChatMessage_def Let_def participant_def)
      qed
    next
      case True
      then obtain conv where conv: "getConversation e (ConversationID msg0) (srv_db s) = Inr (Some conv)"
        and p: "participant (sender_type r s) (sender_id r s) conv" by blast
      define msg where "msg = authored (sender_type r s) (sender_id r s) (recipient_of (sender_type r s) conv) msg0"
      obtain res d where st: "storeMessage e msg (srv_db s) = (res, d)" by (cases "storeMessage e msg (srv_db s)")
      have cid: "ConversationID msg = ConversationID msg0" by (simp add: msg_def authored_def)
      show ?thesis
      proof (cases res)
        case None
        show ?thesis
          by (rule accepted [OF frame conv p msg_def])
            (use dat nonempty conv p st None cid in
              \<open>auto simp: routeChatMessage_def Let_def participant_def recipient_of_def msg_def\<close>)
      next
        case (Some err)
        then show ?thesis
          using dat nonempty conv p st
          by (intro refused) (auto simp: routeChatMessage_def Let_def participant_def recipient_of_def msg_def)
      qed
    qed
  qed
qed

subsection \<open>Rate limiting\<close>

lemma checkRateLimit_frame:
  assumes "checkRateLimit e r s = (ok, s1)"
  shows "srv_db s1 = srv_db s" "srv_queue s1 = srv_queue s" "srv_notified s1 = srv_notified s"
    "q \<noteq> r \<Longrightarrow> outbox (srv_hub s1) q = outbox (srv_hub s) q"
    "sender_type r s1 = sender_type r s" "sender_id r s1 = sender_id r s" "ok \<Longrightarrow> srv_hub s1 = srv_hub s"
  using assms
  by (auto simp: checkRateLimit_def Let_def case_prod_beta outbox_sendError split: rate_verdict.splits)

text \<open>a frame over the rate limit has no effect except on the sender's own outbox, on the limiters and
  on the metrics: nothing is stored, queued, notified or delivered.\<close>

theorem rate_limited_frame_has_no_effect:
  assumes "fst (checkRateLimit e r s) = False"
  shows "let s' = routeMessage fmt cfg e r raw s in
     srv_db s' = srv_db s \<and> srv_queue s' = srv_queue s \<and> srv_notified s' = srv_notified s \<and>
     (\<forall>q. q \<noteq> r \<longrightarrow> outbox (srv_hub s') q = outbox (srv_hub s) q) \<and>
     agents (srv_hub s') = agents (srv_hub s) \<and> clientConns (srv_hub s') = clientConns (srv_hub s)"
proof -
  obtain s1 where c: "checkRateLimit e r s = (False, s1)" using assms by (cases "checkRateLimit e r s") simp
  then have "routeMessage fmt cfg e r raw s = s1" by (simp add: routeMessage_def)
  moreover have "agents (srv_hub s1) = agents (srv_hub s)" "clientConns (srv_hub s1) = clientConns (srv_hub s)"
    using c by (auto simp: checkRateLimit_def Let_def case_prod_beta sendError_def
        sends_only_frame [OF sends_only_send_to] split: rate_verdict.splits)
  ultimately show ?thesis using checkRateLimit_frame [OF c] by (simp add: Let_def)
qed

subsection \<open>Authenticity\<close>

text \<open>A row that the sender \<open>(ct, i)\<close> may add: its own identity, one of its conversations.\<close>

definition authentic_row :: "string \<Rightarrow> string \<Rightarrow> database \<Rightarrow> message_row \<Rightarrow> bool" where
  "authentic_row ct i d row \<longleftrightarrow> m_sender_type row = ct \<and> m_sender_id row = i \<and>
     (\<exists>c \<in> set (t_conversations d). conv_ID c = m_conversation row \<and>
        (if ct = ''agent'' then conv_AgentID c else conv_UserID c) = i)"

lemma routeChatMessage_rows:
  assumes "sender_type r s \<in> {''agent'', ''client''}"
  shows "t_messages (srv_db (routeChatMessage e r dat s)) = t_messages (srv_db s) \<or>
    (\<exists>row. t_messages (srv_db (routeChatMessage e r dat s)) = t_messages (srv_db s) @ [row] \<and>
       authentic_row (sender_type r s) (sender_id r s) (srv_db s) row)"
proof (rule routeChatMessage_cases [of e r dat s])
  fix m assume "routeChatMessage e r dat s = sendError r m s"
  then show ?thesis by simp
next
  fix msg0 conv msg d
  assume conv: "getConversation e (ConversationID msg0) (srv_db s) = Inr (Some conv)"
    and p: "participant (sender_type r s) (sender_id r s) conv"
    and msg: "msg = authored (sender_type r s) (sender_id r s) (recipient_of (sender_type r s) conv) msg0"
    and st: "storeMessage e msg (srv_db s) = (None, d)"
    and res: "routeChatMessage e r dat s =
         on_hub (send_to r (message_sent_ack (ConversationID msg0)))
           (if sender_type r s = ''agent''
            then deliver_to_user e (recipient_of (sender_type r s) conv) msg
                   (OutgoingMessage ''message'' (marshal_routed msg)) (s\<lparr>srv_db := d\<rparr>)
            else deliver_to_agent e (recipient_of (sender_type r s) conv)
                   (OutgoingMessage ''message'' (marshal_routed msg)) (s\<lparr>srv_db := d\<rparr>))"
  have ts: "t_messages (srv_db (routeChatMessage e r dat s)) = t_messages d"
    by (simp add: res t_messages_deliver)
  show ?thesis
  proof (rule storeMessage_cases [of e msg "srv_db s"])
    fix d'
    let ?row = "message_row_of (generateID ''msg'' (clock e ''storeMessage.id'')) (clock e ''storeMessage.created'') msg"
    assume "storeMessage e msg (srv_db s) = (None, d')" and "t_messages d' = t_messages (srv_db s) @ [?row]"
    moreover have "authentic_row (sender_type r s) (sender_id r s) (srv_db s) ?row"
      using getConversation_found [OF conv] p msg assms
      by (auto simp: authentic_row_def message_row_of_def authored_def participant_def)
    ultimately show ?thesis using st ts by auto
  qed (use st in simp)
qed

lemma t_messages_forward [simp]: "srv_db (forward ct conv d s) = srv_db s"
  by (simp add: forward_def split: option.splits)

lemma srv_db_typing [simp]: "srv_db (routeTypingIndicator e r dat s) = srv_db s"
  by (simp add: routeTypingIndicator_def Let_def split: option.splits list.splits sum.splits)

lemma srv_db_status [simp]: "srv_db (routeStatusUpdate e r dat s) = srv_db s"
  by (simp add: routeStatusUpdate_def Let_def split: option.splits list.splits sum.splits)

lemma srv_db_heartbeat [simp]: "srv_db (routeHeartbeat fmt cfg e r s) = srv_db s"
  by (simp add: routeHeartbeat_def)

text \<open>C1: whatever frame a connection sends, the message table either stays as it is or gets exactly one
  row, and that row carries the type and id of the connection, never those claimed in the frame,
  and belongs to a conversation in which the sender takes part.\<close>

theorem stored_messages_are_authentic:
  assumes "sender_type r s \<in> {''agent'', ''client''}"
  shows "t_messages (srv_db (routeMessage fmt cfg e r raw s)) = t_messages (srv_db s) \<or>
    (\<exists>row. t_messages (srv_db (routeMessage fmt cfg e r raw s)) = t_messages (srv_db s) @ [row] \<and>
       authentic_row (sender_type r s) (sender_id r s) (srv_db s) row)"
proof -
  obtain ok s1 where c: "checkRateLimit e r s = (ok, s1)" by (cases "checkRateLimit e r s")
  note f = checkRateLimit_frame [OF c]
  have chat: "t_messages (srv_db (routeChatMessage e r dat s1)) = t_messages (srv_db s) \<or>
    (\<exists>row. t_messages (srv_db (routeChatMessage e r dat s1)) = t_messages (srv_db s) @ [row] \<and>
       authentic_row (sender_type r s) (sender_id r s) (srv_db s) row)" for dat
    using routeChatMessage_rows [of r s1 e dat] assms f(1,5,6) by simp
  show ?thesis using chat f(1) by (simp add: routeMessage_def c split: option.splits)
qed

subsection \<open>No message is lost\<close>

lemma send_count_positive:
  "0 < fst (send_count rs d h) \<Longrightarrow> \<exists>q \<in> set rs. d \<in> set (outbox (snd (send_count rs d h)) q)"
proof (induction rs d h rule: send_count.induct)
  case (2 r rs d h)
  have grow: "set (outbox h q) \<subseteq> set (outbox (send_all rs d h) q)" for h q
  proof -
    have "set (outbox h q) \<subseteq> set (outbox (fold (\<lambda>r. send_to r d) rs h) q)" for rs
      by (induction rs arbitrary: h) (auto dest: subsetD [OF outbox_mono])
    then show ?thesis by (simp add: send_all_def)
  qed
  obtain ok h1 where s: "SafeSend r d h = (ok, h1)" by (cases "SafeSend r d h")
  show ?case
  proof (cases ok)
    case True
    then have "d \<in> set (outbox h1 r)"
      using s hub_delivery.result [of r d h] hub_delivery.box_send [of r d h r] by simp
    then have "d \<in> set (outbox (send_all rs d h1) r)" using grow by blast
    then show ?thesis using s by (simp add: case_prod_beta Let_def snd_send_count)
  next
    case False
    then have "0 < fst (send_count rs d h1)" using "2.prems" s by (simp add: case_prod_beta Let_def)
    from "2.IH" [OF s [symmetric] refl this] False s show ?thesis by (auto simp: case_prod_beta Let_def)
  qed
qed simp

text \<open>The message goes to the other participant of its conversation.\<close>

definition addressed :: "string \<Rightarrow> database \<Rightarrow> RoutedMessage \<Rightarrow> bool" where
  "addressed ct d msg \<longleftrightarrow>
     (\<exists>conv \<in> set (t_conversations d). conv_ID conv = ConversationID msg \<and> RecipientID msg = recipient_of ct conv)"

definition delivered_or_queued :: "string \<Rightarrow> json \<Rightarrow> server \<Rightarrow> server \<Rightarrow> bool" where
  "delivered_or_queued recipient out s s' \<longleftrightarrow>
     (\<exists>q. (q \<in> set (GetClientConns recipient (srv_hub s)) \<or> GetAgent recipient (srv_hub s) = Some q) \<and>
          out \<in> set (outbox (srv_hub s') q)) \<or>
     out \<in> data ` set (queue_of recipient (srv_queue s'))"

lemma delivered_or_queued_send:
  "delivered_or_queued i out s s' \<Longrightarrow> delivered_or_queued i out s (on_hub (send_to r d) s')"
  using outbox_mono [of "srv_hub s'" _ r d] by (auto simp: delivered_or_queued_def)

lemma delivered_or_queued_db: "delivered_or_queued i out (s\<lparr>srv_db := d\<rparr>) s' = delivered_or_queued i out s s'"
  by (simp add: delivered_or_queued_def)

lemma Enqueue_member: "queue_good q \<Longrightarrow> d \<in> data ` set (queue_of i (Enqueue now i d q))"
proof -
  assume "queue_good q"
  then have "queue_of i (Enqueue now i d q) =
      lastn (nat (maxLen q)) (queue_of i q @ [\<lparr>data = d, queuedAt = now, sentCount = 0\<rparr>])" "0 < nat (maxLen q)"
    by (simp_all add: queue_good_def queue_of_Enqueue)
  then show ?thesis by (auto simp: lastn_def image_iff Suc_diff_le)
qed

lemma deliver_to_user_ok:
  assumes "queue_good (srv_queue s)"
  shows "delivered_or_queued i out s (deliver_to_user e i msg out s)"
proof -
  let ?conns = "GetClientConns i (srv_hub s)"
  show ?thesis
  proof (cases "?conns \<noteq> [] \<and> 0 < fst (send_count ?conns out (srv_hub s))")
    case True
    with send_count_positive [of ?conns out "srv_hub s"] show ?thesis
      by (auto simp: delivered_or_queued_def deliver_to_user_def Let_def case_prod_beta)
  next
    case False
    then show ?thesis
      using Enqueue_member [OF assms]
      by (auto simp: delivered_or_queued_def deliver_to_user_def Let_def case_prod_beta)
  qed
qed

lemma deliver_to_agent_ok:
  assumes "queue_good (srv_queue s)"
  shows "delivered_or_queued i out s (deliver_to_agent e i out s)"
proof (cases "GetAgent i (srv_hub s)")
  case None
  then show ?thesis
    using Enqueue_member [OF assms] by (simp add: delivered_or_queued_def deliver_to_agent_def)
next
  case (Some q)
  show ?thesis
  proof (cases "accepts (srv_hub s) q")
    case True
    then have "out \<in> set (outbox (snd (SafeSend q out (srv_hub s))) q)"
      by (simp add: hub_delivery.box_send)
    with True Some show ?thesis
      by (auto simp: delivered_or_queued_def deliver_to_agent_def Let_def case_prod_beta hub_delivery.result)
  next
    case False
    with Some show ?thesis
      using Enqueue_member [OF assms]
      by (simp add: delivered_or_queued_def deliver_to_agent_def SafeSend_refused)
  qed
qed

text \<open>C2: no stored message is lost. When a chat message has been stored, it is in the outbox of a
  connection of the recipient or in the recipient's offline queue, as the very message that was
  stored; the recipient is the other participant of the conversation it was stored in.\<close>

theorem stored_message_not_lost:
  assumes "t_messages (srv_db (routeChatMessage e r dat s)) \<noteq> t_messages (srv_db s)"
    and "queue_good (srv_queue s)"
  shows "\<exists>i t msg. last (t_messages (srv_db (routeChatMessage e r dat s))) = message_row_of i t msg \<and>
    addressed (sender_type r s) (srv_db s) msg \<and>
    delivered_or_queued (RecipientID msg) (OutgoingMessage ''message'' (marshal_routed msg)) s (routeChatMessage e r dat s)"
proof (rule routeChatMessage_cases [of e r dat s])
  fix m assume "routeChatMessage e r dat s = sendError r m s"
  with assms(1) show ?thesis by simp
next
  fix msg0 conv msg d
  let ?rid = "recipient_of (sender_type r s) conv" and ?out = "OutgoingMessage ''message'' (marshal_routed msg)"
  let ?s1 = "s\<lparr>srv_db := d\<rparr>"
  let ?s2 = "if sender_type r s = ''agent'' then deliver_to_user e ?rid msg ?out ?s1 else deliver_to_agent e ?rid ?out ?s1"
  assume conv: "getConversation e (ConversationID msg0) (srv_db s) = Inr (Some conv)"
    and msg: "msg = authored (sender_type r s) (sender_id r s) ?rid msg0"
    and st: "storeMessage e msg (srv_db s) = (None, d)"
    and res: "routeChatMessage e r dat s = on_hub (send_to r (message_sent_ack (ConversationID msg0))) ?s2"
  have "delivered_or_queued ?rid ?out ?s1 ?s2"
    using deliver_to_user_ok [of ?s1] deliver_to_agent_ok [of ?s1] assms(2) by simp
  then have "delivered_or_queued ?rid ?out s (routeChatMessage e r dat s)"
    unfolding res by (intro delivered_or_queued_send) (simp only: delivered_or_queued_db)
  moreover have "RecipientID msg = ?rid" "addressed (sender_type r s) (srv_db s) msg"
    using getConversation_found [OF conv] by (auto simp: msg authored_def addressed_def)
  moreover have "\<exists>i t. last (t_messages (srv_db (routeChatMessage e r dat s))) = message_row_of i t msg"
  proof (rule storeMessage_cases [of e msg "srv_db s"])
    fix d' assume "storeMessage e msg (srv_db s) = (None, d')"
      and "t_messages d' = t_messages (srv_db s) @
         [message_row_of (generateID ''msg'' (clock e ''storeMessage.id'')) (clock e ''storeMessage.created'') msg]"
    then show ?thesis using st by (auto simp: res t_messages_deliver)
  qed (use st in simp)
  ultimately show ?thesis by metis
qed

subsection \<open>Every device, and nobody else\<close>

lemma agent_not_client_conn:
  assumes "hub_inv h" and "heap h r = Some c" and "connType c = ''agent''"
  shows "r \<notin> set (GetClientConns u h)"
  using client_live [OF assms(1), of r u] assms(2,3) by (auto simp: live_as_def)

lemma outbox_deliver_to_user:
  assumes "hub_inv (srv_hub s)"
  shows "outbox (srv_hub (deliver_to_user e i msg out s)) q =
    (if q \<in> set (GetClientConns i (srv_hub s)) \<and> accepts (srv_hub s) q
     then outbox (srv_hub s) q @ [out] else outbox (srv_hub s) q)"
proof -
  let ?rs = "GetClientConns i (srv_hub s)"
  have "distinct ?rs" using GetClientConns_inv(1) [OF assms] by (simp add: devices_ok_def)
  from outbox_send_all [OF this] show ?thesis
    by (simp add: deliver_to_user_def Let_def case_prod_beta snd_send_count)
qed

text \<open>C8: multi-device delivery. When an agent's chat frame has stored a message, the one new row is the
  message of the frame (its conversation, content and attachments) with the sending agent as its sender
  and the user of the conversation as its recipient; every connected device of that user that has room
  in its buffer gets the very message that was stored, exactly once and after what was there before; no
  other connection but the sender's gets anything, and the sender gets its acknowledgment.\<close>

theorem agent_message_reaches_every_device:
  assumes "hub_reachable (srv_hub s)" and "sender_type r s = ''agent''"
    and "t_messages (srv_db (routeChatMessage e r dat s)) \<noteq> t_messages (srv_db s)"
  shows "\<exists>conv msg0 msg i t. Option.bind dat unmarshal_routed = Some msg0 \<and>
    conv \<in> set (t_conversations (srv_db s)) \<and> conv_ID conv = ConversationID msg0 \<and>
    conv_AgentID conv = sender_id r s \<and>
    msg = msg0\<lparr>rm_type := ''message'', SenderType := ''agent'', SenderID := sender_id r s,
               RecipientID := conv_UserID conv\<rparr> \<and>
    t_messages (srv_db (routeChatMessage e r dat s)) = t_messages (srv_db s) @ [message_row_of i t msg] \<and>
    (\<forall>q. q \<noteq> r \<longrightarrow> outbox (srv_hub (routeChatMessage e r dat s)) q =
       (if q \<in> set (GetClientConns (conv_UserID conv) (srv_hub s)) \<and> accepts (srv_hub s) q
        then outbox (srv_hub s) q @ [OutgoingMessage ''message'' (marshal_routed msg)]
        else outbox (srv_hub s) q)) \<and>
    outbox (srv_hub (routeChatMessage e r dat s)) r =
      outbox (srv_hub s) r @ (if accepts (srv_hub s) r then [message_sent_ack (conv_ID conv)] else [])"
proof (rule routeChatMessage_cases [of e r dat s])
  fix m assume "routeChatMessage e r dat s = sendError r m s"
  with assms(3) show ?thesis by simp
next
  fix msg0 msg and conv :: Conversation and d
  let ?s1 = "s\<lparr>srv_db := d\<rparr>" and ?out = "OutgoingMessage ''message'' (marshal_routed msg)"
  let ?rs = "GetClientConns (conv_UserID conv) (srv_hub s)"
  assume frame: "Option.bind dat unmarshal_routed = Some msg0"
    and conv: "getConversation e (ConversationID msg0) (srv_db s) = Inr (Some conv)"
    and p: "participant (sender_type r s) (sender_id r s) conv"
    and msg: "msg = authored (sender_type r s) (sender_id r s) (recipient_of (sender_type r s) conv) msg0"
    and st: "storeMessage e msg (srv_db s) = (None, d)"
    and res: "routeChatMessage e r dat s = on_hub (send_to r (message_sent_ack (ConversationID msg0)))
      (if sender_type r s = ''agent'' then deliver_to_user e (recipient_of (sender_type r s) conv) msg ?out ?s1
       else deliver_to_agent e (recipient_of (sender_type r s) conv) ?out ?s1)"
  note inv = hub_reachable_inv [OF assms(1)]
  obtain c where c: "heap (srv_hub s) r = Some c" "connType c = ''agent''"
    using assms(2) by (auto simp: sender_type_def split: option.splits)
  have r: "r \<notin> set ?rs" by (rule agent_not_client_conn [OF inv c])
  let ?h2 = "srv_hub (deliver_to_user e (conv_UserID conv) msg ?out ?s1)"
  have h': "srv_hub (routeChatMessage e r dat s) = send_to r (message_sent_ack (ConversationID msg0)) ?h2"
    using assms(2) by (simp add: res recipient_of_def)
  have box: "outbox ?h2 q = (if q \<in> set ?rs \<and> accepts (srv_hub s) q then outbox (srv_hub s) q @ [?out]
      else outbox (srv_hub s) q)" for q
    using outbox_deliver_to_user [of ?s1] inv by simp
  have acc: "accepts ?h2 r = accepts (srv_hub s) r"
    using accepts_send_all [OF r] by (simp add: deliver_to_user_def Let_def case_prod_beta snd_send_count)
  obtain i t where row: "t_messages (srv_db (routeChatMessage e r dat s)) = t_messages (srv_db s) @ [message_row_of i t msg]"
    by (rule storeMessage_cases [of e msg "srv_db s"]) (use st in \<open>auto simp: res t_messages_deliver\<close>)
  have m: "msg = msg0\<lparr>rm_type := ''message'', SenderType := ''agent'', SenderID := sender_id r s,
      RecipientID := conv_UserID conv\<rparr>"
    using assms(2) by (cases msg0) (simp add: msg authored_def recipient_of_def)
  have boxes: "\<forall>q. q \<noteq> r \<longrightarrow> outbox (srv_hub (routeChatMessage e r dat s)) q =
      (if q \<in> set ?rs \<and> accepts (srv_hub s) q then outbox (srv_hub s) q @ [?out] else outbox (srv_hub s) q)"
    "outbox (srv_hub (routeChatMessage e r dat s)) r =
      outbox (srv_hub s) r @ (if accepts (srv_hub s) r then [message_sent_ack (conv_ID conv)] else [])"
    using r getConversation_found [OF conv] by (simp_all add: h' outbox_send_to box acc)
  have "conv \<in> set (t_conversations (srv_db s))" "conv_ID conv = ConversationID msg0" "conv_AgentID conv = sender_id r s"
    using getConversation_found [OF conv] p assms(2) by (simp_all add: participant_def)
  with frame m row boxes show ?thesis by blast
qed

text \<open>a chat frame that is not stored (malformed, empty, unknown conversation, sender not a
  participant, database error) changes nothing: no table, no queue, no notification, and no outbox but
  the sender's.\<close>

theorem refused_message_has_no_effect:
  assumes "t_messages (srv_db (routeChatMessage e r dat s)) = t_messages (srv_db s)"
  shows "let s' = routeChatMessage e r dat s in
    srv_db s' = srv_db s \<and> srv_queue s' = srv_queue s \<and> srv_notified s' = srv_notified s \<and>
    (\<forall>q. q \<noteq> r \<longrightarrow> outbox (srv_hub s') q = outbox (srv_hub s) q)"
proof (rule routeChatMessage_cases [of e r dat s])
  fix m assume "routeChatMessage e r dat s = sendError r m s"
  then show ?thesis by (simp add: Let_def outbox_sendError)
next
  fix msg0 conv msg d
  assume st: "storeMessage e msg (srv_db s) = (None, d)"
    and res: "routeChatMessage e r dat s = on_hub (send_to r (message_sent_ack (ConversationID msg0)))
      (if sender_type r s = ''agent'' then deliver_to_user e (recipient_of (sender_type r s) conv) msg
         (OutgoingMessage ''message'' (marshal_routed msg)) (s\<lparr>srv_db := d\<rparr>)
       else deliver_to_agent e (recipient_of (sender_type r s) conv)
         (OutgoingMessage ''message'' (marshal_routed msg)) (s\<lparr>srv_db := d\<rparr>))"
  have "t_messages (srv_db (routeChatMessage e r dat s)) = t_messages d" by (simp add: res t_messages_deliver)
  moreover have "t_messages d \<noteq> t_messages (srv_db s)"
    by (rule storeMessage_cases [of e msg "srv_db s"]) (use st in auto)
  ultimately show ?thesis using assms by simp
qed

text \<open>status updates are forwarded without the check that messages and typing indicators get: a
  client that is no participant of a conversation reaches the agent of that conversation.\<close>

theorem status_update_from_outsider:
  assumes "\<And>x. \<not> sql_fails e x" and "db_ok (srv_db s)" and "conv \<in> set (t_conversations (srv_db s))"
    and "conv_ID conv \<noteq> []" and "sender_type r s = ''client''" and "sender_id r s \<noteq> conv_UserID conv"
    and "GetAgent (conv_AgentID conv) (srv_hub s) = Some q" and "accepts (srv_hub s) q"
  shows "outbox (srv_hub (routeStatusUpdate e r
       (Some (JObj [(''conversation_id'', JStr (conv_ID conv)), (''status'', JStr st)])) s)) q =
     outbox (srv_hub s) q @ [status_event (conv_ID conv) ''client'' (sender_id r s) st]"
proof -
  have "find (\<lambda>x. conv_ID x = conv_ID conv) (t_conversations (srv_db s)) = Some conv"
    using assms(2,3) by (intro find_key) (simp_all add: db_ok_def)
  then have "getConversation e (conv_ID conv) (srv_db s) = Inr (Some conv)"
    using assms(1) by (simp add: getConversation_def)
  then show ?thesis
    using assms(4-)
    by (simp add: routeStatusUpdate_def unmarshal_fields_def get_str_def members_simps fold_eq_def ascii_lower_def
        forward_def outbox_send_to)
qed

subsection \<open>A concrete server\<close>

text \<open>Agent \<open>a\<close> on connection 0, user \<open>u\<close> on connection 1, and the conversation \<open>c\<close> between them.\<close>

definition example_hub :: hub where
  "example_hub = run_loop_register 6 1
     (start_register (new_connection ''client'' ''u'' ''d'' ''v1'' 0) (agent_run 1))"

definition example_server :: server where
  "example_server = \<lparr>srv_hub = example_hub, srv_queue = newOfflineQueue 100 (7 * 24 * hour),
     srv_db = example_db, srv_limits = new_message_limits, srv_notified = []\<rparr>"

lemma example_hub_reachable: "hub_reachable example_hub"
proof -
  let ?h = "start_register (new_connection ''client'' ''u'' ''d'' ''v1'' 0) (agent_run 1)"
  have r: "hub_reachable ?h" using hub_next [OF agent_run_reachable connect_client] by simp
  have "hub_register 6 1 (?h\<lparr>registering := remove1 1 (registering ?h)\<rparr>) = Some example_hub"
    by (simp add: example_hub_def run_defs)
  then show ?thesis by (rule hub_next [OF r run_register, rotated]) (simp add: run_defs)
qed

lemma example_hub_facts:
  "GetClientConns ''u'' example_hub = [1]" "GetAgent ''a'' example_hub = Some 0"
  "accepts example_hub 0" "accepts example_hub 1" "outbox example_hub 0 = []" "outbox example_hub 1 = []"
  by (simp_all add: example_hub_def run_defs accepts_def outbox_def)

lemma example_server_simps [simp]:
  "srv_hub example_server = example_hub" "srv_db example_server = example_db"
  "srv_queue example_server = newOfflineQueue 100 (7 * 24 * hour)" "srv_limits example_server = new_message_limits"
  by (simp_all add: example_server_def)

lemma example_senders:
  "sender_type 0 example_server = ''agent''" "sender_id 0 example_server = ''a''"
  "sender_type 1 example_server = ''client''" "sender_id 1 example_server = ''u''"
  by (simp_all add: sender_type_def sender_id_def example_hub_def run_defs)

lemmas example_facts = example_hub_facts example_senders
  example_hub_facts [unfolded One_nat_def] example_senders [unfolded One_nat_def]

definition example_config :: presence_config where
  "example_config = \<lparr>agentPresenceEnabled = False, agentPresenceInterval = 30 * second, agentPresenceTimeout = 90 * second\<rparr>"

definition example_chat :: json where
  "example_chat = JObj [(''conversation_id'', JStr ''c''), (''content'', JStr ''hi''), (''sender_id'', JStr ''mallory'')]"

lemma example_chat_message:
  "unmarshal_routed example_chat =
     Some \<lparr>rm_type = [], ConversationID = ''c'', Content = ''hi'', AttachmentIDs = [], SenderType = [],
       SenderID = ''mallory'', RecipientID = [], Timestamp = []\<rparr>"
  by (simp add: unmarshal_routed_def example_chat_def get_str_def get_strs_def members_simps fold_eq_def ascii_lower_def)

lemma example_chat_stored:
  "t_messages (srv_db (routeChatMessage quiet_env 0 (Some example_chat) example_server)) \<noteq> t_messages example_db"
  by (simp add: routeChatMessage_def example_chat_message example_senders example_conversation storeMessage_def
      insert_message_def message_exists_def conversation_exists_def message_row_of_def example_message_def
      authored_def generateID_def t_messages_deliver Let_def)

theorem rate_limited_frame_has_no_effect_witness:
  "let s = example_server\<lparr>srv_limits := new_message_limits\<lparr>messageRateLimiter :=
         \<lparr>counters = [(''a'', \<lparr>rc_count = 60, rc_expires = 5000\<rparr>)], rl_limit = 60, rl_window = minute\<rparr>\<rparr>\<rparr>;
       s' = routeMessage (\<lambda>_. []) example_config quiet_env 0 (Frame JNull) s
   in srv_db s' = srv_db s \<and> (\<forall>q. q \<noteq> 0 \<longrightarrow> outbox (srv_hub s') q = outbox (srv_hub s) q)"
proof -
  let ?s = "example_server\<lparr>srv_limits := new_message_limits\<lparr>messageRateLimiter :=
         \<lparr>counters = [(''a'', \<lparr>rc_count = 60, rc_expires = 5000\<rparr>)], rl_limit = 60, rl_window = minute\<rparr>\<rparr>\<rparr>"
  have "fst (checkRateLimit quiet_env 0 ?s) = False"
    by (simp add: checkRateLimit_def check_limits_def RateLimiter_Allow_def example_senders gm_get_def Let_def
        wrap64_def)
  from rate_limited_frame_has_no_effect [OF this] show ?thesis by (simp only: Let_def) blast
qed

theorem stored_messages_are_authentic_witness:
  "let s' = routeMessage (\<lambda>_. []) example_config quiet_env 0
       (Frame (OutgoingMessage ''message'' example_chat)) example_server
   in t_messages (srv_db s') = t_messages example_db \<or>
     (\<exists>row. t_messages (srv_db s') = t_messages example_db @ [row] \<and> m_sender_id row = ''a'')"
  using stored_messages_are_authentic [of 0 example_server "\<lambda>_. []" example_config quiet_env
      "Frame (OutgoingMessage ''message'' example_chat)"]
  by (auto simp: example_facts authentic_row_def Let_def)

theorem stored_message_not_lost_witness:
  "\<exists>i t msg. last (t_messages (srv_db (routeChatMessage quiet_env 0 (Some example_chat) example_server))) =
      message_row_of i t msg \<and>
    addressed ''agent'' example_db msg \<and>
    delivered_or_queued (RecipientID msg) (OutgoingMessage ''message'' (marshal_routed msg)) example_server
      (routeChatMessage quiet_env 0 (Some example_chat) example_server)"
  using stored_message_not_lost [of quiet_env 0 "Some example_chat" example_server] example_chat_stored
  by (simp add: example_facts queue_good_def newOfflineQueue_def)

theorem agent_message_reaches_every_device_witness:
  "\<exists>msg. Content msg = ''hi'' \<and> SenderID msg = ''a'' \<and>
     outbox (srv_hub (routeChatMessage quiet_env 0 (Some example_chat) example_server)) 1 =
       [OutgoingMessage ''message'' (marshal_routed msg)]"
proof -
  have "hub_reachable (srv_hub example_server)" by (simp add: example_hub_reachable)
  from agent_message_reaches_every_device [OF this example_senders(1), of quiet_env "Some example_chat"]
    example_chat_stored
  obtain conv msg0 msg where m: "unmarshal_routed example_chat = Some msg0"
    "conv \<in> set (t_conversations example_db)"
    "msg = msg0\<lparr>rm_type := ''message'', SenderType := ''agent'', SenderID := ''a'', RecipientID := conv_UserID conv\<rparr>"
    "\<forall>q. q \<noteq> 0 \<longrightarrow> outbox (srv_hub (routeChatMessage quiet_env 0 (Some example_chat) example_server)) q =
       (if q \<in> set (GetClientConns (conv_UserID conv) example_hub) \<and> accepts example_hub q
        then outbox example_hub q @ [OutgoingMessage ''message'' (marshal_routed msg)]
        else outbox example_hub q)"
    by (auto simp: example_senders)
  then have "conv_UserID conv = ''u''" by (simp add: example_db_def)
  with m(4) [rule_format, of 1]
  have "outbox (srv_hub (routeChatMessage quiet_env 0 (Some example_chat) example_server)) 1 =
       [OutgoingMessage ''message'' (marshal_routed msg)]" by (simp add: example_facts)
  moreover have "Content msg = ''hi''" "SenderID msg = ''a''" using m(1,3) by (auto simp: example_chat_message)
  ultimately show ?thesis by blast
qed

theorem refused_message_has_no_effect_witness:
  "srv_db (routeChatMessage quiet_env 0 None example_server) = example_db"
  using refused_message_has_no_effect [of quiet_env 0 None example_server]
  by (simp add: routeChatMessage_def Let_def)

theorem status_update_from_outsider_witness:
  "outbox (srv_hub (routeStatusUpdate quiet_env 1 (Some (JObj [(''conversation_id'', JStr ''c''), (''status'', JStr ''busy'')]))
     (example_server\<lparr>srv_db := example_db\<lparr>t_users := \<lparr>u_id = ''v'', u_username = ''bob'', u_password_hash = []\<rparr> # t_users example_db,
        t_conversations := [\<lparr>conv_ID = ''c'', conv_UserID = ''v'', conv_AgentID = ''a'', conv_CreatedAt = 0\<rparr>]\<rparr>\<rparr>))) 0 =
   [status_event ''c'' ''client'' ''u'' ''busy'']"
proof -
  let ?conv = "\<lparr>conv_ID = ''c'', conv_UserID = ''v'', conv_AgentID = ''a'', conv_CreatedAt = 0\<rparr>"
  let ?d = "example_db\<lparr>t_users := \<lparr>u_id = ''v'', u_username = ''bob'', u_password_hash = []\<rparr> # t_users example_db,
        t_conversations := [?conv]\<rparr>"
  have "db_ok ?d" by (simp add: db_ok_def example_db_def example_message_def empty_db_def exists_defs)
  with status_update_from_outsider [of quiet_env "example_server\<lparr>srv_db := ?d\<rparr>" ?conv 1 0 "''busy''"] show ?thesis
    by (simp add: example_facts)
qed

end
