(* ===== verification/Conversation_Handlers.thy ===== *)
theory Conversation_Handlers
  imports Auth Routing_Safety "HOL-Library.List_Lexorder" "HOL-Library.Char_ord"
begin

section \<open>The conversation endpoints\<close>

text \<open>
  The handlers of handlers.go that read and change conversations: delete, search, mark read, create,
  list, read a page, and the two lists of agents. \<open>ORDER BY name ASC\<close> compares bytes, as SQLite does.
  A metadata text is represented by the JSON value it encodes. \<open>handleGetMessages\<close> returns \<open>None\<close> when it
  never answers (see \<open>getConversationMessages\<close>).
\<close>

subsection \<open>Numbers in query strings\<close>

fun digits_value :: "int \<Rightarrow> string \<Rightarrow> int" where
  "digits_value n [] = n"
| "digits_value n (c # cs) = digits_value (10 * n + (int (of_char c :: nat) - 48)) cs"

definition is_digit :: "char \<Rightarrow> bool" where
  "is_digit c \<longleftrightarrow> 48 \<le> (of_char c :: nat) \<and> (of_char c :: nat) \<le> 57"

text \<open>An optional sign and the digits after it, if there is a digit and the value fits an \<open>int64\<close>.\<close>

definition signed_value :: "string \<Rightarrow> string \<Rightarrow> int option" where
  "signed_value sign ds =
     (let v = (if sign = ''-'' then - digits_value 0 ds else digits_value 0 ds) in
      if ds = [] \<or> v < int64_min \<or> v > int64_max then None else Some v)"

definition split_sign :: "string \<Rightarrow> string \<times> string" where
  "split_sign s = (case s of
     c # cs \<Rightarrow> if c = CHR ''+'' \<or> c = CHR ''-'' then ([c], cs) else ([], s)
   | [] \<Rightarrow> ([], []))"

text \<open>\<open>strconv.Atoi\<close>: the whole text is a number.\<close>

definition Atoi :: "string \<Rightarrow> int option" where
  "Atoi s = (let (sign, ds) = split_sign s in if list_all is_digit ds then signed_value sign ds else None)"

text \<open>\<open>fmt.Sscanf(s, "%d", &n)\<close>: leading spaces (a newline is an error), then the longest number; what
  follows it is not looked at.\<close>

fun skip_space :: "string \<Rightarrow> string option" where
  "skip_space [] = Some []"
| "skip_space (c # cs) = (if c = CHR 0x0A then None else if is_space c then skip_space cs else Some (c # cs))"

definition Sscanf_d :: "string \<Rightarrow> int option" where
  "Sscanf_d s = (case skip_space s of
     None \<Rightarrow> None
   | Some s1 \<Rightarrow> (let (sign, rest) = split_sign s1 in signed_value sign (takeWhile is_digit rest)))"

subsection \<open>Answers\<close>

definition time_member :: "config \<Rightarrow> string \<Rightarrow> int option \<Rightarrow> (string \<times> json) list" where
  "time_member cf k t = (case t of None \<Rightarrow> [] | Some i \<Rightarrow> [(k, JStr (cf_json_time cf i))])"

definition reaction_json :: "config \<Rightarrow> reaction_row \<Rightarrow> json" where
  "reaction_json cf r = str_obj [(''id'', re_id r), (''message_id'', re_message r), (''user_id'', re_user r),
     (''emoji'', re_emoji r), (''created_at'', cf_json_time cf (re_created_at r))]"

definition message_json :: "config \<Rightarrow> message_row \<times> reaction_row list \<Rightarrow> json" where
  "message_json cf = (\<lambda>(m, rs). JObj (
     [(''id'', JStr (m_id m)), (''conversation_id'', JStr (m_conversation m)),
      (''sender_type'', JStr (m_sender_type m)), (''sender_id'', JStr (m_sender_id m)), (''content'', JStr (m_content m))] @
     omitempty ''metadata'' (m_metadata m) (m_metadata m = JNull) @
     [(''created_at'', JStr (cf_json_time cf (m_created_at m)))] @
     time_member cf ''read_at'' (m_read_at m) @ time_member cf ''edited_at'' (m_edited_at m) @
     [(''is_deleted'', JBool (m_is_deleted m))] @
     omitempty ''reactions'' (JArr (map (reaction_json cf) rs)) (rs = [])))"

subsection \<open>Agents\<close>

definition agent_info :: "agent_row \<Rightarrow> string \<Rightarrow> string \<Rightarrow> json" where
  "agent_info a st since = JObj (map (\<lambda>(k, v). (k, JStr v))
     [(''id'', a_id a), (''name'', a_name a), (''model'', a_model a), (''personality'', a_personality a),
      (''specialty'', a_specialty a), (''status'', st)] @
     omitempty ''connected_at'' (JStr since) (since = []))"

definition handleListAgents :: "env \<Rightarrow> server handler" where
  "handleListAgents e rq s =
     (if rq_method rq \<noteq> ''GET'' then (writeJSONError 405 ''method not allowed'', s)
      else if sql_fails e ''handleListAgents'' then (writeJSONError 500 ''internal error'', s)
      else (ok_json (JArr (map (\<lambda>a. agent_info a (AgentStatus (a_id a) (srv_hub s)) [])
                            (sort_key a_name (t_agents (srv_db s))))), s))"

definition connected_since :: "config \<Rightarrow> string \<Rightarrow> hub \<Rightarrow> string" where
  "connected_since cf i h =
     (if AgentStatus i h = ''offline'' then []
      else (case GetAgent i h of
              None \<Rightarrow> []
            | Some r \<Rightarrow> (case heap h r of None \<Rightarrow> [] | Some c \<Rightarrow> cf_rfc3339 cf (connectedAt c))))"

definition handleAdminAgents :: "config \<Rightarrow> env \<Rightarrow> server handler" where
  "handleAdminAgents cf e rq s =
     (if rq_method rq \<noteq> ''GET'' then (writeJSONError 405 ''method not allowed'', s)
      else if sql_fails e ''handleAdminAgents'' then (writeJSONError 500 ''internal error'', s)
      else (ok_json (JArr (map (\<lambda>a. agent_info a (AgentStatus (a_id a) (srv_hub s)) (connected_since cf (a_id a) (srv_hub s)))
                            (sort_key a_name (t_agents (srv_db s))))), s))"

subsection \<open>Conversations\<close>

definition conversation_error :: "go_error \<Rightarrow> http_response" where
  "conversation_error err =
     (if err = ErrNoRows then writeJSONError 404 ''conversation not found''
      else if err = ErrText ''unauthorized'' then writeJSONError 401 ''not your conversation''
      else writeJSONError 500 ''internal error'')"

definition handleDeleteConversation :: "config \<Rightarrow> env \<Rightarrow> server handler" where
  "handleDeleteConversation cf e = user_endpoint cf e ''DELETE'' (\<lambda>claims rq s.
     let q = rq_query rq ''conversation_id'';
         convID = (if q = [] then rq_form rq ''conversation_id'' else q)
     in if convID = [] then (writeJSONError 400 ''missing conversation_id'', s)
        else (case deleteConversation e convID (UserID claims) (srv_db s) of
                (Some err, d) \<Rightarrow> (conversation_error err, s\<lparr>srv_db := d\<rparr>)
              | (None, d) \<Rightarrow>
                  (ok_json (str_obj [(''conversation_id'', convID), (''status'', ''deleted'')]), s\<lparr>srv_db := d\<rparr>)))"

definition search_limit :: "string \<Rightarrow> int" where
  "search_limit limitStr =
     (if limitStr = [] then 50
      else (let limit = (case Sscanf_d limitStr of None \<Rightarrow> 50 | Some l \<Rightarrow> l) in if limit > 200 then 200 else limit))"

definition handleSearchMessages :: "config \<Rightarrow> env \<Rightarrow> server handler" where
  "handleSearchMessages cf e = user_endpoint cf e ''GET'' (\<lambda>claims rq s.
     let query = rq_query rq ''q'' in
     if query = [] then (writeJSONError 400 ''missing search query (q)'', s)
     else (case searchMessages e (UserID claims) query (search_limit (rq_query rq ''limit'')) (srv_db s) of
             Inl err \<Rightarrow> (if err = ErrText ''empty search query'' then writeJSONError 400 ''empty search query''
                         else writeJSONError 500 ''internal error'', s)
           | Inr ms \<Rightarrow> (ok_json (JArr (map (\<lambda>m. message_json cf (m, [])) ms)), s)))"

definition read_receipt :: "string \<Rightarrow> string \<Rightarrow> nat \<Rightarrow> json" where
  "read_receipt convID userID n = OutgoingMessage ''read_receipt''
     (JObj [(''conversation_id'', JStr convID), (''count'', JNum (int n)), (''read_by'', JStr userID)])"

text \<open>Sends an event to the agent of a conversation if it is connected.\<close>

definition send_to_agent :: "string \<Rightarrow> json \<Rightarrow> hub \<Rightarrow> hub" where
  "send_to_agent agentID m h = (case GetAgent agentID h of None \<Rightarrow> h | Some r \<Rightarrow> send_to r m h)"

definition send_to_devices :: "string \<Rightarrow> json \<Rightarrow> hub \<Rightarrow> hub" where
  "send_to_devices userID m h = send_all (GetClientConns userID h) m h"

definition handleMarkRead :: "config \<Rightarrow> env \<Rightarrow> server handler" where
  "handleMarkRead cf e = user_endpoint cf e ''POST'' (\<lambda>claims rq s.
     let convID = rq_form rq ''conversation_id'' in
     if convID = [] then (writeJSONError 400 ''missing conversation_id'', s)
     else (case markMessagesRead e convID (UserID claims) (srv_db s) of
             (Inl err, d) \<Rightarrow> (conversation_error err, s\<lparr>srv_db := d\<rparr>)
           | (Inr n, d) \<Rightarrow>
               (let s1 = s\<lparr>srv_db := d\<rparr>;
                    receipt = read_receipt convID (UserID claims) n;
                    s2 = (case getConversation (at_call ''handleMarkRead.'' e) convID d of
                            Inr (Some conv) \<Rightarrow>
                              on_hub (\<lambda>h. send_to_devices (UserID claims) receipt (send_to_agent (conv_AgentID conv) receipt h)) s1
                          | _ \<Rightarrow> s1)
                in (ok_json (JObj [(''conversation_id'', JStr convID), (''count'', JNum (int n)),
                                   (''status'', JStr ''marked_read'')]), s2))))"

definition handleCreateConversation :: "config \<Rightarrow> env \<Rightarrow> server handler" where
  "handleCreateConversation cf e = user_endpoint cf e ''POST'' (\<lambda>claims rq s.
     let agentID = rq_form rq ''agent_id'' in
     if agentID = [] then (writeJSONError 400 ''missing agent_id'', s)
     else (case GetOrCreateConversation e (UserID claims) agentID (srv_db s) of
             (Inl _, d) \<Rightarrow> (writeJSONError 500 ''failed to create conversation'', s\<lparr>srv_db := d\<rparr>)
           | (Inr conv, d) \<Rightarrow>
               (ok_json (str_obj [(''agent_id'', conv_AgentID conv), (''conversation_id'', conv_ID conv),
                                  (''user_id'', conv_UserID conv)]), s\<lparr>srv_db := d\<rparr>)))"

text \<open>The two subqueries of the conversation list.\<close>

definition last_message :: "string \<Rightarrow> database \<Rightarrow> message_row option" where
  "last_message convID d =
     (case order_desc m_created_at (filter (\<lambda>m. m_conversation m = convID \<and> \<not> m_is_deleted m) (t_messages d)) of
        [] \<Rightarrow> None | m # _ \<Rightarrow> Some m)"

definition unread_count :: "string \<Rightarrow> database \<Rightarrow> nat" where
  "unread_count convID d =
     length (filter (\<lambda>m. m_conversation m = convID \<and> m_read_at m = None \<and> \<not> m_is_deleted m) (t_messages d))"

definition conversation_info :: "config \<Rightarrow> database \<Rightarrow> Conversation \<Rightarrow> json" where
  "conversation_info cf d c = JObj
     [(''id'', JStr (conv_ID c)), (''user_id'', JStr (conv_UserID c)), (''agent_id'', JStr (conv_AgentID c)),
      (''created_at'', JStr (cf_json_time cf (conv_CreatedAt c))),
      (''last_message'', case last_message (conv_ID c) d of
         None \<Rightarrow> JNull
       | Some m \<Rightarrow> if m_content m = [] then JNull
                   else str_obj [(''content'', m_content m), (''sender_type'', m_sender_type m),
                                 (''created_at'', cf_db_time cf (m_created_at m))]),
      (''unread_count'', JNum (int (unread_count (conv_ID c) d)))]"

definition handleListConversations :: "config \<Rightarrow> env \<Rightarrow> server handler" where
  "handleListConversations cf e = user_endpoint cf e ''GET'' (\<lambda>claims rq s.
     if sql_fails e ''handleListConversations'' then (writeJSONError 500 ''internal error'', s)
     else (ok_json (JArr (map (conversation_info cf (srv_db s))
             (order_desc conv_CreatedAt (filter (\<lambda>c. conv_UserID c = UserID claims) (t_conversations (srv_db s)))))), s))"

definition page_limit :: "string \<Rightarrow> int" where
  "page_limit l = (case Atoi l of
     Some parsed \<Rightarrow> if l \<noteq> [] \<and> parsed > 0 \<and> parsed \<le> 200 then parsed else 50
   | None \<Rightarrow> 50)"

definition handleGetMessages ::
  "config \<Rightarrow> (string \<Rightarrow> int \<Rightarrow> bool) \<Rightarrow> nat \<Rightarrow> env \<Rightarrow> http_request \<Rightarrow> server \<Rightarrow> (http_response \<times> server) option" where
  "handleGetMessages cf older max_open e rq s =
     (if rq_method rq \<noteq> ''GET'' then Some (writeJSONError 405 ''method not allowed'', s)
      else (case request_claims cf e rq of
              Inl _ \<Rightarrow> Some (writeJSONError 401 ''unauthorized'', s)
            | Inr claims \<Rightarrow>
                (let convID = rq_query rq ''conversation_id'' in
                 if convID = [] then Some (writeJSONError 400 ''missing conversation_id'', s)
                 else (case getConversation e convID (srv_db s) of
                         Inr (Some conv) \<Rightarrow>
                           if conv_UserID conv \<noteq> UserID claims then Some (writeJSONError 401 ''unauthorized'', s)
                           else (case getConversationMessages older max_open e convID (page_limit (rq_query rq ''limit''))
                                        (rq_query rq ''before'') (srv_db s) of
                                   None \<Rightarrow> None
                                 | Some (Inl _) \<Rightarrow> Some (writeJSONError 500 ''internal error'', s)
                                 | Some (Inr ms) \<Rightarrow> Some (ok_json (JArr (map (message_json cf) ms)), s))
                       | _ \<Rightarrow> Some (writeJSONError 404 ''conversation not found'', s)))))"

subsection \<open>The unread counter\<close>

lemma unread_count_update:
  "unread_count c (update_messages (unread_from_agent c) (set_read_at t) d) =
     length (filter (\<lambda>m. m_conversation m = c \<and> m_sender_type m \<noteq> ''agent'' \<and> m_read_at m = None \<and> \<not> m_is_deleted m) (t_messages d))"
proof -
  have "length (filter (\<lambda>m. m_conversation m = c \<and> m_read_at m = None \<and> \<not> m_is_deleted m)
      (map (\<lambda>m. if unread_from_agent c m then set_read_at t m else m) ms)) =
    length (filter (\<lambda>m. m_conversation m = c \<and> m_sender_type m \<noteq> ''agent'' \<and> m_read_at m = None \<and> \<not> m_is_deleted m) ms)" for ms
    by (induction ms) (auto simp: unread_from_agent_def set_read_at_def)
  then show ?thesis by (simp add: unread_count_def update_messages_def)
qed

text \<open>The unread counter of the conversation list does not go to 0 when a conversation is read: it counts
  every message without a read time, but marking a conversation read only touches the messages of
  the agent. After \<open>markMessagesRead\<close> the counter is the number of messages the user wrote.\<close>

theorem unread_count_after_mark_read:
  assumes "markMessagesRead e c u d = (Inr n, d')"
  shows "unread_count c d' =
    length (filter (\<lambda>m. m_conversation m = c \<and> m_sender_type m \<noteq> ''agent'' \<and> m_read_at m = None \<and> \<not> m_is_deleted m) (t_messages d))"
  using assms
  by (auto simp: markMessagesRead_def unread_count_update split: sum.splits option.splits if_splits)

theorem unread_count_after_mark_read_witness:
  "unread_count ''c'' (snd (markMessagesRead quiet_env ''c'' ''u''
     (example_db\<lparr>t_messages := [example_message, example_message\<lparr>m_id := ''m2'', m_sender_type := ''client'', m_sender_id := ''u''\<rparr>]\<rparr>))) = 1"
proof -
  let ?d = "example_db\<lparr>t_messages := [example_message, example_message\<lparr>m_id := ''m2'', m_sender_type := ''client'', m_sender_id := ''u''\<rparr>]\<rparr>"
  obtain n d' where "markMessagesRead quiet_env ''c'' ''u'' ?d = (Inr n, d')"
    by (simp add: markMessagesRead_def getConversation_def)
  from unread_count_after_mark_read [OF this] this show ?thesis by (simp add: example_message_def)
qed

end
