(* ===== verification/Auth_Safety.thy ===== *)
theory Auth_Safety
  imports Auth Routing_Safety
begin

section \<open>What authentication guarantees\<close>

text \<open>
  Properties of the connect handlers, of registration and of login, over a token library and a password
  hash that behave as documented (\<open>jwt_sound\<close>, \<open>hash_sound\<close>), and of the limit per IP address.
\<close>

definition hash_sound :: "config \<Rightarrow> bool" where
  "hash_sound cf \<longleftrightarrow> (\<forall>p h. cf_hash cf p = Some h \<longrightarrow> cf_verify cf h p)"

lemma ValidateAgentSecret_frame:
  "ValidateAgentSecret cf e i secret a = (r, a') \<Longrightarrow> app_server a' = app_server a"
  by (auto simp: ValidateAgentSecret_def Let_def split: if_splits prod.splits)

lemma ValidateAgentSecret_ok:
  "ValidateAgentSecret cf e i secret a = (None, a') \<Longrightarrow> secret \<noteq> [] \<and> secret = cf_agentSecret cf"
  by (auto simp: ValidateAgentSecret_def Let_def split: if_splits prod.splits)

lemma registering_count_error [simp]:
  "registering (srv_hub (app_server (count_error a))) = registering (srv_hub (app_server a))"
  by (simp add: count_error_def on_hub_def)

subsection \<open>The agents table\<close>

lemma agent_exists_update [simp]:
  assumes "\<And>a. a_id (f a) = a_id a"
  shows "agent_exists (update_agent i f d) j = agent_exists d j"
proof -
  have "map a_id (t_agents (update_agent i f d)) = map a_id (t_agents d)"
    by (simp add: update_agent_def assms)
  from arg_cong [OF this, of set] show ?thesis by (simp add: agent_exists_def)
qed

lemma update_agent_ok:
  assumes "db_ok d" and "\<And>a. a_id (f a) = a_id a"
  shows "db_ok (update_agent i f d)"
proof -
  have ids: "map a_id (t_agents (update_agent i f d)) = map a_id (t_agents d)"
    by (simp add: update_agent_def assms(2))
  have "agent_exists (update_agent i f d) j = agent_exists d j" for j
    by (simp add: assms(2))
  moreover have "user_exists (update_agent i f d) = user_exists d"
    "conversation_exists (update_agent i f d) = conversation_exists d"
    "message_exists (update_agent i f d) = message_exists d"
    by (simp_all add: fun_eq_iff exists_defs update_agent_def)
  ultimately show ?thesis using assms(1) ids by (simp add: db_ok_def) (simp add: update_agent_def)
qed

lemma agent_updates_rule:
  assumes "agent_updates e i us d = (r, d')" and "P d"
    and "\<And>p w f d. (p, w, f) \<in> set us \<Longrightarrow> w \<Longrightarrow> P d \<Longrightarrow> P (update_agent i f d)"
  shows "P d'"
  using assms by (induction e i us d rule: agent_updates.induct) (auto split: if_splits)

subsection \<open>Connecting\<close>

lemma agent_exists_agent_updates:
  assumes "agent_updates e i us d = (r, d')" and "\<And>p w f a. (p, w, f) \<in> set us \<Longrightarrow> a_id (f a) = a_id a"
    and "agent_exists d j"
  shows "agent_exists d' j"
  by (rule agent_updates_rule [OF assms(1), where P = "\<lambda>d. agent_exists d j"]) (use assms(2,3) in auto)

lemma RegisterAgentOnConnect_exists:
  assumes "RegisterAgentOnConnect e i n m p sp d = (None, d')"
  shows "agent_exists d' i"
proof (cases "agent_exists d i")
  case True
  then show ?thesis
    using assms by (auto simp: RegisterAgentOnConnect_def Let_def split: if_splits elim!: agent_exists_agent_updates)
next
  case False
  then show ?thesis
    using assms by (auto simp: RegisterAgentOnConnect_def Let_def agent_exists_def split: if_splits)
qed

text \<open>C32: An agent connection reaches the hub only with the right shared secret: if \<open>handleAgentConnect\<close> hands
  a connection to the hub, the request carried the configured, non-empty agent secret and an agent
  id, the upgrade succeeded, and what the hub gets is one new open agent connection with that id;
  the agent is then in the agents table.\<close>

theorem agent_connect_needs_secret:
  assumes "handleAgentConnect cf e upgrade rq a = (rs, a')"
    and "registering (srv_hub (app_server a')) \<noteq> registering (srv_hub (app_server a))"
  shows "rq_query rq ''agent_secret'' = cf_agentSecret cf \<and> cf_agentSecret cf \<noteq> [] \<and>
    rq_query rq ''agent_id'' \<noteq> [] \<and> upgrade (CheckOrigin cf) rq = None \<and>
    srv_hub (app_server a') = start_register (new_connection ''agent'' (rq_query rq ''agent_id'') []
      (negotiateProtocol rq) (clock e ''connectedAt'')) (srv_hub (app_server a)) \<and>
    agent_exists (srv_db (app_server a')) (rq_query rq ''agent_id'')"
proof -
  let ?i = "rq_query rq ''agent_id''" and ?sec = "rq_query rq ''agent_secret''"
  obtain err a1 where v: "ValidateAgentSecret cf e ?i ?sec a = (err, a1)"
    by (cases "ValidateAgentSecret cf e ?i ?sec a")
  have a1: "app_server a1 = app_server a" by (rule ValidateAgentSecret_frame [OF v])
  obtain err2 d where g: "RegisterAgentOnConnect e ?i (rq_query rq ''name'') (rq_query rq ''model'')
      (rq_query rq ''personality'') (rq_query rq ''specialty'') (srv_db (app_server a1)) = (err2, d)"
    by (cases "RegisterAgentOnConnect e ?i (rq_query rq ''name'') (rq_query rq ''model'')
      (rq_query rq ''personality'') (rq_query rq ''specialty'') (srv_db (app_server a1))")
  have id: "?i \<noteq> []" and e1: "err = None" and e2: "err2 = None" and up: "upgrade (CheckOrigin cf) rq = None"
    using assms v g a1
    by (auto simp: handleAgentConnect_def Let_def open_connection_def split: if_splits option.splits)
  have a': "a' = open_connection (new_connection ''agent'' ?i [] (negotiateProtocol rq) (clock e ''connectedAt''))
      (a1\<lparr>app_server := (app_server a1)\<lparr>srv_db := d\<rparr>\<rparr>)"
    using assms v g e1 e2 up
    by (auto simp: handleAgentConnect_def Let_def split: if_splits)
  have "?sec \<noteq> []" and "?sec = cf_agentSecret cf" using ValidateAgentSecret_ok v e1 by auto
  moreover have "agent_exists d ?i" using RegisterAgentOnConnect_exists g e2 by auto
  ultimately show ?thesis using id up a1 by (simp add: a' open_connection_def)
qed

text \<open>A client connection reaches the hub only with a valid token, and under the identity of that
  token: if \<open>handleClientConnect\<close> hands a connection to the hub, the token of the request validates and
  the new open client connection carries the user id of its claims and the device id of the
  request.\<close>

theorem client_connect_needs_token:
  assumes "handleClientConnect cf e upgrade rq a = (rs, a')"
    and "registering (srv_hub (app_server a')) \<noteq> registering (srv_hub (app_server a))"
  shows "\<exists>claims. ValidateJWT (cf_jwt cf) (cf_jwtSecret cf) (clock e ''ValidateJWT'') (rq_query rq ''token'') = Inr claims \<and>
    upgrade (CheckOrigin cf) rq = None \<and>
    srv_hub (app_server a') = start_register (new_connection ''client'' (UserID claims) (rq_query rq ''device_id'')
      (negotiateProtocol rq) (clock e ''connectedAt'')) (srv_hub (app_server a))"
  using assms
  by (auto simp: handleClientConnect_def Let_def open_connection_def split: if_splits option.splits sum.splits)

subsection \<open>The profile of an agent\<close>

definition keeps_profile :: "string \<Rightarrow> string \<Rightarrow> string \<Rightarrow> string \<Rightarrow> string \<Rightarrow> agent_row \<Rightarrow> agent_row \<Rightarrow> bool" where
  "keeps_profile i n m p sp a b \<longleftrightarrow> a_id b = a_id a \<and> a_status b = a_status a \<and>
     (if a_id a \<noteq> i then b = a
      else a_name b = (if n = [] \<or> n = i then a_name a else n) \<and> a_model b = (if m = [] then a_model a else m) \<and>
           a_personality b = (if p = [] then a_personality a else p) \<and>
           a_specialty b = (if sp = [] then a_specialty a else sp))"

lemma t_agents_update [simp]:
  "t_agents (update_agent i f d) = map (\<lambda>a. if a_id a = i then f a else a) (t_agents d)"
  by (simp add: update_agent_def)

lemma agent_updates_ok:
  assumes "agent_updates e i us d = (r, d')" and "\<And>p w f a. (p, w, f) \<in> set us \<Longrightarrow> a_id (f a) = a_id a" and "db_ok d"
  shows "db_ok d'"
proof (rule agent_updates_rule [OF assms(1), where P = db_ok])
  show "db_ok d" by (rule assms(3))
next
  fix p w f d assume "(p, w, f) \<in> set us" and "db_ok d"
  then show "db_ok (update_agent i f d)" using assms(2) by (intro update_agent_ok) simp_all
qed

lemma add_agent_ok:
  "db_ok d \<Longrightarrow> \<not> agent_exists d (a_id row) \<Longrightarrow> db_ok (d\<lparr>t_agents := t_agents d @ [row]\<rparr>)"
  by (auto simp: db_ok_def exists_defs)

definition profile_updates ::
  "string \<Rightarrow> string \<Rightarrow> string \<Rightarrow> string \<Rightarrow> string \<Rightarrow> (string \<times> bool \<times> (agent_row \<Rightarrow> agent_row)) list" where
  "profile_updates i n m p sp =
     (let name = (if n = [] then i else n) in
      [(''RegisterAgent.model'', m \<noteq> [], \<lambda>a. a\<lparr>a_model := m\<rparr>),
       (''RegisterAgent.personality'', p \<noteq> [], \<lambda>a. a\<lparr>a_personality := p\<rparr>),
       (''RegisterAgent.specialty'', sp \<noteq> [], \<lambda>a. a\<lparr>a_specialty := sp\<rparr>),
       (''RegisterAgent.name'', name \<noteq> i, \<lambda>a. a\<lparr>a_name := name\<rparr>)])"

lemma t_agents_updates:
  assumes "agent_updates e i us d = (None, d')" and "list_all (\<lambda>(_, _, f). \<forall>a. a_id (f a) = a_id a) us"
  shows "t_agents d' = map (\<lambda>a. if a_id a = i then fold (\<lambda>(_, w, f) a. if w then f a else a) us a else a) (t_agents d)"
  using assms
proof (induction e i us d rule: agent_updates.induct)
  case (2 e i p w f us d)
  have id: "a_id (f a) = a_id a" for a using "2.prems"(2) by simp
  show ?case
  proof (cases w)
    case True
    then have "agent_updates e i us (update_agent i f d) = (None, d')" using "2.prems"(1) by (simp split: if_split_asm)
    with "2.IH"(1) [OF True] "2.prems" True have "t_agents d' = map (\<lambda>a. if a_id a = i then
        fold (\<lambda>(_, w, f) a. if w then f a else a) us a else a) (t_agents (update_agent i f d))"
      by (auto split: if_split_asm)
    then show ?thesis using True id by simp
  next
    case False
    with "2.IH"(2) [OF False] "2.prems" show ?thesis by simp
  qed
qed (simp add: map_idI)

text \<open>An agent that connects never damages a profile: whatever the outcome, the constraints of the
  database hold; if it succeeds for a known agent, other agents are untouched, a parameter that is
  missing keeps the stored value, and a given one replaces it.\<close>

theorem RegisterAgentOnConnect_profile:
  assumes "RegisterAgentOnConnect e i n m p sp d = (r, d')" and "db_ok d"
  shows "db_ok d' \<and>
    (r = None \<and> agent_exists d i \<longrightarrow> list_all2 (keeps_profile i n m p sp) (t_agents d) (t_agents d'))"
proof (intro conjI impI)
  show "db_ok d'"
    using assms
    by (auto simp: RegisterAgentOnConnect_def Let_def intro!: add_agent_ok update_agent_ok split: if_splits)
  let ?us = "profile_updates i n m p sp"
  assume r: "r = None \<and> agent_exists d i"
  then have "agent_updates e i ?us d = (None, d')"
    using assms(1) by (simp add: RegisterAgentOnConnect_def profile_updates_def Let_def del: agent_updates.simps split: if_split_asm)
  from t_agents_updates [OF this] have "t_agents d' = map (\<lambda>a. if a_id a = i then fold (\<lambda>(_, w, f) a. if w then f a else a) ?us a else a) (t_agents d)"
    by (simp add: profile_updates_def Let_def)
  then show "list_all2 (keeps_profile i n m p sp) (t_agents d) (t_agents d')"
    by (simp add: list_all2_map2 list_all2_same keeps_profile_def profile_updates_def Let_def)
qed

subsection \<open>Accounts\<close>

lemma strip_bearer_token: "tok \<noteq> [] \<Longrightarrow> strip_bearer (''Bearer '' @ tok) = tok"
  by (simp add: strip_bearer_def)

definition authenticates_as :: "config \<Rightarrow> string \<Rightarrow> int \<Rightarrow> int \<Rightarrow> Claims \<Rightarrow> bool" where
  "authenticates_as cf tok from until claims \<longleftrightarrow>
     (\<forall>e rq. rq_header rq ''Authorization'' = ''Bearer '' @ tok \<and> from \<le> clock e ''ValidateJWT'' \<and>
        clock e ''ValidateJWT'' < until \<longrightarrow> request_claims cf e rq = Inr claims)"

lemma GenerateJWT_authenticates:
  assumes "jwt_sound (cf_jwt cf)" and "GenerateJWT (cf_jwt cf) (cf_jwtSecret cf) t1 t2 u n = Some tok"
  shows "authenticates_as cf tok t2 ((t1 + 24 * hour) div second * second) \<lparr>UserID = u, Username = n\<rparr>"
proof -
  have s: "jwt_sign (cf_jwt cf) (cf_jwtSecret cf) \<lparr>UserID = u, Username = n\<rparr> t2 (t1 + 24 * hour) = Some tok"
    using assms(2) by (simp add: GenerateJWT_def)
  with assms(1) have ne: "tok \<noteq> []" and h: "jwt_is_hmac (cf_jwt cf) tok = Some True"
    and v: "\<And>now. t2 \<le> now \<Longrightarrow> now < (t1 + 24 * hour) div second * second \<Longrightarrow>
      jwt_verified (cf_jwt cf) (cf_jwtSecret cf) now tok = Some \<lparr>UserID = u, Username = n\<rparr>"
    unfolding jwt_sound_def by blast+
  show ?thesis
    unfolding authenticates_as_def
  proof (intro allI impI, elim conjE)
    fix e :: env and rq :: http_request assume a: "rq_header rq ''Authorization'' = ''Bearer '' @ tok" and
      "t2 \<le> clock e ''ValidateJWT''" and "clock e ''ValidateJWT'' < (t1 + 24 * hour) div second * second"
    with v have "jwt_verified (cf_jwt cf) (cf_jwtSecret cf) (clock e ''ValidateJWT'') tok = Some \<lparr>UserID = u, Username = n\<rparr>"
      by blast
    then show "request_claims cf e rq = Inr \<lparr>UserID = u, Username = n\<rparr>"
      unfolding request_claims_def a strip_bearer_token [OF ne] using ne h by (simp add: ValidateJWT_def)
  qed
qed

definition login_answer :: "string \<Rightarrow> string \<Rightarrow> string \<Rightarrow> json" where
  "login_answer tok u n = str_obj [(''token'', tok), (''user_id'', u), (''username'', n)]"

lemma handleLogin_200:
  assumes "handleLogin cf e rq s = (rs, s')" and "rs_code rs = 200"
  obtains u tok where "find (\<lambda>u. u_username u = rq_form rq ''username'') (t_users (srv_db s)) = Some u"
    and "GenerateJWT (cf_jwt cf) (cf_jwtSecret cf) (clock e ''GenerateJWT.exp'') (clock e ''GenerateJWT.iat'')
        (u_id u) (rq_form rq ''username'') = Some tok"
    and "cf_verify cf (u_password_hash u) (rq_form rq ''password'')"
    and "rs = writeJSON 200 (login_answer tok (u_id u) (rq_form rq ''username''))" and "s' = s"
proof (cases "find (\<lambda>u. u_username u = rq_form rq ''username'') (t_users (srv_db s))")
  case None
  then show ?thesis using assms by (auto simp: handleLogin_def Let_def split: if_splits)
next
  case (Some u)
  show ?thesis
  proof (cases "GenerateJWT (cf_jwt cf) (cf_jwtSecret cf) (clock e ''GenerateJWT.exp'') (clock e ''GenerateJWT.iat'')
        (u_id u) (rq_form rq ''username'')")
    case None
    then show ?thesis using assms Some by (auto simp: handleLogin_def Let_def split: if_splits)
  next
    case tok: (Some tok)
    show ?thesis
      by (rule that [OF Some tok]) (use assms Some tok in \<open>auto simp: handleLogin_def Let_def login_answer_def split: if_splits\<close>)
  qed
qed

text \<open>Login answers 200 only to a user who knows the password, and the token it hands out works: until
  it expires a day later, a request with that token is authenticated as exactly that user.\<close>

theorem login_token_authenticates:
  assumes "jwt_sound (cf_jwt cf)" and "handleLogin cf e rq s = (rs, s')" and "rs_code rs = 200"
  shows "s' = s \<and> (\<exists>u \<in> set (t_users (srv_db s)). \<exists>tok.
    u_username u = rq_form rq ''username'' \<and> cf_verify cf (u_password_hash u) (rq_form rq ''password'') \<and>
    rs_body rs = login_answer tok (u_id u) (u_username u) \<and>
    authenticates_as cf tok (clock e ''GenerateJWT.iat'') ((clock e ''GenerateJWT.exp'' + 24 * hour) div second * second)
      \<lparr>UserID = u_id u, Username = u_username u\<rparr>)"
proof -
  from assms(2,3) obtain u tok where u: "find (\<lambda>u. u_username u = rq_form rq ''username'') (t_users (srv_db s)) = Some u"
    and g: "GenerateJWT (cf_jwt cf) (cf_jwtSecret cf) (clock e ''GenerateJWT.exp'') (clock e ''GenerateJWT.iat'')
        (u_id u) (rq_form rq ''username'') = Some tok"
    and p: "cf_verify cf (u_password_hash u) (rq_form rq ''password'')"
    and rs: "rs = writeJSON 200 (login_answer tok (u_id u) (rq_form rq ''username''))" "s' = s"
    by (rule handleLogin_200)
  from find_key_SomeD [OF u] have "u \<in> set (t_users (srv_db s))" and n: "u_username u = rq_form rq ''username''"
    by auto
  moreover note GenerateJWT_authenticates [OF assms(1) g]
  ultimately show ?thesis using p rs
    by (intro conjI bexI [of _ u] exI [of _ tok]) (simp_all add: writeJSON_def)
qed

lemma add_user_ok:
  "db_ok d \<Longrightarrow> \<not> user_exists d (u_id row) \<Longrightarrow> u_username row \<notin> u_username ` set (t_users d) \<Longrightarrow>
   db_ok (d\<lparr>t_users := t_users d @ [row]\<rparr>)"
  by (auto simp: db_ok_def exists_defs)

lemma handleRegisterUser_200:
  assumes "handleRegisterUser cf e rq s = (rs, s1)" and "rs_code rs = 200"
  obtains h where "cf_hash cf (rq_form rq ''password'') = Some h"
    and "\<not> user_exists (srv_db s) (generateID ''user'' (clock e ''user.id''))"
    and "rq_form rq ''username'' \<notin> u_username ` set (t_users (srv_db s))"
    and "rq_form rq ''username'' \<noteq> []" and "rq_form rq ''password'' \<noteq> []"
    and "s1 = s\<lparr>srv_db := (srv_db s)\<lparr>t_users := t_users (srv_db s) @
        [\<lparr>u_id = generateID ''user'' (clock e ''user.id''), u_username = rq_form rq ''username'', u_password_hash = h\<rparr>]\<rparr>\<rparr>"
proof (cases "cf_hash cf (rq_form rq ''password'')")
  case None
  then show ?thesis using assms by (auto simp: handleRegisterUser_def Let_def split: if_splits)
next
  case (Some h)
  show ?thesis
    by (rule that [OF Some]) (use assms Some in \<open>auto simp: handleRegisterUser_def Let_def split: if_splits\<close>)
qed

text \<open>C31: Registration and login fit together: after a successful registration the database still
  satisfies its constraints, and the same user name and password then log in and get a token that
  authenticates the user id under which registration stored the user.\<close>

theorem register_then_login:
  assumes "handleRegisterUser cf e rq s = (rs, s1)" and "rs_code rs = 200" and "db_ok (srv_db s)"
    and "hash_sound cf" and "jwt_sound (cf_jwt cf)"
    and "GenerateJWT (cf_jwt cf) (cf_jwtSecret cf) (clock e2 ''GenerateJWT.exp'') (clock e2 ''GenerateJWT.iat'')
           (generateID ''user'' (clock e ''user.id'')) (rq_form rq ''username'') = Some tok"
    and "rq_method rq2 = ''POST''" and "rq_form rq2 = rq_form rq" and "\<not> sql_fails e2 ''handleLogin''"
  shows "db_ok (srv_db s1) \<and>
    handleLogin cf e2 rq2 s1 =
      (ok_json (login_answer tok (generateID ''user'' (clock e ''user.id'')) (rq_form rq ''username'')), s1) \<and>
    authenticates_as cf tok (clock e2 ''GenerateJWT.iat'')
      ((clock e2 ''GenerateJWT.exp'' + 24 * hour) div second * second)
      \<lparr>UserID = generateID ''user'' (clock e ''user.id''), Username = rq_form rq ''username''\<rparr>"
proof (intro conjI)
  let ?n = "rq_form rq ''username''" and ?i = "generateID ''user'' (clock e ''user.id'')"
  from assms(1,2) obtain h where h: "cf_hash cf (rq_form rq ''password'') = Some h"
    and fresh: "\<not> user_exists (srv_db s) ?i" "?n \<notin> u_username ` set (t_users (srv_db s))"
    and ne: "?n \<noteq> []" "rq_form rq ''password'' \<noteq> []"
    and s1: "s1 = s\<lparr>srv_db := (srv_db s)\<lparr>t_users := t_users (srv_db s) @
        [\<lparr>u_id = ?i, u_username = ?n, u_password_hash = h\<rparr>]\<rparr>\<rparr>"
    by (rule handleRegisterUser_200)
  show ok: "db_ok (srv_db s1)"
    using add_user_ok [OF assms(3), of "\<lparr>u_id = ?i, u_username = ?n, u_password_hash = h\<rparr>"] fresh by (simp add: s1)
  have "find (\<lambda>u. u_username u = ?n) (t_users (srv_db s1)) = Some \<lparr>u_id = ?i, u_username = ?n, u_password_hash = h\<rparr>"
    using find_key [of u_username "t_users (srv_db s1)" "\<lparr>u_id = ?i, u_username = ?n, u_password_hash = h\<rparr>"] ok
    by (simp add: db_ok_def s1)
  moreover have "cf_verify cf h (rq_form rq ''password'')" using assms(4) h by (simp add: hash_sound_def)
  ultimately show "handleLogin cf e2 rq2 s1 = (ok_json (login_answer tok ?i ?n), s1)"
    using assms(6-9) ne by (simp add: handleLogin_def login_answer_def)
  show "authenticates_as cf tok (clock e2 ''GenerateJWT.iat'')
      ((clock e2 ''GenerateJWT.exp'' + 24 * hour) div second * second) \<lparr>UserID = ?i, Username = ?n\<rparr>"
    by (rule GenerateJWT_authenticates [OF assms(5,6)])
qed

subsection \<open>The limit per IP address\<close>

text \<open>The same request with another \<open>X-Forwarded-For\<close> header.\<close>

definition forwarded_for :: "string \<Rightarrow> http_request \<Rightarrow> http_request" where
  "forwarded_for ip rq = rq\<lparr>rq_header := (rq_header rq)(''X-Forwarded-For'' := ip)\<rparr>"

definition plain_address :: "string \<Rightarrow> bool" where
  "plain_address ip \<longleftrightarrow> ip \<noteq> [] \<and> CHR '','' \<notin> set ip \<and> list_all (\<lambda>c. \<not> is_space c) ip"

lemma trim_space_id: "list_all (\<lambda>c. \<not> is_space c) s \<Longrightarrow> trim_space s = s"
proof -
  assume "list_all (\<lambda>c. \<not> is_space c) s"
  then have "dropWhile is_space s = s" "dropWhile is_space (rev s) = rev s"
    by (cases s, simp_all) (cases "rev s", auto simp: list_all_iff)
  then show ?thesis by (simp add: trim_space_def)
qed

lemma extractIP_forwarded:
  assumes "plain_address ip"
  shows "extractIP (forwarded_for ip rq) = ip"
proof -
  have "find_index (\<lambda>x. x = CHR '','') ip = None" using assms by (auto simp: find_index_None plain_address_def)
  then show ?thesis using assms by (simp add: extractIP_def forwarded_for_def plain_address_def trim_space_id)
qed

text \<open>The limit on authentication requests per IP address is evaded by a forged header: as many
  requests as one likes, all from the same remote address, are admitted when each of them carries
  an \<open>X-Forwarded-For\<close> value that was not used before.\<close>

theorem forged_header_evades_ip_limit:
  assumes "distinct ips" and "\<forall>ip \<in> set ips. plain_address ip \<and> gm_get (counters rl) ip = None"
  shows "\<forall>(ip, ok) \<in> set (fst (requests RateLimiter_Allow
    (map (\<lambda>ip. (now ip, extractIP (forwarded_for ip rq))) ips) rl)). ok"
  using assms
proof (induction ips arbitrary: rl)
  case (Cons ip ips)
  have fresh: "gm_get (counters rl) ip = None" and x: "extractIP (forwarded_for ip rq) = ip"
    using Cons.prems(2) by (simp_all add: extractIP_forwarded)
  obtain rl' where a: "RateLimiter_Allow (now ip) ip rl = (True, rl')"
    and c: "counters rl' = gm_set ip \<lparr>rc_count = 1, rc_expires = now ip + rl_window rl\<rparr> (counters rl)"
    using fresh by (simp add: RateLimiter_Allow_def)
  have "\<forall>j \<in> set ips. plain_address j \<and> gm_get (counters rl') j = None"
    using Cons.prems by (auto simp: c)
  from Cons.IH [OF _ this] Cons.prems(1) show ?case by (simp add: x a split: prod.splits)
qed simp

subsection \<open>Concrete libraries\<close>

text \<open>A token library that puts key and claims into the token, each character marked, and a password
  hash that is the password itself.\<close>

fun mark :: "string \<Rightarrow> string" where
  "mark [] = ''.''"
| "mark (c # cs) = CHR ''x'' # c # mark cs"

fun unmark :: "string \<Rightarrow> string \<times> string" where
  "unmark (x # c # r) = (if x = CHR ''x'' then (let (s, r') = unmark r in (c # s, r')) else ([], c # r))"
| "unmark r = ([], drop 1 r)"

lemma unmark_mark [simp]: "unmark (mark s @ r) = (s, r)"
proof (induction s)
  case Nil
  show ?case by (cases r) simp_all
qed simp

definition demo_jwt :: jwt_lib where
  "demo_jwt = \<lparr>jwt_is_hmac = (\<lambda>tok. if tok = [] then None else Some True),
     jwt_verified = (\<lambda>k now tok.
       let (k', r) = unmark tok; (u, r2) = unmark r; (n, _) = unmark r2
       in if k' = k then Some \<lparr>UserID = u, Username = n\<rparr> else None),
     jwt_sign = (\<lambda>k c iat exp. Some (mark k @ mark (UserID c) @ mark (Username c)))\<rparr>"

lemma demo_jwt_sound: "jwt_sound demo_jwt"
proof -
  have "mark k @ r \<noteq> []" for k r by (cases k) simp_all
  moreover have "unmark (mark s) = (s, [])" for s using unmark_mark [of s "[]"] by simp
  ultimately show ?thesis by (auto simp: jwt_sound_def demo_jwt_def)
qed

definition demo_config :: config where
  "demo_config = \<lparr>cf_jwt = demo_jwt, cf_jwtSecret = ''k'', cf_agentSecret = ''s3cret'', cf_envAgentSecret = ''s3cret'',
     cf_adminSecret = ''adm'', cf_corsAllowedOrigins = ''*'', cf_verify = (\<lambda>h p. h = p), cf_hash = Some,
     cf_rfc3339 = decimal, cf_json_time = decimal, cf_db_time = decimal\<rparr>"

lemma demo_config_simps [simp]:
  "cf_jwt demo_config = demo_jwt" "cf_jwtSecret demo_config = ''k''" "cf_agentSecret demo_config = ''s3cret''"
  "cf_verify demo_config = (\<lambda>h p. h = p)" "cf_hash demo_config = Some" "cf_envAgentSecret demo_config = ''s3cret''"
  "cf_adminSecret demo_config = ''adm''"
  by (simp_all add: demo_config_def)

definition request :: "string \<Rightarrow> (string \<times> string) list \<Rightarrow> (string \<times> string) list \<Rightarrow> http_request" where
  "request m hs ps = \<lparr>rq_method = m, rq_path = ''/'', rq_header = gm_str hs, rq_query = gm_str ps, rq_form = gm_str ps,
     rq_body = Malformed, rq_remote = ''10.0.0.1:4000'', rq_multipart = BadForm, rq_user = None\<rparr>"

lemma request_simps [simp]:
  "rq_method (request m hs ps) = m" "rq_header (request m hs ps) = gm_str hs" "rq_query (request m hs ps) = gm_str ps"
  "rq_form (request m hs ps) = gm_str ps"
  by (simp_all add: request_def)

lemma gm_str_simps [simp]: "gm_str [] k = []" "gm_str ((j, v) # m) k = (if k = j then v else gm_str m k)"
  by (simp_all add: gm_str_def gm_get_def)

lemma demo_sign:
  "jwt_sign demo_jwt k c i x = Some (mark k @ mark (UserID c) @ mark (Username c))"
  by (simp add: demo_jwt_def)

definition demo_app :: app where
  "demo_app = new_app example_server 30"

lemma demo_app_server [simp]: "app_server demo_app = example_server"
  by (simp add: demo_app_def new_app_def)

definition no_upgrade_error :: upgrade_lib where
  "no_upgrade_error = (\<lambda>check rq. None)"

theorem agent_connect_needs_secret_witness:
  "let a' = snd (handleAgentConnect demo_config quiet_env no_upgrade_error
        (request ''GET'' [] [(''agent_id'', ''b''), (''agent_secret'', ''s3cret'')]) demo_app)
   in agent_exists (srv_db (app_server a')) ''b'' \<and> registering (srv_hub (app_server a')) \<noteq> registering example_hub"
proof -
  let ?rq = "request ''GET'' [] [(''agent_id'', ''b''), (''agent_secret'', ''s3cret'')]"
  obtain rs a' where h: "handleAgentConnect demo_config quiet_env no_upgrade_error ?rq demo_app = (rs, a')"
    by (cases "handleAgentConnect demo_config quiet_env no_upgrade_error ?rq demo_app")
  have r: "registering (srv_hub (app_server a')) \<noteq> registering (srv_hub (app_server demo_app))"
    using h by (auto simp: handleAgentConnect_def ValidateAgentSecret_def rateLimiter_Allow2_def demo_app_def new_app_def
        RegisterAgentOnConnect_def agent_exists_def example_db_def empty_db_def no_upgrade_error_def open_connection_def
        on_hub_def start_register_def Let_def)
  from agent_connect_needs_secret [OF h r] r h show ?thesis by (simp add: Let_def)
qed

theorem client_connect_needs_token_witness:
  "let a' = snd (handleClientConnect demo_config quiet_env no_upgrade_error
        (request ''GET'' [] [(''token'', mark ''k'' @ mark ''u'' @ mark ''alice''), (''device_id'', ''d2'')]) demo_app)
   in \<exists>c :: Claims. srv_hub (app_server a') = start_register (new_connection ''client'' (UserID c) ''d2'' ''v1'' 1000) example_hub"
proof -
  let ?rq = "request ''GET'' [] [(''token'', mark ''k'' @ mark ''u'' @ mark ''alice''), (''device_id'', ''d2'')]"
  obtain rs a' where h: "handleClientConnect demo_config quiet_env no_upgrade_error ?rq demo_app = (rs, a')"
    by (cases "handleClientConnect demo_config quiet_env no_upgrade_error ?rq demo_app")
  have ver: "negotiateProtocol ?rq = ''v1''"
    by (simp add: negotiateProtocol_def isSupportedVersion_def SupportedVersions_def ProtocolVersion_def trim_space_def is_space_def)
  have r: "registering (srv_hub (app_server a')) \<noteq> registering (srv_hub (app_server demo_app))"
    using h by (auto simp: handleClientConnect_def ValidateJWT_def demo_jwt_def no_upgrade_error_def
        open_connection_def on_hub_def start_register_def Let_def split: if_splits)
  from client_connect_needs_token [OF h r] h ver show ?thesis by (auto simp: Let_def)
qed

theorem RegisterAgentOnConnect_profile_witness:
  "let d' = snd (RegisterAgentOnConnect quiet_env ''a'' [] ''m2'' [] [] example_db)
   in db_ok d' \<and> list_all2 (keeps_profile ''a'' [] ''m2'' [] []) (t_agents example_db) (t_agents d')"
proof -
  obtain r d' where h: "RegisterAgentOnConnect quiet_env ''a'' [] ''m2'' [] [] example_db = (r, d')"
    by (cases "RegisterAgentOnConnect quiet_env ''a'' [] ''m2'' [] [] example_db")
  have x: "agent_exists example_db ''a''" by (simp add: agent_exists_def example_db_def)
  then have "r = None" using h by (auto simp: RegisterAgentOnConnect_def Let_def)
  with RegisterAgentOnConnect_profile [OF h example_db_ok] x h show ?thesis by (simp add: Let_def)
qed

lemma demo_login:
  "handleLogin demo_config quiet_env (request ''POST'' [] [(''username'', ''alice''), (''password'', ''secret'')]) example_server =
     (ok_json (login_answer (mark ''k'' @ mark ''u'' @ mark ''alice'') ''u'' ''alice''), example_server)"
  by (simp add: handleLogin_def GenerateJWT_def demo_sign login_answer_def)

theorem login_token_authenticates_witness:
  "\<exists>u \<in> set (t_users example_db). \<exists>tok. u_username u = ''alice'' \<and>
     authenticates_as demo_config tok 1000 ((1000 + 24 * hour) div second * second)
       \<lparr>UserID = u_id u, Username = u_username u\<rparr>"
  using login_token_authenticates [of demo_config, OF _ demo_login] demo_jwt_sound by auto

theorem register_then_login_witness:
  "\<exists>tok. authenticates_as demo_config tok 1000 ((1000 + 24 * hour) div second * second)
     \<lparr>UserID = generateID ''user'' 1000, Username = ''bob''\<rparr>"
proof -
  let ?rq = "request ''POST'' [] [(''username'', ''bob''), (''password'', ''pw'')]"
  obtain rs s1 where h: "handleRegisterUser demo_config quiet_env ?rq example_server = (rs, s1)"
    by (cases "handleRegisterUser demo_config quiet_env ?rq example_server")
  have c: "rs_code rs = 200"
    using h by (auto simp: handleRegisterUser_def username_char_def user_exists_def generateID_def Let_def split: if_splits)
  have "hash_sound demo_config" by (simp add: hash_sound_def)
  from register_then_login [OF h c _ this, of quiet_env _ ?rq] demo_jwt_sound example_db_ok
  show ?thesis by (auto simp: GenerateJWT_def demo_sign)
qed

theorem forged_header_evades_ip_limit_witness:
  "\<forall>(ip, ok) \<in> set (fst (requests RateLimiter_Allow
     (map (\<lambda>ip. (0, extractIP (forwarded_for ip (request ''POST'' [] [])))) [''1.1.1.1'', ''1.1.1.2'']) (NewRateLimiter 1 minute))). ok"
  using forged_header_evades_ip_limit [of "[''1.1.1.1'', ''1.1.1.2'']" "NewRateLimiter 1 minute" "\<lambda>_. 0" "request ''POST'' [] []"]
  by (simp add: plain_address_def is_space_def NewRateLimiter_def)

end
