(* ===== verification/Message_Handlers.thy ===== *)
theory Message_Handlers
  imports Conversation_Handlers Auth_Safety
begin

section \<open>Editing, deleting and reacting to messages\<close>

text \<open>
  messages_edit_delete.go and reactions.go: the handlers that change one message, and the toggle of a
  reaction. Each handler answers, and tells the devices of the user and the agent what happened.
\<close>

subsection \<open>Edit and delete\<close>

definition edit_event :: "config \<Rightarrow> string \<Rightarrow> string \<Rightarrow> string \<Rightarrow> int \<Rightarrow> string \<Rightarrow> json" where
  "edit_event cf messageID convID content now userID = OutgoingMessage ''message_edited''
     (str_obj [(''content'', content), (''conversation_id'', convID), (''edited_at'', cf_rfc3339 cf now),
               (''edited_by'', userID), (''message_id'', messageID)])"

definition set_content :: "string \<Rightarrow> int \<Rightarrow> message_row \<Rightarrow> message_row" where
  "set_content content now m = m\<lparr>m_content := content, m_edited_at := Some now\<rparr>"

definition notify_participants :: "Conversation \<Rightarrow> json \<Rightarrow> hub \<Rightarrow> hub" where
  "notify_participants conv event h =
     send_to_agent (conv_AgentID conv) event (send_to_devices (conv_UserID conv) event h)"

definition handleMessageEdit :: "config \<Rightarrow> env \<Rightarrow> server handler" where
  "handleMessageEdit cf e = user_endpoint cf e ''POST'' (\<lambda>claims rq s.
     let messageID = rq_form rq ''message_id''; content = rq_form rq ''content'' in
     if messageID = [] then (writeJSONError 400 ''missing message_id'', s)
     else if content = [] then (writeJSONError 400 ''content cannot be empty'', s)
     else if sql_fails e ''handleMessageEdit.select'' then (writeJSONError 500 ''internal error'', s)
     else (case find (\<lambda>m. m_id m = messageID) (t_messages (srv_db s)) of
             None \<Rightarrow> (writeJSONError 404 ''message not found'', s)
           | Some msg \<Rightarrow>
               if m_is_deleted msg then (writeJSONError 400 ''cannot edit a deleted message'', s)
               else if m_sender_type msg \<noteq> ''client'' \<or> m_sender_id msg \<noteq> UserID claims then
                 (writeJSONError 401 ''can only edit your own messages'', s)
               else if sql_fails e ''handleMessageEdit.update'' then (writeJSONError 500 ''failed to update message'', s)
               else
                 (let now = clock e ''handleMessageEdit'';
                      s1 = s\<lparr>srv_db := update_messages (\<lambda>m. m_id m = messageID) (set_content content now) (srv_db s)\<rparr>;
                      s2 = (case getConversation e (m_conversation msg) (srv_db s1) of
                              Inr (Some conv) \<Rightarrow>
                                on_hub (notify_participants conv (edit_event cf messageID (m_conversation msg) content now (UserID claims))) s1
                            | _ \<Rightarrow> s1)
                  in (ok_json (str_obj [(''content'', content), (''conversation_id'', m_conversation msg),
                        (''edited_at'', cf_rfc3339 cf now), (''message_id'', messageID), (''status'', ''edited'')]), s2))))"

definition delete_event :: "config \<Rightarrow> string \<Rightarrow> string \<Rightarrow> string \<Rightarrow> int \<Rightarrow> json" where
  "delete_event cf messageID convID userID now = OutgoingMessage ''message_deleted''
     (str_obj [(''conversation_id'', convID), (''deleted_at'', cf_rfc3339 cf now), (''deleted_by'', userID),
               (''message_id'', messageID)])"

definition soft_delete :: "int \<Rightarrow> message_row \<Rightarrow> message_row" where
  "soft_delete now m = m\<lparr>m_is_deleted := True, m_content := ''[deleted]'', m_edited_at := Some now\<rparr>"

definition handleMessageDelete :: "config \<Rightarrow> env \<Rightarrow> server handler" where
  "handleMessageDelete cf e = user_endpoint cf e ''POST'' (\<lambda>claims rq s.
     let messageID = rq_form rq ''message_id'' in
     if messageID = [] then (writeJSONError 400 ''missing message_id'', s)
     else if sql_fails e ''handleMessageDelete.select'' then (writeJSONError 500 ''internal error'', s)
     else (case find (\<lambda>m. m_id m = messageID) (t_messages (srv_db s)) of
             None \<Rightarrow> (writeJSONError 404 ''message not found'', s)
           | Some msg \<Rightarrow>
               if m_is_deleted msg then (writeJSONError 400 ''message already deleted'', s)
               else (case getConversation e (m_conversation msg) (srv_db s) of
                       Inr (Some conv) \<Rightarrow>
                         (let isSender = (m_sender_type msg = ''client'' \<and> m_sender_id msg = UserID claims);
                              isOwner = (conv_UserID conv = UserID claims);
                              now = clock e ''handleMessageDelete''
                          in if \<not> isSender \<and> \<not> isOwner then
                               (writeJSONError 401 ''can only delete your own messages or messages in your conversations'', s)
                             else if sql_fails e ''handleMessageDelete.update'' then
                               (writeJSONError 500 ''failed to delete message'', s)
                             else
                               (ok_json (str_obj [(''conversation_id'', m_conversation msg), (''deleted_at'', cf_rfc3339 cf now),
                                   (''message_id'', messageID), (''status'', ''deleted'')]),
                                on_hub (notify_participants conv (delete_event cf messageID (m_conversation msg) (UserID claims) now))
                                  (s\<lparr>srv_db := update_messages (\<lambda>m. m_id m = messageID) (soft_delete now) (srv_db s)\<rparr>)))
                     | _ \<Rightarrow> (writeJSONError 404 ''conversation not found'', s))))"

subsection \<open>Reactions\<close>

text \<open>\<open>INSERT INTO reactions\<close>: the id and the triple of message, user and emoji are unique, message and user
  must exist.\<close>

definition insert_reaction :: "reaction_row \<Rightarrow> database \<Rightarrow> go_error + database" where
  "insert_reaction r d =
     (if \<exists>x \<in> set (t_reactions d). re_id x = re_id r \<or>
           (re_message x = re_message r \<and> re_user x = re_user r \<and> re_emoji x = re_emoji r) then Inl ErrUnique
      else if \<not> message_exists d (re_message r) \<or> \<not> user_exists d (re_user r) then Inl ErrForeignKey
      else Inr (d\<lparr>t_reactions := t_reactions d @ [r]\<rparr>))"

text \<open>The result is an error, or the new reaction, or \<open>None\<close> when an existing one was removed.\<close>

definition addReaction ::
  "env \<Rightarrow> string \<Rightarrow> string \<Rightarrow> string \<Rightarrow> database \<Rightarrow> (go_error + reaction_row option) \<times> database" where
  "addReaction e messageID userID emoji d =
     (if sql_fails e ''addReaction.message'' then (Inl ErrSQL, d)
      else (case find (\<lambda>m. m_id m = messageID) (t_messages d) of
              None \<Rightarrow> (Inl (ErrText ''message not found''), d)
            | Some msg \<Rightarrow>
                (case getConversation e (m_conversation msg) d of
                   Inl err \<Rightarrow> (Inl err, d)
                 | Inr None \<Rightarrow> (Inl (ErrText ''conversation not found''), d)
                 | Inr (Some conv) \<Rightarrow>
                     if conv_UserID conv \<noteq> userID \<and> conv_AgentID conv \<noteq> userID then (Inl (ErrText ''unauthorized''), d)
                     else if sql_fails e ''addReaction.existing'' then (Inl ErrSQL, d)
                     else (case find (\<lambda>r. re_message r = messageID \<and> re_user r = userID \<and> re_emoji r = emoji) (t_reactions d) of
                             Some r \<Rightarrow>
                               if sql_fails e ''addReaction.delete'' then (Inl ErrSQL, d)
                               else (Inr None, d\<lparr>t_reactions := filter (\<lambda>x. re_id x \<noteq> re_id r) (t_reactions d)\<rparr>)
                           | None \<Rightarrow>
                               (let new = \<lparr>re_id = generateID ''rxn'' (clock e ''addReaction.id''), re_message = messageID,
                                          re_user = userID, re_emoji = emoji, re_created_at = clock e ''addReaction''\<rparr>
                                in if sql_fails e ''addReaction.insert'' then (Inl ErrSQL, d)
                                   else (case insert_reaction new d of
                                           Inl err \<Rightarrow> (Inl err, d)
                                         | Inr d1 \<Rightarrow> (Inr (Some new), d1)))))))"

definition reaction_event :: "bool \<Rightarrow> string \<Rightarrow> string \<Rightarrow> string \<Rightarrow> string \<Rightarrow> json" where
  "reaction_event added messageID convID userID emoji =
     OutgoingMessage (if added then ''reaction_added'' else ''reaction_removed'')
       (str_obj [(''conversation_id'', convID), (''emoji'', emoji), (''message_id'', messageID), (''user_id'', userID)])"

text \<open>The conversation id read back for the event, empty when the query fails.\<close>

definition conversation_of_message :: "env \<Rightarrow> string \<Rightarrow> database \<Rightarrow> string" where
  "conversation_of_message e messageID d =
     (if sql_fails e ''handleReact.message'' then []
      else (case find (\<lambda>m. m_id m = messageID) (t_messages d) of None \<Rightarrow> [] | Some m \<Rightarrow> m_conversation m))"

definition handleReact :: "config \<Rightarrow> env \<Rightarrow> server handler" where
  "handleReact cf e = user_endpoint cf e ''POST'' (\<lambda>claims rq s.
     let messageID = rq_form rq ''message_id''; emoji = rq_form rq ''emoji'' in
     if messageID = [] \<or> emoji = [] then (writeJSONError 400 ''missing message_id or emoji'', s)
     else if length emoji > 10 then (writeJSONError 400 ''emoji too long'', s)
     else (case addReaction e messageID (UserID claims) emoji (srv_db s) of
             (Inl err, d) \<Rightarrow>
               (if err = ErrText ''message not found'' then writeJSONError 404 ''message not found''
                else if err = ErrText ''unauthorized'' then writeJSONError 401 ''unauthorized''
                else writeJSONError 500 ''internal error'', s\<lparr>srv_db := d\<rparr>)
           | (Inr reaction, d) \<Rightarrow>
               (let convID = conversation_of_message e messageID d;
                    agentID = (if convID = [] then []
                               else (case getConversation (at_call ''handleReact.'' e) convID d of
                                       Inr (Some conv) \<Rightarrow> conv_AgentID conv | _ \<Rightarrow> []));
                    event = reaction_event (reaction \<noteq> None) messageID convID (UserID claims) emoji;
                    h1 = (if agentID \<noteq> [] then send_to_agent agentID event (srv_hub s) else srv_hub s);
                    h2 = send_to_devices (UserID claims) event h1
                in (ok_json (case reaction of
                       Some r \<Rightarrow> JObj [(''reaction'', str_obj [(''id'', re_id r), (''message_id'', messageID),
                           (''user_id'', UserID claims), (''emoji'', emoji), (''created_at'', cf_rfc3339 cf (re_created_at r))]),
                         (''status'', JStr ''reaction_added'')]
                     | None \<Rightarrow> str_obj [(''emoji'', emoji), (''message_id'', messageID), (''status'', ''reaction_removed'')]),
                    s\<lparr>srv_db := d, srv_hub := h2\<rparr>))))"

definition handleGetReactions :: "config \<Rightarrow> env \<Rightarrow> server handler" where
  "handleGetReactions cf e = user_endpoint cf e ''GET'' (\<lambda>claims rq s.
     let messageID = rq_query rq ''message_id'' in
     if messageID = [] then (writeJSONError 400 ''missing message_id'', s)
     else if sql_fails e ''handleGetReactions'' then (writeJSONError 500 ''internal error'', s)
     else (case find (\<lambda>m. m_id m = messageID) (t_messages (srv_db s)) of
             None \<Rightarrow> (writeJSONError 404 ''message not found'', s)
           | Some msg \<Rightarrow>
               (case getConversation e (m_conversation msg) (srv_db s) of
                  Inr (Some conv) \<Rightarrow>
                    if conv_UserID conv \<noteq> UserID claims \<and> conv_AgentID conv \<noteq> UserID claims then
                      (writeJSONError 401 ''unauthorized'', s)
                    else (case getMessageReactions e messageID (srv_db s) of
                            Inl _ \<Rightarrow> (writeJSONError 500 ''internal error'', s)
                          | Inr rs \<Rightarrow> (ok_json (JArr (map (reaction_json cf) rs)), s))
                | _ \<Rightarrow> (writeJSONError 401 ''unauthorized'', s))))"

subsection \<open>Who may change a message\<close>

lemma conversation_of_found:
  assumes "db_ok d" and "m \<in> set (t_messages d)" and "\<not> sql_fails e ''getConversation''"
  obtains conv where "getConversation e (m_conversation m) d = Inr (Some conv)" and "conv_ID conv = m_conversation m"
    and "conv \<in> set (t_conversations d)"
proof -
  have "conversation_exists d (m_conversation m)" using assms(1,2) by (simp add: db_ok_def)
  then obtain conv where "find (\<lambda>c. conv_ID c = m_conversation m) (t_conversations d) = Some conv"
    using find_key_None [of conv_ID "m_conversation m" "t_conversations d"]
    by (cases "find (\<lambda>c. conv_ID c = m_conversation m) (t_conversations d)") (auto simp: conversation_exists_def)
  with find_key_SomeD [OF this] that assms(3) show thesis by (auto simp: getConversation_def)
qed

lemma getConversation_update [simp]: "getConversation e c (update_messages P f d) = getConversation e c d"
  by (simp add: getConversation_def update_messages_def)

definition edited :: "config \<Rightarrow> env \<Rightarrow> http_request \<Rightarrow> string \<Rightarrow> message_row \<Rightarrow> Conversation \<Rightarrow> server \<Rightarrow> server" where
  "edited cf e rq userID msg conv s =
     on_hub (notify_participants conv (edit_event cf (m_id msg) (m_conversation msg) (rq_form rq ''content'')
         (clock e ''handleMessageEdit'') userID))
       (s\<lparr>srv_db := update_messages (\<lambda>m. m_id m = m_id msg)
            (set_content (rq_form rq ''content'') (clock e ''handleMessageEdit'')) (srv_db s)\<rparr>)"

lemma handleMessageEdit_cases:
  assumes "handleMessageEdit cf e rq s = (rs, s')" and "rs_code rs = 200"
  obtains claims msg where "request_claims cf e rq = Inr claims"
    and "find (\<lambda>m. m_id m = rq_form rq ''message_id'') (t_messages (srv_db s)) = Some msg"
    and "\<not> m_is_deleted msg" and "m_sender_type msg = ''client''" and "m_sender_id msg = UserID claims"
    and "\<forall>conv. getConversation e (m_conversation msg) (srv_db s) = Inr (Some conv) \<longrightarrow> s' = edited cf e rq (UserID claims) msg conv s"
proof (cases "request_claims cf e rq")
  case (Inl err)
  then show ?thesis using assms by (auto simp: handleMessageEdit_def user_endpoint_def split: if_splits)
next
  case claims: (Inr claims)
  show ?thesis
  proof (cases "find (\<lambda>m. m_id m = rq_form rq ''message_id'') (t_messages (srv_db s))")
    case None
    then show ?thesis using assms claims by (auto simp: handleMessageEdit_def user_endpoint_def Let_def split: if_splits)
  next
    case (Some msg)
    from find_key_SomeD [OF this] have "m_id msg = rq_form rq ''message_id''" by simp
    then show ?thesis
      by (intro that [OF claims Some])
        (use assms claims Some in \<open>auto simp: handleMessageEdit_def user_endpoint_def edited_def Let_def split: if_splits\<close>)
  qed
qed

lemma handleMessageEdit_refused:
  assumes "rs_code (fst (handleMessageEdit cf e rq s)) \<noteq> 200"
  shows "snd (handleMessageEdit cf e rq s) = s"
proof -
  have "rs_code (fst (handleMessageEdit cf e rq s)) = 200 \<or> snd (handleMessageEdit cf e rq s) = s"
    by (cases "request_claims cf e rq"; cases "find (\<lambda>m. m_id m = rq_form rq ''message_id'') (t_messages (srv_db s))")
      (simp_all add: handleMessageEdit_def user_endpoint_def Let_def)
  with assms show ?thesis by simp
qed

text \<open>C27: Only the author edits a message. A request to \<open>/messages/edit\<close> either is refused and changes nothing,
  or the token belongs to the user who sent the message as a client, the message was not deleted,
  exactly that row gets the new content and the time of the edit, and the edit event goes to the
  devices of the user and to the agent of the conversation. (The lookup of the conversation is assumed not to
  fail; when it does, the message is edited and no event is sent.)\<close>

theorem edit_only_own_message:
  assumes "handleMessageEdit cf e rq s = (rs, s')" and "db_ok (srv_db s)" and "\<not> sql_fails e ''getConversation''"
  shows "rs_code rs \<noteq> 200 \<and> s' = s \<or>
    (\<exists>claims msg conv. request_claims cf e rq = Inr claims \<and> msg \<in> set (t_messages (srv_db s)) \<and>
       m_id msg = rq_form rq ''message_id'' \<and> m_sender_type msg = ''client'' \<and> m_sender_id msg = UserID claims \<and>
       \<not> m_is_deleted msg \<and> conv \<in> set (t_conversations (srv_db s)) \<and> conv_ID conv = m_conversation msg \<and>
       s' = edited cf e rq (UserID claims) msg conv s)"
proof (cases "rs_code rs = 200")
  case False
  then show ?thesis using assms(1) handleMessageEdit_refused [of cf e rq s] by simp
next
  case True
  from assms(1) True obtain claims msg where c: "request_claims cf e rq = Inr claims"
    and f: "find (\<lambda>m. m_id m = rq_form rq ''message_id'') (t_messages (srv_db s)) = Some msg"
    and m: "\<not> m_is_deleted msg" "m_sender_type msg = ''client''" "m_sender_id msg = UserID claims"
    and s': "\<forall>conv. getConversation e (m_conversation msg) (srv_db s) = Inr (Some conv) \<longrightarrow>
        s' = edited cf e rq (UserID claims) msg conv s"
    by (rule handleMessageEdit_cases)
  from find_key_SomeD [OF f] have msg: "msg \<in> set (t_messages (srv_db s))" "m_id msg = rq_form rq ''message_id''" by auto
  from conversation_of_found [OF assms(2) msg(1) assms(3)] obtain conv
    where "getConversation e (m_conversation msg) (srv_db s) = Inr (Some conv)" "conv_ID conv = m_conversation msg"
      "conv \<in> set (t_conversations (srv_db s))" by blast
  with c m msg s' show ?thesis by blast
qed

subsection \<open>Deleting\<close>

lemma handleMessageDelete_refused:
  assumes "rs_code (fst (handleMessageDelete cf e rq s)) \<noteq> 200"
  shows "snd (handleMessageDelete cf e rq s) = s"
proof -
  have "rs_code (fst (handleMessageDelete cf e rq s)) = 200 \<or> snd (handleMessageDelete cf e rq s) = s"
    by (cases "request_claims cf e rq"; cases "find (\<lambda>m. m_id m = rq_form rq ''message_id'') (t_messages (srv_db s))")
      (simp_all add: handleMessageDelete_def user_endpoint_def Let_def split: option.split sum.split)
  with assms show ?thesis by simp
qed

lemma handleMessageDelete_cases:
  assumes "handleMessageDelete cf e rq s = (rs, s')" and "rs_code rs = 200"
  obtains claims msg conv where "request_claims cf e rq = Inr claims"
    and "find (\<lambda>m. m_id m = rq_form rq ''message_id'') (t_messages (srv_db s)) = Some msg"
    and "getConversation e (m_conversation msg) (srv_db s) = Inr (Some conv)"
    and "m_sender_type msg = ''client'' \<and> m_sender_id msg = UserID claims \<or> conv_UserID conv = UserID claims"
    and "srv_db s' = update_messages (\<lambda>m. m_id m = rq_form rq ''message_id'') (soft_delete (clock e ''handleMessageDelete'')) (srv_db s)"
proof (cases "request_claims cf e rq")
  case (Inl err)
  then show ?thesis using assms by (auto simp: handleMessageDelete_def user_endpoint_def split: if_splits)
next
  case claims: (Inr claims)
  show ?thesis
  proof (cases "find (\<lambda>m. m_id m = rq_form rq ''message_id'') (t_messages (srv_db s))")
    case None
    then show ?thesis using assms claims by (auto simp: handleMessageDelete_def user_endpoint_def Let_def split: if_splits)
  next
    case (Some msg)
    with assms claims obtain conv where conv: "getConversation e (m_conversation msg) (srv_db s) = Inr (Some conv)"
      by (auto simp: handleMessageDelete_def user_endpoint_def Let_def split: if_splits sum.splits option.splits)
    show ?thesis
      by (intro that [OF claims Some conv])
        (use assms claims Some conv in \<open>auto simp: handleMessageDelete_def user_endpoint_def Let_def split: if_splits\<close>)
  qed
qed

lemma find_soft_deleted:
  assumes "find (\<lambda>m. m_id m = i) ms = Some msg"
  shows "find (\<lambda>m. m_id m = i) (map (\<lambda>m. if m_id m = i then soft_delete t m else m) ms) = Some (soft_delete t msg)"
  using assms by (induction ms) (auto simp: soft_delete_def split: if_splits)

lemma deleted_stays:
  assumes "find (\<lambda>m. m_id m = rq_form rq ''message_id'') (t_messages (srv_db s)) = Some msg" and "m_is_deleted msg"
  shows "rs_code (fst (handleMessageEdit cf e rq s)) \<noteq> 200" and "rs_code (fst (handleMessageDelete cf e rq s)) \<noteq> 200"
  using assms
  by (simp_all add: handleMessageEdit_def handleMessageDelete_def user_endpoint_def Let_def split: sum.splits)

text \<open>Deletion is authorised, exact and final. A successful \<open>/messages/delete\<close> comes from the author of the
  message or from the owner of its conversation; it blanks exactly that row; and afterwards no
  request of anybody, at any time, can edit or delete the message again.\<close>

theorem deleted_message_final:
  assumes "handleMessageDelete cf e rq s = (rs, s')" and "rs_code rs = 200"
  shows "(\<exists>claims msg conv. request_claims cf e rq = Inr claims \<and> msg \<in> set (t_messages (srv_db s)) \<and>
       m_id msg = rq_form rq ''message_id'' \<and> conv \<in> set (t_conversations (srv_db s)) \<and> conv_ID conv = m_conversation msg \<and>
       (m_sender_type msg = ''client'' \<and> m_sender_id msg = UserID claims \<or> conv_UserID conv = UserID claims)) \<and>
    t_messages (srv_db s') = map (\<lambda>m. if m_id m = rq_form rq ''message_id''
       then m\<lparr>m_is_deleted := True, m_content := ''[deleted]'', m_edited_at := Some (clock e ''handleMessageDelete'')\<rparr> else m)
       (t_messages (srv_db s)) \<and>
    (\<forall>e2 rq2. rq_form rq2 ''message_id'' = rq_form rq ''message_id'' \<longrightarrow>
       rs_code (fst (handleMessageEdit cf e2 rq2 s')) \<noteq> 200 \<and> snd (handleMessageEdit cf e2 rq2 s') = s' \<and>
       rs_code (fst (handleMessageDelete cf e2 rq2 s')) \<noteq> 200 \<and> snd (handleMessageDelete cf e2 rq2 s') = s')"
proof -
  from assms obtain claims msg conv where c: "request_claims cf e rq = Inr claims"
    and f: "find (\<lambda>m. m_id m = rq_form rq ''message_id'') (t_messages (srv_db s)) = Some msg"
    and conv: "getConversation e (m_conversation msg) (srv_db s) = Inr (Some conv)"
    and w: "m_sender_type msg = ''client'' \<and> m_sender_id msg = UserID claims \<or> conv_UserID conv = UserID claims"
    and d: "srv_db s' = update_messages (\<lambda>m. m_id m = rq_form rq ''message_id'') (soft_delete (clock e ''handleMessageDelete'')) (srv_db s)"
    by (rule handleMessageDelete_cases)
  note who = find_key_SomeD [OF f] getConversation_found [OF conv]
  have ts: "t_messages (srv_db s') = map (\<lambda>m. if m_id m = rq_form rq ''message_id''
      then soft_delete (clock e ''handleMessageDelete'') m else m) (t_messages (srv_db s))"
    by (simp add: d update_messages_def)
  have "find (\<lambda>m. m_id m = rq_form rq ''message_id'') (t_messages (srv_db s')) =
      Some (soft_delete (clock e ''handleMessageDelete'') msg)"
    unfolding ts by (rule find_soft_deleted [OF f])
  moreover have "m_is_deleted (soft_delete (clock e ''handleMessageDelete'') msg)" by (simp add: soft_delete_def)
  ultimately have no: "rq_form rq2 ''message_id'' = rq_form rq ''message_id'' \<Longrightarrow>
      rs_code (fst (handleMessageEdit cf e2 rq2 s')) \<noteq> 200 \<and> rs_code (fst (handleMessageDelete cf e2 rq2 s')) \<noteq> 200" for e2 rq2
    using deleted_stays [of rq2 s'] by simp
  have same: "(\<lambda>m. if m_id m = rq_form rq ''message_id'' then soft_delete (clock e ''handleMessageDelete'') m else m) =
      (\<lambda>m. if m_id m = rq_form rq ''message_id''
       then m\<lparr>m_is_deleted := True, m_content := ''[deleted]'', m_edited_at := Some (clock e ''handleMessageDelete'')\<rparr> else m)"
    by (rule ext) (simp add: soft_delete_def)
  show ?thesis
    using c who w no handleMessageEdit_refused handleMessageDelete_refused ts unfolding same by blast
qed

subsection \<open>Reactions toggle\<close>

lemma insert_reaction_Inr:
  assumes "insert_reaction r d = Inr d'"
  shows "d' = d\<lparr>t_reactions := t_reactions d @ [r]\<rparr>" and "x \<in> set (t_reactions d) \<Longrightarrow> re_id x \<noteq> re_id r"
    and "message_exists d (re_message r)"
  using assms by (auto simp: insert_reaction_def split: if_splits)

lemma addReaction_added:
  assumes "addReaction e i u em d = (Inr (Some r), d')"
  obtains msg conv where "find (\<lambda>m. m_id m = i) (t_messages d) = Some msg"
    and "find (\<lambda>c. conv_ID c = m_conversation msg) (t_conversations d) = Some conv"
    and "conv_UserID conv = u \<or> conv_AgentID conv = u"
    and "find (\<lambda>r. re_message r = i \<and> re_user r = u \<and> re_emoji r = em) (t_reactions d) = None"
    and "r = \<lparr>re_id = generateID ''rxn'' (clock e ''addReaction.id''), re_message = i,
           re_user = u, re_emoji = em, re_created_at = clock e ''addReaction''\<rparr>"
    and "insert_reaction r d = Inr d'"
proof (cases "find (\<lambda>m. m_id m = i) (t_messages d)")
  case None
  then show ?thesis using assms by (auto simp: addReaction_def split: if_splits)
next
  case (Some msg)
  with assms obtain conv where conv: "getConversation e (m_conversation msg) d = Inr (Some conv)"
    by (auto simp: addReaction_def split: if_splits sum.splits option.splits)
  then have fc: "find (\<lambda>c. conv_ID c = m_conversation msg) (t_conversations d) = Some conv"
    by (simp add: getConversation_def split: if_splits)
  show ?thesis
    by (rule that [OF Some fc])
      (use assms Some conv in \<open>auto simp: addReaction_def Let_def split: if_splits sum.splits option.splits\<close>)
qed

definition no_sql_errors :: "env \<Rightarrow> bool" where
  "no_sql_errors e \<longleftrightarrow> (\<forall>p. \<not> sql_fails e p)"

text \<open>A reaction is a toggle: a reaction that was added is taken away by the same request repeated,
  whenever that happens, and the database is then exactly what it was before.\<close>

theorem reaction_toggles:
  assumes "addReaction e i u em d = (Inr (Some r), d1)" and "no_sql_errors e2"
  shows "addReaction e2 i u em d1 = (Inr None, d)"
proof -
  from assms(1) obtain msg conv where m: "find (\<lambda>m. m_id m = i) (t_messages d) = Some msg"
    and c: "find (\<lambda>c. conv_ID c = m_conversation msg) (t_conversations d) = Some conv"
    and p: "conv_UserID conv = u \<or> conv_AgentID conv = u"
    and n: "find (\<lambda>r. re_message r = i \<and> re_user r = u \<and> re_emoji r = em) (t_reactions d) = None"
    and r: "r = \<lparr>re_id = generateID ''rxn'' (clock e ''addReaction.id''), re_message = i,
           re_user = u, re_emoji = em, re_created_at = clock e ''addReaction''\<rparr>"
    and ins: "insert_reaction r d = Inr d1"
    by (rule addReaction_added)
  note d1 = insert_reaction_Inr(1) [OF ins] and fresh = insert_reaction_Inr(2) [OF ins]
  have "find (\<lambda>r. re_message r = i \<and> re_user r = u \<and> re_emoji r = em) (t_reactions d @ [r]) = Some r"
    using n by (simp add: find_append r)
  moreover have "filter (\<lambda>x. re_id x \<noteq> re_id r) (t_reactions d @ [r]) = t_reactions d"
    using fresh by (simp add: filter_id_conv)
  ultimately show ?thesis
    using m c p assms(2) by (auto simp: addReaction_def getConversation_def no_sql_errors_def d1)
qed

text \<open>A user may have several reactions on one message: a reaction with another emoji is added beside the
  first one, it does not replace it.\<close>

theorem reactions_are_per_emoji:
  assumes "addReaction e i u em d = (Inr (Some r1), d1)" and "addReaction e2 i u em2 d1 = (Inr (Some r2), d2)"
  shows "r1 \<noteq> r2 \<and> {r1, r2} \<subseteq> {r \<in> set (t_reactions d2). re_message r = i \<and> re_user r = u}"
proof -
  from assms(1) obtain "insert_reaction r1 d = Inr d1" "re_message r1 = i" "re_user r1 = u"
    by (rule addReaction_added) simp
  note r1 = this and d1 = insert_reaction_Inr(1) [OF this(1)]
  from assms(2) obtain "insert_reaction r2 d1 = Inr d2" "re_message r2 = i" "re_user r2 = u"
    by (rule addReaction_added) simp
  note r2 = this and d2 = insert_reaction_Inr(1) [OF this(1)] and fresh = insert_reaction_Inr(2) [OF this(1)]
  have "re_id r1 \<noteq> re_id r2" by (rule fresh) (simp add: d1)
  then show ?thesis using r1 r2 by (auto simp: d1 d2)
qed

subsection \<open>Concrete requests\<close>

definition alice_token :: string where
  "alice_token = ''Bearer '' @ mark ''k'' @ mark ''u'' @ mark ''alice''"

lemma alice_claims:
  "request_claims demo_config e (request m [(''Authorization'', alice_token)] ps) = Inr \<lparr>UserID = ''u'', Username = ''alice''\<rparr>"
  by (simp add: request_claims_def alice_token_def strip_bearer_def ValidateJWT_def demo_jwt_def)

definition own_message :: message_row where
  "own_message = example_message\<lparr>m_id := ''m2'', m_sender_type := ''client'', m_sender_id := ''u''\<rparr>"

definition chat_server :: server where
  "chat_server = example_server\<lparr>srv_db := example_db\<lparr>t_messages := [example_message, own_message]\<rparr>\<rparr>"

lemma chat_server_simps [simp]:
  "srv_db chat_server = example_db\<lparr>t_messages := [example_message, own_message]\<rparr>" "srv_hub chat_server = example_hub"
  by (simp_all add: chat_server_def)

lemma chat_db_ok: "db_ok (example_db\<lparr>t_messages := [example_message, own_message]\<rparr>)"
  by (simp add: db_ok_def own_message_def example_message_def example_db_def empty_db_def exists_defs)

theorem edit_only_own_message_witness:
  "m_content (t_messages (srv_db (snd (handleMessageEdit demo_config quiet_env
     (request ''POST'' [(''Authorization'', alice_token)] [(''message_id'', ''m2''), (''content'', ''new'')]) chat_server))) ! 1) = ''new''"
proof -
  let ?rq = "request ''POST'' [(''Authorization'', alice_token)] [(''message_id'', ''m2''), (''content'', ''new'')]"
  obtain rs s' where h: "handleMessageEdit demo_config quiet_env ?rq chat_server = (rs, s')"
    by (cases "handleMessageEdit demo_config quiet_env ?rq chat_server")
  have "rs_code rs = 200"
    using h by (auto simp: handleMessageEdit_def user_endpoint_def alice_claims example_message_def own_message_def Let_def
        split: if_splits)
  moreover have "db_ok (srv_db chat_server)" "\<not> sql_fails quiet_env ''getConversation''" by (simp_all add: chat_db_ok)
  note edit_only_own_message [OF h this]
  ultimately show ?thesis using h
    by (auto simp: edited_def update_messages_def set_content_def example_message_def own_message_def)
qed

theorem deleted_message_final_witness:
  "let s' = snd (handleMessageDelete demo_config quiet_env
     (request ''POST'' [(''Authorization'', alice_token)] [(''message_id'', ''m1'')]) chat_server)
   in m_content (hd (t_messages (srv_db s'))) = ''[deleted]'' \<and>
      rs_code (fst (handleMessageEdit demo_config quiet_env (request ''POST'' [] [(''message_id'', ''m1'')]) s')) \<noteq> 200"
proof -
  let ?rq = "request ''POST'' [(''Authorization'', alice_token)] [(''message_id'', ''m1'')]"
  obtain rs s' where h: "handleMessageDelete demo_config quiet_env ?rq chat_server = (rs, s')"
    by (cases "handleMessageDelete demo_config quiet_env ?rq chat_server")
  have c: "rs_code rs = 200"
    using h by (auto simp: handleMessageDelete_def user_endpoint_def alice_claims example_message_def own_message_def
        getConversation_def Let_def split: if_splits)
  from deleted_message_final [OF h c] h show ?thesis
    by (simp add: Let_def example_message_def own_message_def)
qed

lemma react_once:
  "\<exists>r d1. addReaction quiet_env ''m1'' ''u'' ''+1'' example_db = (Inr (Some r), d1)"
  by (simp add: addReaction_def example_message_def getConversation_def insert_reaction_def example_db_def empty_db_def
      message_exists_def user_exists_def Let_def)

theorem reaction_toggles_witness:
  "addReaction quiet_env ''m1'' ''u'' ''+1'' (snd (addReaction quiet_env ''m1'' ''u'' ''+1'' example_db)) = (Inr None, example_db)"
proof -
  from react_once obtain r d1 where h: "addReaction quiet_env ''m1'' ''u'' ''+1'' example_db = (Inr (Some r), d1)" by blast
  have "no_sql_errors quiet_env" by (simp add: no_sql_errors_def)
  from reaction_toggles [OF h this] h show ?thesis by simp
qed

theorem reactions_are_per_emoji_witness:
  "\<exists>d2 r1 r2. r1 \<noteq> r2 \<and> {r1, r2} \<subseteq> {r \<in> set (t_reactions (d2 :: database)). re_message r = ''m1'' \<and> re_user r = ''u''}"
proof -
  let ?e2 = "quiet_env\<lparr>clock := \<lambda>_. 2000\<rparr>"
  from react_once obtain r d1 where h: "addReaction quiet_env ''m1'' ''u'' ''+1'' example_db = (Inr (Some r), d1)" by blast
  have ids: "generateID ''rxn'' 1000 \<noteq> generateID ''rxn'' 2000" by code_simp
  have "\<exists>r2 d2. addReaction ?e2 ''m1'' ''u'' ''ok'' d1 = (Inr (Some r2), d2)"
    using h by (auto simp: addReaction_def example_message_def getConversation_def insert_reaction_def example_db_def
        empty_db_def message_exists_def user_exists_def ids Let_def)
  then obtain r2 d2 where "addReaction ?e2 ''m1'' ''u'' ''ok'' d1 = (Inr (Some r2), d2)" by blast
  from reactions_are_per_emoji [OF h this] show ?thesis by blast
qed

end
