(* ===== verification/Tags_Prefs.thy ===== *)
theory Tags_Prefs
  imports Message_Handlers
begin

section \<open>Conversation tags, notification preferences and presence\<close>

text \<open>
  tags.go, notif_prefs.go and presence.go. The preference handlers run behind \<open>authMiddleware\<close>, which puts
  the user id into the request.
\<close>

subsection \<open>Tags\<close>

definition insert_tag :: "tag_row \<Rightarrow> database \<Rightarrow> go_error + database" where
  "insert_tag t d =
     (if \<exists>x \<in> set (t_tags d). tg_id x = tg_id t \<or> (tg_conversation x = tg_conversation t \<and> tg_tag x = tg_tag t) then Inl ErrUnique
      else if \<not> conversation_exists d (tg_conversation t) then Inl ErrForeignKey
      else Inr (d\<lparr>t_tags := t_tags d @ [t]\<rparr>))"

definition addConversationTag :: "env \<Rightarrow> string \<Rightarrow> string \<Rightarrow> string \<Rightarrow> database \<Rightarrow> (go_error + tag_row) \<times> database" where
  "addConversationTag e convID userID tag d =
     (case getConversation e convID d of
        Inl err \<Rightarrow> (Inl err, d)
      | Inr None \<Rightarrow> (Inl (ErrText ''conversation not found''), d)
      | Inr (Some conv) \<Rightarrow>
          if conv_UserID conv \<noteq> userID then (Inl (ErrText ''unauthorized''), d)
          else if length tag = 0 \<or> length tag > 50 then (Inl (ErrText ''tag must be 1-50 characters''), d)
          else if sql_fails e ''addConversationTag.existing'' then (Inl ErrSQL, d)
          else if \<exists>t \<in> set (t_tags d). tg_conversation t = convID \<and> tg_tag t = tag then
            (Inl (ErrText ''tag already exists''), d)
          else
            (let new = \<lparr>tg_id = generateID ''tag'' (clock e ''addConversationTag.id''), tg_conversation = convID,
                       tg_tag = tag, tg_created_at = clock e ''addConversationTag''\<rparr>
             in if sql_fails e ''addConversationTag.insert'' then (Inl ErrSQL, d)
                else (case insert_tag new d of Inl err \<Rightarrow> (Inl err, d) | Inr d1 \<Rightarrow> (Inr new, d1))))"

definition removeConversationTag :: "env \<Rightarrow> string \<Rightarrow> string \<Rightarrow> string \<Rightarrow> database \<Rightarrow> go_error option \<times> database" where
  "removeConversationTag e convID userID tag d =
     (case getConversation e convID d of
        Inl err \<Rightarrow> (Some err, d)
      | Inr None \<Rightarrow> (Some (ErrText ''conversation not found''), d)
      | Inr (Some conv) \<Rightarrow>
          if conv_UserID conv \<noteq> userID then (Some (ErrText ''unauthorized''), d)
          else if sql_fails e ''removeConversationTag'' then (Some ErrSQL, d)
          else
            (let hit = (\<lambda>t. tg_conversation t = convID \<and> tg_tag t = tag);
                 d1 = d\<lparr>t_tags := filter (\<lambda>t. \<not> hit t) (t_tags d)\<rparr>
             in if filter hit (t_tags d) = [] then (Some (ErrText ''tag not found''), d1) else (None, d1)))"

definition getConversationTags :: "env \<Rightarrow> string \<Rightarrow> database \<Rightarrow> go_error + tag_row list" where
  "getConversationTags e convID d =
     (if sql_fails e ''getConversationTags'' then Inl ErrSQL
      else Inr (sort_key tg_tag (filter (\<lambda>t. tg_conversation t = convID) (t_tags d))))"

definition tag_json :: "(int \<Rightarrow> string) \<Rightarrow> tag_row \<Rightarrow> json" where
  "tag_json fmt t = str_obj [(''id'', tg_id t), (''tag'', tg_tag t), (''created_at'', fmt (tg_created_at t))]"

definition tag_error :: "go_error \<Rightarrow> http_response" where
  "tag_error err =
     (if err = ErrText ''conversation not found'' then writeJSONError 404 ''conversation not found''
      else if err = ErrText ''unauthorized'' then writeJSONError 401 ''unauthorized''
      else if err = ErrText ''tag already exists'' then writeJSONError 409 ''tag already exists''
      else if err = ErrText ''tag must be 1-50 characters'' then writeJSONError 400 ''tag must be 1-50 characters''
      else writeJSONError 500 ''internal error'')"

definition handleAddTag :: "config \<Rightarrow> env \<Rightarrow> server handler" where
  "handleAddTag cf e = user_endpoint cf e ''POST'' (\<lambda>claims rq s.
     let convID = rq_form rq ''conversation_id''; tag = rq_form rq ''tag'' in
     if convID = [] \<or> tag = [] then (writeJSONError 400 ''missing conversation_id or tag'', s)
     else (case addConversationTag e convID (UserID claims) tag (srv_db s) of
             (Inl err, d) \<Rightarrow> (tag_error err, s\<lparr>srv_db := d\<rparr>)
           | (Inr t, d) \<Rightarrow>
               (ok_json (JObj [(''status'', JStr ''tag_added''), (''tag'', tag_json (cf_rfc3339 cf) t)]), s\<lparr>srv_db := d\<rparr>)))"

definition remove_tag_error :: "go_error \<Rightarrow> http_response" where
  "remove_tag_error err =
     (if err = ErrText ''conversation not found'' then writeJSONError 404 ''conversation not found''
      else if err = ErrText ''unauthorized'' then writeJSONError 401 ''unauthorized''
      else if err = ErrText ''tag not found'' then writeJSONError 404 ''tag not found''
      else writeJSONError 500 ''internal error'')"

definition handleRemoveTag :: "config \<Rightarrow> env \<Rightarrow> server handler" where
  "handleRemoveTag cf e = user_endpoint cf e ''POST'' (\<lambda>claims rq s.
     let convID = rq_form rq ''conversation_id''; tag = rq_form rq ''tag'' in
     if convID = [] \<or> tag = [] then (writeJSONError 400 ''missing conversation_id or tag'', s)
     else (case removeConversationTag e convID (UserID claims) tag (srv_db s) of
             (Some err, d) \<Rightarrow> (remove_tag_error err, s\<lparr>srv_db := d\<rparr>)
           | (None, d) \<Rightarrow> (ok_json (str_obj [(''status'', ''tag_removed''), (''tag'', tag)]), s\<lparr>srv_db := d\<rparr>)))"

definition handleGetTags :: "config \<Rightarrow> env \<Rightarrow> server handler" where
  "handleGetTags cf e = user_endpoint cf e ''GET'' (\<lambda>claims rq s.
     let convID = rq_query rq ''conversation_id'' in
     if convID = [] then (writeJSONError 400 ''missing conversation_id'', s)
     else (case getConversation e convID (srv_db s) of
             Inr (Some conv) \<Rightarrow>
               if conv_UserID conv \<noteq> UserID claims then (writeJSONError 401 ''unauthorized'', s)
               else (case getConversationTags e convID (srv_db s) of
                       Inl _ \<Rightarrow> (writeJSONError 500 ''internal error'', s)
                     | Inr ts \<Rightarrow> (ok_json (JArr (map (tag_json (cf_json_time cf)) ts)), s))
           | _ \<Rightarrow> (writeJSONError 401 ''unauthorized'', s)))"

subsection \<open>Notification preferences\<close>

definition pref_json :: "string \<Rightarrow> bool \<Rightarrow> json" where
  "pref_json conv muted = JObj [(''conversation_id'', JStr conv), (''muted'', JBool muted)]"

definition handleGetNotificationPrefs :: "env \<Rightarrow> server handler" where
  "handleGetNotificationPrefs e rq s =
     (case getUserID rq of
        None \<Rightarrow> (writeJSONError 401 ''unauthorized'', s)
      | Some userID \<Rightarrow>
          if sql_fails e ''handleGetNotificationPrefs'' then (writeJSONError 500 ''internal error'', s)
          else (ok_json (JArr (map (\<lambda>p. pref_json (np_conversation p) (np_muted p))
                  (filter (\<lambda>p. np_user p = userID) (t_prefs (srv_db s))))), s))"

text \<open>\<open>INSERT ... ON CONFLICT(user_id, conversation_id) DO UPDATE SET muted\<close>; the user must exist.\<close>

definition upsert_pref :: "string \<Rightarrow> string \<Rightarrow> bool \<Rightarrow> database \<Rightarrow> go_error + database" where
  "upsert_pref u c muted d =
     (if \<exists>p \<in> set (t_prefs d). np_user p = u \<and> np_conversation p = c then
        Inr (d\<lparr>t_prefs := map (\<lambda>p. if np_user p = u \<and> np_conversation p = c then p\<lparr>np_muted := muted\<rparr> else p) (t_prefs d)\<rparr>)
      else if \<not> user_exists d u \<or> \<not> conversation_exists d c then Inl ErrForeignKey
      else Inr (d\<lparr>t_prefs := t_prefs d @ [\<lparr>np_user = u, np_conversation = c, np_muted = muted\<rparr>]\<rparr>))"

definition handleSetNotificationPrefs :: "env \<Rightarrow> server handler" where
  "handleSetNotificationPrefs e rq s =
     (case getUserID rq of
        None \<Rightarrow> (writeJSONError 401 ''unauthorized'', s)
      | Some userID \<Rightarrow>
          (let conversationID = rq_form rq ''conversation_id''; muted = (rq_form rq ''muted'' = ''true'') in
           if conversationID = [] then (writeJSONError 400 ''conversation_id required'', s)
           else if sql_fails e ''handleSetNotificationPrefs.select'' then (writeJSONError 500 ''internal error'', s)
           else (case find (\<lambda>c. conv_ID c = conversationID) (t_conversations (srv_db s)) of
                   None \<Rightarrow> (writeJSONError 404 ''conversation not found'', s)
                 | Some conv \<Rightarrow>
                     if conv_UserID conv \<noteq> userID then (writeJSONError 403 ''not your conversation'', s)
                     else if sql_fails e ''handleSetNotificationPrefs.upsert'' then (writeJSONError 500 ''internal error'', s)
                     else (case upsert_pref userID conversationID muted (srv_db s) of
                             Inl _ \<Rightarrow> (writeJSONError 500 ''internal error'', s)
                           | Inr d \<Rightarrow> (ok_json (pref_json conversationID muted), s\<lparr>srv_db := d\<rparr>)))))"

definition handleDeleteNotificationPrefs :: "env \<Rightarrow> server handler" where
  "handleDeleteNotificationPrefs e rq s =
     (case getUserID rq of
        None \<Rightarrow> (writeJSONError 401 ''unauthorized'', s)
      | Some userID \<Rightarrow>
          (let conversationID = rq_form rq ''conversation_id'' in
           if conversationID = [] then (writeJSONError 400 ''conversation_id required'', s)
           else (ok_json (str_obj [(''status'', ''deleted'')]),
                 if sql_fails e ''handleDeleteNotificationPrefs'' then s
                 else s\<lparr>srv_db := (srv_db s)\<lparr>t_prefs :=
                        filter (\<lambda>p. \<not> (np_user p = userID \<and> np_conversation p = conversationID)) (t_prefs (srv_db s))\<rparr>\<rparr>)))"

text \<open>A missing database (\<open>db == nil\<close>) is \<open>None\<close>; \<open>db.Ping\<close> and the query may fail.\<close>

definition isConversationMuted :: "env \<Rightarrow> string \<Rightarrow> string \<Rightarrow> database option \<Rightarrow> bool" where
  "isConversationMuted e userID conversationID db =
     (case db of
        None \<Rightarrow> False
      | Some d \<Rightarrow>
          if sql_fails e ''isConversationMuted.ping'' \<or> sql_fails e ''isConversationMuted'' then False
          else (case find (\<lambda>p. np_user p = userID \<and> np_conversation p = conversationID) (t_prefs d) of
                  None \<Rightarrow> False
                | Some p \<Rightarrow> np_muted p))"

subsection \<open>Presence\<close>

text \<open>The clock is read once per connected agent.\<close>

definition agent_presence :: "config \<Rightarrow> env \<Rightarrow> hub \<Rightarrow> agent_row \<Rightarrow> json" where
  "agent_presence cf e h a =
     (let online = (GetAgent (a_id a) h \<noteq> None);
          seen = (if online then cf_rfc3339 cf (clock e (''handleGetPresence.'' @ a_id a)) else [])
      in JObj ([(''id'', JStr (a_id a)), (''name'', JStr (a_name a)), (''online'', JBool online), (''status'', JStr (a_status a))] @
               omitempty ''last_seen'' (JStr seen) (seen = [])))"

definition handleGetPresence :: "config \<Rightarrow> env \<Rightarrow> server handler" where
  "handleGetPresence cf e = user_endpoint cf e ''GET'' (\<lambda>claims rq s.
     if sql_fails e ''handleGetPresence'' then (writeJSONError 500 ''internal error'', s)
     else (ok_json (JArr (map (agent_presence cf e (srv_hub s)) (t_agents (srv_db s)))), s))"

definition handleGetUserPresence :: "config \<Rightarrow> env \<Rightarrow> server handler" where
  "handleGetUserPresence cf e = user_endpoint cf e ''GET'' (\<lambda>claims rq s.
     let q = rq_query rq ''user_id'';
         userID = (if q = [] then UserID claims else q);
         conns = GetClientConns userID (srv_hub s);
         lastSeen = (if conns \<noteq> [] then cf_rfc3339 cf (clock e ''handleGetUserPresence'')
                     else if sql_fails e ''handleGetUserPresence'' then []
                     else (case order_desc m_created_at (filter (\<lambda>m. m_sender_id m = userID) (t_messages (srv_db s))) of
                             [] \<Rightarrow> [] | m # _ \<Rightarrow> cf_rfc3339 cf (m_created_at m)))
     in (ok_json (JObj [(''device_count'', JNum (int (length conns))), (''last_seen'', JStr lastSeen),
                        (''online'', JBool (conns \<noteq> [])), (''user_id'', JStr userID)]), s))"

subsection \<open>Tags come and go\<close>

lemma addConversationTag_Inr:
  assumes "addConversationTag e c u t d = (Inr row, d1)"
  obtains conv where "find (\<lambda>x. conv_ID x = c) (t_conversations d) = Some conv" and "conv_UserID conv = u"
    and "1 \<le> length t" and "length t \<le> 50"
    and "\<forall>x \<in> set (t_tags d). \<not> (tg_conversation x = c \<and> tg_tag x = t)"
    and "tg_conversation row = c" and "tg_tag row = t" and "d1 = d\<lparr>t_tags := t_tags d @ [row]\<rparr>"
proof (cases "find (\<lambda>x. conv_ID x = c) (t_conversations d)")
  case None
  then show ?thesis using assms by (auto simp: addConversationTag_def getConversation_def split: if_splits)
next
  case (Some conv)
  show ?thesis
    by (rule that [OF Some])
      (use assms Some in \<open>auto simp: addConversationTag_def getConversation_def insert_tag_def Let_def Suc_le_eq split: if_splits\<close>)
qed

text \<open>Tags: only the owner of a conversation tags it, with 1 to 50 bytes. A tag that was added is listed,
  a second attempt to add it is refused and changes nothing, and removing it restores the database
  exactly.\<close>

theorem tag_roundtrip:
  assumes "addConversationTag e c u t d = (Inr row, d1)" and "no_sql_errors e2"
  shows "1 \<le> length t \<and> length t \<le> 50 \<and>
    (\<exists>conv \<in> set (t_conversations d). conv_ID conv = c \<and> conv_UserID conv = u) \<and>
    (\<exists>ts. getConversationTags e2 c d1 = Inr ts \<and> row \<in> set ts \<and> tg_tag row = t) \<and>
    addConversationTag e2 c u t d1 = (Inl (ErrText ''tag already exists''), d1) \<and>
    removeConversationTag e2 c u t d1 = (None, d)"
proof -
  from assms(1) obtain conv where conv: "find (\<lambda>x. conv_ID x = c) (t_conversations d) = Some conv" "conv_UserID conv = u"
    and len: "1 \<le> length t" "length t \<le> 50"
    and fresh: "\<forall>x \<in> set (t_tags d). \<not> (tg_conversation x = c \<and> tg_tag x = t)"
    and row: "tg_conversation row = c" "tg_tag row = t" and d1: "d1 = d\<lparr>t_tags := t_tags d @ [row]\<rparr>"
    by (rule addConversationTag_Inr)
  have keep: "filter (\<lambda>x. tg_conversation x = c \<longrightarrow> tg_tag x \<noteq> t) (t_tags d) = t_tags d"
    using fresh by (auto simp: filter_id_conv)
  have none: "filter (\<lambda>x. tg_conversation x = c \<and> tg_tag x = t) (t_tags d) = []"
    using fresh by (auto simp: filter_empty_conv)
  have ne: "\<And>p. \<not> sql_fails e2 p" using assms(2) by (simp add: no_sql_errors_def)
  have t: "t \<noteq> []" using len(1) by auto
  have "addConversationTag e2 c u t d1 = (Inl (ErrText ''tag already exists''), d1)"
    using conv len t row ne by (simp add: addConversationTag_def getConversation_def d1)
  moreover have "removeConversationTag e2 c u t d1 = (None, d)"
    using conv row ne keep none by (simp add: removeConversationTag_def getConversation_def d1 Let_def)
  moreover have "\<exists>ts. getConversationTags e2 c d1 = Inr ts \<and> row \<in> set ts \<and> tg_tag row = t"
    using row ne by (simp add: getConversationTags_def d1)
  ultimately show ?thesis using len find_key_SomeD [OF conv(1)] conv(2) by blast
qed

subsection \<open>Muting\<close>

lemma handleSetNotificationPrefs_200:
  assumes "handleSetNotificationPrefs e rq s = (rs, s')" and "rs_code rs = 200"
  obtains u d where "getUserID rq = Some u"
    and "upsert_pref u (rq_form rq ''conversation_id'') (rq_form rq ''muted'' = ''true'') (srv_db s) = Inr d"
    and "s' = s\<lparr>srv_db := d\<rparr>"
    and "\<exists>conv \<in> set (t_conversations (srv_db s)). conv_ID conv = rq_form rq ''conversation_id'' \<and> conv_UserID conv = u"
proof (cases "getUserID rq")
  case None
  then show ?thesis using assms by (auto simp: handleSetNotificationPrefs_def)
next
  case (Some u)
  obtain conv where c: "find (\<lambda>c. conv_ID c = rq_form rq ''conversation_id'') (t_conversations (srv_db s)) = Some conv"
    using assms Some by (auto simp: handleSetNotificationPrefs_def Let_def split: if_splits option.splits)
  obtain d where d: "upsert_pref u (rq_form rq ''conversation_id'') (rq_form rq ''muted'' = ''true'') (srv_db s) = Inr d"
    using assms Some c by (auto simp: handleSetNotificationPrefs_def Let_def split: if_splits sum.splits)
  have "s' = s\<lparr>srv_db := d\<rparr>" and "conv_UserID conv = u"
    using assms Some c d by (auto simp: handleSetNotificationPrefs_def Let_def split: if_splits)
  with that [OF Some d] find_key_SomeD [OF c] show ?thesis by blast
qed

lemma find_upsert:
  assumes "upsert_pref u c b d = Inr d'"
  shows "find (\<lambda>p. np_user p = u' \<and> np_conversation p = c') (t_prefs d') =
    (if u' = u \<and> c' = c
     then Some (case find (\<lambda>p. np_user p = u \<and> np_conversation p = c) (t_prefs d) of
                  None \<Rightarrow> \<lparr>np_user = u, np_conversation = c, np_muted = b\<rparr> | Some p \<Rightarrow> p\<lparr>np_muted := b\<rparr>)
     else find (\<lambda>p. np_user p = u' \<and> np_conversation p = c') (t_prefs d))"
proof (cases "\<exists>p \<in> set (t_prefs d). np_user p = u \<and> np_conversation p = c")
  case True
  have upd: "find (\<lambda>p. np_user p = u' \<and> np_conversation p = c')
      (map (\<lambda>p. if np_user p = u \<and> np_conversation p = c then p\<lparr>np_muted := b\<rparr> else p) ps) =
    (if u' = u \<and> c' = c then map_option (\<lambda>p. p\<lparr>np_muted := b\<rparr>) (find (\<lambda>p. np_user p = u \<and> np_conversation p = c) ps)
     else find (\<lambda>p. np_user p = u' \<and> np_conversation p = c') ps)" for ps
    by (induction ps) auto
  have "find (\<lambda>p. np_user p = u \<and> np_conversation p = c) (t_prefs d) \<noteq> None"
    using True by (auto simp: find_None_iff)
  then obtain q where q: "find (\<lambda>p. np_user p = u \<and> np_conversation p = c) (t_prefs d) = Some q" by blast
  have d': "t_prefs d' = map (\<lambda>p. if np_user p = u \<and> np_conversation p = c then p\<lparr>np_muted := b\<rparr> else p) (t_prefs d)"
    using assms True by (auto simp: upsert_pref_def)
  show ?thesis unfolding d' upd q by simp
next
  case False
  then have "find (\<lambda>p. np_user p = u \<and> np_conversation p = c) (t_prefs d) = None" by (auto simp: find_None_iff)
  then show ?thesis
    using assms False by (auto simp: upsert_pref_def find_append split: if_splits option.splits)
qed

text \<open>Muting works: after a successful \<open>/notification-prefs/set\<close>, which only the owner of the conversation
  gets through, \<open>isConversationMuted\<close> answers what was set for that user and conversation and the same
  as before for every other pair, and deleting the preference unmutes.\<close>

theorem mute_roundtrip:
  assumes "handleSetNotificationPrefs e rq s = (rs, s')" and "rs_code rs = 200" and "no_sql_errors e2"
  shows "\<exists>u. getUserID rq = Some u \<and>
    (\<exists>conv \<in> set (t_conversations (srv_db s)). conv_ID conv = rq_form rq ''conversation_id'' \<and> conv_UserID conv = u) \<and>
    (\<forall>u' c'. isConversationMuted e2 u' c' (Some (srv_db s')) =
       (if u' = u \<and> c' = rq_form rq ''conversation_id'' then rq_form rq ''muted'' = ''true''
        else isConversationMuted e2 u' c' (Some (srv_db s)))) \<and>
    \<not> isConversationMuted e2 u (rq_form rq ''conversation_id'') (Some (srv_db (snd (handleDeleteNotificationPrefs e2 rq s'))))"
proof -
  from assms(1,2) obtain u d where u: "getUserID rq = Some u"
    and d: "upsert_pref u (rq_form rq ''conversation_id'') (rq_form rq ''muted'' = ''true'') (srv_db s) = Inr d"
    and s': "s' = s\<lparr>srv_db := d\<rparr>"
    and c: "\<exists>conv \<in> set (t_conversations (srv_db s)). conv_ID conv = rq_form rq ''conversation_id'' \<and> conv_UserID conv = u"
    by (rule handleSetNotificationPrefs_200)
  have ne: "\<And>p. \<not> sql_fails e2 p" using assms(3) by (simp add: no_sql_errors_def)
  have id: "rq_form rq ''conversation_id'' \<noteq> []"
    using assms(1,2) u by (auto simp: handleSetNotificationPrefs_def Let_def split: if_splits)
  have "isConversationMuted e2 u' c' (Some (srv_db s')) =
       (if u' = u \<and> c' = rq_form rq ''conversation_id'' then rq_form rq ''muted'' = ''true''
        else isConversationMuted e2 u' c' (Some (srv_db s)))" for u' c'
    using find_upsert [OF d, of u' c'] ne by (simp add: isConversationMuted_def s' split: option.splits)
  moreover have "\<not> isConversationMuted e2 u (rq_form rq ''conversation_id'') (Some (srv_db (snd (handleDeleteNotificationPrefs e2 rq s'))))"
    using u id ne
    by (auto simp: isConversationMuted_def handleDeleteNotificationPrefs_def find_Some_iff split: option.splits dest: nth_mem)
  ultimately show ?thesis using u c by blast
qed

theorem tag_roundtrip_witness:
  "removeConversationTag quiet_env ''c'' ''u'' ''work'' (snd (addConversationTag quiet_env ''c'' ''u'' ''work'' example_db)) = (None, example_db)"
proof -
  obtain row d1 where h: "addConversationTag quiet_env ''c'' ''u'' ''work'' example_db = (Inr row, d1)"
    by (simp add: addConversationTag_def getConversation_def insert_tag_def conversation_exists_def example_db_def empty_db_def Let_def)
  have "no_sql_errors quiet_env" by (simp add: no_sql_errors_def)
  from tag_roundtrip [OF h this] h show ?thesis by simp
qed

theorem mute_roundtrip_witness:
  "isConversationMuted quiet_env ''u'' ''c'' (Some (srv_db (snd (handleSetNotificationPrefs quiet_env
     (request ''POST'' [] [(''conversation_id'', ''c''), (''muted'', ''true'')]\<lparr>rq_user := Some ''u''\<rparr>) example_server))))"
proof -
  let ?rq = "request ''POST'' [] [(''conversation_id'', ''c''), (''muted'', ''true'')]\<lparr>rq_user := Some ''u''\<rparr>"
  obtain rs s' where h: "handleSetNotificationPrefs quiet_env ?rq example_server = (rs, s')"
    by (cases "handleSetNotificationPrefs quiet_env ?rq example_server")
  have c: "rs_code rs = 200"
    using h by (auto simp: handleSetNotificationPrefs_def getUserID_def request_def upsert_pref_def example_db_def empty_db_def
        user_exists_def conversation_exists_def Let_def)
  have ne: "no_sql_errors quiet_env" by (simp add: no_sql_errors_def)
  from mute_roundtrip [OF h c ne] h show ?thesis by (auto simp: getUserID_def request_def)
qed

end
