(* ===== verification/Push.thy ===== *)
theory Push
  imports Tags_Prefs
begin

section \<open>Push notifications\<close>

text \<open>
  push.go: the configuration of the two push services, the device tokens of a user, and \<open>notifyUser\<close>, which
  the router and the encrypted-message handler start for a recipient they could not reach. A notification
  that is sent is a value of \<open>push_call\<close>: the call made on the client of APNs or of Firebase. What those
  services and the file system do is the record \<open>push_lib\<close>.
\<close>

datatype apns_host = Production | Development

record PushNotificationConfig =
  APNSEnabled :: bool
  CertPath :: string
  CertPassword :: string
  KeyID :: string
  TeamID :: string
  BundleID :: string
  Environment :: string
  FCMEnabled :: bool
  FCMCredentials :: string
  apnsClient :: "apns_host option" \<comment> \<open>None: nil\<close>
  fcmClient :: bool \<comment> \<open>not nil\<close>

datatype push_call =
    APNSPush string string string string string \<comment> \<open>device token, topic, title, body, conversation\<close>
  | FCMSend string string string string \<comment> \<open>device token, title, body, conversation\<close>

record push_lib =
  pl_stat :: "string \<Rightarrow> bool" \<comment> \<open>\<open>os.Stat\<close> succeeds\<close>
  pl_p12 :: "string \<Rightarrow> string \<Rightarrow> bool" \<comment> \<open>\<open>certificate.FromP12File\<close> succeeds\<close>
  pl_app :: "string \<Rightarrow> bool" \<comment> \<open>\<open>firebase.NewApp\<close> succeeds\<close>
  pl_messaging :: "string \<Rightarrow> bool" \<comment> \<open>\<open>app.Messaging\<close> succeeds\<close>
  pl_push :: "push_call \<Rightarrow> string option" \<comment> \<open>the error of the call, if any\<close>

subsection \<open>Configuration\<close>

definition getEnvOrDefault :: "(string \<Rightarrow> string) \<Rightarrow> string \<Rightarrow> string \<Rightarrow> string" where
  "getEnvOrDefault getenv key defaultValue = (if getenv key \<noteq> [] then getenv key else defaultValue)"

definition initAPNs :: "push_lib \<Rightarrow> PushNotificationConfig \<Rightarrow> PushNotificationConfig" where
  "initAPNs pl pc =
     (if \<not> APNSEnabled pc then pc
      else if CertPath pc = [] then pc
      else if \<not> pl_stat pl (CertPath pc) then pc\<lparr>APNSEnabled := False\<rparr>
      else if \<not> pl_p12 pl (CertPath pc) (CertPassword pc) then pc\<lparr>APNSEnabled := False\<rparr>
      else pc\<lparr>apnsClient := Some (if Environment pc = ''production'' then Production else Development)\<rparr>)"

definition initFCM :: "push_lib \<Rightarrow> PushNotificationConfig \<Rightarrow> PushNotificationConfig" where
  "initFCM pl pc =
     (if \<not> FCMEnabled pc then pc
      else if FCMCredentials pc = [] then pc
      else if \<not> pl_stat pl (FCMCredentials pc) then pc\<lparr>FCMEnabled := False\<rparr>
      else if \<not> pl_app pl (FCMCredentials pc) then pc\<lparr>FCMEnabled := False\<rparr>
      else if \<not> pl_messaging pl (FCMCredentials pc) then pc\<lparr>FCMEnabled := False\<rparr>
      else pc\<lparr>fcmClient := True\<rparr>)"

definition initPushNotifications :: "(string \<Rightarrow> string) \<Rightarrow> push_lib \<Rightarrow> PushNotificationConfig" where
  "initPushNotifications getenv pl =
     initFCM pl (initAPNs pl
       \<lparr>APNSEnabled = (getenv ''APNS_ENABLED'' = ''true''), CertPath = getenv ''APNS_CERT_PATH'',
        CertPassword = getenv ''APNS_CERT_PASSWORD'', KeyID = getenv ''APNS_KEY_ID'', TeamID = getenv ''APNS_TEAM_ID'',
        BundleID = getEnvOrDefault getenv ''APNS_BUNDLE_ID'' ''com.agentmessenger.ios'',
        Environment = getEnvOrDefault getenv ''APNS_ENVIRONMENT'' ''development'',
        FCMEnabled = (getenv ''FCM_ENABLED'' = ''true''), FCMCredentials = getenv ''FCM_CREDENTIALS_PATH'',
        apnsClient = None, fcmClient = False\<rparr>)"

subsection \<open>Sending\<close>

text \<open>A sender returns the calls it made and its error; \<open>pushConfig == nil\<close> is \<open>None\<close>. A rejection that
  APNs reports by its status code is only logged.\<close>

definition sendAPNSNotification ::
  "push_lib \<Rightarrow> PushNotificationConfig option \<Rightarrow> string \<Rightarrow> string \<Rightarrow> string \<Rightarrow> string \<Rightarrow> push_call list \<times> string option" where
  "sendAPNSNotification pl pushConfig deviceToken title body conversationID =
     (case pushConfig of
        None \<Rightarrow> ([], None)
      | Some pc \<Rightarrow>
          if \<not> APNSEnabled pc \<or> apnsClient pc = None then ([], None)
          else (let n = APNSPush deviceToken (BundleID pc) title body conversationID in ([n], pl_push pl n)))"

definition sendFCMNotification ::
  "push_lib \<Rightarrow> PushNotificationConfig option \<Rightarrow> string \<Rightarrow> string \<Rightarrow> string \<Rightarrow> string \<Rightarrow> push_call list \<times> string option" where
  "sendFCMNotification pl pushConfig deviceToken title body conversationID =
     (case pushConfig of
        None \<Rightarrow> ([], None)
      | Some pc \<Rightarrow>
          if \<not> FCMEnabled pc \<or> \<not> fcmClient pc then ([], None)
          else (let n = FCMSend deviceToken title body conversationID in
                ([n], map_option (\<lambda>err. ''FCM send failed: '' @ err) (pl_push pl n))))"

definition sendPushNotification ::
  "push_lib \<Rightarrow> PushNotificationConfig option \<Rightarrow> string \<Rightarrow> string \<Rightarrow> string \<Rightarrow> string \<Rightarrow> string \<Rightarrow> push_call list \<times> string option" where
  "sendPushNotification pl pushConfig deviceToken title body conversationID platform =
     (if ToLower platform \<in> {''android'', ''fcm''}
      then sendFCMNotification pl pushConfig deviceToken title body conversationID
      else sendAPNSNotification pl pushConfig deviceToken title body conversationID)"

record deviceTokenWithPlatform =
  Token :: string
  Platform :: string

definition getDeviceTokensForUser :: "env \<Rightarrow> string \<Rightarrow> database option \<Rightarrow> go_error + deviceTokenWithPlatform list" where
  "getDeviceTokensForUser e userID db =
     (case db of
        None \<Rightarrow> Inl (ErrText ''database not initialized'')
      | Some d \<Rightarrow>
          if sql_fails e ''getDeviceTokensForUser'' then Inl ErrSQL
          else Inr (map (\<lambda>r. \<lparr>Token = dt_token r, Platform = dt_platform r\<rparr>)
                 (filter (\<lambda>r. dt_user r = userID) (t_devices d))))"

text \<open>The loop goes on after an error of one device.\<close>

definition notifyUser ::
  "push_lib \<Rightarrow> env \<Rightarrow> PushNotificationConfig option \<Rightarrow> database option \<Rightarrow> string \<Rightarrow> string \<Rightarrow> string \<Rightarrow> string \<Rightarrow> push_call list" where
  "notifyUser pl e pushConfig db userID title body conversationID =
     (if pushConfig = None \<or> db = None then []
      else if conversationID \<noteq> [] \<and> isConversationMuted e userID conversationID db then []
      else (case getDeviceTokensForUser e userID db of
              Inl _ \<Rightarrow> []
            | Inr tokens \<Rightarrow>
                concat (map (\<lambda>t. fst (sendPushNotification pl pushConfig (Token t) title body conversationID (Platform t))) tokens)))"

text \<open>The goroutines \<open>go notifyUser(...)\<close> that the server has started, run in order.\<close>

definition run_notifications :: "push_lib \<Rightarrow> env \<Rightarrow> PushNotificationConfig option \<Rightarrow> server \<Rightarrow> push_call list" where
  "run_notifications pl e pushConfig s =
     concat (map (\<lambda>n. notifyUser pl e pushConfig (Some (srv_db s)) (nt_user n) (nt_title n) (nt_body n) (nt_conversation n))
       (srv_notified s))"

subsection \<open>Device tokens\<close>

definition same_device_row :: "string \<Rightarrow> string \<Rightarrow> device_row \<Rightarrow> bool" where
  "same_device_row u tok r \<longleftrightarrow> dt_user r = u \<and> dt_token r = tok"

text \<open>\<open>INSERT ... ON CONFLICT(user_id, device_token) DO UPDATE SET platform\<close>\<close>

definition upsert_device :: "device_row \<Rightarrow> database \<Rightarrow> go_error + database" where
  "upsert_device row d =
     (let same = same_device_row (dt_user row) (dt_token row) in
      if \<exists>r \<in> set (t_devices d). same r then
        Inr (d\<lparr>t_devices := map (\<lambda>r. if same r then r\<lparr>dt_platform := dt_platform row\<rparr> else r) (t_devices d)\<rparr>)
      else if \<not> user_exists d (dt_user row) then Inl ErrForeignKey
      else Inr (d\<lparr>t_devices := t_devices d @ [row]\<rparr>))"

text \<open>\<open>INSERT OR REPLACE\<close>: the conflicting row goes, the new one comes last.\<close>

definition replace_device :: "device_row \<Rightarrow> database \<Rightarrow> go_error + database" where
  "replace_device row d =
     (if \<not> user_exists d (dt_user row) then Inl ErrForeignKey
      else Inr (d\<lparr>t_devices := filter (\<lambda>r. \<not> same_device_row (dt_user row) (dt_token row) r) (t_devices d) @ [row]\<rparr>))"

definition delete_devices :: "(device_row \<Rightarrow> bool) \<Rightarrow> database \<Rightarrow> database" where
  "delete_devices P d = d\<lparr>t_devices := filter (\<lambda>r. \<not> P r) (t_devices d)\<rparr>"

definition body_fields :: "string list \<Rightarrow> frame \<Rightarrow> string list option" where
  "body_fields names b = (case b of Malformed \<Rightarrow> None | Frame j \<Rightarrow> unmarshal_fields names (Some j))"

definition handleRegisterDeviceToken :: "config \<Rightarrow> env \<Rightarrow> server handler" where
  "handleRegisterDeviceToken cf e = user_endpoint cf e ''POST'' (\<lambda>claims rq s.
     case body_fields [''device_token'', ''platform''] (rq_body rq) of
       Some [deviceToken, platform0] \<Rightarrow>
         (let platform = (if platform0 = [] then ''ios'' else platform0) in
          if deviceToken = [] then (writeJSONError 400 ''device_token is required'', s)
          else if sql_fails e ''registerDeviceToken'' then (writeJSONError 500 ''failed to store device token'', s)
          else (case upsert_device \<lparr>dt_user = UserID claims, dt_token = deviceToken, dt_platform = platform\<rparr> (srv_db s) of
                  Inl _ \<Rightarrow> (writeJSONError 500 ''failed to store device token'', s)
                | Inr d \<Rightarrow> (ok_json (str_obj [(''status'', ''ok'')]), s\<lparr>srv_db := d\<rparr>)))
     | _ \<Rightarrow> (writeJSONError 400 ''invalid request body'', s))"

definition handleUnregisterDeviceToken :: "config \<Rightarrow> env \<Rightarrow> server handler" where
  "handleUnregisterDeviceToken cf e = user_endpoint cf e ''DELETE'' (\<lambda>claims rq s.
     case body_fields [''device_token''] (rq_body rq) of
       Some [deviceToken] \<Rightarrow>
         if deviceToken = [] then (writeJSONError 400 ''device_token is required'', s)
         else if sql_fails e ''unregisterDeviceToken'' then (writeJSONError 500 ''failed to remove device token'', s)
         else (ok_json (str_obj [(''status'', ''ok'')]),
               s\<lparr>srv_db := delete_devices (same_device_row (UserID claims) deviceToken) (srv_db s)\<rparr>)
     | _ \<Rightarrow> (writeJSONError 400 ''invalid request body'', s))"

subsection \<open>Web push\<close>

definition handleGetVAPIDKey :: "string \<Rightarrow> 's handler" where
  "handleGetVAPIDKey vapidPublicKey rq s =
     (let authHeader = rq_header rq ''Authorization'' in
      if rq_method rq \<noteq> ''GET'' then (writeJSONError 405 ''method not allowed'', s)
      else if authHeader = [] \<or> \<not> has_prefix authHeader ''Bearer '' then (writeJSONError 401 ''authorization required'', s)
      else if vapidPublicKey = [] then (writeJSONError 404 ''VAPID not configured on server'', s)
      else (ok_json (str_obj [(''public_key'', vapidPublicKey)]), s))"

text \<open>The member \<open>keys\<close> is a struct of its own: each occurrence is decoded over the value so far.\<close>

definition dec_keys :: "json \<Rightarrow> string \<times> string \<Rightarrow> (string \<times> string) option" where
  "dec_keys j cur = (case struct_members j of
     None \<Rightarrow> None
   | Some ms \<Rightarrow>
       (case (dec_members dec_string (members ''p256dh'' ms) (fst cur), dec_members dec_string (members ''auth'' ms) (snd cur)) of
          (Some p, Some a) \<Rightarrow> Some (p, a)
        | _ \<Rightarrow> None))"

definition subscription_fields :: "frame \<Rightarrow> (string \<times> string \<times> string) option" where
  "subscription_fields b = (case b of
     Malformed \<Rightarrow> None
   | Frame j \<Rightarrow> (case struct_members j of
       None \<Rightarrow> None
     | Some ms \<Rightarrow>
         (case (get_str ''endpoint'' ms, dec_members dec_keys (members ''keys'' ms) ([], [])) of
            (Some ep, Some (p, a)) \<Rightarrow> Some (ep, p, a)
          | _ \<Rightarrow> None)))"

text \<open>\<open>endpoint\<close> is unique over all users, so \<open>INSERT OR REPLACE\<close> drops whoever had it.\<close>

definition replace_webpush :: "webpush_row \<Rightarrow> database \<Rightarrow> database" where
  "replace_webpush row d =
     d\<lparr>t_webpush := filter (\<lambda>r. wp_endpoint r \<noteq> wp_endpoint row) (t_webpush d) @ [row]\<rparr>"

definition handleWebPushSubscribe :: "config \<Rightarrow> env \<Rightarrow> server handler" where
  "handleWebPushSubscribe cf e = user_endpoint cf e ''POST'' (\<lambda>claims rq s.
     case subscription_fields (rq_body rq) of
       None \<Rightarrow> (writeJSONError 400 ''invalid request body'', s)
     | Some (endpoint, p256dh, auth) \<Rightarrow>
         if endpoint = [] \<or> p256dh = [] \<or> auth = [] then
           (writeJSONError 400 ''endpoint, p256dh, and auth keys are required'', s)
         else if sql_fails e ''webSubscribe'' then (writeJSONError 500 ''failed to store subscription'', s)
         else (case replace_device \<lparr>dt_user = UserID claims, dt_token = endpoint, dt_platform = ''web''\<rparr> (srv_db s) of
                 Inl _ \<Rightarrow> (writeJSONError 500 ''failed to store subscription'', s)
               | Inr d \<Rightarrow>
                   (ok_json (str_obj [(''status'', ''subscribed'')]),
                    s\<lparr>srv_db := (if sql_fails e ''webSubscribe.keys'' then d
                       else replace_webpush \<lparr>wp_user = UserID claims, wp_endpoint = endpoint, wp_p256dh = p256dh, wp_auth = auth\<rparr> d)\<rparr>)))"

definition handleWebPushUnsubscribe :: "config \<Rightarrow> env \<Rightarrow> server handler" where
  "handleWebPushUnsubscribe cf e = user_endpoint cf e ''POST'' (\<lambda>claims rq s.
     case body_fields [''endpoint''] (rq_body rq) of
       Some [endpoint] \<Rightarrow>
         if endpoint = [] then (writeJSONError 400 ''endpoint is required'', s)
         else
           (let d0 = srv_db s;
                d1 = (if sql_fails e ''webUnsubscribe.device'' then d0
                      else delete_devices (\<lambda>r. same_device_row (UserID claims) endpoint r \<and> dt_platform r = ''web'') d0);
                d2 = (if sql_fails e ''webUnsubscribe.keys'' then d1
                      else d1\<lparr>t_webpush := filter (\<lambda>r. \<not> (wp_user r = UserID claims \<and> wp_endpoint r = endpoint)) (t_webpush d1)\<rparr>)
            in (ok_json (str_obj [(''status'', ''unsubscribed'')]), s\<lparr>srv_db := d2\<rparr>))
     | _ \<Rightarrow> (writeJSONError 400 ''invalid request body'', s))"

definition safeTruncate :: "string \<Rightarrow> nat \<Rightarrow> string" where
  "safeTruncate s n = (if length s \<le> n then s else take n s)"

subsection \<open>What a notification sends\<close>

text \<open>Both services are up.\<close>

definition push_ready :: "PushNotificationConfig \<Rightarrow> bool" where
  "push_ready pc \<longleftrightarrow> APNSEnabled pc \<and> apnsClient pc \<noteq> None \<and> FCMEnabled pc \<and> fcmClient pc"

definition push_of :: "PushNotificationConfig \<Rightarrow> string \<Rightarrow> string \<Rightarrow> string \<Rightarrow> string \<Rightarrow> string \<Rightarrow> push_call" where
  "push_of pc title body conv platform tok =
     (if ToLower platform \<in> {''android'', ''fcm''} then FCMSend tok title body conv
      else APNSPush tok (BundleID pc) title body conv)"

fun push_token :: "push_call \<Rightarrow> string" where
  "push_token (APNSPush tok _ _ _ _) = tok"
| "push_token (FCMSend tok _ _ _) = tok"

lemma push_token_of [simp]: "push_token (push_of pc title body conv platform tok) = tok"
  by (simp add: push_of_def)

lemma send_ready: "push_ready pc \<Longrightarrow>
    fst (sendPushNotification pl (Some pc) tok title body conv platform) = [push_of pc title body conv platform tok]"
  by (auto simp: push_ready_def sendPushNotification_def sendFCMNotification_def sendAPNSNotification_def push_of_def Let_def)

lemma send_token: "c \<in> set (fst (sendPushNotification pl pc tok title body conv platform)) \<Longrightarrow> push_token c = tok"
  by (auto simp: sendPushNotification_def sendFCMNotification_def sendAPNSNotification_def Let_def
      split: if_splits option.splits)

definition user_devices :: "string \<Rightarrow> database \<Rightarrow> device_row list" where
  "user_devices u d = filter (\<lambda>r. dt_user r = u) (t_devices d)"

text \<open>\<open>notifyUser\<close> depends on the devices of its user and on whether the conversation is muted, and nothing else.\<close>

lemma notifyUser_devices:
  "notifyUser pl e (Some pc) (Some d) u title body conv =
     (if conv \<noteq> [] \<and> isConversationMuted e u conv (Some d) \<or> sql_fails e ''getDeviceTokensForUser'' then []
      else concat (map (\<lambda>r. fst (sendPushNotification pl (Some pc) (dt_token r) title body conv (dt_platform r))) (user_devices u d)))"
  by (simp add: notifyUser_def getDeviceTokensForUser_def user_devices_def comp_def)

lemma notifyUser_ready:
  "push_ready pc \<Longrightarrow> no_sql_errors e \<Longrightarrow> \<not> (conv \<noteq> [] \<and> isConversationMuted e u conv (Some d)) \<Longrightarrow>
     notifyUser pl e (Some pc) (Some d) u title body conv =
     map (\<lambda>r. push_of pc title body conv (dt_platform r) (dt_token r)) (user_devices u d)"
  by (auto simp: notifyUser_devices send_ready no_sql_errors_def)

lemma muted_same_prefs: "t_prefs d' = t_prefs d \<Longrightarrow> isConversationMuted e u c (Some d') = isConversationMuted e u c (Some d)"
  by (simp add: isConversationMuted_def)

lemma notifyUser_same:
  "user_devices u d' = user_devices u d \<Longrightarrow> t_prefs d' = t_prefs d \<Longrightarrow>
     notifyUser pl e pc (Some d') u title body conv = notifyUser pl e pc (Some d) u title body conv"
  using muted_same_prefs [of d' d e u conv] by (cases pc) (simp_all add: notifyUser_devices, simp_all add: notifyUser_def)

subsection \<open>Registering and unregistering a device\<close>

definition devices_unique :: "database \<Rightarrow> bool" where
  "devices_unique d \<longleftrightarrow> distinct (map (\<lambda>r. (dt_user r, dt_token r)) (t_devices d))"

lemma handleRegisterDeviceToken_200:
  assumes "handleRegisterDeviceToken cf e rq s = (rs, s')" and "rs_code rs = 200"
  obtains claims :: Claims and tok plat d where "request_claims cf e rq = Inr claims"
    and "body_fields [''device_token'', ''platform''] (rq_body rq) = Some [tok, plat]" and "tok \<noteq> []"
    and "upsert_device \<lparr>dt_user = UserID claims, dt_token = tok, dt_platform = if plat = [] then ''ios'' else plat\<rparr> (srv_db s) = Inr d"
    and "s' = s\<lparr>srv_db := d\<rparr>"
proof (cases "request_claims cf e rq")
  case (Inl err)
  then show ?thesis using assms by (auto simp: handleRegisterDeviceToken_def user_endpoint_def split: if_splits)
next
  case (Inr claims)
  have m: "rq_method rq = ''POST''"
    using assms by (auto simp: handleRegisterDeviceToken_def user_endpoint_def split: if_splits)
  obtain tok plat where f: "body_fields [''device_token'', ''platform''] (rq_body rq) = Some [tok, plat]"
    using assms Inr m by (auto simp: handleRegisterDeviceToken_def user_endpoint_def split: option.splits list.splits)
  let ?row = "\<lparr>dt_user = UserID claims, dt_token = tok, dt_platform = if plat = [] then ''ios'' else plat\<rparr>"
  obtain d where "tok \<noteq> []" "upsert_device ?row (srv_db s) = Inr d" "s' = s\<lparr>srv_db := d\<rparr>"
  proof (cases "upsert_device ?row (srv_db s)")
    case (Inl err)
    then show ?thesis
      using assms \<open>request_claims cf e rq = Inr claims\<close> m f
      by (auto simp: handleRegisterDeviceToken_def user_endpoint_def Let_def split: if_splits)
  next
    case (Inr d)
    with assms \<open>request_claims cf e rq = Inr claims\<close> m f show ?thesis
      by (intro that [of d]) (auto simp: handleRegisterDeviceToken_def user_endpoint_def Let_def split: if_splits)
  qed
  then show ?thesis by (rule that [OF Inr f])
qed

lemma handleUnregisterDeviceToken_200:
  assumes "handleUnregisterDeviceToken cf e rq s = (rs, s')" and "rs_code rs = 200"
  obtains claims :: Claims and tok where "request_claims cf e rq = Inr claims"
    and "body_fields [''device_token''] (rq_body rq) = Some [tok]"
    and "s' = s\<lparr>srv_db := delete_devices (same_device_row (UserID claims) tok) (srv_db s)\<rparr>"
proof (cases "request_claims cf e rq")
  case (Inl err)
  then show ?thesis using assms by (auto simp: handleUnregisterDeviceToken_def user_endpoint_def split: if_splits)
next
  case (Inr claims)
  have m: "rq_method rq = ''DELETE''"
    using assms by (auto simp: handleUnregisterDeviceToken_def user_endpoint_def split: if_splits)
  obtain tok where f: "body_fields [''device_token''] (rq_body rq) = Some [tok]"
    using assms Inr m by (auto simp: handleUnregisterDeviceToken_def user_endpoint_def split: option.splits list.splits)
  show ?thesis
    using assms Inr m f by (intro that [OF Inr f])
      (auto simp: handleUnregisterDeviceToken_def user_endpoint_def Let_def split: if_splits)
qed

lemma filter_map_key_update:
  assumes "\<And>r. P (f r) = P r" and "distinct (map key xs)" and "\<And>r. P r \<longleftrightarrow> key r = k" and "\<exists>r \<in> set xs. P r"
    and "\<And>r. P r \<Longrightarrow> g (f r) = v"
  shows "map g (filter P (map (\<lambda>r. if P r then f r else r) xs)) = [v]"
proof -
  have "map g (filter P (map (\<lambda>r. if P r then f r else r) xs)) = replicate (length (filter P xs)) v"
    using assms(1,5) by (induction xs) auto
  moreover have "length (filter P xs) = 1"
    using assms(2,4) by (induction xs) (auto simp: assms(3) image_iff filter_empty_conv)
  ultimately show ?thesis by simp
qed

lemma upsert_device_effect:
  assumes "upsert_device row d = Inr d'" and "devices_unique d"
  shows "map dt_platform (filter (same_device_row (dt_user row) (dt_token row)) (t_devices d')) = [dt_platform row]"
    and "filter (\<lambda>r. \<not> same_device_row (dt_user row) (dt_token row) r) (t_devices d') =
         filter (\<lambda>r. \<not> same_device_row (dt_user row) (dt_token row) r) (t_devices d)"
    and "d' = d\<lparr>t_devices := t_devices d'\<rparr>" and "devices_unique d'"
proof -
  let ?P = "same_device_row (dt_user row) (dt_token row)"
  have P: "?P (r\<lparr>dt_platform := x\<rparr>) = ?P r" for r x by (simp add: same_device_row_def)
  have k: "?P r \<longleftrightarrow> (dt_user r, dt_token r) = (dt_user row, dt_token row)" for r by (simp add: same_device_row_def)
  let ?goal = "map dt_platform (filter ?P (t_devices d')) = [dt_platform row] \<and>
     filter (\<lambda>r. \<not> ?P r) (t_devices d') = filter (\<lambda>r. \<not> ?P r) (t_devices d) \<and> d' = d\<lparr>t_devices := t_devices d'\<rparr> \<and>
     devices_unique d'"
  have ?goal
  proof (cases "\<exists>r \<in> set (t_devices d). ?P r")
    case True
    have d': "d' = d\<lparr>t_devices := map (\<lambda>r. if ?P r then r\<lparr>dt_platform := dt_platform row\<rparr> else r) (t_devices d)\<rparr>"
      using assms(1) True by (simp add: upsert_device_def Let_def)
    have "map dt_platform (filter ?P (t_devices d')) = [dt_platform row]"
      using filter_map_key_update [where P = ?P and f = "\<lambda>r. r\<lparr>dt_platform := dt_platform row\<rparr>" and g = dt_platform
          and xs = "t_devices d" and key = "\<lambda>r. (dt_user r, dt_token r)", OF P _ k True] assms(2)
      by (simp add: d' devices_unique_def)
    moreover have "filter (\<lambda>r. \<not> ?P r) (map (\<lambda>r. if ?P r then r\<lparr>dt_platform := dt_platform row\<rparr> else r) xs) =
        filter (\<lambda>r. \<not> ?P r) xs" for xs
      by (induction xs) (simp_all add: P)
    moreover have "map (\<lambda>r. (dt_user r, dt_token r)) (t_devices d') = map (\<lambda>r. (dt_user r, dt_token r)) (t_devices d)"
      by (simp add: d')
    then have "devices_unique d'" using assms(2) unfolding devices_unique_def by metis
    ultimately show ?thesis by (simp add: d')
  next
    case False
    have d': "d' = d\<lparr>t_devices := t_devices d @ [row]\<rparr>"
      using assms(1) False by (simp add: upsert_device_def Let_def split: if_splits)
    show ?thesis
      using False assms(2) by (auto simp: d' devices_unique_def k filter_empty_conv image_iff)
  qed
  then show "map dt_platform (filter ?P (t_devices d')) = [dt_platform row]"
    "filter (\<lambda>r. \<not> ?P r) (t_devices d') = filter (\<lambda>r. \<not> ?P r) (t_devices d)"
    "d' = d\<lparr>t_devices := t_devices d'\<rparr>" "devices_unique d'" by blast+
qed

text \<open>C30: A registered device rings. When \<open>POST /push/register\<close> succeeds, a later \<open>notifyUser\<close> for that user (with both
  services up and the conversation not muted) makes exactly one call for the registered token, on the service of its platform;
  the calls for the user's other devices and for every other user are what they would have been before.\<close>

theorem registered_device_rings:
  assumes "handleRegisterDeviceToken cf e rq s = (rs, s')" and "rs_code rs = 200" and "devices_unique (srv_db s)"
    and "push_ready pc" and "no_sql_errors e2"
  shows "\<exists>claims tok plat. request_claims cf e rq = Inr claims \<and>
    body_fields [''device_token'', ''platform''] (rq_body rq) = Some [tok, plat] \<and>
    (\<forall>title body conv. \<not> isConversationMuted e2 (UserID claims) conv (Some (srv_db s)) \<longrightarrow>
       (let before = notifyUser pl e2 (Some pc) (Some (srv_db s)) (UserID claims) title body conv;
            after = notifyUser pl e2 (Some pc) (Some (srv_db s')) (UserID claims) title body conv
        in filter (\<lambda>c. push_token c = tok) after = [push_of pc title body conv (if plat = [] then ''ios'' else plat) tok] \<and>
           filter (\<lambda>c. push_token c \<noteq> tok) after = filter (\<lambda>c. push_token c \<noteq> tok) before)) \<and>
    (\<forall>u title body conv. u \<noteq> UserID claims \<longrightarrow>
       notifyUser pl e2 (Some pc) (Some (srv_db s')) u title body conv = notifyUser pl e2 (Some pc) (Some (srv_db s)) u title body conv)"
proof -
  from assms(1,2) obtain claims :: Claims and tok plat d where c: "request_claims cf e rq = Inr claims"
    and f: "body_fields [''device_token'', ''platform''] (rq_body rq) = Some [tok, plat]"
    and up: "upsert_device \<lparr>dt_user = UserID claims, dt_token = tok, dt_platform = if plat = [] then ''ios'' else plat\<rparr> (srv_db s) = Inr d"
    and s': "s' = s\<lparr>srv_db := d\<rparr>" by (rule handleRegisterDeviceToken_200)
  let ?u = "UserID claims" and ?p = "if plat = [] then ''ios'' else plat"
  note eff = upsert_device_effect [OF up assms(3), simplified]
  have prefs: "t_prefs d = t_prefs (srv_db s)" by (subst eff(3)) simp
  have mine: "filter (\<lambda>r. dt_token r = tok) (user_devices ?u x) = filter (same_device_row ?u tok) (t_devices x)" for x
    by (auto simp: user_devices_def same_device_row_def intro: filter_cong)
  have rest: "filter (\<lambda>r. dt_token r \<noteq> tok) (user_devices ?u x) =
      filter (\<lambda>r. dt_user r = ?u) (filter (\<lambda>r. \<not> same_device_row ?u tok r) (t_devices x))" for x
    by (auto simp: user_devices_def same_device_row_def intro: filter_cong)
  obtain r where r: "filter (same_device_row ?u tok) (t_devices d) = [r]" "dt_platform r = ?p"
    using eff(1) by (auto simp: map_eq_Cons_conv)
  then have "r \<in> set (filter (same_device_row ?u tok) (t_devices d))" by simp
  then have tok: "dt_token r = tok" by (simp add: same_device_row_def)
  have "filter (\<lambda>c. push_token c = tok) after = [push_of pc title body conv ?p tok] \<and>
      filter (\<lambda>c. push_token c \<noteq> tok) after = filter (\<lambda>c. push_token c \<noteq> tok) before"
    if "\<not> isConversationMuted e2 ?u conv (Some (srv_db s))"
      and "before = notifyUser pl e2 (Some pc) (Some (srv_db s)) ?u title body conv"
      and "after = notifyUser pl e2 (Some pc) (Some (srv_db s')) ?u title body conv" for title body conv before after
  proof -
    have "\<not> isConversationMuted e2 ?u conv (Some d)" using that(1) muted_same_prefs [OF prefs] by simp
    then have a: "after = map (\<lambda>r. push_of pc title body conv (dt_platform r) (dt_token r)) (user_devices ?u d)"
      using that(3) notifyUser_ready [OF assms(4,5)] by (simp add: s')
    have b: "before = map (\<lambda>r. push_of pc title body conv (dt_platform r) (dt_token r)) (user_devices ?u (srv_db s))"
      using that(1,2) notifyUser_ready [OF assms(4,5)] by simp
    show ?thesis unfolding a b filter_map comp_def push_token_of mine rest eff(2) using r tok by simp
  qed
  moreover have "notifyUser pl e2 (Some pc) (Some (srv_db s')) u title body conv =
      notifyUser pl e2 (Some pc) (Some (srv_db s)) u title body conv" if "u \<noteq> ?u" for u title body conv
  proof (rule notifyUser_same)
    have "user_devices u x = filter (\<lambda>r. dt_user r = u) (filter (\<lambda>r. \<not> same_device_row ?u tok r) (t_devices x))" for x
      using that by (auto simp: user_devices_def same_device_row_def intro: filter_cong)
    then show "user_devices u (srv_db s') = user_devices u (srv_db s)" using eff(2) by (simp only: s') simp
    show "t_prefs (srv_db s') = t_prefs (srv_db s)" by (simp add: s' prefs)
  qed
  ultimately show ?thesis using c f unfolding Let_def by blast
qed

text \<open>An unregistered device is silent: after \<open>DELETE /push/unregister\<close> a notification for the user makes
  the calls it made before less those for the token, and other users keep theirs.\<close>

theorem unregistered_device_is_silent:
  assumes "handleUnregisterDeviceToken cf e rq s = (rs, s')" and "rs_code rs = 200"
  shows "\<exists>claims tok. request_claims cf e rq = Inr claims \<and> body_fields [''device_token''] (rq_body rq) = Some [tok] \<and>
    (\<forall>pc u title body conv. notifyUser pl e2 pc (Some (srv_db s')) u title body conv =
       filter (\<lambda>c. u = UserID claims \<longrightarrow> push_token c \<noteq> tok) (notifyUser pl e2 pc (Some (srv_db s)) u title body conv))"
proof -
  from assms obtain claims :: Claims and tok where c: "request_claims cf e rq = Inr claims"
    and f: "body_fields [''device_token''] (rq_body rq) = Some [tok]"
    and s': "s' = s\<lparr>srv_db := delete_devices (same_device_row (UserID claims) tok) (srv_db s)\<rparr>"
    by (rule handleUnregisterDeviceToken_200)
  let ?d = "srv_db s" and ?u = "UserID claims"
  let ?d' = "delete_devices (same_device_row ?u tok) ?d"
  have devs: "user_devices u ?d' = filter (\<lambda>r. u = ?u \<longrightarrow> dt_token r \<noteq> tok) (user_devices u ?d)" for u
    by (auto simp: user_devices_def delete_devices_def same_device_row_def intro: filter_cong)
  have muted: "isConversationMuted e2 u conv (Some ?d') = isConversationMuted e2 u conv (Some ?d)" for u conv
    by (rule muted_same_prefs) (simp add: delete_devices_def)
  have calls: "concat (map F (filter (\<lambda>r. u = ?u \<longrightarrow> dt_token r \<noteq> tok) rs)) =
      filter (\<lambda>c. u = ?u \<longrightarrow> push_token c \<noteq> tok) (concat (map F rs))"
    if "\<And>r c. c \<in> set (F r) \<Longrightarrow> push_token c = dt_token r" for u F rs
    using that by (induction rs) (auto simp: filter_id_conv filter_empty_conv)
  have "notifyUser pl e2 pc (Some ?d') u title body conv =
      filter (\<lambda>c. u = ?u \<longrightarrow> push_token c \<noteq> tok) (notifyUser pl e2 pc (Some ?d) u title body conv)" for pc u title body conv
  proof (cases pc)
    case (Some x)
    show ?thesis unfolding Some notifyUser_devices muted devs
      by (simp add: calls send_token)
  qed (simp add: notifyUser_def)
  then show ?thesis using c f by (simp add: s')
qed

subsection \<open>Muting and messages to absent users\<close>

text \<open>A muted conversation is silent: after the owner has set \<open>muted=true\<close> nothing is sent to him about that conversation,
  whatever the configuration and the devices, and all other notifications are as before.\<close>

theorem muted_conversation_is_silent:
  assumes "handleSetNotificationPrefs e rq s = (rs, s')" and "rs_code rs = 200" and "rq_form rq ''muted'' = ''true''"
    and "no_sql_errors e2"
  shows "\<exists>u. getUserID rq = Some u \<and> (\<forall>pc u' title body conv. notifyUser pl e2 pc (Some (srv_db s')) u' title body conv =
     (if u' = u \<and> conv = rq_form rq ''conversation_id'' then [] else notifyUser pl e2 pc (Some (srv_db s)) u' title body conv))"
proof -
  from assms(1,2) obtain u d where u: "getUserID rq = Some u"
    and d: "upsert_pref u (rq_form rq ''conversation_id'') (rq_form rq ''muted'' = ''true'') (srv_db s) = Inr d"
    and s': "s' = s\<lparr>srv_db := d\<rparr>" by (rule handleSetNotificationPrefs_200)
  have ne: "\<And>p. \<not> sql_fails e2 p" using assms(4) by (simp add: no_sql_errors_def)
  have id: "rq_form rq ''conversation_id'' \<noteq> []"
    using assms(1,2) u by (auto simp: handleSetNotificationPrefs_def Let_def split: if_splits)
  have muted: "isConversationMuted e2 u' c' (Some d) =
       (u' = u \<and> c' = rq_form rq ''conversation_id'' \<or> isConversationMuted e2 u' c' (Some (srv_db s)))" for u' c'
    using find_upsert [OF d, of u' c'] ne assms(3)
    by (cases "u' = u \<and> c' = rq_form rq ''conversation_id''") (auto simp: isConversationMuted_def split: option.splits)
  have devs: "user_devices u' d = user_devices u' (srv_db s)" for u'
    using d by (auto simp: user_devices_def upsert_pref_def split: if_splits)
  have "notifyUser pl e2 pc (Some d) u' title body conv =
     (if u' = u \<and> conv = rq_form rq ''conversation_id'' then [] else notifyUser pl e2 pc (Some (srv_db s)) u' title body conv)"
    for pc u' title body conv
  proof (cases pc)
    case (Some x)
    show ?thesis unfolding Some notifyUser_devices muted devs using id by auto
  qed (simp add: notifyUser_def)
  then show ?thesis using u by (auto simp: s')
qed

lemma run_notifications_append:
  "srv_notified s' = srv_notified s @ [n] \<Longrightarrow> run_notifications pl e pc s' =
     run_notifications pl e pc (s\<lparr>srv_db := srv_db s'\<rparr>) @
     notifyUser pl e pc (Some (srv_db s')) (nt_user n) (nt_title n) (nt_body n) (nt_conversation n)"
  by (simp add: run_notifications_def)

text \<open>A user who is not connected is rung: a stored message of an agent for a user without any connection
  leads to one notification on each of the user's devices (services up, conversation not muted), with
  at most the first 100 bytes of the text and the conversation of the message.\<close>

theorem absent_user_is_rung:
  assumes "sender_type r s = ''agent''"
    and "t_messages (srv_db (routeChatMessage e r dat s)) \<noteq> t_messages (srv_db s)"
    and "push_ready pc" and "no_sql_errors e2"
  shows "\<exists>conv. conv \<in> set (t_conversations (srv_db s)) \<and> conv_AgentID conv = sender_id r s \<and>
    (let s' = routeChatMessage e r dat s; u = conv_UserID conv in
     GetClientConns u (srv_hub s) = [] \<and> \<not> isConversationMuted e2 u (conv_ID conv) (Some (srv_db s')) \<longrightarrow>
     run_notifications pl e2 (Some pc) s' = run_notifications pl e2 (Some pc) (s\<lparr>srv_db := srv_db s'\<rparr>) @
       map (\<lambda>x. push_of pc ''New Message'' (Routing.truncate (m_content (last (t_messages (srv_db s')))) 100) (conv_ID conv)
              (dt_platform x) (dt_token x)) (user_devices u (srv_db s')))"
proof (rule routeChatMessage_cases [of e r dat s])
  fix m assume "routeChatMessage e r dat s = sendError r m s"
  with assms(2) show ?thesis by simp
next
  fix msg0 :: RoutedMessage and conv :: Conversation and msg d
  let ?s' = "routeChatMessage e r dat s" and ?u = "conv_UserID conv"
  assume g: "getConversation e (ConversationID msg0) (srv_db s) = Inr (Some conv)"
    and p: "participant (sender_type r s) (sender_id r s) conv"
    and msg: "msg = authored (sender_type r s) (sender_id r s) (recipient_of (sender_type r s) conv) msg0"
    and st: "storeMessage e msg (srv_db s) = (None, d)"
    and res: "?s' = on_hub (send_to r (message_sent_ack (ConversationID msg0)))
           (if sender_type r s = ''agent''
            then deliver_to_user e (recipient_of (sender_type r s) conv) msg
                   (OutgoingMessage ''message'' (marshal_routed msg)) (s\<lparr>srv_db := d\<rparr>)
            else deliver_to_agent e (recipient_of (sender_type r s) conv)
                   (OutgoingMessage ''message'' (marshal_routed msg)) (s\<lparr>srv_db := d\<rparr>))"
  have conv: "conv \<in> set (t_conversations (srv_db s))" "conv_ID conv = ConversationID msg0"
    using g by (auto simp: getConversation_def dest: find_key_SomeD split: if_splits)
  have content: "m_content (last (t_messages (srv_db ?s'))) = Content msg"
  proof (rule storeMessage_cases [of e msg "srv_db s"])
    fix d' assume "storeMessage e msg (srv_db s) = (None, d')"
      and "t_messages d' = t_messages (srv_db s) @
         [message_row_of (generateID ''msg'' (clock e ''storeMessage.id'')) (clock e ''storeMessage.created'') msg]"
    then show ?thesis using st by (simp add: res t_messages_deliver message_row_of_def)
  qed (use st in simp)
  have "run_notifications pl e2 (Some pc) ?s' = run_notifications pl e2 (Some pc) (s\<lparr>srv_db := srv_db ?s'\<rparr>) @
       map (\<lambda>x. push_of pc ''New Message'' (Routing.truncate (m_content (last (t_messages (srv_db ?s')))) 100) (conv_ID conv)
              (dt_platform x) (dt_token x)) (user_devices ?u (srv_db ?s'))"
    if "GetClientConns ?u (srv_hub s) = []" and "\<not> isConversationMuted e2 ?u (conv_ID conv) (Some (srv_db ?s'))"
  proof -
    have "srv_notified ?s' = srv_notified s @ [\<lparr>nt_user = ?u, nt_title = ''New Message'', nt_body = Routing.truncate (Content msg) 100,
        nt_conversation = conv_ID conv\<rparr>]"
      using that(1) assms(1) conv(2)
      by (simp add: res recipient_of_def deliver_to_user_def Let_def notify_later_def on_hub_def enqueue_offline_def msg authored_def)
    from run_notifications_append [OF this] that(2) content show ?thesis
      by (simp add: notifyUser_ready [OF assms(3,4)])
  qed
  moreover have "conv_AgentID conv = sender_id r s" using p assms(1) by (simp add: participant_def)
  ultimately show ?thesis using conv by (auto simp: Let_def)
qed

subsection \<open>Web push\<close>

lemma handleWebPushSubscribe_200:
  assumes "handleWebPushSubscribe cf e rq s = (rs, s')" and "rs_code rs = 200"
  obtains claims :: Claims and ep p a d where "request_claims cf e rq = Inr claims"
    and "subscription_fields (rq_body rq) = Some (ep, p, a)"
    and "t_devices (srv_db s') = filter (\<lambda>r. \<not> same_device_row (UserID claims) ep r) (t_devices (srv_db s)) @
      [\<lparr>dt_user = UserID claims, dt_token = ep, dt_platform = ''web''\<rparr>]"
    and "t_prefs (srv_db s') = t_prefs (srv_db s)"
proof (cases "request_claims cf e rq")
  case (Inl err)
  then show ?thesis using assms by (auto simp: handleWebPushSubscribe_def user_endpoint_def split: if_splits)
next
  case (Inr claims)
  have m: "rq_method rq = ''POST''"
    using assms by (auto simp: handleWebPushSubscribe_def user_endpoint_def split: if_splits)
  obtain ep p a where f: "subscription_fields (rq_body rq) = Some (ep, p, a)"
    using assms Inr m by (auto simp: handleWebPushSubscribe_def user_endpoint_def split: option.splits)
  show ?thesis
    using assms Inr m f
    by (intro that [OF Inr f]) (auto simp: handleWebPushSubscribe_def user_endpoint_def replace_device_def
        replace_webpush_def split: if_splits)
qed

text \<open>A web push subscription never gets a web push: its endpoint is stored as a device of platform \<open>web\<close>,
  which \<open>sendPushNotification\<close> treats as an iOS device, so every notification hands the endpoint URL to APNs as a
  device token. The keys that were stored for encrypting web pushes are never read.\<close>

theorem web_subscription_goes_to_apns:
  assumes "handleWebPushSubscribe cf e rq s = (rs, s')" and "rs_code rs = 200" and "push_ready pc" and "no_sql_errors e2"
  shows "\<exists>claims ep keys. request_claims cf e rq = Inr claims \<and> subscription_fields (rq_body rq) = Some (ep, keys) \<and>
    (\<forall>title body conv. \<not> isConversationMuted e2 (UserID claims) conv (Some (srv_db s)) \<longrightarrow>
      filter (\<lambda>c. push_token c = ep) (notifyUser pl e2 (Some pc) (Some (srv_db s')) (UserID claims) title body conv) =
      [APNSPush ep (BundleID pc) title body conv])"
proof -
  from assms(1,2) obtain claims :: Claims and ep p a where c: "request_claims cf e rq = Inr claims"
    and f: "subscription_fields (rq_body rq) = Some (ep, p, a)"
    and dev: "t_devices (srv_db s') = filter (\<lambda>r. \<not> same_device_row (UserID claims) ep r) (t_devices (srv_db s)) @
      [\<lparr>dt_user = UserID claims, dt_token = ep, dt_platform = ''web''\<rparr>]"
    and prefs: "t_prefs (srv_db s') = t_prefs (srv_db s)" by (rule handleWebPushSubscribe_200)
  have web: "push_of pc title body conv ''web'' ep = APNSPush ep (BundleID pc) title body conv" for title body conv
    by (simp add: push_of_def ascii_lower_def)
  have "filter (\<lambda>c. push_token c = ep) (notifyUser pl e2 (Some pc) (Some (srv_db s')) (UserID claims) title body conv) =
      [APNSPush ep (BundleID pc) title body conv]"
    if "\<not> isConversationMuted e2 (UserID claims) conv (Some (srv_db s))" for title body conv
  proof -
    have "\<not> (conv \<noteq> [] \<and> isConversationMuted e2 (UserID claims) conv (Some (srv_db s')))"
      using that muted_same_prefs [OF prefs] by simp
    then show ?thesis
      by (simp add: notifyUser_ready [OF assms(3,4)] user_devices_def dev filter_map comp_def web
          filter_empty_conv same_device_row_def)
  qed
  then show ?thesis using c f by blast
qed

text \<open>The two clients after start-up: APNs is called exactly when it is switched on and its certificate could be loaded,
  Firebase exactly when it is switched on and its credentials could be used.\<close>

lemma sends_apns: "fst (sendAPNSNotification pl (Some pc) tok title body conv) \<noteq> [] \<longleftrightarrow> APNSEnabled pc \<and> apnsClient pc \<noteq> None"
  by (simp add: sendAPNSNotification_def Let_def)

lemma sends_fcm: "fst (sendFCMNotification pl (Some pc) tok title body conv) \<noteq> [] \<longleftrightarrow> FCMEnabled pc \<and> fcmClient pc"
  by (simp add: sendFCMNotification_def Let_def)

lemma initFCM_simps [simp]:
  "APNSEnabled (initFCM pl pc) = APNSEnabled pc" "apnsClient (initFCM pl pc) = apnsClient pc"
  by (simp_all add: initFCM_def)

lemma initAPNs_simps [simp]:
  "FCMEnabled (initAPNs pl pc) = FCMEnabled pc" "fcmClient (initAPNs pl pc) = fcmClient pc"
  "FCMCredentials (initAPNs pl pc) = FCMCredentials pc"
  by (simp_all add: initAPNs_def)

lemma initAPNs_live: "apnsClient pc = None \<Longrightarrow>
    APNSEnabled (initAPNs pl pc) \<and> apnsClient (initAPNs pl pc) \<noteq> None \<longleftrightarrow>
    APNSEnabled pc \<and> CertPath pc \<noteq> [] \<and> pl_stat pl (CertPath pc) \<and> pl_p12 pl (CertPath pc) (CertPassword pc)"
  by (simp add: initAPNs_def)

lemma initFCM_live: "\<not> fcmClient pc \<Longrightarrow>
    FCMEnabled (initFCM pl pc) \<and> fcmClient (initFCM pl pc) \<longleftrightarrow>
    FCMEnabled pc \<and> FCMCredentials pc \<noteq> [] \<and> pl_stat pl (FCMCredentials pc) \<and> pl_app pl (FCMCredentials pc) \<and>
    pl_messaging pl (FCMCredentials pc)"
  by (simp add: initFCM_def)

theorem push_after_init:
  "(fst (sendAPNSNotification pl (Some (initPushNotifications getenv pl)) tok title body conv) \<noteq> [] \<longleftrightarrow>
     getenv ''APNS_ENABLED'' = ''true'' \<and> getenv ''APNS_CERT_PATH'' \<noteq> [] \<and> pl_stat pl (getenv ''APNS_CERT_PATH'') \<and>
     pl_p12 pl (getenv ''APNS_CERT_PATH'') (getenv ''APNS_CERT_PASSWORD'')) \<and>
   (fst (sendFCMNotification pl (Some (initPushNotifications getenv pl)) tok title body conv) \<noteq> [] \<longleftrightarrow>
     getenv ''FCM_ENABLED'' = ''true'' \<and> getenv ''FCM_CREDENTIALS_PATH'' \<noteq> [] \<and> pl_stat pl (getenv ''FCM_CREDENTIALS_PATH'') \<and>
     pl_app pl (getenv ''FCM_CREDENTIALS_PATH'') \<and> pl_messaging pl (getenv ''FCM_CREDENTIALS_PATH''))"
  unfolding sends_apns sends_fcm initPushNotifications_def
  by (intro conjI) (simp_all only: initFCM_simps, subst initAPNs_live, simp, simp, subst initFCM_live, simp, simp)

text \<open>The VAPID key is given to whoever sends a header that starts with \<open>Bearer \<close>.\<close>

lemma vapid_key_unauthenticated:
  "rq_method rq = ''GET'' \<Longrightarrow> rq_header rq ''Authorization'' = ''Bearer '' @ tok \<Longrightarrow> key \<noteq> [] \<Longrightarrow>
     handleGetVAPIDKey key rq s = (ok_json (str_obj [(''public_key'', key)]), s)"
  by (simp add: handleGetVAPIDKey_def has_prefix_def)

subsection \<open>Concrete devices\<close>

definition demo_push :: PushNotificationConfig where
  "demo_push = \<lparr>APNSEnabled = True, CertPath = ''c'', CertPassword = [], KeyID = [], TeamID = [], BundleID = ''app'',
     Environment = ''development'', FCMEnabled = True, FCMCredentials = ''f'', apnsClient = Some Development, fcmClient = True\<rparr>"

definition demo_push_lib :: push_lib where
  "demo_push_lib = \<lparr>pl_stat = (\<lambda>_. True), pl_p12 = (\<lambda>_ _. True), pl_app = (\<lambda>_. True), pl_messaging = (\<lambda>_. True),
     pl_push = (\<lambda>_. None)\<rparr>"

lemma demo_push_ready: "push_ready demo_push"
  by (simp add: demo_push_def push_ready_def)

lemma quiet_no_errors: "no_sql_errors quiet_env"
  by (simp add: no_sql_errors_def)

definition device_request :: "string \<Rightarrow> json \<Rightarrow> http_request" where
  "device_request m j = (request m [(''Authorization'', alice_token)] [])\<lparr>rq_body := Frame j\<rparr>"

lemma device_request_claims:
  "request_claims demo_config quiet_env (device_request m j) = Inr \<lparr>UserID = ''u'', Username = ''alice''\<rparr>"
  "rq_method (device_request m j) = m" "rq_body (device_request m j) = Frame j"
  using alice_claims [of quiet_env m "[]"] by (simp_all add: device_request_def request_claims_def request_def)

definition device_server :: server where
  "device_server = example_server\<lparr>srv_db := example_db\<lparr>t_devices := [\<lparr>dt_user = ''u'', dt_token = ''ph'', dt_platform = ''ios''\<rparr>]\<rparr>\<rparr>"

definition android_body :: json where
  "android_body = JObj [(''device_token'', JStr ''dt''), (''platform'', JStr ''Android'')]"

lemma android_fields:
  "body_fields [''device_token'', ''platform''] (Frame android_body) = Some [''dt'', ''Android'']"
  "body_fields [''device_token''] (Frame android_body) = Some [''dt'']"
  by (simp_all add: body_fields_def android_body_def unmarshal_fields_def get_str_def members_simps fold_eq_def ascii_lower_def)

lemma device_server_simps: "t_devices (srv_db device_server) = [\<lparr>dt_user = ''u'', dt_token = ''ph'', dt_platform = ''ios''\<rparr>]"
  "user_exists (srv_db device_server) ''u''" "t_prefs (srv_db device_server) = []"
  by (simp_all add: device_server_def user_exists_def example_db_def empty_db_def)

lemma demo_push_calls:
  "push_of demo_push title body conv ''Android'' tok = FCMSend tok title body conv"
  "push_of demo_push title body conv ''ios'' tok = APNSPush tok ''app'' title body conv"
proof -
  have lower: "ToLower ''Android'' = ''android''" "ToLower ''ios'' = ''ios''" by code_simp+
  show "push_of demo_push title body conv ''Android'' tok = FCMSend tok title body conv"
    "push_of demo_push title body conv ''ios'' tok = APNSPush tok ''app'' title body conv"
    unfolding push_of_def lower by (simp_all add: demo_push_def)
qed

theorem registered_device_rings_witness:
  "filter (\<lambda>c. push_token c = ''dt'') (notifyUser demo_push_lib quiet_env (Some demo_push)
     (Some (srv_db (snd (handleRegisterDeviceToken demo_config quiet_env (device_request ''POST'' android_body) device_server))))
     ''u'' ''T'' ''B'' ''c'') = [FCMSend ''dt'' ''T'' ''B'' ''c'']"
proof -
  obtain rs s' where h: "handleRegisterDeviceToken demo_config quiet_env (device_request ''POST'' android_body) device_server = (rs, s')"
    by (cases "handleRegisterDeviceToken demo_config quiet_env (device_request ''POST'' android_body) device_server")
  have c: "rs_code rs = 200"
    using h by (auto simp: handleRegisterDeviceToken_def user_endpoint_def device_request_claims android_fields upsert_device_def
        device_server_simps same_device_row_def Let_def)
  have u: "devices_unique (srv_db device_server)" by (simp add: devices_unique_def device_server_simps)
  have m: "\<not> isConversationMuted quiet_env ''u'' ''c'' (Some (srv_db device_server))"
    by (simp add: isConversationMuted_def device_server_simps)
  from registered_device_rings [OF h c u demo_push_ready quiet_no_errors, of demo_push_lib] h m show ?thesis
    by (auto simp: device_request_claims android_fields demo_push_calls Let_def)
qed

theorem unregistered_device_is_silent_witness:
  "notifyUser demo_push_lib quiet_env (Some demo_push)
     (Some (srv_db (snd (handleUnregisterDeviceToken demo_config quiet_env
        (device_request ''DELETE'' (JObj [(''device_token'', JStr ''ph'')])) device_server)))) ''u'' ''T'' ''B'' ''c'' = []"
proof -
  let ?rq = "device_request ''DELETE'' (JObj [(''device_token'', JStr ''ph'')])"
  have f: "body_fields [''device_token''] (Frame (JObj [(''device_token'', JStr ''ph'')])) = Some [''ph'']"
    by (simp add: body_fields_def unmarshal_fields_def get_str_def members_simps fold_eq_def ascii_lower_def)
  obtain rs s' where h: "handleUnregisterDeviceToken demo_config quiet_env ?rq device_server = (rs, s')"
    by (cases "handleUnregisterDeviceToken demo_config quiet_env ?rq device_server")
  have c: "rs_code rs = 200"
    using h by (auto simp: handleUnregisterDeviceToken_def user_endpoint_def device_request_claims f)
  have "\<forall>c \<in> set (notifyUser demo_push_lib quiet_env (Some demo_push) (Some (srv_db device_server)) ''u'' ''T'' ''B'' ''c'').
      push_token c = ''ph''"
    by (auto simp: notifyUser_devices user_devices_def device_server_simps dest: send_token)
  with unregistered_device_is_silent [OF h c, of demo_push_lib quiet_env] h show ?thesis
    by (auto simp: device_request_claims f filter_empty_conv)
qed

theorem muted_conversation_is_silent_witness:
  "notifyUser demo_push_lib quiet_env (Some demo_push) (Some (srv_db (snd (handleSetNotificationPrefs quiet_env
     (request ''POST'' [] [(''conversation_id'', ''c''), (''muted'', ''true'')]\<lparr>rq_user := Some ''u''\<rparr>) device_server)))) ''u'' ''T'' ''B'' ''c'' = []"
proof -
  let ?rq = "request ''POST'' [] [(''conversation_id'', ''c''), (''muted'', ''true'')]\<lparr>rq_user := Some ''u''\<rparr>"
  obtain rs s' where h: "handleSetNotificationPrefs quiet_env ?rq device_server = (rs, s')"
    by (cases "handleSetNotificationPrefs quiet_env ?rq device_server")
  have c: "rs_code rs = 200"
    using h by (auto simp: handleSetNotificationPrefs_def getUserID_def request_def upsert_pref_def device_server_def example_db_def
        empty_db_def user_exists_def conversation_exists_def Let_def)
  have f: "rq_form ?rq ''muted'' = ''true''" by (simp add: request_def)
  from muted_conversation_is_silent [OF h c f quiet_no_errors] h show ?thesis by (auto simp: getUserID_def request_def)
qed

definition absent_server :: server where
  "absent_server = device_server\<lparr>srv_hub := agent_run 1\<rparr>"

lemma absent_server_facts:
  "sender_type 0 absent_server = ''agent''" "sender_id 0 absent_server = ''a''" "GetClientConns ''u'' (srv_hub absent_server) = []"
  "srv_notified absent_server = []" "t_messages (srv_db absent_server) = [example_message]"
  "t_conversations (srv_db absent_server) = [\<lparr>conv_ID = ''c'', conv_UserID = ''u'', conv_AgentID = ''a'', conv_CreatedAt = 0\<rparr>]"
  by (simp_all add: absent_server_def device_server_def sender_type_def sender_id_def run_defs example_server_def)

lemma absent_chat:
  "t_messages (srv_db (routeChatMessage quiet_env 0 (Some example_chat) absent_server)) \<noteq> t_messages (srv_db absent_server)"
  "t_devices (srv_db (routeChatMessage quiet_env 0 (Some example_chat) absent_server)) =
     [\<lparr>dt_user = ''u'', dt_token = ''ph'', dt_platform = ''ios''\<rparr>]"
  "t_prefs (srv_db (routeChatMessage quiet_env 0 (Some example_chat) absent_server)) = []"
  by (simp_all add: routeChatMessage_def example_chat_message absent_server_facts getConversation_def storeMessage_def
      insert_message_def message_exists_def conversation_exists_def message_row_of_def example_message_def participant_def
      authored_def generateID_def deliver_to_user_def recipient_of_def enqueue_offline_def notify_later_def on_hub_def Let_def,
      simp_all add: absent_server_def device_server_simps)

theorem absent_user_is_rung_witness:
  "\<exists>body. run_notifications demo_push_lib quiet_env (Some demo_push) (routeChatMessage quiet_env 0 (Some example_chat) absent_server) =
     [APNSPush ''ph'' ''app'' ''New Message'' body ''c'']"
proof -
  have "\<not> isConversationMuted quiet_env ''u'' ''c'' (Some (srv_db (routeChatMessage quiet_env 0 (Some example_chat) absent_server)))"
    by (simp add: isConversationMuted_def absent_chat)
  with absent_user_is_rung [OF absent_server_facts(1) absent_chat(1) demo_push_ready quiet_no_errors, of demo_push_lib] show ?thesis
    by (simp add: absent_server_facts run_notifications_def user_devices_def absent_chat demo_push_calls Let_def)
qed

definition web_body :: json where
  "web_body = JObj [(''endpoint'', JStr ''ep''), (''keys'', JObj [(''p256dh'', JStr ''p''), (''auth'', JStr ''a'')])]"

theorem web_subscription_goes_to_apns_witness:
  "filter (\<lambda>c. push_token c = ''ep'') (notifyUser demo_push_lib quiet_env (Some demo_push)
     (Some (srv_db (snd (handleWebPushSubscribe demo_config quiet_env (device_request ''POST'' web_body) device_server))))
     ''u'' ''T'' ''B'' ''c'') = [APNSPush ''ep'' ''app'' ''T'' ''B'' ''c'']"
proof -
  let ?rq = "device_request ''POST'' web_body"
  have f: "subscription_fields (Frame web_body) = Some (''ep'', ''p'', ''a'')"
    by (simp add: subscription_fields_def web_body_def dec_keys_def get_str_def members_simps fold_eq_def ascii_lower_def)
  obtain rs s' where h: "handleWebPushSubscribe demo_config quiet_env ?rq device_server = (rs, s')"
    by (cases "handleWebPushSubscribe demo_config quiet_env ?rq device_server")
  have c: "rs_code rs = 200"
    using h by (auto simp: handleWebPushSubscribe_def user_endpoint_def device_request_claims f replace_device_def device_server_simps)
  have m: "\<not> isConversationMuted quiet_env ''u'' ''c'' (Some (srv_db device_server))"
    by (simp add: isConversationMuted_def device_server_simps)
  from web_subscription_goes_to_apns [OF h c demo_push_ready quiet_no_errors, of demo_push_lib] h m show ?thesis
    by (auto simp: device_request_claims f demo_push_def)
qed

end
