(* ===== verification/E2E.thy ===== *)
theory E2E
  imports Message_Handlers
begin

section \<open>End-to-end encryption: key bundles and encrypted messages\<close>

text \<open>
  e2e.go. The server stores public keys and envelopes; it never sees a plaintext. The table
  \<open>key_bundles\<close> has \<open>FOREIGN KEY (owner_id) REFERENCES users(id)\<close>. The padlock sign of the notification
  body is written as its UTF-8 bytes.
\<close>

definition KeyTypeIdentity :: string where "KeyTypeIdentity = ''identity''"
definition KeyTypeSignedPreKey :: string where "KeyTypeSignedPreKey = ''signed_prekey''"
definition KeyTypeOneTimePreKey :: string where "KeyTypeOneTimePreKey = ''one_time_prekey''"

definition authenticateRequest :: "config \<Rightarrow> env \<Rightarrow> http_request \<Rightarrow> string + (string \<times> string)" where
  "authenticateRequest cf e rq =
     (let authHeader = rq_header rq ''Authorization''; agentSecret = rq_header rq ''X-Agent-Secret'' in
      if has_prefix authHeader ''Bearer '' then
        (case ValidateJWT (cf_jwt cf) (cf_jwtSecret cf) (clock e ''ValidateJWT'') (trim_prefix authHeader ''Bearer '') of
           Inl _ \<Rightarrow> Inl ''invalid token''
         | Inr claims \<Rightarrow> Inr (UserID claims, ''user''))
      else if agentSecret \<noteq> [] \<and> agentSecret = cf_envAgentSecret cf then
        (let agentID = rq_header rq ''X-Agent-ID'' in
         if agentID = [] then Inl ''X-Agent-ID header required with agent auth'' else Inr (agentID, ''agent''))
      else Inl ''authorization required'')"

definition peer_endpoint :: "config \<Rightarrow> env \<Rightarrow> string \<Rightarrow> (string \<Rightarrow> string \<Rightarrow> 's handler) \<Rightarrow> 's handler" where
  "peer_endpoint cf e httpMethod body rq s =
     (if rq_method rq \<noteq> httpMethod then (writeJSONError 405 ''method not allowed'', s)
      else (case authenticateRequest cf e rq of
              Inl err \<Rightarrow> (writeJSONError 401 err, s)
            | Inr (ownerID, ownerType) \<Rightarrow> body ownerID ownerType rq s))"

subsection \<open>Keys\<close>

record key_request =
  kr_key_type :: string
  kr_public_key :: string
  kr_signature :: string
  kr_key_id :: int

definition decode_key_request :: "frame \<Rightarrow> key_request option" where
  "decode_key_request b = (case b of
     Malformed \<Rightarrow> None
   | Frame j \<Rightarrow> (case struct_members j of
       None \<Rightarrow> None
     | Some ms \<Rightarrow>
         (case (get_str ''key_type'' ms, get_str ''public_key'' ms, get_str ''signature'' ms, get_int ''key_id'' ms) of
            (Some t, Some p, Some sg, Some k) \<Rightarrow>
              Some \<lparr>kr_key_type = t, kr_public_key = p, kr_signature = sg, kr_key_id = k\<rparr>
          | _ \<Rightarrow> None)))"

definition insert_key :: "key_row \<Rightarrow> database \<Rightarrow> go_error + database" where
  "insert_key k d =
     (if kb_id k \<in> kb_id ` set (t_keys d) then Inl ErrUnique
      else if \<not> user_exists d (kb_owner_id k) then Inl ErrForeignKey
      else Inr (d\<lparr>t_keys := t_keys d @ [k]\<rparr>))"

definition keys_of :: "string \<Rightarrow> string \<Rightarrow> string \<Rightarrow> database \<Rightarrow> key_row list" where
  "keys_of owner otype ktype d =
     filter (\<lambda>k. kb_owner_id k = owner \<and> kb_owner_type k = otype \<and> kb_key_type k = ktype) (t_keys d)"

definition delete_key :: "string \<Rightarrow> database \<Rightarrow> database" where
  "delete_key i d = d\<lparr>t_keys := filter (\<lambda>k. kb_id k \<noteq> i) (t_keys d)\<rparr>"

text \<open>An identity key replaces the one the owner has; errors of the lookup and of the deletion are ignored.\<close>

definition replace_identity :: "env \<Rightarrow> string \<Rightarrow> string \<Rightarrow> database \<Rightarrow> database" where
  "replace_identity e owner otype d =
     (if sql_fails e ''upload.existing'' then d
      else (case keys_of owner otype ''identity'' d of
              [] \<Rightarrow> d
            | k # _ \<Rightarrow> if sql_fails e ''upload.delete'' then d else delete_key (kb_id k) d))"

definition bundle_json :: "string \<Rightarrow> key_row \<Rightarrow> json" where
  "bundle_json created k = JObj (
     [(''id'', JStr (kb_id k)), (''owner_id'', JStr (kb_owner_id k)), (''owner_type'', JStr (kb_owner_type k)),
      (''key_type'', JStr (kb_key_type k)), (''public_key'', JStr (kb_public_key k))] @
     omitempty ''signature'' (JStr (kb_signature k)) (kb_signature k = []) @
     omitempty ''key_id'' (JNum (kb_key_id k)) (kb_key_id k = 0) @
     [(''created_at'', JStr created)])"

definition handleUploadPublicKey :: "config \<Rightarrow> env \<Rightarrow> server handler" where
  "handleUploadPublicKey cf e = peer_endpoint cf e ''POST'' (\<lambda>ownerID ownerType rq s.
     case decode_key_request (rq_body rq) of
       None \<Rightarrow> (writeJSONError 400 ''invalid JSON'', s)
     | Some req \<Rightarrow>
         if kr_public_key req = [] then (writeJSONError 400 ''public_key is required'', s)
         else if kr_key_type req \<notin> {KeyTypeIdentity, KeyTypeSignedPreKey, KeyTypeOneTimePreKey} then
           (writeJSONError 400 ''invalid key_type, must be identity/signed_prekey/one_time_prekey'', s)
         else
           (let d1 = (if kr_key_type req = KeyTypeIdentity then replace_identity e ownerID ownerType (srv_db s) else srv_db s);
                row = \<lparr>kb_id = generateID ''key'' (clock e ''upload.id''), kb_owner_id = ownerID, kb_owner_type = ownerType,
                       kb_key_type = kr_key_type req, kb_public_key = kr_public_key req, kb_signature = kr_signature req,
                       kb_key_id = kr_key_id req, kb_created_at = clock e ''upload.created''\<rparr>
            in if sql_fails e ''upload.insert'' then (writeJSONError 500 ''failed to store key'', s\<lparr>srv_db := d1\<rparr>)
               else (case insert_key row d1 of
                       Inl _ \<Rightarrow> (writeJSONError 500 ''failed to store key'', s\<lparr>srv_db := d1\<rparr>)
                     | Inr d2 \<Rightarrow> (ok_json (bundle_json (cf_rfc3339 cf (clock e ''upload.answer'')) row), s\<lparr>srv_db := d2\<rparr>))))"

text \<open>The identity and signed keys are read without their \<open>key_id\<close>, which stays 0 in the answer.\<close>

definition plain_bundle :: "config \<Rightarrow> key_row \<Rightarrow> json" where
  "plain_bundle cf k = bundle_json (cf_json_time cf (kb_created_at k)) (k\<lparr>kb_key_id := 0\<rparr>)"

text \<open>The one-time key is read by one statement and deleted by another, outside a transaction; the result of the
  deletion is ignored.\<close>

definition select_otp :: "env \<Rightarrow> string \<Rightarrow> string \<Rightarrow> database \<Rightarrow> key_row list" where
  "select_otp e targetID targetType d =
     (if sql_fails e ''bundle.otp'' then []
      else take 1 (order_asc kb_key_id (keys_of targetID targetType ''one_time_prekey'' d)))"

definition consume_otp :: "env \<Rightarrow> key_row list \<Rightarrow> database \<Rightarrow> database" where
  "consume_otp e otp d =
     (case otp of
        [] \<Rightarrow> d
      | k # _ \<Rightarrow> if sql_fails e ''bundle.consume'' then d else delete_key (kb_id k) d)"

definition handleGetKeyBundle :: "config \<Rightarrow> env \<Rightarrow> server handler" where
  "handleGetKeyBundle cf e = peer_endpoint cf e ''GET'' (\<lambda>_ _ rq s.
     let targetID = rq_query rq ''owner_id'';
         t = rq_query rq ''owner_type'';
         targetType = (if t = [] then ''user'' else t);
         d = srv_db s
     in if targetID = [] then (writeJSONError 400 ''owner_id is required'', s)
        else if sql_fails e ''bundle.identity'' then (writeJSONError 404 ''no identity key found for this owner'', s)
        else (case keys_of targetID targetType ''identity'' d of
                [] \<Rightarrow> (writeJSONError 404 ''no identity key found for this owner'', s)
              | ik # _ \<Rightarrow>
                  (let signed = (if sql_fails e ''bundle.signed'' then []
                                 else take 1 (order_desc kb_created_at (keys_of targetID targetType ''signed_prekey'' d)));
                       otp = select_otp e targetID targetType d;
                       d1 = consume_otp e otp d
                   in (ok_json (JObj ([(''identity_key'', plain_bundle cf ik)] @
                          map (\<lambda>k. (''one_time_prekey'', bundle_json (cf_json_time cf (kb_created_at k)) k)) otp @
                          map (\<lambda>k. (''signed_prekey'', plain_bundle cf k)) signed)),
                       s\<lparr>srv_db := d1\<rparr>))))"

definition handleListOneTimePreKeys :: "config \<Rightarrow> env \<Rightarrow> server handler" where
  "handleListOneTimePreKeys cf e = peer_endpoint cf e ''GET'' (\<lambda>ownerID ownerType rq s.
     let n = (if sql_fails e ''otpk'' then 0 else length (keys_of ownerID ownerType ''one_time_prekey'' (srv_db s)))
     in (ok_json (JObj [(''one_time_prekey_count'', JNum (int n))]), s))"

subsection \<open>Encrypted messages\<close>

definition encrypted_fields :: "frame \<Rightarrow> string list option" where
  "encrypted_fields b = (case b of
     Malformed \<Rightarrow> None
   | Frame j \<Rightarrow> unmarshal_fields [''conversation_id'', ''ciphertext'', ''iv'', ''recipient_key_id'', ''sender_key_id'', ''algorithm''] (Some j))"

definition validAlgorithms :: "string set" where
  "validAlgorithms = {''aes-256-gcm'', ''x25519-aes-256-gcm'', ''x25519-chacha20-poly1305''}"

definition insert_encrypted :: "encrypted_row \<Rightarrow> database \<Rightarrow> go_error + database" where
  "insert_encrypted m d =
     (if em_id m \<in> em_id ` set (t_encrypted d) then Inl ErrUnique
      else if \<not> conversation_exists d (em_conversation m) then Inl ErrForeignKey
      else Inr (d\<lparr>t_encrypted := t_encrypted d @ [m]\<rparr>))"

definition encrypted_pointer :: "string \<Rightarrow> string \<Rightarrow> string \<Rightarrow> string \<Rightarrow> json" where
  "encrypted_pointer convID msgID senderType senderID = OutgoingMessage ''encrypted_message''
     (marshal_routed \<lparr>rm_type = ''encrypted_message'', ConversationID = convID, Content = ''encrypted:'' @ msgID,
        AttachmentIDs = [], SenderType = senderType, SenderID = senderID, RecipientID = [], Timestamp = []\<rparr>)"

definition notify_encrypted :: "string \<Rightarrow> string \<Rightarrow> server \<Rightarrow> server" where
  "notify_encrypted userID convID s =
     s\<lparr>srv_notified := srv_notified s @
        [\<lparr>nt_user = userID, nt_title = ''New Encrypted Message'',
          nt_body = [CHR 0xF0, CHR 0x9F, CHR 0x94, CHR 0x92] @ '' Encrypted message'', nt_conversation = convID\<rparr>]\<rparr>"

definition deliver_encrypted :: "string \<Rightarrow> string \<Rightarrow> Conversation \<Rightarrow> json \<Rightarrow> server \<Rightarrow> server" where
  "deliver_encrypted senderType convID conv outgoing s =
     (if senderType = ''user'' then on_hub (send_to_agent (conv_AgentID conv) outgoing) s
      else
        (let conns = GetClientConns (conv_UserID conv) (srv_hub s) in
         if conns \<noteq> [] then
           (let (delivered, h) = send_count conns outgoing (srv_hub s);
                s1 = s\<lparr>srv_hub := h\<rparr>
            in if delivered = 0 then notify_encrypted (conv_UserID conv) convID s1 else s1)
         else notify_encrypted (conv_UserID conv) convID s))"

definition handleStoreEncryptedMessage :: "config \<Rightarrow> env \<Rightarrow> server handler" where
  "handleStoreEncryptedMessage cf e = peer_endpoint cf e ''POST'' (\<lambda>senderID senderType rq s.
     case encrypted_fields (rq_body rq) of
       Some [convID, ciphertext, iv, rkey, skey, algorithm] \<Rightarrow>
         if convID = [] \<or> ciphertext = [] \<or> iv = [] \<or> algorithm = [] then
           (writeJSONError 400 ''conversation_id, ciphertext, iv, and algorithm are required'', s)
         else if algorithm \<notin> validAlgorithms then (writeJSONError 400 ''unsupported algorithm'', s)
         else (case getConversation e convID (srv_db s) of
                 Inr (Some conv) \<Rightarrow>
                   if senderType = ''user'' \<and> conv_UserID conv \<noteq> senderID then
                     (writeJSONError 403 ''not a participant in this conversation'', s)
                   else if senderType = ''agent'' \<and> conv_AgentID conv \<noteq> senderID then
                     (writeJSONError 403 ''not a participant in this conversation'', s)
                   else
                     (let msgID = generateID ''emsg'' (clock e ''encrypted.id'');
                          row = \<lparr>em_id = msgID, em_conversation = convID, em_sender_id = senderID, em_sender_type = senderType,
                                 em_ciphertext = ciphertext, em_iv = iv, em_recipient_key_id = rkey, em_sender_key_id = skey,
                                 em_algorithm = algorithm, em_created_at = clock e ''encrypted.created''\<rparr>
                      in if sql_fails e ''encrypted.insert'' then (writeJSONError 500 ''failed to store encrypted message'', s)
                         else (case insert_encrypted row (srv_db s) of
                                 Inl _ \<Rightarrow> (writeJSONError 500 ''failed to store encrypted message'', s)
                               | Inr d \<Rightarrow>
                                   (ok_json (str_obj [(''id'', msgID), (''message'', ''encrypted message stored and delivered''),
                                                      (''status'', ''stored'')]),
                                    deliver_encrypted senderType convID conv (encrypted_pointer convID msgID senderType senderID)
                                      (s\<lparr>srv_db := d\<rparr>))))
               | _ \<Rightarrow> (writeJSONError 404 ''conversation not found'', s))
     | _ \<Rightarrow> (writeJSONError 400 ''invalid JSON'', s))"

definition encrypted_json :: "config \<Rightarrow> encrypted_row \<Rightarrow> json" where
  "encrypted_json cf m = JObj (
     [(''id'', JStr (em_id m)), (''conversation_id'', JStr (em_conversation m)), (''sender_id'', JStr (em_sender_id m)),
      (''sender_type'', JStr (em_sender_type m)), (''ciphertext'', JStr (em_ciphertext m)), (''iv'', JStr (em_iv m)),
      (''recipient_key_id'', JStr (em_recipient_key_id m))] @
     omitempty ''sender_key_id'' (JStr (em_sender_key_id m)) (em_sender_key_id m = []) @
     [(''algorithm'', JStr (em_algorithm m)), (''created_at'', JStr (cf_json_time cf (em_created_at m)))])"

text \<open>The error of \<open>Sscanf\<close> is not looked at: the limit then keeps its default.\<close>

definition encrypted_limit :: "string \<Rightarrow> int" where
  "encrypted_limit l =
     (if l = [] then 50
      else (let limit = (case Sscanf_d l of None \<Rightarrow> 50 | Some v \<Rightarrow> v) in
            if limit \<le> 0 \<or> limit > 200 then 50 else limit))"

definition handleGetEncryptedMessages :: "config \<Rightarrow> env \<Rightarrow> server handler" where
  "handleGetEncryptedMessages cf e = peer_endpoint cf e ''GET'' (\<lambda>ownerID ownerType rq s.
     let conversationID = rq_query rq ''conversation_id'' in
     if conversationID = [] then (writeJSONError 400 ''conversation_id is required'', s)
     else (case getConversation e conversationID (srv_db s) of
             Inr (Some conv) \<Rightarrow>
               if ownerType = ''user'' \<and> conv_UserID conv \<noteq> ownerID then (writeJSONError 404 ''conversation not found'', s)
               else if ownerType = ''agent'' \<and> conv_AgentID conv \<noteq> ownerID then (writeJSONError 404 ''conversation not found'', s)
               else if sql_fails e ''handleGetEncryptedMessages'' then
                 (writeJSONError 500 ''failed to fetch encrypted messages'', s)
               else (ok_json (JArr (map (encrypted_json cf)
                       (take (nat (encrypted_limit (rq_query rq ''limit'')))
                         (order_asc em_created_at (filter (\<lambda>m. em_conversation m = conversationID) (t_encrypted (srv_db s))))))), s)
           | _ \<Rightarrow> (writeJSONError 404 ''conversation not found'', s)))"

subsection \<open>Keys of agents\<close>

lemma user_exists_replace [simp]: "user_exists (replace_identity e i ty d) u = user_exists d u"
  by (simp add: replace_identity_def delete_key_def user_exists_def split: list.splits)

text \<open>An agent cannot upload a key: the owner of a key bundle must be a user, so the upload of an agent
  whose id is no user id is refused with 400 or 500 whatever the request holds, and no key of it is
  ever stored.\<close>

theorem agent_keys_are_refused:
  assumes "authenticateRequest cf e rq = Inr (i, ''agent'')" and "\<not> user_exists (srv_db s) i"
  shows "rs_code (fst (handleUploadPublicKey cf e rq s)) \<in> {400, 405, 500} \<and>
    set (t_keys (srv_db (snd (handleUploadPublicKey cf e rq s)))) \<subseteq> set (t_keys (srv_db s))"
proof -
  have sub: "set (t_keys (replace_identity e i ''agent'' (srv_db s))) \<subseteq> set (t_keys (srv_db s))"
    by (auto simp: replace_identity_def delete_key_def split: list.splits)
  show ?thesis
    using assms sub
    by (auto simp: handleUploadPublicKey_def peer_endpoint_def insert_key_def Let_def split: option.splits)
qed

subsection \<open>One-time keys\<close>

definition handed_out :: "http_response \<Rightarrow> json option" where
  "handed_out rs = (case rs_body rs of JObj ms \<Rightarrow> map_of ms ''one_time_prekey'' | _ \<Rightarrow> None)"

definition target_type :: "http_request \<Rightarrow> string" where
  "target_type rq = (if rq_query rq ''owner_type'' = [] then ''user'' else rq_query rq ''owner_type'')"

lemma hd_sort_key_least: "sort_key f xs = k # ks \<Longrightarrow> x \<in> set xs \<Longrightarrow> f k \<le> (f x :: int)"
  by (metis list.sel(1) list.set_intros(1) set_sort sorted_sort_key sorted_wrt.simps(2) list.simps(9) set_ConsD image_eqI list.set_map order_refl)

lemma handed_out_error [simp]: "handed_out (writeJSONError c m) = None"
  by (simp add: handed_out_def writeJSONError_def writeJSON_def)

lemma handed_out_bundle:
  "handed_out (ok_json (JObj ([(''identity_key'', a)] @ map (\<lambda>k. (''one_time_prekey'', f k)) (take 1 otp) @
     map (\<lambda>k. (''signed_prekey'', g k)) signed))) = (case otp of [] \<Rightarrow> None | k # _ \<Rightarrow> Some (f k))"
proof -
  have "map_of (map (\<lambda>k. (''signed_prekey'', g k)) signed) ''one_time_prekey'' = None"
    by (induction signed) simp_all
  then show ?thesis by (cases otp) (simp_all add: handed_out_def writeJSON_def)
qed

lemma handleGetKeyBundle_otp:
  assumes "handleGetKeyBundle cf e rq s = (rs, s')" and "handed_out rs = Some j"
  obtains k ks where
    "order_asc kb_key_id (keys_of (rq_query rq ''owner_id'') (target_type rq) ''one_time_prekey'' (srv_db s)) = k # ks"
    and "j = bundle_json (cf_json_time cf (kb_created_at k)) k"
    and "s' = s\<lparr>srv_db := if sql_fails e ''bundle.consume'' then srv_db s else delete_key (kb_id k) (srv_db s)\<rparr>"
proof -
  obtain i ty where au: "authenticateRequest cf e rq = Inr (i, ty)"
    using assms by (auto simp: handleGetKeyBundle_def peer_endpoint_def split: if_splits sum.splits)
  obtain ik ks0 where ik: "keys_of (rq_query rq ''owner_id'') (target_type rq) ''identity'' (srv_db s) = ik # ks0"
    using assms au
    by (auto simp: handleGetKeyBundle_def peer_endpoint_def Let_def target_type_def split: if_splits list.splits)
  define otp where "otp = (if sql_fails e ''bundle.otp'' then []
    else order_asc kb_key_id (keys_of (rq_query rq ''owner_id'') (target_type rq) ''one_time_prekey'' (srv_db s)))"
  have t1: "select_otp e (rq_query rq ''owner_id'') (target_type rq) (srv_db s) = take 1 otp"
    by (simp add: otp_def select_otp_def)
  have rs: "rs = ok_json (JObj ([(''identity_key'', plain_bundle cf ik)] @
      map (\<lambda>k. (''one_time_prekey'', bundle_json (cf_json_time cf (kb_created_at k)) k)) (take 1 otp) @
      map (\<lambda>k. (''signed_prekey'', plain_bundle cf k)) (if sql_fails e ''bundle.signed'' then []
         else take 1 (order_desc kb_created_at (keys_of (rq_query rq ''owner_id'') (target_type rq) ''signed_prekey'' (srv_db s))))))"
    and s': "s' = s\<lparr>srv_db := consume_otp e (take 1 otp) (srv_db s)\<rparr>"
    using assms au ik
    unfolding handleGetKeyBundle_def peer_endpoint_def Let_def target_type_def [symmetric] t1
    by (auto split: if_splits)
  obtain k ks where o: "otp = k # ks" using assms(2) unfolding rs handed_out_bundle by (cases otp) simp_all
  show ?thesis
  proof (rule that [of k ks])
    show "order_asc kb_key_id (keys_of (rq_query rq ''owner_id'') (target_type rq) ''one_time_prekey'' (srv_db s)) = k # ks"
      using o by (simp add: otp_def split: if_splits)
    show "j = bundle_json (cf_json_time cf (kb_created_at k)) k"
      using assms(2) o unfolding rs handed_out_bundle by simp
    show "s' = s\<lparr>srv_db := if sql_fails e ''bundle.consume'' then srv_db s else delete_key (kb_id k) (srv_db s)\<rparr>"
      by (simp add: s' o consume_otp_def)
  qed
qed

text \<open>A bundle request that runs alone: the one-time key it returns is the one with the least key id among those
  stored for the owner, and exactly that key is gone from the table afterwards (provided the deletion itself does
  not fail).\<close>

theorem one_time_key_consumed:
  assumes "handleGetKeyBundle cf e rq s = (rs, s')" and "handed_out rs = Some j" and "\<not> sql_fails e ''bundle.consume''"
  shows "\<exists>k \<in> set (keys_of (rq_query rq ''owner_id'') (target_type rq) ''one_time_prekey'' (srv_db s)).
    j = bundle_json (cf_json_time cf (kb_created_at k)) k \<and>
    (\<forall>k' \<in> set (keys_of (rq_query rq ''owner_id'') (target_type rq) ''one_time_prekey'' (srv_db s)). kb_key_id k \<le> kb_key_id k') \<and>
    t_keys (srv_db s') = filter (\<lambda>x. kb_id x \<noteq> kb_id k) (t_keys (srv_db s))"
proof -
  let ?ks = "keys_of (rq_query rq ''owner_id'') (target_type rq) ''one_time_prekey'' (srv_db s)"
  from assms(1,2) obtain k ks where o: "order_asc kb_key_id ?ks = k # ks"
    and j: "j = bundle_json (cf_json_time cf (kb_created_at k)) k"
    and s': "s' = s\<lparr>srv_db := if sql_fails e ''bundle.consume'' then srv_db s else delete_key (kb_id k) (srv_db s)\<rparr>"
    by (rule handleGetKeyBundle_otp)
  have "k \<in> set (order_asc kb_key_id ?ks)" by (simp add: o)
  then have "k \<in> set ?ks" by (simp add: order_asc_def)
  moreover have "\<forall>k' \<in> set ?ks. kb_key_id k \<le> kb_key_id k'"
    using hd_sort_key_least [OF o [unfolded order_asc_def]] by blast
  ultimately show ?thesis using j s' assms(3) by (intro bexI [of _ k]) (simp_all add: delete_key_def)
qed

subsection \<open>Overlapping bundle requests\<close>

text \<open>Requests for the bundle of one owner, each before its read, between its two statements, or done, on the
  database they share; the statements of different requests interleave in any way.\<close>

datatype bundle_request = Unread | Selected "key_row list" | Answered "key_row list"

inductive otp_step ::
  "env \<Rightarrow> string \<Rightarrow> string \<Rightarrow> database \<times> bundle_request list \<Rightarrow> database \<times> bundle_request list \<Rightarrow> bool"
  for e targetID targetType where
  selects: "i < length rs \<Longrightarrow> rs ! i = Unread \<Longrightarrow>
    otp_step e targetID targetType (d, rs) (d, rs[i := Selected (select_otp e targetID targetType d)])"
| consumes: "i < length rs \<Longrightarrow> rs ! i = Selected otp \<Longrightarrow>
    otp_step e targetID targetType (d, rs) (consume_otp e otp d, rs[i := Answered otp])"

definition answered_gone :: "database \<times> bundle_request list \<Rightarrow> bool" where
  "answered_gone st \<longleftrightarrow> (\<forall>k. Answered [k] \<in> set (snd st) \<longrightarrow> kb_id k \<notin> kb_id ` set (t_keys (fst st)))"

lemma consume_otp_keys: "set (t_keys (consume_otp e otp d)) \<subseteq> set (t_keys d)"
  by (auto simp: consume_otp_def delete_key_def split: list.splits)

lemma otp_step_gone:
  assumes "\<not> sql_fails e ''bundle.consume''" and "otp_step e i ty st st'" and "answered_gone st"
  shows "answered_gone st'"
  using assms(2,3)
proof cases
  case (selects j rs d)
  then show ?thesis using assms(3) by (auto simp: answered_gone_def dest!: set_update_subset_insert [THEN subsetD])
next
  case (consumes j rs otp d)
  have "kb_id k \<notin> kb_id ` set (t_keys (consume_otp e otp d))" if "Answered [k] \<in> set (rs[j := Answered otp])" for k
  proof -
    from that have "[k] = otp \<or> Answered [k] \<in> set rs" by (auto dest!: set_update_subset_insert [THEN subsetD])
    then show ?thesis
    proof
      assume "[k] = otp"
      then show ?thesis using assms(1) by (auto simp: consume_otp_def delete_key_def)
    next
      assume "Answered [k] \<in> set rs"
      with assms(3) consumes(1) have "kb_id k \<notin> kb_id ` set (t_keys d)" by (simp add: answered_gone_def)
      then show ?thesis using consume_otp_keys [of e otp d] by blast
    qed
  qed
  then show ?thesis using consumes(2) by (simp add: answered_gone_def)
qed

lemma otp_run_gone:
  assumes "\<not> sql_fails e ''bundle.consume''" and "(otp_step e i ty)\<^sup>*\<^sup>* (d, replicate n Unread) st"
  shows "answered_gone st"
  using assms(2)
proof (induction rule: rtranclp_induct)
  case base
  then show ?case by (auto simp: answered_gone_def)
next
  case (step st st')
  then show ?case using otp_step_gone [OF assms(1)] by blast
qed

lemma replicate_snoc_update:
  "m < n \<Longrightarrow> (replicate m y @ replicate (n - m) x)[m := y] = replicate (Suc m) y @ replicate (n - Suc m) x"
proof -
  assume "m < n"
  then have "n - m = Suc (n - Suc m)" by simp
  then show "(replicate m y @ replicate (n - m) x)[m := y] = replicate (Suc m) y @ replicate (n - Suc m) x"
    by (simp only: replicate_Suc list_update_append length_replicate)
      (simp add: replicate_app_Cons_same)
qed

lemma all_select:
  assumes "m \<le> n"
  shows "(otp_step e i ty)\<^sup>*\<^sup>* (d, replicate n Unread) (d, replicate m (Selected (select_otp e i ty d)) @ replicate (n - m) Unread)"
  using assms
proof (induction m)
  case (Suc m)
  let ?rs = "replicate m (Selected (select_otp e i ty d)) @ replicate (n - m) Unread"
  have "otp_step e i ty (d, ?rs) (d, ?rs[m := Selected (select_otp e i ty d)])"
    using Suc.prems by (intro selects) (auto simp: nth_append)
  with Suc show ?case by (simp only: replicate_snoc_update Suc_le_eq) (meson less_imp_le rtranclp.rtrancl_into_rtrancl)
qed simp

lemma all_consume:
  assumes "m \<le> n"
  shows "\<exists>d'. (otp_step e i ty)\<^sup>*\<^sup>* (d, replicate n (Selected otp)) (d', replicate m (Answered otp) @ replicate (n - m) (Selected otp))"
  using assms
proof (induction m)
  case (Suc m)
  let ?rs = "replicate m (Answered otp) @ replicate (n - m) (Selected otp)"
  from Suc obtain d' where d': "(otp_step e i ty)\<^sup>*\<^sup>* (d, replicate n (Selected otp)) (d', ?rs)" by auto
  have "otp_step e i ty (d', ?rs) (consume_otp e otp d', ?rs[m := Answered otp])"
    using Suc.prems by (intro consumes) (auto simp: nth_append)
  with d' Suc.prems show ?case by (simp only: replicate_snoc_update Suc_le_eq) (meson rtranclp.rtrancl_into_rtrancl)
qed auto

text \<open>C26: One-time keys are single-use only between requests that do not overlap. However the statements of any
  number of bundle requests for an owner interleave, a key that an answered request has been given is no longer in
  the table, so that no request that reads later is given it (provided the deletion does not fail). But the read and
  the deletion are two statements outside a transaction: as soon as the owner has a one-time key, any number of
  requests can all be given the same one, the one with the least key id.\<close>

theorem one_time_key_shared_by_overlapping_requests:
  assumes "\<not> sql_fails e ''bundle.consume''" and "\<not> sql_fails e ''bundle.otp''"
    and "keys_of i ty ''one_time_prekey'' d \<noteq> []"
  shows "(\<forall>d' rs k. (otp_step e i ty)\<^sup>*\<^sup>* (d, replicate n Unread) (d', rs) \<and> Answered [k] \<in> set rs \<longrightarrow>
       kb_id k \<notin> kb_id ` set (t_keys d')) \<and>
    (\<exists>d' k. k \<in> set (keys_of i ty ''one_time_prekey'' d) \<and>
       (\<forall>k' \<in> set (keys_of i ty ''one_time_prekey'' d). kb_key_id k \<le> kb_key_id k') \<and>
       (otp_step e i ty)\<^sup>*\<^sup>* (d, replicate n Unread) (d', replicate n (Answered [k])))"
proof
  show "\<forall>d' rs k. (otp_step e i ty)\<^sup>*\<^sup>* (d, replicate n Unread) (d', rs) \<and> Answered [k] \<in> set rs \<longrightarrow>
      kb_id k \<notin> kb_id ` set (t_keys d')"
  proof (intro allI impI)
    fix d' rs k
    assume "(otp_step e i ty)\<^sup>*\<^sup>* (d, replicate n Unread) (d', rs) \<and> Answered [k] \<in> set rs"
    with otp_run_gone [OF assms(1), of i ty d n "(d', rs)"] show "kb_id k \<notin> kb_id ` set (t_keys d')"
      by (simp add: answered_gone_def)
  qed
next
  let ?ks = "keys_of i ty ''one_time_prekey'' d"
  obtain k ks where o: "order_asc kb_key_id ?ks = k # ks"
    using assms(3) by (metis list.exhaust order_asc_def length_0_conv length_sort)
  then have sel: "select_otp e i ty d = [k]" using assms(2) by (simp add: select_otp_def)
  have "k \<in> set (order_asc kb_key_id ?ks)" by (simp add: o)
  then have k: "k \<in> set ?ks" "\<forall>k' \<in> set ?ks. kb_key_id k \<le> kb_key_id k'"
    using hd_sort_key_least [OF o [unfolded order_asc_def]] by (auto simp: order_asc_def)
  have "(otp_step e i ty)\<^sup>*\<^sup>* (d, replicate n Unread) (d, replicate n (Selected [k]))"
    using all_select [of n n e i ty d] by (simp add: sel)
  moreover obtain d' where "(otp_step e i ty)\<^sup>*\<^sup>* (d, replicate n (Selected [k])) (d', replicate n (Answered [k]))"
    using all_consume [of n n e i ty d "[k]"] by auto
  ultimately show "\<exists>d' k. k \<in> set ?ks \<and> (\<forall>k' \<in> set ?ks. kb_key_id k \<le> kb_key_id k') \<and>
      (otp_step e i ty)\<^sup>*\<^sup>* (d, replicate n Unread) (d', replicate n (Answered [k]))"
    using k by (meson rtranclp_trans)
qed

subsection \<open>Encrypted messages\<close>

lemma authenticateRequest_type: "authenticateRequest cf e rq = Inr (i, ty) \<Longrightarrow> ty = ''user'' \<or> ty = ''agent''"
  by (auto simp: authenticateRequest_def Let_def split: if_splits sum.splits)

lemma srv_db_deliver_encrypted [simp]: "srv_db (deliver_encrypted ty c conv out s) = srv_db s"
  by (auto simp: deliver_encrypted_def notify_encrypted_def Let_def split: prod.splits)

lemma insert_encrypted_Inr:
  "insert_encrypted m d = Inr d' \<Longrightarrow> d' = d\<lparr>t_encrypted := t_encrypted d @ [m]\<rparr> \<and> conversation_exists d (em_conversation m)"
  by (auto simp: insert_encrypted_def split: if_splits)

text \<open>The sender of an envelope and the conversation it is stored in.\<close>

definition envelope_by :: "string \<Rightarrow> string \<Rightarrow> Conversation \<Rightarrow> encrypted_row \<Rightarrow> bool" where
  "envelope_by i ty conv row \<longleftrightarrow> em_sender_id row = i \<and> em_sender_type row = ty \<and> conv_ID conv = em_conversation row \<and>
     (if ty = ''user'' then conv_UserID conv else conv_AgentID conv) = i"

lemma handleStoreEncryptedMessage_cases:
  assumes "handleStoreEncryptedMessage cf e rq s = (rs, s')"
  shows "rs_code rs \<noteq> 200 \<and> s' = s \<or>
    (\<exists>i ty conv row. authenticateRequest cf e rq = Inr (i, ty) \<and> conv \<in> set (t_conversations (srv_db s)) \<and>
       envelope_by i ty conv row \<and> rs_code rs = 200 \<and>
       s' = deliver_encrypted ty (em_conversation row) conv (encrypted_pointer (em_conversation row) (em_id row) ty i)
          (s\<lparr>srv_db := (srv_db s)\<lparr>t_encrypted := t_encrypted (srv_db s) @ [row]\<rparr>\<rparr>))"
proof (cases "authenticateRequest cf e rq")
  case (Inl err)
  then show ?thesis using assms by (auto simp: handleStoreEncryptedMessage_def peer_endpoint_def split: if_splits)
next
  case (Inr p)
  obtain i ty where p: "p = (i, ty)" by (cases p)
  note au = Inr [unfolded p]
  show ?thesis
  proof (cases "rs_code rs = 200")
    case False
    then show ?thesis
      using assms au
      by (auto simp: handleStoreEncryptedMessage_def peer_endpoint_def Let_def split: if_splits option.splits list.splits sum.splits)
  next
    case True
    obtain c ct iv rk sk al where fs: "encrypted_fields (rq_body rq) = Some [c, ct, iv, rk, sk, al]"
      using assms True au
      by (auto simp: handleStoreEncryptedMessage_def peer_endpoint_def split: if_splits option.splits list.splits)
    obtain conv where conv: "getConversation e c (srv_db s) = Inr (Some conv)"
      using assms True au fs
      by (auto simp: handleStoreEncryptedMessage_def peer_endpoint_def split: if_splits option.splits sum.splits)
    define row where "row = \<lparr>em_id = generateID ''emsg'' (clock e ''encrypted.id''), em_conversation = c, em_sender_id = i,
      em_sender_type = ty, em_ciphertext = ct, em_iv = iv, em_recipient_key_id = rk, em_sender_key_id = sk,
      em_algorithm = al, em_created_at = clock e ''encrypted.created''\<rparr>"
    obtain d where d: "insert_encrypted row (srv_db s) = Inr d"
      using assms True au fs conv
      by (auto simp: handleStoreEncryptedMessage_def peer_endpoint_def row_def Let_def split: if_splits sum.splits)
    have s': "s' = deliver_encrypted ty c conv (encrypted_pointer c (em_id row) ty i) (s\<lparr>srv_db := d\<rparr>)"
      and who: "ty = ''user'' \<longrightarrow> conv_UserID conv = i" and who2: "ty = ''agent'' \<longrightarrow> conv_AgentID conv = i"
      using assms True au fs conv d
      by (auto simp: handleStoreEncryptedMessage_def peer_endpoint_def row_def Let_def split: if_splits)
    have "envelope_by i ty conv row"
      using getConversation_found [OF conv] who who2 authenticateRequest_type [OF au]
      by (cases "ty = ''user''") (simp_all add: envelope_by_def row_def)
    moreover have "em_conversation row = c" by (simp add: row_def)
    moreover have "d = (srv_db s)\<lparr>t_encrypted := t_encrypted (srv_db s) @ [row]\<rparr>"
      using insert_encrypted_Inr [OF d] by simp
    moreover have "conv \<in> set (t_conversations (srv_db s))" using getConversation_found [OF conv] by simp
    ultimately show ?thesis using au s' True by blast
  qed
qed

text \<open>C25: Encrypted messages are stored under the authenticated identity of their sender, in a conversation
  the sender takes part in; every other request leaves the server as it was.\<close>

theorem encrypted_messages_authentic:
  assumes "handleStoreEncryptedMessage cf e rq s = (rs, s')"
  shows "s' = s \<or>
    (\<exists>i ty conv row. authenticateRequest cf e rq = Inr (i, ty) \<and> conv \<in> set (t_conversations (srv_db s)) \<and>
       envelope_by i ty conv row \<and> t_encrypted (srv_db s') = t_encrypted (srv_db s) @ [row])"
  using handleStoreEncryptedMessage_cases [OF assms] by fastforce

text \<open>An encrypted message of a user to an agent that is not connected is stored and reported as
  delivered, but nobody is told about it: it is not queued for the agent, no connection gets
  anything and no notification is started.\<close>

theorem encrypted_to_offline_agent_not_queued:
  assumes "handleStoreEncryptedMessage cf e rq s = (rs, s')" and "rs_code rs = 200"
    and "authenticateRequest cf e rq = Inr (i, ''user'')"
    and "\<forall>c \<in> set (t_conversations (srv_db s)). conv_UserID c = i \<longrightarrow> GetAgent (conv_AgentID c) (srv_hub s) = None"
  shows "\<exists>row. t_encrypted (srv_db s') = t_encrypted (srv_db s) @ [row] \<and> srv_hub s' = srv_hub s \<and>
    srv_queue s' = srv_queue s \<and> t_queue (srv_db s') = t_queue (srv_db s) \<and> srv_notified s' = srv_notified s"
proof -
  from handleStoreEncryptedMessage_cases [OF assms(1)] assms(2,3) obtain conv row
    where c: "conv \<in> set (t_conversations (srv_db s))" and env: "envelope_by i ''user'' conv row"
      and s': "s' = deliver_encrypted ''user'' (em_conversation row) conv
          (encrypted_pointer (em_conversation row) (em_id row) ''user'' i)
          (s\<lparr>srv_db := (srv_db s)\<lparr>t_encrypted := t_encrypted (srv_db s) @ [row]\<rparr>\<rparr>)"
    by auto
  have "GetAgent (conv_AgentID conv) (srv_hub s) = None" using assms(4) c env by (simp add: envelope_by_def)
  then show ?thesis by (simp add: s' deliver_encrypted_def send_to_agent_def on_hub_def)
qed

subsection \<open>Concrete requests\<close>

definition agent_headers :: "(string \<times> string) list" where
  "agent_headers = [(''X-Agent-Secret'', ''s3cret''), (''X-Agent-ID'', ''a'')]"

lemma agent_authenticated: "authenticateRequest demo_config e (request m agent_headers ps) = Inr (''a'', ''agent'')"
  by (simp add: authenticateRequest_def agent_headers_def has_prefix_def)

lemma alice_authenticated:
  "authenticateRequest demo_config e (request m [(''Authorization'', alice_token)] ps\<lparr>rq_body := b\<rparr>) = Inr (''u'', ''user'')"
  by (simp add: authenticateRequest_def alice_token_def has_prefix_def trim_prefix_def ValidateJWT_def demo_jwt_def request_def)

theorem agent_keys_are_refused_witness:
  "rs_code (fst (handleUploadPublicKey demo_config quiet_env (request ''POST'' agent_headers []) example_server)) \<in> {400, 405, 500}"
  using agent_keys_are_refused [OF agent_authenticated [of quiet_env "''POST''" "[]"], of example_server]
  by (simp add: user_exists_def)

definition key_server :: server where
  "key_server = example_server\<lparr>srv_db := example_db\<lparr>t_keys :=
     [\<lparr>kb_id = ''k1'', kb_owner_id = ''u'', kb_owner_type = ''user'', kb_key_type = ''identity'', kb_public_key = ''p'',
       kb_signature = [], kb_key_id = 0, kb_created_at = 1\<rparr>,
      \<lparr>kb_id = ''k2'', kb_owner_id = ''u'', kb_owner_type = ''user'', kb_key_type = ''one_time_prekey'', kb_public_key = ''q'',
       kb_signature = [], kb_key_id = 7, kb_created_at = 2\<rparr>]\<rparr>\<rparr>"

theorem one_time_key_consumed_witness:
  "length (t_keys (srv_db (snd (handleGetKeyBundle demo_config quiet_env
     (request ''GET'' agent_headers [(''owner_id'', ''u'')]) key_server)))) = 1"
proof -
  let ?rq = "request ''GET'' agent_headers [(''owner_id'', ''u'')]"
  obtain rs s' where h: "handleGetKeyBundle demo_config quiet_env ?rq key_server = (rs, s')"
    by (cases "handleGetKeyBundle demo_config quiet_env ?rq key_server")
  have "\<exists>j. handed_out rs = Some j"
    using h by (auto simp: handleGetKeyBundle_def select_otp_def peer_endpoint_def agent_authenticated key_server_def keys_of_def order_asc_def
        order_desc_def handed_out_def writeJSON_def Let_def)
  then obtain j where j: "handed_out rs = Some j" by blast
  have "\<not> sql_fails quiet_env ''bundle.consume''" by simp
  from one_time_key_consumed [OF h j this] h show ?thesis by (auto simp: key_server_def keys_of_def target_type_def)
qed

theorem one_time_key_shared_by_overlapping_requests_witness:
  "\<exists>d' k. (otp_step quiet_env ''u'' ''user'')\<^sup>*\<^sup>* (srv_db key_server, [Unread, Unread]) (d', [Answered [k], Answered [k]])"
proof -
  have "keys_of ''u'' ''user'' ''one_time_prekey'' (srv_db key_server) \<noteq> []" by (simp add: key_server_def keys_of_def)
  from one_time_key_shared_by_overlapping_requests [OF _ _ this, of quiet_env 2] show ?thesis
    by (auto simp: numeral_2_eq_2)
qed

definition envelope_body :: frame where
  "envelope_body = Frame (str_obj [(''conversation_id'', ''c''), (''ciphertext'', ''x''), (''iv'', ''y''), (''algorithm'', ''aes-256-gcm'')])"

lemma envelope_fields: "encrypted_fields envelope_body = Some [''c'', ''x'', ''y'', [], [], ''aes-256-gcm'']"
  by (simp add: encrypted_fields_def envelope_body_def str_obj_def unmarshal_fields_def get_str_def members_simps
      fold_eq_def ascii_lower_def)

lemma envelope_accepted:
  assumes "srv_db s = example_db"
  shows "rs_code (fst (handleStoreEncryptedMessage demo_config quiet_env
    (request ''POST'' [(''Authorization'', alice_token)] []\<lparr>rq_body := envelope_body\<rparr>) s)) = 200"
proof -
  have "rq_body (request ''POST'' [(''Authorization'', alice_token)] []\<lparr>rq_body := envelope_body\<rparr>) = envelope_body"
    "rq_method (request ''POST'' [(''Authorization'', alice_token)] []\<lparr>rq_body := envelope_body\<rparr>) = ''POST''"
    by (simp_all add: request_def)
  then show ?thesis
    by (simp add: handleStoreEncryptedMessage_def peer_endpoint_def alice_authenticated envelope_fields validAlgorithms_def
        assms getConversation_def insert_encrypted_def conversation_exists_def Let_def)
qed

theorem encrypted_messages_authentic_witness:
  "let s' = snd (handleStoreEncryptedMessage demo_config quiet_env
     (request ''POST'' [(''Authorization'', alice_token)] []\<lparr>rq_body := envelope_body\<rparr>) example_server)
   in s' = example_server \<or> (\<exists>row. t_encrypted (srv_db s') = [row] \<and> em_sender_id row = ''u'')"
proof -
  let ?rq = "request ''POST'' [(''Authorization'', alice_token)] []\<lparr>rq_body := envelope_body\<rparr>"
  obtain rs s' where h: "handleStoreEncryptedMessage demo_config quiet_env ?rq example_server = (rs, s')"
    by (cases "handleStoreEncryptedMessage demo_config quiet_env ?rq example_server")
  from encrypted_messages_authentic [OF h] h show ?thesis by (auto simp: alice_authenticated envelope_by_def Let_def)
qed

theorem encrypted_to_offline_agent_not_queued_witness:
  "let s = example_server\<lparr>srv_hub := newHub None\<rparr>;
       s' = snd (handleStoreEncryptedMessage demo_config quiet_env
         (request ''POST'' [(''Authorization'', alice_token)] []\<lparr>rq_body := envelope_body\<rparr>) s)
   in srv_queue s' = srv_queue s \<and> srv_notified s' = srv_notified s \<and> t_encrypted (srv_db s') \<noteq> []"
proof -
  let ?rq = "request ''POST'' [(''Authorization'', alice_token)] []\<lparr>rq_body := envelope_body\<rparr>"
  let ?s = "example_server\<lparr>srv_hub := newHub None\<rparr>"
  obtain rs s' where h: "handleStoreEncryptedMessage demo_config quiet_env ?rq ?s = (rs, s')"
    by (cases "handleStoreEncryptedMessage demo_config quiet_env ?rq ?s")
  have c: "rs_code rs = 200" using envelope_accepted [of ?s] h by simp
  have "\<forall>c \<in> set (t_conversations (srv_db ?s)). conv_UserID c = ''u'' \<longrightarrow> GetAgent (conv_AgentID c) (srv_hub ?s) = None"
    by (simp add: newHub_def GetAgent_def)
  from encrypted_to_offline_agent_not_queued [OF h c alice_authenticated this] h show ?thesis by (auto simp: Let_def)
qed

end
