(* ===== verification/Attachments.thy ===== *)
theory Attachments
  imports Message_Handlers
begin

section \<open>Attachments\<close>

text \<open>
  attachments.go: upload, download and listing of files. The upload directory is the map \<open>app_files\<close> from
  paths to contents. What the handlers take from elsewhere is the record \<open>upload_env\<close>: SHA-256, content
  sniffing, the extensions of a content type, the year and month of an instant, serving a file over
  HTTP, the upload directory and the size limit, and which file operations fail.
\<close>

record upload_env =
  ue_sha256 :: "string \<Rightarrow> string"
  ue_detect :: "string \<Rightarrow> string"
  ue_exts :: "string \<Rightarrow> string list"
  ue_year :: "int \<Rightarrow> int"
  ue_month :: "int \<Rightarrow> int"
  ue_serve :: "http_request \<Rightarrow> string option \<Rightarrow> http_response"
  ue_dir :: string
  ue_max :: int
  ue_fails :: "string \<Rightarrow> bool"

text \<open>\<open>filepath.Ext\<close>: from the last dot of the last path element.\<close>

fun ext_rev :: "string \<Rightarrow> string \<Rightarrow> string" where
  "ext_rev [] acc = []"
| "ext_rev (c # cs) acc =
     (if c = CHR ''/'' then [] else if c = CHR ''.'' then c # acc else ext_rev cs (c # acc))"

definition filepath_Ext :: "string \<Rightarrow> string" where
  "filepath_Ext path = ext_rev (rev path) []"

definition allowed_types :: "string list" where
  "allowed_types = [''image/jpeg'', ''image/png'', ''image/gif'', ''image/webp'', ''image/svg+xml'', ''image/bmp'',
     ''application/pdf'', ''text/plain'', ''text/csv'', ''text/markdown'', ''application/json'',
     ''audio/mpeg'', ''audio/ogg'', ''audio/wav'', ''audio/webm'', ''audio/mp4'',
     ''video/mp4'', ''video/webm'', ''video/ogg'']"

definition isAllowedContentType :: "string \<Rightarrow> bool" where
  "isAllowedContentType ct \<longleftrightarrow>
     (\<exists>prefix \<in> set [''image/'', ''audio/'', ''video/'', ''text/'']. has_prefix ct prefix) \<or> ct \<in> set allowed_types"

text \<open>\<open>filepath.Join\<close> of clean elements.\<close>

definition join_path :: "string list \<Rightarrow> string" where
  "join_path parts = foldr (\<lambda>p acc. if acc = [] then p else p @ ''/'' @ acc) parts []"

text \<open>The opening that demands the prefix \<open>Bearer \<close>, in upload and list.\<close>

definition bearer_endpoint :: "config \<Rightarrow> env \<Rightarrow> string \<Rightarrow> (Claims \<Rightarrow> 's handler) \<Rightarrow> 's handler" where
  "bearer_endpoint cf e httpMethod body rq s =
     (let authHeader = rq_header rq ''Authorization'' in
      if rq_method rq \<noteq> httpMethod then (writeJSONError 405 ''method not allowed'', s)
      else if authHeader = [] \<or> \<not> has_prefix authHeader ''Bearer '' then (writeJSONError 401 ''authorization required'', s)
      else (case ValidateJWT (cf_jwt cf) (cf_jwtSecret cf) (clock e ''ValidateJWT'') (trim_prefix authHeader ''Bearer '') of
              Inl _ \<Rightarrow> (writeJSONError 401 ''invalid token'', s)
            | Inr claims \<Rightarrow> body claims rq s))"

definition insert_attachment :: "attachment_row \<Rightarrow> database \<Rightarrow> go_error + database" where
  "insert_attachment r d =
     (if at_id r \<in> at_id ` set (t_attachments d) then Inl ErrUnique
      else if \<not> user_exists d (at_user r) \<or> (case at_message r of None \<Rightarrow> False | Some m \<Rightarrow> \<not> message_exists d m)
        then Inl ErrForeignKey
      else Inr (d\<lparr>t_attachments := t_attachments d @ [r]\<rparr>))"

definition attachment_json :: "string \<Rightarrow> attachment_row \<Rightarrow> json" where
  "attachment_json created r = JObj
     [(''id'', JStr (at_id r)), (''filename'', JStr (at_filename r)), (''content_type'', JStr (at_content_type r)),
      (''size'', JNum (at_size r)), (''sha256'', JStr (at_sha256 r)), (''url'', JStr (''/attachments/'' @ at_id r)),
      (''created_at'', JStr created)]"

definition content_type_of :: "upload_env \<Rightarrow> uploaded_file \<Rightarrow> string" where
  "content_type_of ue f =
     (if up_type f = [] \<or> up_type f = ''application/octet-stream'' then ue_detect ue (take 512 (up_content f)) else up_type f)"

definition storage_ext :: "upload_env \<Rightarrow> string \<Rightarrow> uploaded_file \<Rightarrow> string" where
  "storage_ext ue ct f =
     (if filepath_Ext (up_filename f) = [] then (case ue_exts ue ct of [] \<Rightarrow> [] | x # _ \<Rightarrow> x)
      else filepath_Ext (up_filename f))"

text \<open>Integer division truncates towards zero.\<close>

definition go_quot :: "int \<Rightarrow> int \<Rightarrow> int" where
  "go_quot a b = sgn a * sgn b * (\<bar>a\<bar> div \<bar>b\<bar>)"

text \<open>\<open>fmt.Sprintf\<close> with \<open>%04d\<close> and \<open>%02d\<close>: zeros in front up to the width, the sign counted.\<close>

definition zero_pad :: "nat \<Rightarrow> int \<Rightarrow> string" where
  "zero_pad w n =
     (if n < 0 then CHR ''-'' # replicate (w - length (decimal n)) (CHR ''0'') @ nat_digits (nat (- n))
      else replicate (w - length (decimal n)) (CHR ''0'') @ decimal n)"

text \<open>The row and the path of an upload; the size is the number of bytes that were copied.\<close>

definition upload_row :: "upload_env \<Rightarrow> env \<Rightarrow> http_request \<Rightarrow> string \<Rightarrow> uploaded_file \<Rightarrow> attachment_row" where
  "upload_row ue e rq userID f =
     (let attachID = generateID ''att'' (clock e ''upload.id''); now = clock e ''upload.now'';
          ct = content_type_of ue f; mid = rq_form rq ''message_id''
      in \<lparr>at_id = attachID, at_message = (if mid = [] then None else Some mid), at_user = userID,
          at_filename = up_filename f, at_content_type = ct, at_size = int (length (up_content f)),
          at_sha256 = ue_sha256 ue (up_content f),
          at_storage_path = join_path [zero_pad 4 (ue_year ue now), zero_pad 2 (ue_month ue now), attachID @ storage_ext ue ct f],
          at_created_at = now\<rparr>)"

definition store_upload :: "config \<Rightarrow> upload_env \<Rightarrow> env \<Rightarrow> Claims \<Rightarrow> app handler" where
  "store_upload cf ue e claims rq a =
     (case rq_multipart rq of
       BadForm \<Rightarrow> (writeJSONError 400 ''file too large or invalid form data'', a)
     | NoFile \<Rightarrow> (writeJSONError 400 ''missing file field'', a)
     | FilePart f \<Rightarrow>
         (let ct = content_type_of ue f; row = upload_row ue e rq (UserID claims) f;
              path = join_path [ue_dir ue, at_storage_path row];
              stored = a\<lparr>app_files := gm_set path (up_content f) (app_files a)\<rparr>;
              removed = a\<lparr>app_files := gm_del path (app_files a)\<rparr>
          in if up_size f > ue_max ue then
               (writeJSONError 400 (''file too large (max '' @ decimal (go_quot (ue_max ue) (2 ^ 20)) @ '' MB)''), a)
             else if ue_fails ue ''seek'' \<and> (up_type f = [] \<or> up_type f = ''application/octet-stream'') then
               (writeJSONError 500 ''failed to process file'', a)
             else if \<not> isAllowedContentType ct then (writeJSONError 400 (''file type not allowed: '' @ ct), a)
             else if ue_fails ue ''mkdir'' \<or> ue_fails ue ''create'' then (writeJSONError 500 ''failed to store file'', a)
             else if ue_fails ue ''copy'' then (writeJSONError 500 ''failed to store file'', removed)
             else if sql_fails e ''upload.insert'' then (writeJSONError 500 ''failed to store attachment'', removed)
             else (case insert_attachment row (srv_db (app_server a)) of
                     Inl _ \<Rightarrow> (writeJSONError 500 ''failed to store attachment'', removed)
                   | Inr d \<Rightarrow>
                       (ok_json (attachment_json (cf_rfc3339 cf (at_created_at row)) row),
                        stored\<lparr>app_server := (app_server stored)\<lparr>srv_db := d\<rparr>\<rparr>))))"

definition handleUpload :: "config \<Rightarrow> upload_env \<Rightarrow> env \<Rightarrow> app handler" where
  "handleUpload cf ue e = bearer_endpoint cf e ''POST'' (store_upload cf ue e)"

text \<open>The caller of a download: a user, or an agent (the empty id).\<close>

definition download_caller :: "config \<Rightarrow> env \<Rightarrow> http_request \<Rightarrow> string + string" where
  "download_caller cf e rq =
     (let authHeader = rq_header rq ''Authorization''; agentSecret = rq_header rq ''X-Agent-Secret'' in
      if has_prefix authHeader ''Bearer '' then
        (case ValidateJWT (cf_jwt cf) (cf_jwtSecret cf) (clock e ''ValidateJWT'') (trim_prefix authHeader ''Bearer '') of
           Inl _ \<Rightarrow> Inl ''invalid token'' | Inr claims \<Rightarrow> Inr (UserID claims))
      else if agentSecret = [] \<or> agentSecret \<noteq> cf_envAgentSecret cf then Inl ''authorization required''
      else Inr [])"

definition handleGetAttachment :: "config \<Rightarrow> upload_env \<Rightarrow> env \<Rightarrow> app handler" where
  "handleGetAttachment cf ue e rq a =
     (let attachID = hd (split_on CHR ''/'' (trim_prefix (rq_path rq) ''/attachments/'')); d = srv_db (app_server a) in
      if rq_method rq \<noteq> ''GET'' then (writeJSONError 405 ''method not allowed'', a)
      else if attachID = [] then (writeJSONError 400 ''missing attachment id'', a)
      else (case download_caller cf e rq of
              Inl err \<Rightarrow> (writeJSONError 401 err, a)
            | Inr userID \<Rightarrow>
                if sql_fails e ''download.select'' then (writeJSONError 404 ''attachment not found'', a)
                else (case find (\<lambda>r. at_id r = attachID) (t_attachments d) of
                        None \<Rightarrow> (writeJSONError 404 ''attachment not found'', a)
                      | Some r \<Rightarrow>
                          if userID \<noteq> [] \<and> (sql_fails e ''download.owner'' \<or> at_user r \<noteq> userID) then
                            (writeJSONError 403 ''not authorized to access this attachment'', a)
                          else (ue_serve ue rq (gm_get (app_files a) (join_path [ue_dir ue, at_storage_path r])), a))))"

text \<open>The query of the list: the attachments of the messages of a conversation, newest first.\<close>

definition attachments_of :: "string \<Rightarrow> database \<Rightarrow> attachment_row list" where
  "attachments_of conversationID d = order_desc at_created_at
     (filter (\<lambda>r. \<exists>m \<in> set (t_messages d). at_message r = Some (m_id m) \<and> m_conversation m = conversationID)
       (t_attachments d))"

definition handleListAttachments :: "config \<Rightarrow> env \<Rightarrow> server handler" where
  "handleListAttachments cf e = bearer_endpoint cf e ''GET'' (\<lambda>claims rq s.
     let conversationID = rq_query rq ''conversation_id''; d = srv_db s in
     if conversationID = [] then (writeJSONError 400 ''conversation_id is required'', s)
     else (case getConversation e conversationID d of
             Inr (Some conv) \<Rightarrow>
               if conv_UserID conv \<noteq> UserID claims then (writeJSONError 404 ''conversation not found'', s)
               else if sql_fails e ''listAttachments'' then (writeJSONError 500 ''failed to list attachments'', s)
               else (ok_json (JArr (map (\<lambda>r. attachment_json (cf_json_time cf (at_created_at r)) r)
                       (attachments_of conversationID d))), s)
           | _ \<Rightarrow> (writeJSONError 404 ''conversation not found'', s)))"

subsection \<open>Paths\<close>

lemma set_ext_rev: "set (ext_rev s acc) \<subseteq> set s \<union> set acc"
  by (induction s acc rule: ext_rev.induct) (auto split: if_splits)

lemma ext_rev_no_slash: "CHR ''/'' \<notin> set acc \<Longrightarrow> CHR ''/'' \<notin> set (ext_rev s acc)"
  by (induction s acc rule: ext_rev.induct) auto

lemma digit_char_no_slash: "n < 10 \<Longrightarrow> digit_char n \<noteq> CHR ''/''"
proof
  assume "n < 10" and "digit_char n = CHR ''/''"
  then have "(of_char (digit_char n) :: nat) = of_char CHR ''/''" by simp
  with \<open>n < 10\<close> show False by (simp add: digit_char_def)
qed

lemma nat_digits_no_slash: "CHR ''/'' \<notin> set (nat_digits n)"
proof (induction n rule: nat_digits.induct)
  case (1 n)
  then show ?case
    by (subst nat_digits.simps) (use digit_char_no_slash in \<open>auto dest: sym\<close>)
qed

lemma decimal_no_slash: "CHR ''/'' \<notin> set (decimal n)"
  using nat_digits_no_slash by (simp add: decimal_def)

lemma storage_name_no_slash:
  assumes "\<forall>ct x. x \<in> set (ue_exts ue ct) \<longrightarrow> CHR ''/'' \<notin> set x"
  shows "CHR ''/'' \<notin> set (generateID ''att'' t @ storage_ext ue ct f)"
proof -
  have "CHR ''/'' \<notin> set (storage_ext ue ct f)"
  proof (cases "ue_exts ue ct")
    case Nil
    then show ?thesis by (simp add: storage_ext_def filepath_Ext_def ext_rev_no_slash)
  next
    case (Cons x xs)
    then have "CHR ''/'' \<notin> set x" using assms by (metis list.set_intros(1))
    then show ?thesis using Cons by (simp add: storage_ext_def filepath_Ext_def ext_rev_no_slash)
  qed
  then show ?thesis using decimal_no_slash by (simp add: generateID_def)
qed

text \<open>A path element that names an entry of its directory: it leads neither up nor down.\<close>

definition plain_element :: "string \<Rightarrow> bool" where
  "plain_element p \<longleftrightarrow> p \<noteq> [] \<and> p \<noteq> ''.'' \<and> p \<noteq> ''..'' \<and> CHR ''/'' \<notin> set p"

lemma digit_char_no_dot: "n < 10 \<Longrightarrow> digit_char n \<noteq> CHR ''.''"
proof
  assume "n < 10" and "digit_char n = CHR ''.''"
  then have "(of_char (digit_char n) :: nat) = of_char CHR ''.''" by simp
  with \<open>n < 10\<close> show False by (simp add: digit_char_def)
qed

lemma nat_digits_no_dot: "CHR ''.'' \<notin> set (nat_digits n)"
proof (induction n rule: nat_digits.induct)
  case (1 n)
  then show ?case
    by (subst nat_digits.simps) (use digit_char_no_dot in \<open>auto dest: sym\<close>)
qed

lemma zero_pad_plain: "plain_element (zero_pad w n)"
proof -
  have "nat_digits k \<noteq> []" for k by (subst nat_digits.simps) simp
  then have "zero_pad w n \<noteq> []" by (simp add: zero_pad_def decimal_def)
  moreover have "CHR ''/'' \<notin> set (zero_pad w n)" "CHR ''.'' \<notin> set (zero_pad w n)"
    using nat_digits_no_slash nat_digits_no_dot by (auto simp: zero_pad_def decimal_def)
  ultimately show ?thesis by (auto simp: plain_element_def)
qed

lemma storage_name_plain:
  assumes "\<forall>ct x. x \<in> set (ue_exts ue ct) \<longrightarrow> CHR ''/'' \<notin> set x"
  shows "plain_element (generateID ''att'' t @ storage_ext ue ct f)"
  using storage_name_no_slash [OF assms] by (simp add: plain_element_def generateID_def)

subsection \<open>Uploading\<close>

definition upload_path :: "upload_env \<Rightarrow> attachment_row \<Rightarrow> string" where
  "upload_path ue row = join_path [ue_dir ue, at_storage_path row]"

lemma bearer_endpoint_cases:
  "(\<exists>rs. bearer_endpoint cf e m body rq s = (rs, s) \<and> rs_code rs \<in> {401, 405}) \<or>
   (\<exists>claims. ValidateJWT (cf_jwt cf) (cf_jwtSecret cf) (clock e ''ValidateJWT'')
        (trim_prefix (rq_header rq ''Authorization'') ''Bearer '') = Inr claims \<and>
      bearer_endpoint cf e m body rq s = body claims rq s)"
  by (simp add: bearer_endpoint_def Let_def split: sum.splits)

lemma insert_attachment_Inr:
  assumes "insert_attachment r d = Inr d'"
  shows "d' = d\<lparr>t_attachments := t_attachments d @ [r]\<rparr>" and "user_exists d (at_user r)"
    and "at_message r = Some m \<Longrightarrow> message_exists d m"
  using assms by (auto simp: insert_attachment_def split: if_splits option.splits)

lemma insert_attachment_ok: "insert_attachment r d = Inr d' \<Longrightarrow> db_ok d \<Longrightarrow> db_ok d'"
  using insert_attachment_Inr [of r d d'] by (auto simp: db_ok_def exists_defs)

lemma handleUpload_cases:
  assumes "handleUpload cf ue e rq a = (rs, a')"
  shows "rs_code rs \<noteq> 200 \<and> (a' = a \<or> (\<exists>f u. rq_multipart rq = FilePart f \<and>
       a' = a\<lparr>app_files := gm_del (upload_path ue (upload_row ue e rq u f)) (app_files a)\<rparr>)) \<or>
    (\<exists>claims f d. ValidateJWT (cf_jwt cf) (cf_jwtSecret cf) (clock e ''ValidateJWT'')
         (trim_prefix (rq_header rq ''Authorization'') ''Bearer '') = Inr claims \<and>
       rq_multipart rq = FilePart f \<and> up_size f \<le> ue_max ue \<and> isAllowedContentType (content_type_of ue f) \<and>
       insert_attachment (upload_row ue e rq (UserID claims) f) (srv_db (app_server a)) = Inr d \<and> rs_code rs = 200 \<and>
       a' = a\<lparr>app_files := gm_set (upload_path ue (upload_row ue e rq (UserID claims) f)) (up_content f) (app_files a),
              app_server := (app_server a)\<lparr>srv_db := d\<rparr>\<rparr>)"
proof -
  consider (refused) rs1 where "handleUpload cf ue e rq a = (rs1, a)" "rs_code rs1 \<in> {401, 405}"
    | (opened) claims where "ValidateJWT (cf_jwt cf) (cf_jwtSecret cf) (clock e ''ValidateJWT'')
        (trim_prefix (rq_header rq ''Authorization'') ''Bearer '') = Inr claims"
        "handleUpload cf ue e rq a = store_upload cf ue e claims rq a"
    using bearer_endpoint_cases [of cf e "''POST''" "store_upload cf ue e" rq a] unfolding handleUpload_def by blast
  then show ?thesis
  proof cases
    case refused
    then show ?thesis using assms by auto
  next
    case opened
    show ?thesis
    proof (cases "rq_multipart rq")
      case (FilePart f)
      show ?thesis
      proof (cases "rs_code rs = 200")
        case True
        have "up_size f \<le> ue_max ue" "isAllowedContentType (content_type_of ue f)"
          "\<exists>d. insert_attachment (upload_row ue e rq (UserID claims) f) (srv_db (app_server a)) = Inr d \<and>
             a' = a\<lparr>app_files := gm_set (upload_path ue (upload_row ue e rq (UserID claims) f)) (up_content f) (app_files a),
              app_server := (app_server a)\<lparr>srv_db := d\<rparr>\<rparr>"
          using assms True opened FilePart
          by (auto simp: store_upload_def Let_def upload_path_def split: if_splits sum.splits)
        then show ?thesis using True opened FilePart by blast
      next
        case False
        then have "a' = a \<or> a' = a\<lparr>app_files := gm_del (upload_path ue (upload_row ue e rq (UserID claims) f)) (app_files a)\<rparr>"
          using assms opened FilePart
          by (auto simp: store_upload_def Let_def upload_path_def split: if_splits sum.splits)
        then show ?thesis using False FilePart by blast
      qed
    qed (use assms opened in \<open>auto simp: store_upload_def\<close>)
  qed
qed

text \<open>C28: An upload is all or nothing, and stays in its directory. If \<open>handleUpload\<close> answers 200, the caller had a
  valid token, the file was within the limit and of an allowed type, and exactly one file and one row were added
  and nothing else changed: the row records the size, the hash and the owner and the path year/month/name, the year
  and the month as padded decimal numbers and the name starting with \<open>att_\<close>, none of the three leading up or down
  in the file system; the file has the uploaded content and lies at that path in the upload directory. If it
  answers anything else, the database and all files are as before. (The path of the new file is assumed to be
  unused, and the extensions of the media type table to hold no slash.)\<close>

theorem upload_all_or_nothing:
  assumes "handleUpload cf ue e rq a = (rs, a')" and "db_ok (srv_db (app_server a))"
    and "\<forall>ct x. x \<in> set (ue_exts ue ct) \<longrightarrow> CHR ''/'' \<notin> set x"
    and "\<forall>f u. rq_multipart rq = FilePart f \<longrightarrow> gm_get (app_files a) (upload_path ue (upload_row ue e rq u f)) = None"
  shows "rs_code rs \<noteq> 200 \<and> app_server a' = app_server a \<and> (\<forall>p. gm_get (app_files a') p = gm_get (app_files a) p) \<or>
    rs_code rs = 200 \<and>
    (\<exists>claims f row. ValidateJWT (cf_jwt cf) (cf_jwtSecret cf) (clock e ''ValidateJWT'')
         (trim_prefix (rq_header rq ''Authorization'') ''Bearer '') = Inr claims \<and>
       rq_multipart rq = FilePart f \<and> up_size f \<le> ue_max ue \<and> isAllowedContentType (content_type_of ue f) \<and>
       app_server a' = (app_server a)\<lparr>srv_db := (srv_db (app_server a))\<lparr>t_attachments :=
         t_attachments (srv_db (app_server a)) @ [row]\<rparr>\<rparr> \<and> db_ok (srv_db (app_server a')) \<and>
       at_user row = UserID claims \<and> at_size row = int (length (up_content f)) \<and> at_sha256 row = ue_sha256 ue (up_content f) \<and>
       (\<exists>y m name. at_storage_path row = join_path [zero_pad 4 y, zero_pad 2 m, name] \<and> take 4 name = ''att_'' \<and>
          plain_element (zero_pad 4 y) \<and> plain_element (zero_pad 2 m) \<and> plain_element name) \<and>
       (\<forall>p. gm_get (app_files a') p =
          (if p = join_path [ue_dir ue, at_storage_path row] then Some (up_content f) else gm_get (app_files a) p)))"
proof -
  from handleUpload_cases [OF assms(1)] show ?thesis
  proof (elim disjE exE conjE)
    fix claims :: Claims and f d
    let ?row = "upload_row ue e rq (UserID claims) f" and ?t = "clock e ''upload.id''"
    let ?y = "ue_year ue (clock e ''upload.now'')" and ?m = "ue_month ue (clock e ''upload.now'')"
    let ?name = "generateID ''att'' ?t @ storage_ext ue (content_type_of ue f) f"
    assume v: "ValidateJWT (cf_jwt cf) (cf_jwtSecret cf) (clock e ''ValidateJWT'')
         (trim_prefix (rq_header rq ''Authorization'') ''Bearer '') = Inr claims"
      and f: "rq_multipart rq = FilePart f" "up_size f \<le> ue_max ue" "isAllowedContentType (content_type_of ue f)"
      and ins: "insert_attachment ?row (srv_db (app_server a)) = Inr d" and ok: "rs_code rs = 200"
      and a': "a' = a\<lparr>app_files := gm_set (upload_path ue ?row) (up_content f) (app_files a),
              app_server := (app_server a)\<lparr>srv_db := d\<rparr>\<rparr>"
    have "take 4 ?name = ''att_''" by (simp add: generateID_def)
    moreover have "at_storage_path ?row = join_path [zero_pad 4 ?y, zero_pad 2 ?m, ?name]"
      by (simp add: upload_row_def Let_def)
    ultimately have path: "\<exists>y m name. at_storage_path ?row = join_path [zero_pad 4 y, zero_pad 2 m, name] \<and> take 4 name = ''att_'' \<and>
        plain_element (zero_pad 4 y) \<and> plain_element (zero_pad 2 m) \<and> plain_element name"
      using zero_pad_plain storage_name_plain [OF assms(3)] by blast
    have "app_server a' = (app_server a)\<lparr>srv_db := (srv_db (app_server a))\<lparr>t_attachments :=
        t_attachments (srv_db (app_server a)) @ [?row]\<rparr>\<rparr>"
      using insert_attachment_Inr(1) [OF ins] by (simp add: a')
    moreover have "at_user ?row = UserID claims" "at_size ?row = int (length (up_content f))"
      "at_sha256 ?row = ue_sha256 ue (up_content f)" by (simp_all add: upload_row_def Let_def)
    moreover have "db_ok (srv_db (app_server a'))" using insert_attachment_ok [OF ins assms(2)] by (simp add: a')
    moreover have "\<forall>p. gm_get (app_files a') p =
        (if p = join_path [ue_dir ue, at_storage_path ?row] then Some (up_content f) else gm_get (app_files a) p)"
      by (simp add: a' upload_path_def)
    ultimately show ?thesis using v f path ok by blast
  qed (use assms(4) in auto)
qed

subsection \<open>Whose messages, whose files\<close>

text \<open>An upload may name any message: the server does not ask whether the uploader takes part in the
  conversation. Whoever has a valid token can put a file on a message of a stranger, and the owner
  of that conversation then finds it in the list of attachments.\<close>

theorem upload_to_foreign_message:
  assumes "handleUpload cf ue e rq a = (rs, a')" and "rs_code rs = 200"
    and "msg \<in> set (t_messages (srv_db (app_server a)))" and "rq_form rq ''message_id'' = m_id msg" and "m_id msg \<noteq> []"
  shows "\<exists>claims row. ValidateJWT (cf_jwt cf) (cf_jwtSecret cf) (clock e ''ValidateJWT'')
       (trim_prefix (rq_header rq ''Authorization'') ''Bearer '') = Inr claims \<and> at_user row = UserID claims \<and>
    row \<in> set (attachments_of (m_conversation msg) (srv_db (app_server a')))"
proof -
  from handleUpload_cases [OF assms(1)] assms(2) obtain claims :: Claims and f d
    where v: "ValidateJWT (cf_jwt cf) (cf_jwtSecret cf) (clock e ''ValidateJWT'')
       (trim_prefix (rq_header rq ''Authorization'') ''Bearer '') = Inr claims"
      and ins: "insert_attachment (upload_row ue e rq (UserID claims) f) (srv_db (app_server a)) = Inr d"
      and a': "srv_db (app_server a') = d" by (elim disjE exE conjE) auto
  let ?row = "upload_row ue e rq (UserID claims) f"
  have "at_message ?row = Some (m_id msg)" "at_user ?row = UserID claims"
    using assms(4,5) by (simp_all add: upload_row_def Let_def)
  moreover from this assms(3) have "?row \<in> set (attachments_of (m_conversation msg) (srv_db (app_server a')))"
    by (auto simp: attachments_of_def order_desc_def a' insert_attachment_Inr(1) [OF ins])
  ultimately show ?thesis using v by blast
qed

text \<open>The outcome of a download of an existing file: only the uploader and callers without a user id are served.\<close>

lemma handleGetAttachment_found:
  assumes "rq_method rq = ''GET''" and "hd (split_on CHR ''/'' (trim_prefix (rq_path rq) ''/attachments/'')) = at_id r" and "at_id r \<noteq> []"
    and "find (\<lambda>x. at_id x = at_id r) (t_attachments (srv_db (app_server a))) = Some r"
    and "download_caller cf e rq = Inr u" and "\<not> sql_fails e ''download.select''" and "\<not> sql_fails e ''download.owner''"
  shows "handleGetAttachment cf ue e rq a =
    (if u = [] \<or> at_user r = u then ue_serve ue rq (gm_get (app_files a) (join_path [ue_dir ue, at_storage_path r]))
     else writeJSONError 403 ''not authorized to access this attachment'', a)"
  using assms by (simp add: handleGetAttachment_def Let_def)

text \<open>C29: A download asks only for the uploader, not for participation. A user whose conversation holds the message
  that a file of somebody else hangs on has the file in the list of attachments of the conversation, but downloading
  it is answered with 403, although the comment in the code promises access by participation; a caller
  without a user id (one with the agent secret, or a token whose user id is empty) is served every file.\<close>

theorem participant_cannot_download:
  assumes "distinct (map at_id (t_attachments (srv_db (app_server a))))" and "r \<in> set (t_attachments (srv_db (app_server a)))" and "at_id r \<noteq> []"
    and "msg \<in> set (t_messages (srv_db (app_server a)))" and "at_message r = Some (m_id msg)"
    and "conv \<in> set (t_conversations (srv_db (app_server a)))" and "conv_ID conv = m_conversation msg"
    and "conv_UserID conv = u" and "u \<noteq> []" and "at_user r \<noteq> u"
    and "\<not> sql_fails e ''download.select''" and "\<not> sql_fails e ''download.owner''"
    and "rq_method rq = ''GET''" and "hd (split_on CHR ''/'' (trim_prefix (rq_path rq) ''/attachments/'')) = at_id r"
    and "rq_method rq' = ''GET''" and "hd (split_on CHR ''/'' (trim_prefix (rq_path rq') ''/attachments/'')) = at_id r"
    and "download_caller cf e rq = Inr u" and "download_caller cf e rq' = Inr []"
  shows "r \<in> set (attachments_of (conv_ID conv) (srv_db (app_server a))) \<and>
    handleGetAttachment cf ue e rq a = (writeJSONError 403 ''not authorized to access this attachment'', a) \<and>
    handleGetAttachment cf ue e rq' a = (ue_serve ue rq' (gm_get (app_files a) (join_path [ue_dir ue, at_storage_path r])), a)"
proof -
  have f: "find (\<lambda>x. at_id x = at_id r) (t_attachments (srv_db (app_server a))) = Some r"
    using assms(1,2) by (rule find_key)
  have "r \<in> set (attachments_of (conv_ID conv) (srv_db (app_server a)))"
    using assms(2,4,5,7) by (auto simp: attachments_of_def order_desc_def)
  with handleGetAttachment_found [OF assms(13,14,3) f assms(17,11,12)]
    handleGetAttachment_found [OF assms(15,16,3) f assms(18,11,12)] assms(9,10)
  show ?thesis by simp
qed

subsection \<open>A concrete upload\<close>

definition demo_uploads :: upload_env where
  "demo_uploads = \<lparr>ue_sha256 = (\<lambda>s. ''h'' @ s), ue_detect = (\<lambda>_. ''text/plain''), ue_exts = (\<lambda>_. [''.txt'']),
     ue_year = (\<lambda>_. 2026), ue_month = (\<lambda>_. 1), ue_serve = (\<lambda>rq f. writeJSON (if f = None then 404 else 200) JNull),
     ue_dir = ''/up'', ue_max = 100, ue_fails = (\<lambda>_. False)\<rparr>"

definition upload_request :: http_request where
  "upload_request = request ''POST'' [(''Authorization'', alice_token)] [(''message_id'', ''m1'')]
     \<lparr>rq_multipart := FilePart \<lparr>up_filename = ''../a.txt'', up_size = 5, up_type = ''text/plain'', up_content = ''hello''\<rparr>\<rparr>"

lemma upload_request_facts:
  "rq_method upload_request = ''POST''" "rq_header upload_request ''Authorization'' = alice_token"
  "rq_form upload_request ''message_id'' = ''m1''"
  "rq_multipart upload_request = FilePart \<lparr>up_filename = ''../a.txt'', up_size = 5, up_type = ''text/plain'', up_content = ''hello''\<rparr>"
  by (simp_all add: upload_request_def request_def)

lemma demo_upload_accepted: "rs_code (fst (handleUpload demo_config demo_uploads quiet_env upload_request demo_app)) = 200"
  by (simp add: handleUpload_def bearer_endpoint_def upload_request_facts store_upload_def alice_token_def has_prefix_def
      trim_prefix_def ValidateJWT_def demo_jwt_def demo_uploads_def content_type_of_def isAllowedContentType_def
      insert_attachment_def upload_row_def user_exists_def message_exists_def example_message_def Let_def)

theorem upload_all_or_nothing_witness:
  "\<exists>row. t_attachments (srv_db (app_server (snd (handleUpload demo_config demo_uploads quiet_env upload_request demo_app)))) = [row] \<and>
     at_sha256 row = ''hhello''"
proof -
  obtain rs a' where h: "handleUpload demo_config demo_uploads quiet_env upload_request demo_app = (rs, a')"
    by (cases "handleUpload demo_config demo_uploads quiet_env upload_request demo_app")
  have "app_files demo_app = []" by (simp add: demo_app_def new_app_def)
  then show ?thesis
    using upload_all_or_nothing [OF h] example_db_ok demo_upload_accepted h
    by (auto simp: demo_uploads_def upload_request_facts)
qed

theorem upload_to_foreign_message_witness:
  "\<exists>row. row \<in> set (attachments_of (m_conversation example_message)
     (srv_db (app_server (snd (handleUpload demo_config demo_uploads quiet_env upload_request demo_app)))))"
proof -
  obtain rs a' where h: "handleUpload demo_config demo_uploads quiet_env upload_request demo_app = (rs, a')"
    by (cases "handleUpload demo_config demo_uploads quiet_env upload_request demo_app")
  have c: "rs_code rs = 200" using demo_upload_accepted h by simp
  have "example_message \<in> set (t_messages (srv_db (app_server demo_app)))" by simp
  from upload_to_foreign_message [OF h c this] h show ?thesis by (auto simp: upload_request_facts example_message_def)
qed

text \<open>Bob has put a file on the message of Alice's conversation.\<close>

definition foreign_file :: attachment_row where
  "foreign_file = \<lparr>at_id = ''f'', at_message = Some ''m1'', at_user = ''bob'', at_filename = ''b.txt'', at_content_type = ''text/plain'',
     at_size = 1, at_sha256 = ''h'', at_storage_path = ''2026/01/f.txt'', at_created_at = 0\<rparr>"

definition foreign_db :: database where
  "foreign_db = example_db\<lparr>t_users := t_users example_db @ [\<lparr>u_id = ''bob'', u_username = ''bob'', u_password_hash = []\<rparr>],
     t_attachments := [foreign_file]\<rparr>"

theorem participant_cannot_download_witness:
  "fst (handleGetAttachment demo_config demo_uploads quiet_env
       ((request ''GET'' [(''Authorization'', alice_token)] [])\<lparr>rq_path := ''/attachments/f''\<rparr>)
       (demo_app\<lparr>app_server := (app_server demo_app)\<lparr>srv_db := foreign_db\<rparr>\<rparr>)) =
     writeJSONError 403 ''not authorized to access this attachment''"
  (is "fst (handleGetAttachment _ _ _ ?rq ?a) = _")
proof -
  let ?agent = "(request ''GET'' [(''X-Agent-Secret'', ''s3cret'')] [])\<lparr>rq_path := ''/attachments/f''\<rparr>"
  let ?conv = "\<lparr>conv_ID = ''c'', conv_UserID = ''u'', conv_AgentID = ''a'', conv_CreatedAt = 0\<rparr>"
  have u: "download_caller demo_config quiet_env ?rq = Inr ''u''"
    by (simp add: download_caller_def alice_token_def trim_prefix_def has_prefix_def ValidateJWT_def demo_jwt_def)
  have ag: "download_caller demo_config quiet_env ?agent = Inr []"
    by (simp add: download_caller_def has_prefix_def)
  show ?thesis
    using participant_cannot_download [of ?a foreign_file example_message ?conv "''u''" quiet_env ?rq ?agent demo_config demo_uploads]
      u ag
    by (simp add: foreign_db_def foreign_file_def example_message_def trim_prefix_def has_prefix_def)
qed

end
