(* ===== verification/Tier_Handlers.thy ===== *)
theory Tier_Handlers
  imports Auth_Safety
begin

section \<open>Request limits by plan: middleware, persistence and administration\<close>

text \<open>
  The rest of rate_limit_tiers.go: the middleware that enforces the plans on HTTP requests, the table in
  which plans survive a restart, and the two administration endpoints.
\<close>

text \<open>The id a request is counted under: the user of a valid bearer token, or the remote address.\<close>

definition tier_key :: "config \<Rightarrow> env \<Rightarrow> http_request \<Rightarrow> string" where
  "tier_key cf e rq =
     (let tok = rq_header rq ''Authorization'';
          userID = (if length tok > 7 \<and> take 7 tok = ''Bearer '' then
                      (case ValidateJWT (cf_jwt cf) (cf_jwtSecret cf) (clock e ''tier.ValidateJWT'') (drop 7 tok) of
                         Inr claims \<Rightarrow> UserID claims | Inl _ \<Rightarrow> [])
                    else [])
      in if userID = [] then ''ip:'' @ rq_remote rq else userID)"

definition tieredRateLimitMiddleware :: "config \<Rightarrow> env \<Rightarrow> app handler \<Rightarrow> app handler" where
  "tieredRateLimitMiddleware cf e next rq a =
     (let userID = tier_key cf e rq;
          (ans, trl) = Tiered_Allow (clock e ''globalTieredLimiter'') userID (globalTieredLimiter a);
          a1 = a\<lparr>globalTieredLimiter := trl\<rparr>;
          limit_headers = (\<lambda>rest rs. set_header ''X-RateLimit-Limit'' (itoa (Burst (GetTier userID trl)))
                             (set_header ''X-RateLimit-Remaining'' rest rs))
      in if \<not> allowed ans then
           (limit_headers ''0'' (set_header ''Retry-After'' (itoa (retryAfter ans)) (writeJSONError 429 ''rate limit exceeded'')), a1)
         else (let (rs, a2) = next rq a1 in (limit_headers (itoa (remaining ans)) rs, a2)))"

subsection \<open>Persistence\<close>

definition tier_named :: "string \<Rightarrow> RateLimitTier" where
  "tier_named n = (if n = ''pro'' then TierPro else if n = ''enterprise'' then TierEnterprise else TierFree)"

fun load_tier_rows :: "env \<Rightarrow> tier_row list \<Rightarrow> TieredRateLimiter \<Rightarrow> TieredRateLimiter" where
  "load_tier_rows e [] trl = trl"
| "load_tier_rows e (r # rs) trl =
     (let t = tier_named (rt_tier r) in
      load_tier_rows e rs
        (if Name t \<noteq> ''free'' then SetTier (clock e (''loadTiersFromDB.'' @ rt_user r)) (rt_user r) t trl else trl))"

definition loadTiersFromDB :: "env \<Rightarrow> database option \<Rightarrow> TieredRateLimiter \<Rightarrow> go_error option \<times> TieredRateLimiter" where
  "loadTiersFromDB e db trl =
     (case db of
        None \<Rightarrow> (None, trl)
      | Some d \<Rightarrow> if sql_fails e ''loadTiersFromDB'' then (Some ErrSQL, trl)
                  else (None, load_tier_rows e (t_tiers d) trl))"

text \<open>\<open>INSERT OR REPLACE INTO user_rate_limit_tiers\<close>: a replaced row is deleted and inserted again; the user
  must exist.\<close>

definition persistTierToDB :: "env \<Rightarrow> string \<Rightarrow> RateLimitTier \<Rightarrow> database \<Rightarrow> go_error option \<times> database" where
  "persistTierToDB e userID t d =
     (if sql_fails e ''persistTierToDB'' then (Some ErrSQL, d)
      else if \<not> user_exists d userID then (Some ErrForeignKey, d)
      else (None, d\<lparr>t_tiers := filter (\<lambda>r. rt_user r \<noteq> userID) (t_tiers d) @ [\<lparr>rt_user = userID, rt_tier = Name t\<rparr>]\<rparr>))"

subsection \<open>Administration\<close>

definition handleSetRateLimitTier :: "config \<Rightarrow> env \<Rightarrow> app handler" where
  "handleSetRateLimitTier cf e rq a =
     (let h = rq_header rq ''X-Admin-Secret'';
          secret = (if h = [] then rq_form rq ''admin_secret'' else h);
          userID = rq_form rq ''user_id''; tierName = rq_form rq ''tier''
      in if rq_method rq \<noteq> ''POST'' then (writeJSONError 405 ''method not allowed'', a)
         else if \<not> ValidateAdminSecret cf secret then (writeJSONError 401 ''unauthorized'', a)
         else if userID = [] \<or> tierName = [] then (writeJSONError 400 ''missing user_id or tier'', a)
         else if tierName \<notin> {''free'', ''pro'', ''enterprise''} then (writeJSONError 400 (''unknown tier: '' @ tierName), a)
         else
           (let t = tier_named tierName;
                d = snd (persistTierToDB e userID t (srv_db (app_server a)))
            in (writeJSON 200 (str_obj [(''status'', ''ok''), (''tier'', tierName), (''user_id'', userID)]),
                a\<lparr>globalTieredLimiter := SetTier (clock e ''SetTier'') userID t (globalTieredLimiter a),
                  app_server := (app_server a)\<lparr>srv_db := d\<rparr>\<rparr>)))"

definition handleGetRateLimitTier :: "config \<Rightarrow> env \<Rightarrow> app handler" where
  "handleGetRateLimitTier cf e rq a =
     (let h = rq_header rq ''X-Admin-Secret'';
          secret = (if h = [] then rq_query rq ''admin_secret'' else h);
          userID = rq_query rq ''user_id'';
          t = GetTier userID (globalTieredLimiter a)
      in if rq_method rq \<noteq> ''GET'' then (writeJSONError 405 ''method not allowed'', a)
         else if \<not> ValidateAdminSecret cf secret then (writeJSONError 401 ''unauthorized'', a)
         else if userID = [] then (writeJSONError 400 ''missing user_id'', a)
         else (writeJSON 200 (JObj [(''burst'', JNum (Burst t)),
                 (''remaining'', JNum (GetRemaining (clock e ''GetRemaining'') userID (globalTieredLimiter a))),
                 (''tier'', JStr (Name t)), (''user_id'', JStr userID), (''window_sec'', JNum (dur_seconds (Window t)))]), a))"

definition handleAdminRateLimitTier :: "config \<Rightarrow> env \<Rightarrow> app handler" where
  "handleAdminRateLimitTier cf e rq a =
     (if rq_method rq = ''POST'' then handleSetRateLimitTier cf e rq a else handleGetRateLimitTier cf e rq a)"

subsection \<open>Plans survive a restart\<close>

lemma GetTier_SetTier: "GetTier u (SetTier now v t trl) = (if u = v then t else GetTier u trl)"
  by (auto simp: GetTier_def SetTier_def split: option.splits)

lemma load_tier_rows_append: "load_tier_rows e (rs @ qs) trl = load_tier_rows e qs (load_tier_rows e rs trl)"
  by (induction e rs trl rule: load_tier_rows.induct) (simp_all add: Let_def)

lemma load_tier_rows_other: "u \<notin> rt_user ` set rs \<Longrightarrow> GetTier u (load_tier_rows e rs trl) = GetTier u trl"
  by (induction e rs trl rule: load_tier_rows.induct) (auto simp: Let_def GetTier_SetTier)

lemma tier_named_Name: "tier_named (Name (tier_named n)) = tier_named n" "Name (tier_named n) = ''free'' \<Longrightarrow> tier_named n = TierFree"
  by (auto simp: tier_named_def tier_defs)

text \<open>Plans survive a restart: when an administrator sets the plan of an existing user, the plan applies
  at once, and a limiter that starts empty and loads the table after a restart gives the user the
  same plan, while the plans of other users stay as they were.\<close>

theorem tier_survives_restart:
  assumes "handleSetRateLimitTier cf e rq a = (rs, a')" and "rs_code rs = 200"
    and "user_exists (srv_db (app_server a)) (rq_form rq ''user_id'')" and "\<not> sql_fails e ''persistTierToDB''"
    and "\<not> sql_fails e2 ''loadTiersFromDB''"
    and "loadTiersFromDB e2 (Some (srv_db (app_server a'))) NewTieredRateLimiter = (r, trl)"
  shows "GetTier (rq_form rq ''user_id'') (globalTieredLimiter a') = tier_named (rq_form rq ''tier'') \<and>
    GetTier (rq_form rq ''user_id'') trl = tier_named (rq_form rq ''tier'') \<and>
    (\<forall>u. u \<noteq> rq_form rq ''user_id'' \<longrightarrow> GetTier u (globalTieredLimiter a') = GetTier u (globalTieredLimiter a))"
proof -
  let ?u = "rq_form rq ''user_id''" and ?t = "tier_named (rq_form rq ''tier'')"
  have a': "a' = a\<lparr>globalTieredLimiter := SetTier (clock e ''SetTier'') ?u ?t (globalTieredLimiter a),
      app_server := (app_server a)\<lparr>srv_db := snd (persistTierToDB e ?u ?t (srv_db (app_server a)))\<rparr>\<rparr>"
    using assms(1,2) by (auto simp: handleSetRateLimitTier_def Let_def split: if_splits)
  let ?rs = "filter (\<lambda>r. rt_user r \<noteq> ?u) (t_tiers (srv_db (app_server a)))"
  have rows: "t_tiers (srv_db (app_server a')) = ?rs @ [\<lparr>rt_user = ?u, rt_tier = Name ?t\<rparr>]"
    using assms(3,4) by (simp add: a' persistTierToDB_def)
  have "GetTier ?u (load_tier_rows e2 ?rs NewTieredRateLimiter) = TierFree"
    by (subst load_tier_rows_other) (auto simp: GetTier_def NewTieredRateLimiter_def)
  then have "GetTier ?u trl = ?t"
    using assms(5,6) tier_named_Name [of "rq_form rq ''tier''"]
    by (auto simp: loadTiersFromDB_def rows load_tier_rows_append GetTier_SetTier Let_def split: if_splits)
  then show ?thesis by (simp add: a' GetTier_SetTier)
qed

subsection \<open>Requests without a token\<close>

lemma tier_key_anonymous: "rq_header rq ''Authorization'' = [] \<Longrightarrow> tier_key cf e rq = ''ip:'' @ rq_remote rq"
  by (simp add: tier_key_def)

lemma last_index_port:
  assumes "CHR '':'' \<notin> set p"
  shows "last_index CHR '':'' (h @ '':'' @ p) = Some (length h)"
proof -
  have "find_index (\<lambda>x. x = CHR '':'') (rev p @ CHR '':'' # rev h) = Some (length p)"
    using assms
  proof (induction p rule: rev_induct)
    case (snoc x xs)
    then show ?case by auto
  qed simp
  then show ?thesis by (simp add: last_index_def)
qed

text \<open>Requests without a token are not limited per IP address but per connection: two such requests from
  the same host and different ports count under different ids, although \<open>extractIP\<close> finds the same
  address for both.\<close>

theorem anonymous_limit_is_per_port:
  assumes "rq_header rq ''Authorization'' = []" and "rq_header rq ''X-Forwarded-For'' = []" and "rq_header rq ''X-Real-IP'' = []"
    and "CHR '':'' \<notin> set p" and "CHR '':'' \<notin> set q" and "p \<noteq> q"
  shows "extractIP (rq\<lparr>rq_remote := h @ '':'' @ p\<rparr>) = extractIP (rq\<lparr>rq_remote := h @ '':'' @ q\<rparr>) \<and>
    tier_key cf e (rq\<lparr>rq_remote := h @ '':'' @ p\<rparr>) \<noteq> tier_key cf e (rq\<lparr>rq_remote := h @ '':'' @ q\<rparr>)"
  using assms last_index_port [of p h] last_index_port [of q h]
  by (simp add: tier_key_anonymous extractIP_def)

theorem tier_survives_restart_witness:
  "let a' = snd (handleSetRateLimitTier demo_config quiet_env
       (request ''POST'' [(''X-Admin-Secret'', ''adm'')] [(''user_id'', ''u''), (''tier'', ''pro'')]) demo_app)
   in GetTier ''u'' (snd (loadTiersFromDB quiet_env (Some (srv_db (app_server a'))) NewTieredRateLimiter)) = TierPro"
proof -
  let ?rq = "request ''POST'' [(''X-Admin-Secret'', ''adm'')] [(''user_id'', ''u''), (''tier'', ''pro'')]"
  obtain rs a' where h: "handleSetRateLimitTier demo_config quiet_env ?rq demo_app = (rs, a')"
    by (cases "handleSetRateLimitTier demo_config quiet_env ?rq demo_app")
  obtain r trl where l: "loadTiersFromDB quiet_env (Some (srv_db (app_server a'))) NewTieredRateLimiter = (r, trl)"
    by (cases "loadTiersFromDB quiet_env (Some (srv_db (app_server a'))) NewTieredRateLimiter")
  have c: "rs_code rs = 200"
    using h by (auto simp: handleSetRateLimitTier_def ValidateAdminSecret_def Let_def)
  have "user_exists (srv_db (app_server demo_app)) (rq_form ?rq ''user_id'')" by (simp add: user_exists_def)
  from tier_survives_restart [OF h c this _ _ l] h l show ?thesis by (simp add: tier_named_def Let_def)
qed

theorem anonymous_limit_is_per_port_witness:
  "tier_key demo_config quiet_env (request ''GET'' [] []\<lparr>rq_remote := ''10.0.0.1'' @ '':'' @ ''4000''\<rparr>) \<noteq>
   tier_key demo_config quiet_env (request ''GET'' [] []\<lparr>rq_remote := ''10.0.0.1'' @ '':'' @ ''4001''\<rparr>)"
  using anonymous_limit_is_per_port [of "request ''GET'' [] []" "''4000''" "''4001''" "''10.0.0.1''" demo_config quiet_env]
  by simp

end
