(* ===== verification/Integrity.thy ===== *)
theory Integrity
  imports Push E2E Attachments Tier_Handlers
begin

section \<open>The constraints of the whole schema\<close>

text \<open>
  \<open>db_ok\<close> states the constraints the conversation code relies on. Here are the others of the schema: the keys of
  the tables of attachments, reactions, tags, encrypted messages, key bundles, notification
  preferences, device tokens, web push subscriptions and plans, and their references to users.
  Every function that writes to the database keeps all of them; the lemmas are collected in \<open>schema_intros\<close>.
\<close>

named_theorems schema_intros

definition user_ids :: "database \<Rightarrow> string set" where
  "user_ids d = u_id ` set (t_users d)"

definition attachment_rows_ok :: "string set \<Rightarrow> attachment_row list \<Rightarrow> bool" where
  "attachment_rows_ok U xs \<longleftrightarrow> distinct (map at_id xs) \<and> at_user ` set xs \<subseteq> U"

definition reaction_rows_ok :: "string set \<Rightarrow> reaction_row list \<Rightarrow> bool" where
  "reaction_rows_ok U xs \<longleftrightarrow> distinct (map re_id xs) \<and>
     distinct (map (\<lambda>r. (re_message r, re_user r, re_emoji r)) xs) \<and> re_user ` set xs \<subseteq> U"

definition tag_rows_ok :: "tag_row list \<Rightarrow> bool" where
  "tag_rows_ok xs \<longleftrightarrow> distinct (map tg_id xs) \<and> distinct (map (\<lambda>t. (tg_conversation t, tg_tag t)) xs)"

definition key_rows_ok :: "string set \<Rightarrow> key_row list \<Rightarrow> bool" where
  "key_rows_ok U xs \<longleftrightarrow> distinct (map kb_id xs) \<and> kb_owner_id ` set xs \<subseteq> U"

definition pref_rows_ok :: "string set \<Rightarrow> pref_row list \<Rightarrow> bool" where
  "pref_rows_ok U xs \<longleftrightarrow> distinct (map (\<lambda>p. (np_user p, np_conversation p)) xs) \<and> np_user ` set xs \<subseteq> U"

definition device_rows_ok :: "string set \<Rightarrow> device_row list \<Rightarrow> bool" where
  "device_rows_ok U xs \<longleftrightarrow> distinct (map (\<lambda>r. (dt_user r, dt_token r)) xs) \<and> dt_user ` set xs \<subseteq> U"

definition tier_rows_ok :: "string set \<Rightarrow> tier_row list \<Rightarrow> bool" where
  "tier_rows_ok U xs \<longleftrightarrow> distinct (map rt_user xs) \<and> rt_user ` set xs \<subseteq> U"

definition extra_ok :: "database \<Rightarrow> bool" where
  "extra_ok d \<longleftrightarrow>
     attachment_rows_ok (user_ids d) (t_attachments d) \<and> reaction_rows_ok (user_ids d) (t_reactions d) \<and>
     tag_rows_ok (t_tags d) \<and> distinct (map em_id (t_encrypted d)) \<and> key_rows_ok (user_ids d) (t_keys d) \<and>
     pref_rows_ok (user_ids d) (t_prefs d) \<and> device_rows_ok (user_ids d) (t_devices d) \<and>
     distinct (map wp_endpoint (t_webpush d)) \<and> tier_rows_ok (user_ids d) (t_tiers d)"

definition schema_ok :: "database \<Rightarrow> bool" where
  "schema_ok d \<longleftrightarrow> db_ok d \<and> extra_ok d"

lemmas rows_ok_defs = attachment_rows_ok_def reaction_rows_ok_def tag_rows_ok_def key_rows_ok_def pref_rows_ok_def
  device_rows_ok_def tier_rows_ok_def

lemma schema_okD [dest]: "schema_ok d \<Longrightarrow> db_ok d"
  by (simp add: schema_ok_def)

lemma user_exists_ids: "user_exists d u \<longleftrightarrow> u \<in> user_ids d"
  by (simp add: user_exists_def user_ids_def)

lemma empty_db_schema: "schema_ok empty_db"
  by (simp add: schema_ok_def db_ok_def extra_ok_def rows_ok_defs user_ids_def empty_db_def)

lemma example_db_schema_ok: "schema_ok example_db"
  using example_db_ok by (simp add: schema_ok_def extra_ok_def rows_ok_defs user_ids_def example_db_def empty_db_def)

subsection \<open>Rows come and go\<close>

lemma rows_ok_filter:
  "attachment_rows_ok U xs \<Longrightarrow> attachment_rows_ok U (filter P xs)"
  "reaction_rows_ok U rs \<Longrightarrow> reaction_rows_ok U (filter Q rs)"
  "tag_rows_ok ts \<Longrightarrow> tag_rows_ok (filter R ts)"
  "key_rows_ok U ks \<Longrightarrow> key_rows_ok U (filter K ks)"
  "pref_rows_ok U ps \<Longrightarrow> pref_rows_ok U (filter M ps)"
  "device_rows_ok U ds \<Longrightarrow> device_rows_ok U (filter N ds)"
  by (auto simp: rows_ok_defs distinct_map_filter)

lemma rows_ok_mono:
  "attachment_rows_ok U xs \<Longrightarrow> U \<subseteq> V \<Longrightarrow> attachment_rows_ok V xs"
  "reaction_rows_ok U rs \<Longrightarrow> U \<subseteq> V \<Longrightarrow> reaction_rows_ok V rs"
  "key_rows_ok U ks \<Longrightarrow> U \<subseteq> V \<Longrightarrow> key_rows_ok V ks"
  "pref_rows_ok U ps \<Longrightarrow> U \<subseteq> V \<Longrightarrow> pref_rows_ok V ps"
  "device_rows_ok U ds \<Longrightarrow> U \<subseteq> V \<Longrightarrow> device_rows_ok V ds"
  "tier_rows_ok U ts \<Longrightarrow> U \<subseteq> V \<Longrightarrow> tier_rows_ok V ts"
  by (auto simp: rows_ok_defs)

text \<open>A statement that leaves those tables alone, and only adds users.\<close>

lemma extra_ok_frame:
  assumes "extra_ok d" and "user_ids d \<subseteq> user_ids d'" and "t_attachments d' = t_attachments d" and "t_reactions d' = t_reactions d"
    and "t_tags d' = t_tags d" and "t_encrypted d' = t_encrypted d" and "t_keys d' = t_keys d" and "t_prefs d' = t_prefs d"
    and "t_devices d' = t_devices d" and "t_webpush d' = t_webpush d" and "t_tiers d' = t_tiers d"
  shows "extra_ok d'"
  using assms rows_ok_mono [OF _ assms(2)] by (simp add: extra_ok_def)

lemma extra_ok_update:
  "extra_ok d \<Longrightarrow> extra_ok (d\<lparr>t_messages := ms\<rparr>)" "extra_ok d \<Longrightarrow> extra_ok (d\<lparr>t_conversations := cs\<rparr>)"
  "extra_ok d \<Longrightarrow> extra_ok (d\<lparr>t_agents := as\<rparr>)" "extra_ok d \<Longrightarrow> extra_ok (d\<lparr>t_queue := qs\<rparr>)"
  "extra_ok d \<Longrightarrow> user_ids d \<subseteq> u_id ` set us \<Longrightarrow> extra_ok (d\<lparr>t_users := us\<rparr>)"
  by (erule extra_ok_frame; simp add: user_ids_def)+

lemma db_ok_update:
  "db_ok d \<Longrightarrow> db_ok (d\<lparr>t_queue := qs\<rparr>)" "db_ok d \<Longrightarrow> db_ok (d\<lparr>t_keys := ks\<rparr>)" "db_ok d \<Longrightarrow> db_ok (d\<lparr>t_devices := ds\<rparr>)"
  "db_ok d \<Longrightarrow> db_ok (d\<lparr>t_webpush := ws\<rparr>)" "db_ok d \<Longrightarrow> db_ok (d\<lparr>t_tiers := ts\<rparr>)"
  by (simp_all add: db_ok_def exists_defs)

lemma schema_ok_queue [schema_intros]: "schema_ok d \<Longrightarrow> schema_ok (d\<lparr>t_queue := qs\<rparr>)"
  by (simp add: schema_ok_def db_ok_update extra_ok_update)

subsection \<open>Conversations and messages\<close>

lemma insert_message_schema [schema_intros]: "insert_message m d = Inr d' \<Longrightarrow> schema_ok d \<Longrightarrow> schema_ok d'"
  using insert_message_ok [of m d d'] by (auto simp: schema_ok_def insert_message_def extra_ok_update split: if_splits)

lemma insert_conversation_schema [schema_intros]: "insert_conversation c d = Inr d' \<Longrightarrow> schema_ok d \<Longrightarrow> schema_ok d'"
  using insert_conversation_ok [of c d d'] by (auto simp: schema_ok_def insert_conversation_def extra_ok_update split: if_splits)

lemma update_messages_schema:
  "schema_ok d \<Longrightarrow> (\<And>m. m_id (f m) = m_id m) \<Longrightarrow> (\<And>m. m_conversation (f m) = m_conversation m) \<Longrightarrow> schema_ok (update_messages P f d)"
  using update_messages_ok [of d f P] by (simp add: schema_ok_def) (simp add: update_messages_def extra_ok_update)

lemma link_attachments_extra: "extra_ok d \<Longrightarrow> extra_ok (link_attachments f m as d)"
proof (induction f m as d rule: link_attachments.induct)
  case (2 f m a as d)
  have ids: "map at_id (t_attachments (link_attachment m a d)) = map at_id (t_attachments d)"
    and users: "map at_user (t_attachments (link_attachment m a d)) = map at_user (t_attachments d)"
    by (simp_all add: link_attachment_def)
  from arg_cong [OF users, of set] ids have "attachment_rows_ok U (t_attachments (link_attachment m a d)) = attachment_rows_ok U (t_attachments d)" for U
    by (simp add: attachment_rows_ok_def)
  then have "extra_ok (link_attachment m a d)"
    using "2.prems" by (simp add: extra_ok_def) (simp add: link_attachment_def user_ids_def)
  then show ?case using 2 by simp
qed simp

lemma storeMessage_schema [schema_intros]:
  assumes "storeMessage e msg d = (r, d')" and "schema_ok d" shows "schema_ok d'"
proof (cases r)
  case None
  then obtain d1 where "insert_message (message_row_of (generateID ''msg'' (clock e ''storeMessage.id'')) (clock e ''storeMessage.created'') msg) d = Inr d1"
    and d': "d' = link_attachments (\<lambda>a. sql_fails e (''storeMessage.link.'' @ a)) (generateID ''msg'' (clock e ''storeMessage.id'')) (AttachmentIDs msg) d1"
    using assms(1) by (auto simp: storeMessage_def Let_def split: if_splits sum.splits)
  then have "extra_ok d'" using assms(2) insert_message_schema by (auto simp: schema_ok_def intro: link_attachments_extra)
  moreover have "db_ok d'"
    using storeMessage_cases [of e msg d] assms None by (metis Pair_inject option.distinct(1) schema_okD)
  ultimately show ?thesis by (simp add: schema_ok_def)
next
  case (Some err)
  then show ?thesis using assms by (auto simp: storeMessage_def Let_def split: if_splits sum.splits)
qed

lemma deleteConversation_schema [schema_intros]:
  assumes "deleteConversation e c u d = (r, d')" and "schema_ok d" shows "schema_ok d'"
proof -
  have 1: "schema_ok d1" if "delete_messages_of c d = Inr d1" for d1
    using delete_messages_of_ok [OF that] delete_messages_of_Inr(1) [OF that] assms(2)
    by (simp add: schema_ok_def extra_ok_def user_ids_def rows_ok_filter)
  have 2: "schema_ok d2" if "delete_conversation_row c d1 = Inr d2" "schema_ok d1" for d1 d2
    using delete_conversation_row_ok [OF that(1)] delete_conversation_row_Inr(1) [OF that(1)] that(2)
    by (simp add: schema_ok_def extra_ok_def user_ids_def rows_ok_filter)
  show ?thesis
    using assms 1 2 by (auto simp: deleteConversation_def split: sum.splits option.splits if_splits)
qed

lemma GetOrCreateConversation_schema [schema_intros]:
  "GetOrCreateConversation e u a d = (r, d') \<Longrightarrow> schema_ok d \<Longrightarrow> schema_ok d'"
  by (auto simp: GetOrCreateConversation_def CreateConversation_def Let_def insert_conversation_schema
      split: if_splits sum.splits list.splits)

lemma markMessagesRead_schema [schema_intros]:
  "markMessagesRead e c u d = (r, d') \<Longrightarrow> schema_ok d \<Longrightarrow> schema_ok d'"
  by (auto simp: markMessagesRead_def set_read_at_def intro!: update_messages_schema split: if_splits sum.splits option.splits)

subsection \<open>Users and agents\<close>

lemma changeUserPassword_schema [schema_intros]:
  assumes "changeUserPassword vf hf e u old new d = (r, d')" and "schema_ok d" shows "schema_ok d'"
proof -
  have "schema_ok (d\<lparr>t_users := map (\<lambda>x. if u_id x = u then x\<lparr>u_password_hash := h\<rparr> else x) (t_users d)\<rparr>)" for h
  proof -
    let ?us = "map (\<lambda>x. if u_id x = u then x\<lparr>u_password_hash := h\<rparr> else x) (t_users d)"
    have i: "map u_id ?us = map u_id (t_users d)" and n: "map u_username ?us = map u_username (t_users d)" by simp_all
    have ids: "u_id ` set ?us = user_ids d" using arg_cong [OF i, of set] unfolding user_ids_def by (simp only: set_map)
    then have "user_exists (d\<lparr>t_users := ?us\<rparr>) x = user_exists d x" for x
      by (simp add: user_exists_ids) (simp add: user_ids_def)
    then have "db_ok (d\<lparr>t_users := ?us\<rparr>)"
      using assms(2) i n unfolding schema_ok_def db_ok_def by (simp add: agent_exists_def conversation_exists_def message_exists_def del: map_map)
    then show ?thesis using assms(2) ids by (simp add: schema_ok_def extra_ok_update)
  qed
  then show ?thesis
    using assms by (auto simp: changeUserPassword_def split: if_splits option.splits)
qed

lemma add_user_schema:
  "schema_ok d \<Longrightarrow> \<not> user_exists d (u_id row) \<Longrightarrow> u_username row \<notin> u_username ` set (t_users d) \<Longrightarrow>
   schema_ok (d\<lparr>t_users := t_users d @ [row]\<rparr>)"
  using add_user_ok [of d row] by (auto simp: schema_ok_def user_ids_def intro: extra_ok_update(5))

lemma update_agent_schema: "schema_ok d \<Longrightarrow> (\<And>a. a_id (f a) = a_id a) \<Longrightarrow> schema_ok (update_agent i f d)"
  using update_agent_ok [of d f i] by (simp add: schema_ok_def) (simp add: update_agent_def extra_ok_update)

lemma add_agent_schema: "schema_ok d \<Longrightarrow> \<not> agent_exists d (a_id row) \<Longrightarrow> schema_ok (d\<lparr>t_agents := t_agents d @ [row]\<rparr>)"
  using add_agent_ok [of d row] by (simp add: schema_ok_def extra_ok_update)

lemma upsert_agent_schema [schema_intros]: "schema_ok d \<Longrightarrow> schema_ok (upsert_agent row d)"
  by (auto simp: upsert_agent_def intro!: update_agent_schema add_agent_schema)

lemma agent_updates_schema:
  assumes "agent_updates e i us d = (r, d')" and "\<And>p w f a. (p, w, f) \<in> set us \<Longrightarrow> a_id (f a) = a_id a" and "schema_ok d"
  shows "schema_ok d'"
proof (rule agent_updates_rule [OF assms(1), where P = schema_ok])
  fix p w f d assume "(p, w, f) \<in> set us" and "schema_ok d"
  then show "schema_ok (update_agent i f d)" using assms(2) by (intro update_agent_schema) simp_all
qed (rule assms(3))

lemma RegisterAgentOnConnect_schema [schema_intros]:
  assumes "RegisterAgentOnConnect e i n m p sp d = (r, d')" and "schema_ok d" shows "schema_ok d'"
proof (cases "agent_exists d i")
  case True
  show ?thesis
  proof (cases "sql_fails e ''RegisterAgent.select''")
    case False
    show ?thesis
      by (rule agent_updates_schema [where e = e and i = i and d = d and us = "[(''RegisterAgent.model'', m \<noteq> [], \<lambda>a. a\<lparr>a_model := m\<rparr>),
              (''RegisterAgent.personality'', p \<noteq> [], \<lambda>a. a\<lparr>a_personality := p\<rparr>),
              (''RegisterAgent.specialty'', sp \<noteq> [], \<lambda>a. a\<lparr>a_specialty := sp\<rparr>),
              (''RegisterAgent.name'', (if n = [] then i else n) \<noteq> i, \<lambda>a. a\<lparr>a_name := (if n = [] then i else n)\<rparr>)]"])
        (use assms True False in \<open>auto simp: RegisterAgentOnConnect_def Let_def\<close>)
  qed (use assms in \<open>simp add: RegisterAgentOnConnect_def\<close>)
next
  case False
  then show ?thesis
    using assms by (auto simp: RegisterAgentOnConnect_def Let_def intro!: add_agent_schema split: if_splits)
qed

subsection \<open>Tags, reactions, preferences\<close>

lemma db_ok_tags: "db_ok d \<Longrightarrow> (\<forall>t \<in> set ts. conversation_exists d (tg_conversation t)) \<Longrightarrow> db_ok (d\<lparr>t_tags := ts\<rparr>)"
  by (simp add: db_ok_def exists_defs)

lemma insert_tag_schema [schema_intros]: "insert_tag t d = Inr d' \<Longrightarrow> schema_ok d \<Longrightarrow> schema_ok d'"
  by (auto simp: insert_tag_def schema_ok_def extra_ok_def tag_rows_ok_def user_ids_def intro!: db_ok_tags split: if_splits)
    (auto simp: db_ok_def)

lemma addConversationTag_schema [schema_intros]:
  "addConversationTag e c u t d = (r, d') \<Longrightarrow> schema_ok d \<Longrightarrow> schema_ok d'"
  by (auto simp: addConversationTag_def Let_def insert_tag_schema split: if_splits sum.splits option.splits)

lemma filter_tags_schema: "schema_ok d \<Longrightarrow> schema_ok (d\<lparr>t_tags := filter P (t_tags d)\<rparr>)"
  by (auto simp: schema_ok_def extra_ok_def rows_ok_filter user_ids_def intro!: db_ok_tags) (auto simp: db_ok_def)

lemma removeConversationTag_schema [schema_intros]:
  "removeConversationTag e c u t d = (r, d') \<Longrightarrow> schema_ok d \<Longrightarrow> schema_ok d'"
  by (auto simp: removeConversationTag_def Let_def filter_tags_schema split: if_splits sum.splits option.splits)

lemma db_ok_reactions: "db_ok d \<Longrightarrow> (\<forall>r \<in> set rs. message_exists d (re_message r)) \<Longrightarrow> db_ok (d\<lparr>t_reactions := rs\<rparr>)"
  by (simp add: db_ok_def exists_defs)

lemma insert_reaction_schema [schema_intros]: "insert_reaction r d = Inr d' \<Longrightarrow> schema_ok d \<Longrightarrow> schema_ok d'"
  by (auto simp: insert_reaction_def schema_ok_def extra_ok_def reaction_rows_ok_def user_ids_def user_exists_def
      intro!: db_ok_reactions split: if_splits) (auto simp: db_ok_def)

lemma filter_reactions_schema: "schema_ok d \<Longrightarrow> schema_ok (d\<lparr>t_reactions := filter P (t_reactions d)\<rparr>)"
  by (auto simp: schema_ok_def extra_ok_def rows_ok_filter user_ids_def intro!: db_ok_reactions) (auto simp: db_ok_def)

lemma addReaction_schema [schema_intros]:
  assumes "addReaction e m u x d = (r, d')" and "schema_ok d" shows "schema_ok d'"
proof (cases "d' = d")
  case False
  then show ?thesis
    using assms by (auto simp: addReaction_def Let_def insert_reaction_schema filter_reactions_schema
        split: if_splits sum.splits option.splits)
qed (use assms in simp)

lemma db_ok_prefs: "db_ok d \<Longrightarrow> (\<forall>p \<in> set ps. conversation_exists d (np_conversation p)) \<Longrightarrow> db_ok (d\<lparr>t_prefs := ps\<rparr>)"
  by (simp add: db_ok_def exists_defs)

lemma upsert_pref_schema [schema_intros]:
  assumes "upsert_pref u c b d = Inr d'" and "schema_ok d" shows "schema_ok d'"
proof (cases "\<exists>p \<in> set (t_prefs d). np_user p = u \<and> np_conversation p = c")
  case True
  let ?f = "\<lambda>p. if np_user p = u \<and> np_conversation p = c then p\<lparr>np_muted := b\<rparr> else p"
  have d': "d' = d\<lparr>t_prefs := map ?f (t_prefs d)\<rparr>" using assms(1) True by (auto simp: upsert_pref_def)
  have k: "map (\<lambda>p. (np_user p, np_conversation p)) (map ?f (t_prefs d)) = map (\<lambda>p. (np_user p, np_conversation p)) (t_prefs d)"
    by simp
  have s: "np_user ` set (map ?f (t_prefs d)) \<subseteq> np_user ` set (t_prefs d)" by auto
  have "pref_rows_ok U (map ?f (t_prefs d))" if "pref_rows_ok U (t_prefs d)" for U
    using that s unfolding pref_rows_ok_def k by blast
  moreover have "db_ok d'" unfolding d' using assms(2) by (intro db_ok_prefs) (auto simp: schema_ok_def db_ok_def)
  ultimately show ?thesis using assms(2) by (simp add: schema_ok_def extra_ok_def d' user_ids_def)
next
  case False
  have d': "d' = d\<lparr>t_prefs := t_prefs d @ [\<lparr>np_user = u, np_conversation = c, np_muted = b\<rparr>]\<rparr>"
    and "user_exists d u" "conversation_exists d c"
    using assms(1) False by (auto simp: upsert_pref_def split: if_splits)
  moreover have "db_ok d'" unfolding d'
    using assms(2) \<open>conversation_exists d c\<close> by (intro db_ok_prefs) (auto simp: schema_ok_def db_ok_def)
  ultimately show ?thesis
    using assms(2) False by (auto simp: schema_ok_def extra_ok_def pref_rows_ok_def user_ids_def user_exists_def)
qed

lemma filter_prefs_schema: "schema_ok d \<Longrightarrow> schema_ok (d\<lparr>t_prefs := filter P (t_prefs d)\<rparr>)"
  by (auto simp: schema_ok_def extra_ok_def rows_ok_filter user_ids_def intro!: db_ok_prefs) (auto simp: db_ok_def)

subsection \<open>Keys, encrypted messages, devices, plans, attachments\<close>

lemma filter_keys_schema: "schema_ok d \<Longrightarrow> schema_ok (d\<lparr>t_keys := filter P (t_keys d)\<rparr>)"
  by (simp add: schema_ok_def db_ok_update extra_ok_def rows_ok_filter user_ids_def)

lemma delete_key_schema [schema_intros]: "schema_ok d \<Longrightarrow> schema_ok (delete_key i d)"
  by (simp add: delete_key_def filter_keys_schema)

lemma replace_identity_schema [schema_intros]: "schema_ok d \<Longrightarrow> schema_ok (replace_identity e i ty d)"
  by (simp add: replace_identity_def delete_key_schema split: list.splits)

lemma insert_key_schema [schema_intros]: "insert_key k d = Inr d' \<Longrightarrow> schema_ok d \<Longrightarrow> schema_ok d'"
  by (auto simp: insert_key_def schema_ok_def db_ok_update extra_ok_def key_rows_ok_def user_ids_def user_exists_def
      image_subset_iff split: if_splits)

lemma insert_encrypted_schema [schema_intros]: "insert_encrypted m d = Inr d' \<Longrightarrow> schema_ok d \<Longrightarrow> schema_ok d'"
  by (auto simp: insert_encrypted_def schema_ok_def extra_ok_def user_ids_def split: if_splits) (auto simp: db_ok_def exists_defs)

lemma schema_devices: "schema_ok d \<Longrightarrow> device_rows_ok (user_ids d) ds \<Longrightarrow> schema_ok (d\<lparr>t_devices := ds\<rparr>)"
  by (simp add: schema_ok_def db_ok_update extra_ok_def user_ids_def)

lemma schema_device_rows: "schema_ok d \<Longrightarrow> device_rows_ok (user_ids d) (t_devices d)"
  by (simp add: schema_ok_def extra_ok_def)

lemma upsert_device_schema [schema_intros]:
  assumes "upsert_device row d = Inr d'" and "schema_ok d" shows "schema_ok d'"
proof -
  have u: "devices_unique d" using schema_device_rows [OF assms(2)] by (simp add: devices_unique_def device_rows_ok_def)
  note eff = upsert_device_effect [OF assms(1) u]
  have "dt_user ` set (t_devices d') \<subseteq> user_ids d"
    using assms schema_device_rows [OF assms(2)]
    by (auto simp: upsert_device_def device_rows_ok_def user_exists_ids image_subset_iff Let_def split: if_splits)
  then have "device_rows_ok (user_ids d) (t_devices d')"
    using eff(4) by (simp add: devices_unique_def device_rows_ok_def)
  from schema_devices [OF assms(2) this] eff(3) show ?thesis by simp
qed

lemma replace_device_schema [schema_intros]:
  assumes "replace_device row d = Inr d'" and "schema_ok d" shows "schema_ok d'"
proof -
  have "device_rows_ok (user_ids d) (filter (\<lambda>r. \<not> same_device_row (dt_user row) (dt_token row) r) (t_devices d) @ [row])"
    if "user_exists d (dt_user row)"
    using that schema_device_rows [OF assms(2)]
    by (auto simp: device_rows_ok_def user_exists_ids same_device_row_def distinct_map_filter)
  then show ?thesis using assms by (auto simp: replace_device_def intro: schema_devices split: if_splits)
qed

lemma delete_devices_schema [schema_intros]: "schema_ok d \<Longrightarrow> schema_ok (delete_devices P d)"
  unfolding delete_devices_def by (intro schema_devices rows_ok_filter(6) schema_device_rows)

lemma schema_webpush: "schema_ok d \<Longrightarrow> distinct (map wp_endpoint ws) \<Longrightarrow> schema_ok (d\<lparr>t_webpush := ws\<rparr>)"
  by (simp add: schema_ok_def db_ok_update extra_ok_def user_ids_def)

lemma filter_webpush_schema: "schema_ok d \<Longrightarrow> schema_ok (d\<lparr>t_webpush := filter P (t_webpush d)\<rparr>)"
  by (rule schema_webpush) (auto simp: schema_ok_def extra_ok_def distinct_map_filter)

lemma replace_webpush_schema [schema_intros]: "schema_ok d \<Longrightarrow> schema_ok (replace_webpush row d)"
  unfolding replace_webpush_def
  by (rule schema_webpush) (auto simp: schema_ok_def extra_ok_def distinct_map_filter)

lemma persistTierToDB_schema [schema_intros]: "schema_ok d \<Longrightarrow> schema_ok (snd (persistTierToDB e u t d))"
  by (auto simp: persistTierToDB_def schema_ok_def db_ok_update extra_ok_def tier_rows_ok_def user_ids_def user_exists_def
      distinct_map_filter)

lemma insert_attachment_schema [schema_intros]: "insert_attachment r d = Inr d' \<Longrightarrow> schema_ok d \<Longrightarrow> schema_ok d'"
  using insert_attachment_ok [of r d d']
  by (auto simp: insert_attachment_def schema_ok_def extra_ok_def attachment_rows_ok_def user_ids_def user_exists_def
      image_subset_iff split: if_splits option.splits)

end
