(* ===== verification/Observability.thy ===== *)
theory Observability
  imports Auth_Safety "HOL-Library.Word"
begin

section \<open>Access log, metrics, health and profiling\<close>

text \<open>
  \<open>accessLogMiddleware\<close> of middleware.go, metrics.go, metrics_handler.go, \<open>handleHealth\<close>, and profile_handler.go. What the
  Go runtime reports is the record \<open>runtime_lib\<close>: memory statistics (64-bit unsigned words, one reading per
  call), the number of goroutines, and which file operations of the profiler fail. Tracing spans are not modelled.
\<close>

subsection \<open>The access log\<close>

text \<open>The user id of a valid bearer token, for the log only.\<close>

definition logged_user :: "config \<Rightarrow> env \<Rightarrow> http_request \<Rightarrow> string" where
  "logged_user cf e rq =
     (let authHeader = rq_header rq ''Authorization'' in
      if has_prefix authHeader ''Bearer '' then
        (case ValidateJWT (cf_jwt cf) (cf_jwtSecret cf) (clock e ''log.ValidateJWT'') (trim_prefix authHeader ''Bearer '') of
           Inr claims \<Rightarrow> UserID claims | Inl _ \<Rightarrow> [])
      else [])"

definition access_fields :: "config \<Rightarrow> env \<Rightarrow> http_request \<Rightarrow> nat \<Rightarrow> log_fields" where
  "access_fields cf e rq code =
     [(''method'', JStr (rq_method rq)), (''path'', JStr (rq_path rq)), (''status'', JNum (int code)),
      (''duration_ms'', JNum (time_sub (clock e ''log.end'') (clock e ''log.start'') div 1000000)),
      (''request_id'', JStr (rq_header rq ''X-Request-ID'')), (''remote_addr'', JStr (rq_remote rq)),
      (''user_agent'', JStr (rq_header rq ''User-Agent''))] @
     (let userID = logged_user cf e rq in if userID \<noteq> [] then [(''user_id'', JStr userID)] else [])"

text \<open>The request id is read before the handler runs. The status is the one the wrapped writer saw: 200 unless
  \<open>WriteHeader\<close> was called.\<close>

definition accessLogMiddleware :: "config \<Rightarrow> env \<Rightarrow> app handler \<Rightarrow> app handler" where
  "accessLogMiddleware cf e next rq a =
     (let (rs, a1) = next rq a in
      (rs, case log_Info (cf_json_time cf (clock e ''log.ts'')) ''http_request'' [access_fields cf e rq (rs_code rs)] (DefaultLogger a1) of
             None \<Rightarrow> a1
           | Some line \<Rightarrow> a1\<lparr>log_lines := log_lines a1 @ [line]\<rparr>))"

subsection \<open>Metrics and health\<close>

record mem_stats =
  Alloc :: "64 word"
  Sys :: "64 word"
  NumGC :: "32 word"

record runtime_lib =
  rt_mem :: "string \<Rightarrow> mem_stats" \<comment> \<open>\<open>runtime.ReadMemStats\<close>, by the place of the call\<close>
  rt_goroutines :: "string \<Rightarrow> int"
  rt_mb :: "64 word \<Rightarrow> json" \<comment> \<open>the \<open>float64\<close> number of megabytes\<close>
  rt_bytes :: "64 word \<Rightarrow> string" \<comment> \<open>the megabytes times 1024*1024, printed with \<open>%.0f\<close>\<close>
  rt_temp_dir :: string
  rt_stamp :: "int \<Rightarrow> string" \<comment> \<open>\<open>Format("20060102_150405")\<close>\<close>
  rt_fails :: "string \<Rightarrow> string option" \<comment> \<open>the error of a file or profiler operation\<close>
  rt_full_stats :: "mem_stats \<Rightarrow> int \<Rightarrow> json" \<comment> \<open>the object \<open>MemoryStats\<close> encodes to\<close>

definition Snapshot :: "config \<Rightarrow> presence_config \<Rightarrow> runtime_lib \<Rightarrow> env \<Rightarrow> int \<Rightarrow> server \<Rightarrow> metrics \<Rightarrow> (string, json) gomap" where
  "Snapshot cf pc rt e startTime s m =
     (let h = srv_hub s; ms = rt_mem rt ''Snapshot'' in
      [(''version'', JStr ''0.2.0''),
       (''uptime_seconds'', JNum (dur_seconds (time_sub (clock e ''Uptime'') startTime))),
       (''start_time'', JStr (cf_rfc3339 cf startTime)),
       (''messages_in'', JNum (MessagesIn m)), (''messages_out'', JNum (MessagesOut m)),
       (''connections_total'', JNum (ConnectionsTotal m)),
       (''agents_connected'', JNum (int (AgentCount h))), (''clients_connected'', JNum (int (ClientCount h))),
       (''client_conns_total'', JNum (int (ClientConnCount h))),
       (''errors_total'', JNum (ErrorsTotal m)), (''rate_limited'', JNum (RateLimited m)),
       (''goroutines'', JNum (rt_goroutines rt ''Snapshot'')),
       (''memory_alloc_mb'', rt_mb rt (Alloc ms)), (''memory_sys_mb'', rt_mb rt (Sys ms)),
       (''offline_queue_depth'', JNum (int (TotalDepth (srv_queue s)))),
       (''agent_heartbeat'', JObj [(''enabled'', JBool (agentPresenceEnabled pc)),
          (''interval_s'', JNum (dur_seconds (agentPresenceInterval pc))),
          (''timeout_s'', JNum (dur_seconds (agentPresenceTimeout pc))), (''stale_agents'', JNum (staleAgents h))])])"

definition handleHealth ::
  "config \<Rightarrow> presence_config \<Rightarrow> runtime_lib \<Rightarrow> env \<Rightarrow> int \<Rightarrow> (string option) option \<Rightarrow> bool \<Rightarrow> server handler" where
  "handleHealth cf pc rt e startTime ping tracing rq s =
     (if rq_method rq \<noteq> ''GET'' then (writeJSONError 405 ''method not allowed'', s)
      else
        (let dbStatus = (case ping of None \<Rightarrow> ''not initialized'' | Some None \<Rightarrow> ''ok'' | Some (Some err) \<Rightarrow> ''error: '' @ err);
             dbHealthy = (ping = Some None);
             snapshot = (case ServerMetrics (srv_hub s) of None \<Rightarrow> [] | Some m \<Rightarrow> Snapshot cf pc rt e startTime s m);
             fs = gm_set ''tracing_enabled'' (JBool tracing) (gm_set ''db'' (JStr dbStatus) (gm_set ''version'' (JStr ''0.2.0'') snapshot))
         in if \<not> dbHealthy then (writeJSON 503 (JObj (gm_set ''status'' (JStr ''degraded'') fs)), s)
            else (ok_json (JObj (gm_set ''status'' (JStr ''ok'') fs)), s)))"

text \<open>One metric in the Prometheus text format.\<close>

definition metric_text :: "string \<Rightarrow> string \<Rightarrow> string \<Rightarrow> string \<Rightarrow> string" where
  "metric_text name mtype help value =
     ''# HELP agent_messenger_'' @ name @ '' '' @ help @ [CHR 0x0A] @
     ''# TYPE agent_messenger_'' @ name @ '' '' @ mtype @ [CHR 0x0A] @
     ''agent_messenger_'' @ name @ '' '' @ value @ [CHR 0x0A]"

definition boolToInt :: "bool \<Rightarrow> int" where
  "boolToInt b = (if b then 1 else 0)"

definition metric_list :: "presence_config \<Rightarrow> runtime_lib \<Rightarrow> env \<Rightarrow> int \<Rightarrow> server \<Rightarrow> metrics \<Rightarrow> (string \<times> string \<times> string \<times> string) list" where
  "metric_list pc rt e startTime s m =
     (let h = srv_hub s; ms = rt_mem rt ''Snapshot'' in
      [(''messages_in_total'', ''counter'', ''Total messages received'', decimal (MessagesIn m)),
       (''messages_out_total'', ''counter'', ''Total messages sent'', decimal (MessagesOut m)),
       (''connections_total'', ''counter'', ''Total connections since startup'', decimal (ConnectionsTotal m)),
       (''agents_connected'', ''gauge'', ''Currently connected agents'', decimal (int (AgentCount h))),
       (''clients_connected'', ''gauge'', ''Currently connected unique client users'', decimal (int (ClientCount h))),
       (''client_conns_total'', ''gauge'', ''Total client connections including multi-device'', decimal (int (ClientConnCount h))),
       (''errors_total'', ''counter'', ''Total errors'', decimal (ErrorsTotal m)),
       (''rate_limited_total'', ''counter'', ''Total rate-limited messages'', decimal (RateLimited m)),
       (''uptime_seconds'', ''gauge'', ''Server uptime in seconds'', decimal (dur_seconds (time_sub (clock e ''Uptime'') startTime))),
       (''version'', ''gauge'', ''Server version (encoded as 1='' @ [CHR 0x22] @ ''0.2.0'' @ [CHR 0x22] @ '')'', ''1''),
       (''goroutines'', ''gauge'', ''Number of goroutines'', decimal (rt_goroutines rt ''Snapshot'')),
       (''memory_alloc_bytes'', ''gauge'', ''Allocated memory in bytes'', rt_bytes rt (Alloc ms)),
       (''memory_sys_bytes'', ''gauge'', ''System memory in bytes'', rt_bytes rt (Sys ms)),
       (''offline_queue_depth'', ''gauge'', ''Messages queued for offline recipients'', decimal (int (TotalDepth (srv_queue s)))),
       (''agent_heartbeat_enabled'', ''gauge'', ''Whether agent heartbeat monitoring is enabled (1=on, 0=off)'',
        decimal (boolToInt (agentPresenceEnabled pc))),
       (''stale_agents'', ''gauge'', ''Number of agents that missed heartbeat timeout'', decimal (staleAgents h))])"

text \<open>A text body is a string value here. \<open>ServerMetrics == nil\<close> is a nil pointer dereference, which \<open>net/http\<close> turns
  into a dropped connection; main.go sets it before the server listens.\<close>

definition handleMetrics :: "presence_config \<Rightarrow> runtime_lib \<Rightarrow> env \<Rightarrow> int \<Rightarrow> http_request \<Rightarrow> server \<Rightarrow> (http_response \<times> server) option" where
  "handleMetrics pc rt e startTime rq s =
     (if rq_method rq \<noteq> ''GET'' then Some (writeJSONError 405 ''method not allowed'', s)
      else (case ServerMetrics (srv_hub s) of
              None \<Rightarrow> None
            | Some m \<Rightarrow>
                Some (\<lparr>rs_code = 200, rs_headers = [(''Content-Type'', ''text/plain; version=0.0.4; charset=utf-8'')],
                       rs_body = JStr (concat (map (\<lambda>(n, t, hp, v). metric_text n t hp v) (metric_list pc rt e startTime s m)))\<rparr>, s)))"

subsection \<open>Profiling\<close>

definition writeProfileError :: "string \<Rightarrow> string \<Rightarrow> http_response" where
  "writeProfileError context detail = writeJSON 500 (str_obj [(''context'', context), (''detail'', detail), (''status'', ''error'')])"

definition http_Error :: "string \<Rightarrow> nat \<Rightarrow> http_response" where
  "http_Error m code = \<lparr>rs_code = code, rs_headers = [(''Content-Type'', ''text/plain; charset=utf-8''), (''X-Content-Type-Options'', ''nosniff'')],
     rs_body = JStr (m @ [CHR 0x0A])\<rparr>"

definition profile_dir :: "(string \<Rightarrow> string) \<Rightarrow> runtime_lib \<Rightarrow> string" where
  "profile_dir getenv rt =
     (if getenv ''PROFILING_DIR'' \<noteq> [] then getenv ''PROFILING_DIR'' else rt_temp_dir rt @ ''/agent-messenger-profiles'')"

definition MemoryStats :: "runtime_lib \<Rightarrow> string \<Rightarrow> json" where
  "MemoryStats rt place = rt_full_stats rt (rt_mem rt place) (rt_goroutines rt place)"

text \<open>A profile that is written at once: \<open>handleHeapProfile\<close> and \<open>handleGoroutineProfile\<close>.\<close>

definition written_profile :: "(string \<Rightarrow> string) \<Rightarrow> runtime_lib \<Rightarrow> env \<Rightarrow> string \<Rightarrow> (string \<Rightarrow> json) \<Rightarrow> http_response" where
  "written_profile getenv rt e kind answer =
     (let path = profile_dir getenv rt @ ''/'' @ kind @ ''_'' @ rt_stamp rt (clock e ''profile.ts'') @ ''.prof'' in
      case rt_fails rt ''mkdir'' of
        Some err \<Rightarrow> writeProfileError ''create dir'' err
      | None \<Rightarrow> (case rt_fails rt kind of
                   Some err \<Rightarrow> writeProfileError (''write '' @ kind @ '' profile'') err
                 | None \<Rightarrow> ok_json (answer path)))"

definition handleHeapProfile :: "config \<Rightarrow> (string \<Rightarrow> string) \<Rightarrow> runtime_lib \<Rightarrow> env \<Rightarrow> http_response" where
  "handleHeapProfile cf getenv rt e = written_profile getenv rt e ''heap'' (\<lambda>path.
     JObj [(''action'', JStr ''heap''), (''file'', JStr path), (''memory'', MemoryStats rt ''heap''), (''status'', JStr ''ok''),
           (''timestamp'', JStr (cf_rfc3339 cf (clock e ''profile.now'')))])"

definition handleGoroutineProfile :: "config \<Rightarrow> (string \<Rightarrow> string) \<Rightarrow> runtime_lib \<Rightarrow> env \<Rightarrow> http_response" where
  "handleGoroutineProfile cf getenv rt e = written_profile getenv rt e ''goroutine'' (\<lambda>path.
     JObj [(''action'', JStr ''goroutine''), (''file'', JStr path), (''goroutines'', JNum (rt_goroutines rt ''goroutine'')),
           (''status'', JStr ''ok''), (''timestamp'', JStr (cf_rfc3339 cf (clock e ''profile.now'')))])"

definition handleCPUProfileStart ::
  "config \<Rightarrow> (string \<Rightarrow> string) \<Rightarrow> runtime_lib \<Rightarrow> env \<Rightarrow> cpu_profile_state \<Rightarrow> http_response \<times> cpu_profile_state" where
  "handleCPUProfileStart cf getenv rt e st =
     (if cpu_active st then (writeProfileError ''cpu profile already active'' [], st)
      else
        (let path = profile_dir getenv rt @ ''/cpu_'' @ rt_stamp rt (clock e ''profile.ts'') @ ''.prof'' in
         case rt_fails rt ''mkdir'' of
           Some err \<Rightarrow> (writeProfileError ''create dir'' err, st)
         | None \<Rightarrow> (case rt_fails rt ''StartCPUProfile'' of
                      Some err \<Rightarrow> (writeProfileError ''start cpu profile'' err, st)
                    | None \<Rightarrow>
                        (ok_json (str_obj [(''action'', ''cpu''), (''file'', path),
                           (''message'', ''CPU profiling started. POST /admin/profile?action=cpu_stop to stop.''),
                           (''status'', ''profiling''), (''timestamp'', cf_rfc3339 cf (clock e ''profile.now''))]),
                         \<lparr>cpu_stopFunc = Some path, cpu_active = True\<rparr>))))"

text \<open>Calling a nil \<open>stopFunc\<close> panics: \<open>None\<close>.\<close>

definition handleCPUProfileStop ::
  "config \<Rightarrow> runtime_lib \<Rightarrow> env \<Rightarrow> cpu_profile_state \<Rightarrow> (http_response \<times> cpu_profile_state) option" where
  "handleCPUProfileStop cf rt e st =
     (if \<not> cpu_active st then Some (writeProfileError ''no cpu profile active'' [], st)
      else (case cpu_stopFunc st of
              None \<Rightarrow> None
            | Some path \<Rightarrow>
                Some (ok_json (JObj [(''action'', JStr ''cpu_stop''), (''memory'', MemoryStats rt ''cpu_stop''),
                        (''status'', JStr ''stopped''), (''timestamp'', JStr (cf_rfc3339 cf (clock e ''profile.now'')))]),
                      \<lparr>cpu_stopFunc = None, cpu_active = False\<rparr>)))"

text \<open>\<open>freed_bytes\<close> is a subtraction of unsigned 64-bit numbers.\<close>

definition freed_bytes :: "runtime_lib \<Rightarrow> 64 word" where
  "freed_bytes rt = Alloc (rt_mem rt ''gc.before'') - Alloc (rt_mem rt ''gc.after'')"

definition handleForceGC :: "config \<Rightarrow> runtime_lib \<Rightarrow> env \<Rightarrow> http_response" where
  "handleForceGC cf rt e = ok_json (JObj
     [(''action'', JStr ''gc''), (''after'', MemoryStats rt ''gc.after''), (''before'', MemoryStats rt ''gc.before''),
      (''freed_bytes'', JNum (uint (freed_bytes rt))), (''gc_cycles'', JNum (uint (NumGC (rt_mem rt ''gc.cycles'')))),
      (''status'', JStr ''ok''), (''timestamp'', JStr (cf_rfc3339 cf (clock e ''profile.now'')))])"

definition handleMemoryStats :: "config \<Rightarrow> runtime_lib \<Rightarrow> env \<Rightarrow> http_response" where
  "handleMemoryStats cf rt e = ok_json (JObj
     [(''action'', JStr ''stats''), (''memory'', MemoryStats rt ''stats''), (''status'', JStr ''ok''),
      (''timestamp'', JStr (cf_rfc3339 cf (clock e ''profile.now'')))])"

text \<open>The action of a request: the query, else the JSON body of a POST.\<close>

definition profile_action :: "http_request \<Rightarrow> string" where
  "profile_action rq =
     (let q = rq_query rq ''action'' in
      if q = [] \<and> rq_method rq = ''POST'' then
        (case rq_body rq of
           Malformed \<Rightarrow> []
         | Frame j \<Rightarrow> (case unmarshal_fields [''action''] (Some j) of Some [x] \<Rightarrow> x | _ \<Rightarrow> []))
      else q)"

definition handleAdminProfile ::
  "config \<Rightarrow> (string \<Rightarrow> string) \<Rightarrow> runtime_lib \<Rightarrow> env \<Rightarrow> http_request \<Rightarrow> app \<Rightarrow> (http_response \<times> app) option" where
  "handleAdminProfile cf getenv rt e rq a =
     (let act = profile_action rq; st = cpuProfileState a; put = (\<lambda>(rs, st'). (rs, a\<lparr>cpuProfileState := st'\<rparr>)) in
      if rq_method rq \<noteq> ''POST'' \<and> rq_method rq \<noteq> ''GET'' then Some (http_Error ''method not allowed'' 405, a)
      else if act = ''heap'' then Some (handleHeapProfile cf getenv rt e, a)
      else if act = ''goroutine'' then Some (handleGoroutineProfile cf getenv rt e, a)
      else if act = ''cpu'' then Some (put (handleCPUProfileStart cf getenv rt e st))
      else if act = ''cpu_stop'' then map_option put (handleCPUProfileStop cf rt e st)
      else if act = ''gc'' then Some (handleForceGC cf rt e, a)
      else if act = ''stats'' \<or> act = [] then Some (handleMemoryStats cf rt e, a)
      else Some (http_Error (''unknown action: '' @ act @ '' (valid: heap, goroutine, cpu, cpu_stop, gc, stats)'') 400, a))"

text \<open>On shutdown, main.go stops a running profile.\<close>

definition shutdown_profile :: "cpu_profile_state \<Rightarrow> cpu_profile_state" where
  "shutdown_profile st =
     (if cpu_active st \<and> cpu_stopFunc st \<noteq> None then \<lparr>cpu_stopFunc = None, cpu_active = False\<rparr> else st)"

subsection \<open>Properties\<close>

definition cpu_ok :: "cpu_profile_state \<Rightarrow> bool" where
  "cpu_ok st \<longleftrightarrow> (cpu_active st \<longleftrightarrow> cpu_stopFunc st \<noteq> None)"

text \<open>Profiling is a two-state machine: every administration request on a consistent profiling state is answered
  (it never calls a nil stop function) and leaves a consistent state that differs from the old one only if \<open>cpu\<close>
  started a profile that was not running or \<open>cpu_stop\<close> stopped one that was; a shutdown always ends idle.\<close>

theorem profiling_state_machine:
  assumes "cpu_ok (cpuProfileState a)"
  shows "\<exists>rs a'. handleAdminProfile cf getenv rt e rq a = Some (rs, a') \<and> cpu_ok (cpuProfileState a') \<and>
    app_server a' = app_server a \<and>
    (cpu_active (cpuProfileState a') \<noteq> cpu_active (cpuProfileState a) \<longrightarrow> rs_code rs = 200 \<and>
       profile_action rq = (if cpu_active (cpuProfileState a) then ''cpu_stop'' else ''cpu'')) \<and>
    \<not> cpu_active (shutdown_profile (cpuProfileState a'))"
proof -
  have st: "\<exists>rs st'. handleCPUProfileStart cf getenv rt e st = (rs, st') \<and> cpu_ok st' \<and>
      (cpu_active st' \<noteq> cpu_active st \<longrightarrow> rs_code rs = 200 \<and> \<not> cpu_active st)" if "cpu_ok st" for st
    using that by (auto simp: handleCPUProfileStart_def Let_def cpu_ok_def split: option.splits)
  have sp: "\<exists>rs st'. handleCPUProfileStop cf rt e st = Some (rs, st') \<and> cpu_ok st' \<and>
      (cpu_active st' \<noteq> cpu_active st \<longrightarrow> rs_code rs = 200 \<and> cpu_active st)" if "cpu_ok st" for st
    using that by (auto simp: handleCPUProfileStop_def cpu_ok_def)
  have sd: "\<not> cpu_active (shutdown_profile st)" if "cpu_ok st" for st
    using that by (simp add: shutdown_profile_def cpu_ok_def)
  show ?thesis
    using st [OF assms] sp [OF assms] sd assms
    by (auto simp: handleAdminProfile_def Let_def)
qed

text \<open>\<open>freed_bytes\<close> of a forced collection is wrong when memory grew: it is the growth subtracted from 2 to the 64, not a
  small or negative number.\<close>

theorem freed_bytes_wraps:
  assumes "Alloc (rt_mem rt ''gc.before'') < Alloc (rt_mem rt ''gc.after'')"
  shows "uint (freed_bytes rt) =
    2 ^ 64 - (uint (Alloc (rt_mem rt ''gc.after'')) - uint (Alloc (rt_mem rt ''gc.before'')))"
proof -
  let ?b = "uint (Alloc (rt_mem rt ''gc.before''))" and ?a = "uint (Alloc (rt_mem rt ''gc.after''))"
  have l: "?b < ?a" using assms by (simp add: word_less_def)
  have r: "0 \<le> ?b" "?a < 2 ^ 64" using uint_lt2p [of "Alloc (rt_mem rt ''gc.after'')"] by simp_all
  have "uint (freed_bytes rt) = (?b - ?a) mod 2 ^ 64" by (simp add: freed_bytes_def uint_word_ariths)
  also have "\<dots> = (?b - ?a + 2 ^ 64) mod 2 ^ 64" by simp
  also have "\<dots> = ?b - ?a + 2 ^ 64" using l r by (intro mod_pos_pos_trivial) linarith+
  finally show ?thesis by simp
qed

text \<open>The access log does not know the id of a request: \<open>accessLogMiddleware\<close> wraps \<open>requestIDMiddleware\<close> and reads the header
  before the id is generated, so for a request without an id the response carries a new one and the log line an
  empty one.\<close>

theorem access_log_misses_request_id:
  assumes "rq_header rq ''X-Request-ID'' = []" and "lg_level (DefaultLogger (snd (requestIDMiddleware e h rq a))) \<le> LogInfo"
    and "gm_ok (lg_fields (DefaultLogger (snd (requestIDMiddleware e h rq a))))"
  shows "\<exists>rs a' ms i. accessLogMiddleware cf e (requestIDMiddleware e h) rq a = (rs, a') \<and>
    last (log_lines a') = JObj ms \<and> gm_get ms ''request_id'' = Some (JStr []) \<and>
    gm_get (rs_headers rs) ''X-Request-ID'' = Some i \<and> i \<noteq> []"
proof -
  obtain rs a1 where h: "requestIDMiddleware e h rq a = (rs, a1)" by (cases "requestIDMiddleware e h rq a")
  let ?f = "mergeOpt [access_fields cf e rq (rs_code rs)]" and ?ts = "cf_json_time cf (clock e ''log.ts'')"
  have lv: "\<not> LogInfo < lg_level (DefaultLogger a1)" using assms(2) h by (simp add: not_less)
  then obtain ms where line: "logEntry ?ts LogInfo ''http_request'' ?f (DefaultLogger a1) = Some (JObj ms)" by (simp add: logEntry_def)
  have "gm_ok (access_fields cf e rq (rs_code rs))" by (simp add: access_fields_def gm_ok_def Let_def)
  then have "gm_get ?f k = gm_get (access_fields cf e rq (rs_code rs)) k" for k
    by (simp add: mergeOpt_def put_all_get split: option.splits)
  then have f: "gm_get ?f ''request_id'' = Some (JStr [])" using assms(1) by (simp add: access_fields_def gm_get_def)
  have "gm_ok (lg_fields (DefaultLogger a1))" using assms(3) h by simp
  from log_entry_lookup [OF mergeOpt_ok this line, of "''request_id''"] f have "gm_get ms ''request_id'' = Some (JStr [])" by simp
  moreover have "\<exists>i. gm_get (rs_headers rs) ''X-Request-ID'' = Some i \<and> i \<noteq> []"
    using h assms(1) by (auto simp: requestIDMiddleware_def set_header_def Let_def split: prod.splits)
  ultimately show ?thesis using h line by (auto simp: accessLogMiddleware_def log_Info_def)
qed

text \<open>The health endpoint answers 503 exactly when the database cannot be reached, and always says so in \<open>status\<close>.\<close>

theorem health_reports_database:
  assumes "rq_method rq = ''GET''"
  shows "\<exists>ms. handleHealth cf pc rt e t0 ping tracing rq s =
      (writeJSON (if ping = Some None then 200 else 503) (JObj ms), s) \<and>
    gm_get ms ''status'' = Some (JStr (if ping = Some None then ''ok'' else ''degraded'')) \<and>
    (\<forall>m. ServerMetrics (srv_hub s) = Some m \<longrightarrow>
       gm_get ms ''agents_connected'' = Some (JNum (int (AgentCount (srv_hub s)))) \<and>
       gm_get ms ''offline_queue_depth'' = Some (JNum (int (TotalDepth (srv_queue s)))))"
  using assms by (auto simp: handleHealth_def Let_def Snapshot_def gm_get_def gm_set_def update_conv' split: option.splits)

subsection \<open>Concrete requests\<close>

definition demo_runtime :: runtime_lib where
  "demo_runtime = \<lparr>rt_mem = (\<lambda>p. \<lparr>Alloc = (if p = ''gc.after'' then 5 else 2), Sys = 9, NumGC = 1\<rparr>), rt_goroutines = (\<lambda>_. 4),
     rt_mb = (\<lambda>_. JNum 0), rt_bytes = (\<lambda>_. ''0''), rt_temp_dir = ''/tmp'', rt_stamp = (\<lambda>_. ''t''), rt_fails = (\<lambda>_. None),
     rt_full_stats = (\<lambda>_ _. JNull)\<rparr>"

theorem profiling_state_machine_witness:
  "\<exists>rs a'. handleAdminProfile demo_config (\<lambda>_. []) demo_runtime quiet_env (request ''POST'' [] [(''action'', ''cpu'')]) demo_app =
     Some (rs, a') \<and> cpu_ok (cpuProfileState a')"
proof -
  have "cpu_ok (cpuProfileState demo_app)" by (simp add: demo_app_def new_app_def cpu_ok_def)
  from profiling_state_machine [OF this] show ?thesis by blast
qed

theorem freed_bytes_wraps_witness: "uint (freed_bytes demo_runtime) = 2 ^ 64 - 3"
  using freed_bytes_wraps [of demo_runtime] by (simp add: demo_runtime_def)

theorem access_log_misses_request_id_witness:
  "\<exists>rs a' ms i. accessLogMiddleware demo_config quiet_env (requestIDMiddleware quiet_env (\<lambda>rq a. (ok_json JNull, a)))
      (request ''GET'' [] []) demo_app = (rs, a') \<and>
    last (log_lines a') = JObj ms \<and> gm_get ms ''request_id'' = Some (JStr []) \<and>
    gm_get (rs_headers rs) ''X-Request-ID'' = Some i \<and> i \<noteq> []"
  by (rule access_log_misses_request_id)
    (simp_all add: gm_str_def requestIDMiddleware_def demo_app_def new_app_def NewLogger_def Let_def)

theorem health_reports_database_witness:
  "rs_code (fst (handleHealth demo_config example_config demo_runtime quiet_env 0 None False (request ''GET'' [] []) example_server)) = 503"
  using health_reports_database [of "request ''GET'' [] []" demo_config example_config demo_runtime quiet_env 0 None False example_server]
  by auto

end
