(* ===== verification/Endpoints.thy ===== *)
theory Endpoints
  imports Integrity Observability
begin

section \<open>What every endpoint promises\<close>

text \<open>
  The contract of an HTTP endpoint, as a locale: whatever the request, it keeps the invariant of its state.
  A guarded endpoint also refuses a request that does not authenticate: it answers 401 or 405 and changes
  nothing. Each handler of the server is interpreted as one or the other; the middleware keeps both
  contracts, so that the routes of main.go inherit them.
\<close>

named_theorems endpoint_intros

locale endpoint =
  fixes inv :: "'s \<Rightarrow> bool" and h :: "'s handler"
  assumes keeps: "inv s \<Longrightarrow> inv (snd (h rq s))"
begin

lemma keeps_eq: "h rq s = (rs, s') \<Longrightarrow> inv s \<Longrightarrow> inv s'"
  using keeps [of s rq] by simp

lemma cors: "endpoint inv (corsMiddleware cf h)"
  using keeps by unfold_locales (simp add: corsMiddleware_def case_prod_beta)

lemma csrf: "endpoint inv (csrfMiddleware cf h)"
  using keeps by unfold_locales (simp add: csrfMiddleware_def)

lemma security: "endpoint inv (securityHeadersMiddleware h)"
  using keeps by unfold_locales (simp add: securityHeadersMiddleware_def case_prod_beta)

lemma admin: "endpoint inv (adminAuthMiddleware cf h)"
  using keeps by unfold_locales (simp add: adminAuthMiddleware_def Let_def)

lemma auth: "endpoint inv (authMiddleware cf e h)"
  using keeps by unfold_locales (simp add: authMiddleware_def split: sum.splits)

end

lemmas endpoint_middleware [endpoint_intros] =
  endpoint.cors endpoint.csrf endpoint.security endpoint.admin endpoint.auth

locale guarded_endpoint = endpoint inv h for inv :: "'s \<Rightarrow> bool" and h +
  fixes authentic :: "http_request \<Rightarrow> bool"
  assumes refuses: "\<not> authentic rq \<Longrightarrow> snd (h rq s) = s \<and> rs_code (fst (h rq s)) \<in> {401, 405}"
begin

lemma success_is_authentic: "rs_code (fst (h rq s)) = 200 \<Longrightarrow> authentic rq"
  using refuses [of rq s] by fastforce

lemma change_is_authentic: "snd (h rq s) \<noteq> s \<Longrightarrow> authentic rq"
  using refuses [of rq s] by blast

end

text \<open>The request carries a token the server accepts.\<close>

definition has_claims :: "config \<Rightarrow> env \<Rightarrow> http_request \<Rightarrow> bool" where
  "has_claims cf e rq \<longleftrightarrow> (case request_claims cf e rq of Inr _ \<Rightarrow> True | Inl _ \<Rightarrow> False)"

lemma guarded_user:
  assumes "\<And>claims rq s. I s \<Longrightarrow> I (snd (body claims rq s))"
  shows "guarded_endpoint I (user_endpoint cf e m body) (has_claims cf e)"
  using assms by unfold_locales (auto simp: user_endpoint_def has_claims_def split: sum.splits)

text \<open>A user token or the secret of an agent, as \<open>authenticateRequest\<close> accepts them.\<close>

definition is_peer :: "config \<Rightarrow> env \<Rightarrow> http_request \<Rightarrow> bool" where
  "is_peer cf e rq \<longleftrightarrow> (case authenticateRequest cf e rq of Inr _ \<Rightarrow> True | Inl _ \<Rightarrow> False)"

lemma guarded_peer:
  assumes "\<And>i ty rq s. I s \<Longrightarrow> I (snd (body i ty rq s))"
  shows "guarded_endpoint I (peer_endpoint cf e m body) (is_peer cf e)"
  using assms by unfold_locales (auto simp: peer_endpoint_def is_peer_def split: sum.splits)

definition has_bearer :: "config \<Rightarrow> env \<Rightarrow> http_request \<Rightarrow> bool" where
  "has_bearer cf e rq \<longleftrightarrow> has_prefix (rq_header rq ''Authorization'') ''Bearer '' \<and>
     (case ValidateJWT (cf_jwt cf) (cf_jwtSecret cf) (clock e ''ValidateJWT'') (trim_prefix (rq_header rq ''Authorization'') ''Bearer '') of
        Inr _ \<Rightarrow> True | Inl _ \<Rightarrow> False)"

lemma guarded_bearer:
  assumes "\<And>claims rq s. I s \<Longrightarrow> I (snd (body claims rq s))"
  shows "guarded_endpoint I (bearer_endpoint cf e m body) (has_bearer cf e)"
  using assms by unfold_locales (auto simp: bearer_endpoint_def has_bearer_def Let_def split: sum.splits)

subsection \<open>The invariant of the server\<close>

definition server_inv :: "server \<Rightarrow> bool" where
  "server_inv s \<longleftrightarrow> hub_inv (srv_hub s) \<and> schema_ok (srv_db s) \<and> queue_good (srv_queue s)"

lemma server_inv_db: "server_inv s \<Longrightarrow> schema_ok d \<Longrightarrow> server_inv (s\<lparr>srv_db := d\<rparr>)"
  by (simp add: server_inv_def)

lemma server_inv_schema: "server_inv s \<Longrightarrow> schema_ok (srv_db s)"
  by (simp add: server_inv_def)

lemma server_inv_hub: "server_inv s \<Longrightarrow> sends_only (srv_hub s) h \<Longrightarrow> server_inv (s\<lparr>srv_hub := h\<rparr>)"
  using sends_only_inv by (auto simp: server_inv_def)

lemma server_inv_on_hub: "server_inv s \<Longrightarrow> (\<And>h. sends_only h (f h)) \<Longrightarrow> server_inv (on_hub f s)"
  by (simp add: on_hub_def server_inv_hub)

lemma sends_only_send_to_agent [simp]: "sends_only h (send_to_agent i m h)"
  by (simp add: send_to_agent_def split: option.splits)

lemma sends_only_send_to_devices [simp]: "sends_only h (send_to_devices i m h)"
  by (simp add: send_to_devices_def)

lemma sends_only_notify_participants [simp]: "sends_only h (notify_participants conv m h)"
  unfolding notify_participants_def by (rule sends_only_trans [OF sends_only_send_to_devices sends_only_send_to_agent])

lemmas server_inv_intros = server_inv_db server_inv_on_hub server_inv_schema

subsection \<open>Accounts and agents\<close>

interpretation login: endpoint server_inv "handleLogin cf e" for cf e
  by unfold_locales (auto simp: handleLogin_def Let_def split: option.splits)

interpretation register_agent: endpoint server_inv "handleRegisterAgent cf e" for cf e
  by unfold_locales (auto simp: handleRegisterAgent_def Let_def intro!: server_inv_db upsert_agent_schema server_inv_schema)

interpretation register_user: endpoint server_inv "handleRegisterUser cf e" for cf e
  by unfold_locales
    (auto simp: handleRegisterUser_def Let_def intro!: server_inv_db add_user_schema server_inv_schema split: option.splits)

interpretation change_password: guarded_endpoint server_inv "handleChangePassword cf e" "has_claims cf e" for cf e
proof unfold_locales
  fix s rq assume s: "server_inv s"
  show "server_inv (snd (handleChangePassword cf e rq s))"
    using s by (auto simp: handleChangePassword_def Let_def intro!: server_inv_db
        intro: changeUserPassword_schema server_inv_schema split: sum.splits prod.splits option.splits)
qed (auto simp: handleChangePassword_def has_claims_def split: sum.splits)

interpretation list_agents: endpoint server_inv "handleListAgents e" for e
  by unfold_locales (simp add: handleListAgents_def)

interpretation admin_agents: endpoint server_inv "handleAdminAgents cf e" for cf e
  by unfold_locales (simp add: handleAdminAgents_def)

subsection \<open>Conversations and messages\<close>

interpretation create_conversation: guarded_endpoint server_inv "handleCreateConversation cf e" "has_claims cf e" for cf e
  unfolding handleCreateConversation_def
  by (rule guarded_user) (auto simp: Let_def intro!: server_inv_db intro: GetOrCreateConversation_schema server_inv_schema
      split: prod.splits sum.splits)

interpretation list_conversations: guarded_endpoint server_inv "handleListConversations cf e" "has_claims cf e" for cf e
  unfolding handleListConversations_def by (rule guarded_user) simp

text \<open>A handler that never returns or panics (\<open>None\<close>) answers nothing and changes nothing; on the wire there is no response,
  written here as code 0.\<close>

definition answer_pending :: "('s \<Rightarrow> (http_response \<times> 's) option) \<Rightarrow> 's \<Rightarrow> http_response \<times> 's" where
  "answer_pending f s = (case f s of None \<Rightarrow> (\<lparr>rs_code = 0, rs_headers = [], rs_body = JNull\<rparr>, s) | Some r \<Rightarrow> r)"

definition get_messages :: "config \<Rightarrow> (string \<Rightarrow> int \<Rightarrow> bool) \<Rightarrow> nat \<Rightarrow> env \<Rightarrow> server handler" where
  "get_messages cf older max_open e rq = answer_pending (handleGetMessages cf older max_open e rq)"

interpretation get_messages: guarded_endpoint server_inv "get_messages cf older max_open e" "has_claims cf e" for cf older max_open e
proof unfold_locales
  fix s rq assume "server_inv s"
  then show "server_inv (snd (get_messages cf older max_open e rq s))"
    by (auto simp: get_messages_def answer_pending_def handleGetMessages_def Let_def split: sum.splits option.splits)
qed (auto simp: get_messages_def answer_pending_def handleGetMessages_def has_claims_def split: sum.splits)

interpretation delete_conversation: guarded_endpoint server_inv "handleDeleteConversation cf e" "has_claims cf e" for cf e
  unfolding handleDeleteConversation_def
  by (rule guarded_user) (auto simp: Let_def intro!: server_inv_db intro: deleteConversation_schema server_inv_schema
      split: prod.splits option.splits)

interpretation mark_read: guarded_endpoint server_inv "handleMarkRead cf e" "has_claims cf e" for cf e
proof -
  have "sends_only h (send_to_devices u m (send_to_agent a m h))" for u a m h
    by (rule sends_only_trans [OF sends_only_send_to_agent sends_only_send_to_devices])
  then show "guarded_endpoint server_inv (handleMarkRead cf e) (has_claims cf e)"
    unfolding handleMarkRead_def
    by (intro guarded_user) (auto simp: Let_def intro!: server_inv_db server_inv_on_hub
        intro: markMessagesRead_schema server_inv_schema split: prod.splits option.splits sum.splits)
qed

interpretation search_messages: guarded_endpoint server_inv "handleSearchMessages cf e" "has_claims cf e" for cf e
  unfolding handleSearchMessages_def by (rule guarded_user) (auto simp: Let_def split: sum.splits)

interpretation message_edit: guarded_endpoint server_inv "handleMessageEdit cf e" "has_claims cf e" for cf e
  unfolding handleMessageEdit_def
  by (rule guarded_user) (auto simp: Let_def set_content_def intro!: server_inv_db server_inv_on_hub update_messages_schema
      server_inv_schema split: option.splits sum.splits)

interpretation message_delete: guarded_endpoint server_inv "handleMessageDelete cf e" "has_claims cf e" for cf e
  unfolding handleMessageDelete_def
  by (rule guarded_user) (auto simp: Let_def soft_delete_def intro!: server_inv_db server_inv_on_hub update_messages_schema
      server_inv_schema split: option.splits sum.splits)

interpretation react: guarded_endpoint server_inv "handleReact cf e" "has_claims cf e" for cf e
proof -
  have inv: "server_inv (s\<lparr>srv_db := d, srv_hub := send_to_devices u m h\<rparr>)"
    if "server_inv s" "schema_ok d" "sends_only (srv_hub s) h" for s d u m h
    using server_inv_hub [OF server_inv_db [OF that(1,2)]] sends_only_trans [OF that(3) sends_only_send_to_devices] by simp
  show "guarded_endpoint server_inv (handleReact cf e) (has_claims cf e)"
    unfolding handleReact_def
    by (intro guarded_user) (auto simp: Let_def intro!: server_inv_db inv
        intro: addReaction_schema server_inv_schema split: prod.splits sum.splits)
qed

interpretation get_reactions: guarded_endpoint server_inv "handleGetReactions cf e" "has_claims cf e" for cf e
  unfolding handleGetReactions_def by (rule guarded_user) (auto simp: Let_def split: option.splits sum.splits)

subsection \<open>Tags, preferences, presence\<close>

interpretation add_tag: guarded_endpoint server_inv "handleAddTag cf e" "has_claims cf e" for cf e
  unfolding handleAddTag_def
  by (rule guarded_user) (auto simp: Let_def intro!: server_inv_db intro: addConversationTag_schema server_inv_schema
      split: prod.splits sum.splits)

interpretation remove_tag: guarded_endpoint server_inv "handleRemoveTag cf e" "has_claims cf e" for cf e
  unfolding handleRemoveTag_def
  by (rule guarded_user) (auto simp: Let_def intro!: server_inv_db intro: removeConversationTag_schema server_inv_schema
      split: prod.splits option.splits)

interpretation get_tags: guarded_endpoint server_inv "handleGetTags cf e" "has_claims cf e" for cf e
  unfolding handleGetTags_def by (rule guarded_user) (auto simp: Let_def split: option.splits sum.splits)

interpretation get_prefs: guarded_endpoint server_inv "authMiddleware cf e (handleGetNotificationPrefs e)" "has_claims cf e" for cf e
  by unfold_locales (auto simp: authMiddleware_def handleGetNotificationPrefs_def has_claims_def split: sum.splits option.splits)

interpretation set_prefs: guarded_endpoint server_inv "authMiddleware cf e (handleSetNotificationPrefs e)" "has_claims cf e" for cf e
proof unfold_locales
  fix s rq assume "server_inv s"
  then show "server_inv (snd (authMiddleware cf e (handleSetNotificationPrefs e) rq s))"
    by (auto simp: authMiddleware_def handleSetNotificationPrefs_def Let_def intro!: server_inv_db
        intro: upsert_pref_schema server_inv_schema split: sum.splits option.splits)
qed (auto simp: authMiddleware_def has_claims_def split: sum.splits)

interpretation delete_prefs: guarded_endpoint server_inv "authMiddleware cf e (handleDeleteNotificationPrefs e)" "has_claims cf e" for cf e
proof unfold_locales
  fix s rq assume "server_inv s"
  then show "server_inv (snd (authMiddleware cf e (handleDeleteNotificationPrefs e) rq s))"
    by (auto simp: authMiddleware_def handleDeleteNotificationPrefs_def Let_def intro!: server_inv_db filter_prefs_schema
        server_inv_schema split: sum.splits option.splits)
qed (auto simp: authMiddleware_def has_claims_def split: sum.splits)

interpretation presence: guarded_endpoint server_inv "handleGetPresence cf e" "has_claims cf e" for cf e
  unfolding handleGetPresence_def by (rule guarded_user) simp

interpretation user_presence: guarded_endpoint server_inv "handleGetUserPresence cf e" "has_claims cf e" for cf e
  unfolding handleGetUserPresence_def by (rule guarded_user) (simp add: Let_def)

subsection \<open>Encrypted messages, devices\<close>

interpretation upload_key: guarded_endpoint server_inv "handleUploadPublicKey cf e" "is_peer cf e" for cf e
  unfolding handleUploadPublicKey_def
  by (rule guarded_peer) (auto simp: Let_def intro!: server_inv_db replace_identity_schema
      intro: insert_key_schema server_inv_schema replace_identity_schema split: option.splits sum.splits)

interpretation key_bundle: guarded_endpoint server_inv "handleGetKeyBundle cf e" "is_peer cf e" for cf e
  unfolding handleGetKeyBundle_def
  by (rule guarded_peer) (auto simp: Let_def consume_otp_def intro!: server_inv_db delete_key_schema server_inv_schema split: list.splits)

interpretation otpk_count: guarded_endpoint server_inv "handleListOneTimePreKeys cf e" "is_peer cf e" for cf e
  unfolding handleListOneTimePreKeys_def by (rule guarded_peer) simp

lemma server_inv_notify_encrypted [simp]: "server_inv (notify_encrypted u c s) = server_inv s"
  by (simp add: notify_encrypted_def server_inv_def)

lemma deliver_encrypted_inv: "server_inv s \<Longrightarrow> server_inv (deliver_encrypted ty c conv m s)"
  by (auto simp: deliver_encrypted_def Let_def case_prod_beta snd_send_count intro!: server_inv_on_hub server_inv_hub)

interpretation store_encrypted: guarded_endpoint server_inv "handleStoreEncryptedMessage cf e" "is_peer cf e" for cf e
  unfolding handleStoreEncryptedMessage_def
proof (rule guarded_peer, goal_cases)
  case (1 i ty rq s)
  show ?case
  proof (cases "\<exists>c ct iv rk sk al. encrypted_fields (rq_body rq) = Some [c, ct, iv, rk, sk, al]")
    case True
    then obtain c ct iv rk sk al where "encrypted_fields (rq_body rq) = Some [c, ct, iv, rk, sk, al]" by blast
    then show ?thesis
      using 1 by (auto simp: Let_def intro!: deliver_encrypted_inv server_inv_db intro: insert_encrypted_schema server_inv_schema
          split: sum.splits option.splits)
  next
    case False
    then show ?thesis using 1 by (auto split: option.splits list.splits)
  qed
qed

interpretation get_encrypted: guarded_endpoint server_inv "handleGetEncryptedMessages cf e" "is_peer cf e" for cf e
  unfolding handleGetEncryptedMessages_def by (rule guarded_peer) (auto simp: Let_def split: sum.splits option.splits)

interpretation register_device: guarded_endpoint server_inv "handleRegisterDeviceToken cf e" "has_claims cf e" for cf e
  unfolding handleRegisterDeviceToken_def
proof (rule guarded_user, goal_cases)
  case (1 claims rq s)
  show ?case
  proof (cases "\<exists>tok plat. body_fields [''device_token'', ''platform''] (rq_body rq) = Some [tok, plat]")
    case True
    then obtain tok plat where "body_fields [''device_token'', ''platform''] (rq_body rq) = Some [tok, plat]" by blast
    then show ?thesis
      using 1 upsert_device_schema [OF _ server_inv_schema [OF 1]] by (auto simp: Let_def intro!: server_inv_db split: sum.splits)
  next
    case False
    then show ?thesis using 1 by (auto split: option.splits list.splits)
  qed
qed

interpretation unregister_device: guarded_endpoint server_inv "handleUnregisterDeviceToken cf e" "has_claims cf e" for cf e
  unfolding handleUnregisterDeviceToken_def
  by (rule guarded_user) (auto intro!: server_inv_db delete_devices_schema server_inv_schema split: option.splits list.splits)

interpretation vapid_key: endpoint server_inv "handleGetVAPIDKey key" for key
  by unfold_locales (simp add: handleGetVAPIDKey_def Let_def)

interpretation web_subscribe: guarded_endpoint server_inv "handleWebPushSubscribe cf e" "has_claims cf e" for cf e
  unfolding handleWebPushSubscribe_def
  by (rule guarded_user) (auto intro!: server_inv_db replace_webpush_schema intro: replace_device_schema server_inv_schema
      split: option.splits sum.splits)

interpretation web_unsubscribe: guarded_endpoint server_inv "handleWebPushUnsubscribe cf e" "has_claims cf e" for cf e
  unfolding handleWebPushUnsubscribe_def
  by (rule guarded_user) (auto simp: Let_def intro!: server_inv_db filter_webpush_schema delete_devices_schema server_inv_schema
      split: option.splits list.splits)

subsection \<open>The endpoints that work on the whole application\<close>

definition app_inv :: "app \<Rightarrow> bool" where
  "app_inv a \<longleftrightarrow> server_inv (app_server a) \<and> cpu_ok (cpuProfileState a) \<and> gm_ok (lg_fields (DefaultLogger a))"

lemma app_inv_server: "app_inv a \<Longrightarrow> server_inv s \<Longrightarrow> app_inv (a\<lparr>app_server := s\<rparr>)"
  by (simp add: app_inv_def)

lemma app_inv_serverD: "app_inv a \<Longrightarrow> server_inv (app_server a)"
  by (simp add: app_inv_def)

lemma app_inv_counts [simp]: "app_inv (count_error a) = app_inv a" "app_inv (count_limited a) = app_inv a"
  by (simp_all add: app_inv_def count_error_def count_limited_def on_hub_def server_inv_def)

text \<open>A handler of the server as one of the application.\<close>

definition on_app :: "server handler \<Rightarrow> app handler" where
  "on_app h rq = on_server (h rq)"

lemma endpoint_on_app [endpoint_intros]: "endpoint server_inv h \<Longrightarrow> endpoint app_inv (on_app h)"
  by unfold_locales (simp add: on_app_def on_server_def app_inv_def case_prod_beta endpoint.keeps)

lemma app_inv_limiters [simp]:
  "app_inv (a\<lparr>requestIDCounter := n\<rparr>) = app_inv a" "app_inv (a\<lparr>authIPLimiter := l\<rparr>) = app_inv a"
  "app_inv (a\<lparr>ipRateLimiter := l\<rparr>) = app_inv a" "app_inv (a\<lparr>globalTieredLimiter := t\<rparr>) = app_inv a"
  "app_inv (a\<lparr>agentRateLimiter := g\<rparr>) = app_inv a" "app_inv (a\<lparr>app_files := f\<rparr>) = app_inv a"
  "app_inv (a\<lparr>log_lines := ls\<rparr>) = app_inv a"
  by (simp_all add: app_inv_def)

lemma endpoint_requestID [endpoint_intros]: "endpoint app_inv h \<Longrightarrow> endpoint app_inv (requestIDMiddleware e h)"
  by unfold_locales (simp add: requestIDMiddleware_def Let_def case_prod_beta endpoint.keeps)

lemma endpoint_authRateLimit [endpoint_intros]: "endpoint app_inv h \<Longrightarrow> endpoint app_inv (authRateLimitMiddleware e h)"
  by unfold_locales (simp add: authRateLimitMiddleware_def ip_limit_middleware_def Let_def case_prod_beta endpoint.keeps)

lemma endpoint_ipRateLimit [endpoint_intros]: "endpoint app_inv h \<Longrightarrow> endpoint app_inv (ipRateLimitMiddleware e h)"
  by unfold_locales (simp add: ipRateLimitMiddleware_def ip_limit_middleware_def Let_def case_prod_beta endpoint.keeps)

lemma endpoint_tiered [endpoint_intros]: "endpoint app_inv h \<Longrightarrow> endpoint app_inv (tieredRateLimitMiddleware cf e h)"
  by unfold_locales (simp add: tieredRateLimitMiddleware_def Let_def case_prod_beta endpoint.keeps)

interpretation upload: guarded_endpoint app_inv "handleUpload cf ue e" "has_bearer cf e" for cf ue e
proof -
  have "app_inv (snd (store_upload cf ue e claims rq a))" if "app_inv a" for claims :: Claims and rq a
  proof (cases "rq_multipart rq")
    case (FilePart f)
    then show ?thesis
      using that insert_attachment_schema [OF _ server_inv_schema [OF app_inv_serverD [OF that]]]
      by (auto simp: store_upload_def Let_def app_inv_def intro!: server_inv_db split: sum.splits)
  qed (use that in \<open>simp_all add: store_upload_def\<close>)
  then show "guarded_endpoint app_inv (handleUpload cf ue e) (has_bearer cf e)"
    unfolding handleUpload_def by (rule guarded_bearer)
qed

interpretation get_attachment: endpoint app_inv "handleGetAttachment cf ue e" for cf ue e
  by unfold_locales (simp add: handleGetAttachment_def Let_def split: sum.splits option.splits)

interpretation list_attachments: guarded_endpoint server_inv "handleListAttachments cf e" "has_bearer cf e" for cf e
  unfolding handleListAttachments_def
  by (rule guarded_bearer) (auto simp: Let_def split: sum.splits option.splits)

interpretation rate_limit_tier: endpoint app_inv "handleAdminRateLimitTier cf e" for cf e
  by unfold_locales (auto simp: handleAdminRateLimitTier_def handleSetRateLimitTier_def handleGetRateLimitTier_def Let_def app_inv_def
      intro!: server_inv_db persistTierToDB_schema server_inv_schema)

lemma open_connection_inv:
  assumes "app_inv a" and "ct \<in> {''agent'', ''client''}" and "ct = ''agent'' \<Longrightarrow> dev = []"
  shows "app_inv (open_connection (new_connection ct i dev ver now) a)"
proof -
  have "hub_step h (start_register (new_connection ct i dev ver now) h)" for h
    using assms(2,3) connect_agent connect_client by fastforce
  then show ?thesis
    using assms(1) hub_step_inv by (auto simp: app_inv_def open_connection_def on_hub_def server_inv_def)
qed

interpretation agent_connect: endpoint app_inv "handleAgentConnect cf e upgrade" for cf e upgrade
proof unfold_locales
  fix a and rq :: http_request assume a: "app_inv a"
  let ?i = "rq_query rq ''agent_id''" and ?secret = "rq_query rq ''agent_secret''"
  obtain err a1 where v: "ValidateAgentSecret cf e ?i ?secret a = (err, a1)" by (cases "ValidateAgentSecret cf e ?i ?secret a")
  have a1: "app_inv a1" using a v by (auto simp: ValidateAgentSecret_def Let_def split: if_splits prod.splits)
  obtain r d where g: "RegisterAgentOnConnect e ?i (rq_query rq ''name'') (rq_query rq ''model'') (rq_query rq ''personality'')
      (rq_query rq ''specialty'') (srv_db (app_server a1)) = (r, d)" by (metis surj_pair)
  have "app_inv (a1\<lparr>app_server := (app_server a1)\<lparr>srv_db := d\<rparr>\<rparr>)"
    using a1 RegisterAgentOnConnect_schema [OF g] by (auto simp: app_inv_def intro: server_inv_db server_inv_schema)
  then show "app_inv (snd (handleAgentConnect cf e upgrade rq a))"
    using a a1 by (simp add: handleAgentConnect_def v g Let_def open_connection_inv split: option.splits)
qed

interpretation client_connect: endpoint app_inv "handleClientConnect cf e upgrade" for cf e upgrade
  by unfold_locales (auto simp: handleClientConnect_def Let_def intro!: open_connection_inv split: sum.splits option.splits)

subsection \<open>Health, metrics, profiling and the access log\<close>

interpretation health: endpoint server_inv "handleHealth cf pc rt e t0 ping tracing" for cf pc rt e t0 ping tracing
  by unfold_locales (simp add: handleHealth_def Let_def)

definition serve_metrics :: "presence_config \<Rightarrow> runtime_lib \<Rightarrow> env \<Rightarrow> int \<Rightarrow> server handler" where
  "serve_metrics pc rt e t0 rq = answer_pending (handleMetrics pc rt e t0 rq)"

interpretation metrics: endpoint server_inv "serve_metrics pc rt e t0" for pc rt e t0
  by unfold_locales (simp add: serve_metrics_def answer_pending_def handleMetrics_def split: option.splits)

definition serve_profile :: "config \<Rightarrow> (string \<Rightarrow> string) \<Rightarrow> runtime_lib \<Rightarrow> env \<Rightarrow> app handler" where
  "serve_profile cf getenv rt e rq = answer_pending (handleAdminProfile cf getenv rt e rq)"

lemma handleAdminProfile_cpu:
  assumes "handleAdminProfile cf getenv rt e rq a = Some (rs, a')" and "cpu_ok (cpuProfileState a)"
  shows "cpu_ok (cpuProfileState a') \<and> app_server a' = app_server a \<and> DefaultLogger a' = DefaultLogger a"
  using assms by (auto simp: handleAdminProfile_def handleCPUProfileStart_def handleCPUProfileStop_def cpu_ok_def Let_def
      split: if_splits option.splits)

interpretation profile: endpoint app_inv "serve_profile cf getenv rt e" for cf getenv rt e
proof unfold_locales
  fix a and rq :: http_request assume a: "app_inv a"
  show "app_inv (snd (serve_profile cf getenv rt e rq a))"
  proof (cases "handleAdminProfile cf getenv rt e rq a")
    case (Some r)
    then obtain rs a' where r: "handleAdminProfile cf getenv rt e rq a = Some (rs, a')" by (cases r) simp
    with handleAdminProfile_cpu [OF r] a show ?thesis by (simp add: serve_profile_def answer_pending_def app_inv_def)
  qed (use a in \<open>simp add: serve_profile_def answer_pending_def\<close>)
qed

lemma endpoint_accessLog [endpoint_intros]: "endpoint app_inv h \<Longrightarrow> endpoint app_inv (accessLogMiddleware cf e h)"
  by unfold_locales (simp add: accessLogMiddleware_def Let_def case_prod_beta endpoint.keeps split: option.splits)

end
