(* ===== verification/System.thy ===== *)
theory System
  imports Endpoints
begin

section \<open>The whole server: routes, goroutines and the invariant they keep\<close>

text \<open>
  main.go: the table of routes with the middleware around each handler, the request dispatch of the standard
  \<open>ServeMux\<close>, and one step relation for everything that happens to a running server: an HTTP request is
  served, a frame arrives on a WebSocket connection, a goroutine of the hub moves, a client that has connected gets its
  welcome and its stored messages, and the periodic cleanups run. The \<open>pprof\<close> and WebChat handlers that main.go
  adds from the standard library are outside the table.
\<close>

record settings =
  st_config :: config
  st_upgrade :: upgrade_lib
  st_uploads :: upload_env
  st_older :: "string \<Rightarrow> int \<Rightarrow> bool"
  st_max_open :: nat
  st_vapid :: string
  st_presence :: presence_config
  st_runtime :: runtime_lib
  st_start :: int
  st_ping :: "(string option) option"
  st_tracing :: bool
  st_getenv :: "string \<Rightarrow> string"

subsection \<open>Routes\<close>

definition routes :: "settings \<Rightarrow> env \<Rightarrow> (string \<times> app handler) list" where
  "routes st e =
     (let cf = st_config st; pc = st_presence st; rt = st_runtime st;
          outer = (\<lambda>h. accessLogMiddleware cf e (requestIDMiddleware e h));
          cors = corsMiddleware cf; csrf = csrfMiddleware cf; admin = adminAuthMiddleware cf;
          limited = authRateLimitMiddleware e; tiered = tieredRateLimitMiddleware cf e; authenticated = authMiddleware cf e
      in [(''/agent/connect'', handleAgentConnect cf e (st_upgrade st)),
          (''/client/connect'', handleClientConnect cf e (st_upgrade st)),
          (''/health'', outer (securityHeadersMiddleware (cors (on_app (handleHealth cf pc rt e (st_start st) (st_ping st) (st_tracing st)))))),
          (''/metrics'', outer (securityHeadersMiddleware (cors (on_app (serve_metrics pc rt e (st_start st)))))),
          (''/auth/login'', outer (csrf (limited (cors (on_app (handleLogin cf e)))))),
          (''/auth/agent'', outer (csrf (limited (cors (on_app (handleRegisterAgent cf e)))))),
          (''/auth/user'', outer (csrf (limited (cors (on_app (handleRegisterUser cf e)))))),
          (''/auth/change-password'', outer (csrf (limited (cors (on_app (handleChangePassword cf e)))))),
          (''/agents'', outer (cors (on_app (handleListAgents e)))),
          (''/admin/agents'', outer (admin (cors (on_app (handleAdminAgents cf e))))),
          (''/conversations/create'', outer (csrf (cors (tiered (on_app (handleCreateConversation cf e)))))),
          (''/conversations/list'', outer (cors (tiered (on_app (handleListConversations cf e))))),
          (''/conversations/messages'', outer (cors (tiered (on_app (get_messages cf (st_older st) (st_max_open st) e))))),
          (''/conversations/delete'', outer (csrf (cors (tiered (on_app (handleDeleteConversation cf e)))))),
          (''/conversations/mark-read'', outer (csrf (cors (tiered (on_app (handleMarkRead cf e)))))),
          (''/messages/search'', outer (cors (tiered (on_app (handleSearchMessages cf e))))),
          (''/messages/edit'', outer (csrf (cors (tiered (on_app (handleMessageEdit cf e)))))),
          (''/messages/delete'', outer (csrf (cors (tiered (on_app (handleMessageDelete cf e)))))),
          (''/presence'', outer (cors (tiered (on_app (handleGetPresence cf e))))),
          (''/presence/user'', outer (cors (tiered (on_app (handleGetUserPresence cf e))))),
          (''/messages/react'', outer (csrf (cors (tiered (on_app (handleReact cf e)))))),
          (''/messages/reactions'', outer (cors (tiered (on_app (handleGetReactions cf e))))),
          (''/conversations/tags/add'', outer (csrf (cors (tiered (on_app (handleAddTag cf e)))))),
          (''/conversations/tags/remove'', outer (csrf (cors (tiered (on_app (handleRemoveTag cf e)))))),
          (''/conversations/tags'', outer (cors (tiered (on_app (handleGetTags cf e))))),
          (''/attachments/upload'', outer (csrf (cors (handleUpload cf (st_uploads st) e)))),
          (''/attachments/'', outer (cors (handleGetAttachment cf (st_uploads st) e))),
          (''/messages/attachments'', outer (cors (on_app (handleListAttachments cf e)))),
          (''/keys/upload'', outer (csrf (cors (on_app (handleUploadPublicKey cf e))))),
          (''/keys/bundle'', outer (cors (on_app (handleGetKeyBundle cf e)))),
          (''/keys/otpk-count'', outer (cors (on_app (handleListOneTimePreKeys cf e)))),
          (''/messages/encrypted'', outer (csrf (cors (on_app (handleStoreEncryptedMessage cf e))))),
          (''/messages/encrypted/list'', outer (cors (on_app (handleGetEncryptedMessages cf e)))),
          (''/push/register'', outer (csrf (cors (on_app (handleRegisterDeviceToken cf e))))),
          (''/push/unregister'', outer (csrf (cors (on_app (handleUnregisterDeviceToken cf e))))),
          (''/push/vapid-key'', outer (cors (on_app (handleGetVAPIDKey (st_vapid st))))),
          (''/push/web-subscribe'', outer (csrf (cors (on_app (handleWebPushSubscribe cf e))))),
          (''/push/web-unsubscribe'', outer (csrf (cors (on_app (handleWebPushUnsubscribe cf e))))),
          (''/notification-prefs'', outer (authenticated (on_app (handleGetNotificationPrefs e)))),
          (''/notification-prefs/set'', outer (csrf (cors (authenticated (on_app (handleSetNotificationPrefs e)))))),
          (''/notification-prefs/delete'', outer (csrf (cors (authenticated (on_app (handleDeleteNotificationPrefs e)))))),
          (''/admin/rate-limit/tier'', outer (admin (cors (handleAdminRateLimitTier cf e)))),
          (''/admin/profile'', outer (admin (cors (serve_profile cf (st_getenv st) rt e))))])"

text \<open>The mux takes the longest pattern that matches a clean path; a pattern that ends in a slash matches every path below
  it. Without a match it answers 404.\<close>

definition mux_match :: "string \<Rightarrow> string \<Rightarrow> bool" where
  "mux_match pat path \<longleftrightarrow> pat = path \<or> (pat \<noteq> [] \<and> last pat = CHR ''/'' \<and> has_prefix path pat)"

fun longest_match :: "string \<Rightarrow> (string \<times> 'h) list \<Rightarrow> (string \<times> 'h) option" where
  "longest_match path [] = None"
| "longest_match path ((pat, h) # rs) =
     (case longest_match path rs of
        None \<Rightarrow> if mux_match pat path then Some (pat, h) else None
      | Some (pat', h') \<Rightarrow> if mux_match pat path \<and> length pat' \<le> length pat then Some (pat, h) else Some (pat', h'))"

definition serve :: "settings \<Rightarrow> env \<Rightarrow> app handler" where
  "serve st e rq a =
     (case longest_match (rq_path rq) (routes st e) of
        None \<Rightarrow> (http_Error ''404 page not found'' 404, a)
      | Some (_, h) \<Rightarrow> h rq a)"

lemma longest_match_set: "longest_match path rs = Some r \<Longrightarrow> r \<in> set rs"
  by (induction path rs arbitrary: r rule: longest_match.induct) (auto split: option.splits if_splits prod.splits)

lemma longest_match_matches: "longest_match path rs = Some (pat, h) \<Longrightarrow> mux_match pat path"
  by (induction path rs arbitrary: pat h rule: longest_match.induct) (auto split: option.splits if_splits prod.splits)

lemma serve_rule:
  assumes "\<And>pat h. (pat, h) \<in> set (routes st e) \<Longrightarrow> mux_match pat (rq_path rq) \<Longrightarrow> P (snd (h rq a))" and "P a"
  shows "P (snd (serve st e rq a))"
proof (cases "longest_match (rq_path rq) (routes st e)")
  case (Some r)
  obtain pat h where r: "r = (pat, h)" by (cases r)
  with Some have m: "longest_match (rq_path rq) (routes st e) = Some (pat, h)" by simp
  then show ?thesis using assms(1) [OF longest_match_set [OF m] longest_match_matches [OF m]] by (simp add: serve_def)
qed (use assms(2) in \<open>simp add: serve_def\<close>)

subsection \<open>Every route keeps the invariant\<close>

lemmas server_endpoints =
  login.endpoint_axioms register_agent.endpoint_axioms register_user.endpoint_axioms change_password.endpoint_axioms
  list_agents.endpoint_axioms admin_agents.endpoint_axioms create_conversation.endpoint_axioms list_conversations.endpoint_axioms
  get_messages.endpoint_axioms delete_conversation.endpoint_axioms mark_read.endpoint_axioms search_messages.endpoint_axioms
  message_edit.endpoint_axioms message_delete.endpoint_axioms presence.endpoint_axioms user_presence.endpoint_axioms
  react.endpoint_axioms get_reactions.endpoint_axioms add_tag.endpoint_axioms remove_tag.endpoint_axioms get_tags.endpoint_axioms
  list_attachments.endpoint_axioms upload_key.endpoint_axioms key_bundle.endpoint_axioms otpk_count.endpoint_axioms
  store_encrypted.endpoint_axioms get_encrypted.endpoint_axioms register_device.endpoint_axioms unregister_device.endpoint_axioms
  vapid_key.endpoint_axioms web_subscribe.endpoint_axioms web_unsubscribe.endpoint_axioms health.endpoint_axioms metrics.endpoint_axioms

lemmas app_endpoints =
  upload.endpoint_axioms get_attachment.endpoint_axioms rate_limit_tier.endpoint_axioms profile.endpoint_axioms
  agent_connect.endpoint_axioms client_connect.endpoint_axioms

lemma on_app_auth: "authMiddleware cf e (on_app h) = on_app (authMiddleware cf e h)"
  by (rule ext, rule ext) (simp add: authMiddleware_def on_app_def on_server_def split: sum.splits)

lemmas pref_endpoints = get_prefs.endpoint_axioms [THEN endpoint_on_app, folded on_app_auth]
  set_prefs.endpoint_axioms [THEN endpoint_on_app, folded on_app_auth]
  delete_prefs.endpoint_axioms [THEN endpoint_on_app, folded on_app_auth]

lemma route_endpoint: "(pat, h) \<in> set (routes st e) \<Longrightarrow> endpoint app_inv h"
  by (simp only: routes_def Let_def list.set insert_iff empty_iff prod.inject)
    (elim disjE conjE FalseE; simp only:; intro endpoint_intros app_endpoints server_endpoints pref_endpoints)

lemma serve_keeps: "app_inv a \<Longrightarrow> app_inv (snd (serve st e rq a))"
  by (rule serve_rule) (auto dest: route_endpoint intro: endpoint.keeps)

subsection \<open>Frames and goroutines keep the invariant\<close>

lemma server_inv_hub_map: "server_inv s \<Longrightarrow> (hub_inv (srv_hub s) \<Longrightarrow> hub_inv (f (srv_hub s))) \<Longrightarrow> server_inv (on_hub f s)"
  by (simp add: server_inv_def on_hub_def)

lemma server_inv_step: "server_inv s \<Longrightarrow> hub_step (srv_hub s) (f (srv_hub s)) \<Longrightarrow> server_inv (on_hub f s)"
  by (rule server_inv_hub_map) (auto intro: hub_step_inv)

lemma sendError_inv: "server_inv s \<Longrightarrow> server_inv (sendError r m s)"
  unfolding sendError_def by (rule server_inv_on_hub) simp_all

lemma checkRateLimit_inv: "checkRateLimit e r s = (ok, s1) \<Longrightarrow> server_inv s \<Longrightarrow> server_inv s1"
  by (auto simp: checkRateLimit_def Let_def case_prod_beta intro!: sendError_inv split: rate_verdict.splits)
    (auto simp: server_inv_def on_hub_def)

lemma enqueue_offline_inv: "server_inv s \<Longrightarrow> server_inv (enqueue_offline e i d s)"
  by (simp add: server_inv_def enqueue_offline_def queue_good_def schema_ok_queue)

lemma notify_later_inv [simp]: "server_inv (notify_later i m s) = server_inv s"
  by (simp add: server_inv_def)

lemma deliver_to_user_inv: "server_inv s \<Longrightarrow> server_inv (deliver_to_user e i m out s)"
  by (auto simp: deliver_to_user_def Let_def case_prod_beta snd_send_count intro!: enqueue_offline_inv server_inv_hub)

lemma deliver_to_agent_inv: "server_inv s \<Longrightarrow> server_inv (deliver_to_agent e i out s)"
proof -
  assume s: "server_inv s"
  have "sends_only (srv_hub s) (snd (SafeSend q out (srv_hub s)))" for q
    using sends_only_send_to [of "srv_hub s" q out] by (simp add: send_to_def)
  then show ?thesis
    using s by (auto simp: deliver_to_agent_def Let_def case_prod_beta intro!: enqueue_offline_inv server_inv_hub split: option.splits)
qed

lemma routeChatMessage_inv: "server_inv s \<Longrightarrow> server_inv (routeChatMessage e r dat s)"
proof (rule routeChatMessage_cases [of e r dat s])
  fix m assume "server_inv s" "routeChatMessage e r dat s = sendError r m s"
  then show ?thesis by (simp add: sendError_inv)
next
  fix msg0 conv msg d
  assume s: "server_inv s" and st: "storeMessage e msg (srv_db s) = (None, d)"
    and res: "routeChatMessage e r dat s = on_hub (send_to r (message_sent_ack (ConversationID msg0)))
      (if sender_type r s = ''agent'' then deliver_to_user e (recipient_of (sender_type r s) conv) msg
         (OutgoingMessage ''message'' (marshal_routed msg)) (s\<lparr>srv_db := d\<rparr>)
       else deliver_to_agent e (recipient_of (sender_type r s) conv) (OutgoingMessage ''message'' (marshal_routed msg)) (s\<lparr>srv_db := d\<rparr>))"
  have "server_inv (s\<lparr>srv_db := d\<rparr>)" using server_inv_db [OF s storeMessage_schema [OF st server_inv_schema [OF s]]] .
  then show ?thesis unfolding res by (auto intro!: server_inv_on_hub deliver_to_user_inv deliver_to_agent_inv)
qed

lemma forward_inv: "server_inv s \<Longrightarrow> server_inv (forward ct conv d s)"
  by (auto simp: forward_def intro!: server_inv_on_hub split: option.splits)

lemma routeTypingIndicator_inv: "server_inv s \<Longrightarrow> server_inv (routeTypingIndicator e r dat s)"
  by (auto simp: routeTypingIndicator_def Let_def intro!: forward_inv split: option.splits list.splits sum.splits)

lemma status_inv: "server_inv s \<Longrightarrow> server_inv (on_hub (\<lambda>h. BroadcastToAllClients m (SetAgentStatus i st h)) s)"
  by (rule server_inv_hub_map)
    (auto simp: BroadcastToAllClients_def intro: sends_only_inv [rotated] hub_step_inv [OF set_status] sends_only_send_all)

lemma routeStatusUpdate_inv: "server_inv s \<Longrightarrow> server_inv (routeStatusUpdate e r dat s)"
  by (auto simp: routeStatusUpdate_def Let_def intro!: forward_inv status_inv split: option.splits list.splits sum.splits)

lemma routeHeartbeat_inv: "server_inv s \<Longrightarrow> server_inv (routeHeartbeat fmt cfg e r s)"
  unfolding routeHeartbeat_def by (intro server_inv_on_hub server_inv_step touch sends_only_send_to)

lemma routeMessage_inv: "server_inv s \<Longrightarrow> server_inv (routeMessage fmt cfg e r raw s)"
proof -
  assume s: "server_inv s"
  obtain ok s1 where c: "checkRateLimit e r s = (ok, s1)" by (cases "checkRateLimit e r s")
  have "server_inv s1" by (rule checkRateLimit_inv [OF c s])
  then show ?thesis
    by (auto simp: routeMessage_def c intro!: sendError_inv routeChatMessage_inv routeTypingIndicator_inv routeStatusUpdate_inv
        routeHeartbeat_inv split: option.splits)
qed

lemma readPump_message_inv: "server_inv s \<Longrightarrow> server_inv (readPump_message fmt cfg e r raw s)"
proof -
  assume "server_inv s"
  moreover have "hub_inv (h\<lparr>messagesRouted := n\<rparr>) = hub_inv h" for h n
    by (simp add: hub_inv_defs live_as_def devices_ok_def device_of_def [abs_def])
  ultimately show ?thesis
    unfolding readPump_message_def by (intro routeMessage_inv server_inv_hub_map) simp_all
qed

lemma sends_only_replay_loop: "sends_only h (replay_loop r ds h)"
proof -
  have "sends_only h (fold (\<lambda>d h. snd (SafeSend r d h)) ds h)" for ds
  proof (induction ds arbitrary: h)
    case (Cons d ds)
    have "sends_only h (snd (SafeSend r d h))" using sends_only_send_to [of h r d] by (simp add: send_to_def)
    then show ?case using Cons sends_only_trans by fastforce
  qed simp
  then show ?thesis by (simp add: replay_loop_fold)
qed

lemma replay_offline_inv: "server_inv s \<Longrightarrow> server_inv (replay_offline e r i s)"
proof -
  assume s: "server_inv s"
  let ?rp = "replayOfflineMessages (clock e ''Drain'') (sql_fails e ''deleteQueueMessages'') r i
      \<lparr>rp_hub = srv_hub s, rp_queue = srv_queue s, rp_table = Some (t_queue (srv_db s))\<rparr>"
  have "hub_inv (rp_hub ?rp)"
    using s sends_only_inv [OF sends_only_replay_loop] by (simp add: replay_hub server_inv_def)
  moreover have "queue_good (rp_queue ?rp)"
    using s by (auto simp: server_inv_def replayOfflineMessages_def Let_def case_prod_beta queue_good_def Drain_def)
  ultimately show ?thesis using s by (simp add: replay_offline_def Let_def server_inv_def schema_ok_queue)
qed

lemma sendWelcomeMessage_inv: "server_inv s \<Longrightarrow> server_inv (sendWelcomeMessage r s)"
  by (auto simp: sendWelcomeMessage_def intro!: server_inv_on_hub split: option.splits)

subsection \<open>Steps of the server\<close>

definition in_server :: "(server \<Rightarrow> server) \<Rightarrow> app \<Rightarrow> app" where
  "in_server f a = a\<lparr>app_server := f (app_server a)\<rparr>"

text \<open>What may happen next. A frame comes from a connection that exists; the hub moves by a step of its own loop, of its
  monitor or of a pump.\<close>

inductive app_step :: "settings \<Rightarrow> app \<Rightarrow> app \<Rightarrow> bool" for st where
  http_request: "app_step st a (snd (serve st e rq a))"
| ws_frame: "heap (srv_hub (app_server a)) r \<noteq> None \<Longrightarrow>
    app_step st a (in_server (readPump_message (cf_rfc3339 (st_config st)) (st_presence st) e r message) a)"
| hub_goroutine:
    "hub_step (srv_hub (app_server a)) h \<Longrightarrow> app_step st a (in_server (\<lambda>s. s\<lparr>srv_hub := h\<rparr>) a)"
| ws_replay: "app_step st a (in_server (replay_offline e r i) a)"
| ws_welcome: "app_step st a (in_server (sendWelcomeMessage r) a)"
| push_done: "app_step st a (in_server (\<lambda>s. s\<lparr>srv_notified := tl (srv_notified s)\<rparr>) a)"
| clean_queue: "app_step st a (in_server (\<lambda>s. s\<lparr>srv_db := (srv_db s)\<lparr>t_queue :=
    the (cleanStaleQueueMessages fails now (7 * 24 * hour) (Some (t_queue (srv_db s))))\<rparr>\<rparr>) a)"
| clean_agents: "app_step st a (a\<lparr>agentRateLimiter := rateLimiter_Clean now (agentRateLimiter a)\<rparr>)"
| clean_ips: "app_step st a (a\<lparr>ipRateLimiter := RateLimiter_cleanup now (ipRateLimiter a),
    authIPLimiter := RateLimiter_cleanup now (authIPLimiter a)\<rparr>)"

inductive_cases app_stepE: "app_step st a a'"

text \<open>The server as main.go starts it on a database: the hub is new, the offline queue is loaded from its table, the plans
  from theirs.\<close>

definition boot :: "metrics \<Rightarrow> (nat \<Rightarrow> int) \<Rightarrow> env \<Rightarrow> int \<Rightarrow> database \<Rightarrow> app" where
  "boot mx clk e authLimit d =
     (let s = \<lparr>srv_hub = newHub (Some mx),
               srv_queue = loadQueueFromDB (sql_fails e ''loadQueueFromDB'') (\<lambda>_. False) clk (Some (t_queue d)) (newOfflineQueue 100 (7 * 24 * hour)),
               srv_db = d, srv_limits = new_message_limits, srv_notified = []\<rparr>
      in (new_app s authLimit)\<lparr>globalTieredLimiter := snd (loadTiersFromDB e (Some d) NewTieredRateLimiter)\<rparr>)"

inductive app_reachable :: "settings \<Rightarrow> app \<Rightarrow> bool" for st where
  app_start: "schema_ok d \<Longrightarrow> app_reachable st (boot mx clk e n d)"
| app_next: "app_reachable st a \<Longrightarrow> app_step st a a' \<Longrightarrow> app_reachable st a'"

lemma load_rows_params: "maxLen (load_rows f clk i rows q) = maxLen q" "ttl (load_rows f clk i rows q) = ttl q"
  by (induction f clk i rows q rule: load_rows.induct) simp_all

lemma boot_inv: "schema_ok d \<Longrightarrow> app_inv (boot mx clk e n d)"
  by (simp add: boot_def app_inv_def server_inv_def new_app_def newHub_inv loadQueueFromDB_def load_rows_params queue_good_def
      newOfflineQueue_def cpu_ok_def NewLogger_def Let_def)

lemma app_step_inv: "app_step st a a' \<Longrightarrow> app_inv a \<Longrightarrow> app_inv a'"
proof (induction rule: app_step.induct)
  case (http_request a e rq)
  then show ?case by (rule serve_keeps)
next
  case (ws_frame a r e message)
  then show ?case by (simp add: in_server_def app_inv_def readPump_message_inv)
next
  case (hub_goroutine a h)
  then show ?case using hub_step_inv by (auto simp: in_server_def app_inv_def server_inv_def)
next
  case (ws_replay a e r i)
  then show ?case by (simp add: in_server_def app_inv_def replay_offline_inv)
next
  case (ws_welcome a r)
  then show ?case by (simp add: in_server_def app_inv_def sendWelcomeMessage_inv)
next
  case (push_done a)
  then show ?case by (simp add: in_server_def app_inv_def server_inv_def)
next
  case (clean_queue a fails now)
  then show ?case by (simp add: in_server_def app_inv_def server_inv_def schema_ok_queue)
qed simp_all

text \<open>C4: The invariant of the whole server. However requests, frames and goroutines interleave, in every state the server
  can reach from a database whose constraints hold, all constraints of the schema hold (keys unique, every
  reference resolves), the connection registry is consistent, the offline queue keeps its bounds and the
  profiler its state.\<close>

theorem server_invariant:
  assumes "app_reachable st a"
  shows "schema_ok (srv_db (app_server a)) \<and> hub_inv (srv_hub (app_server a)) \<and> queue_good (srv_queue (app_server a)) \<and>
    cpu_ok (cpuProfileState a)"
proof -
  from assms have "app_inv a" by induction (auto intro: boot_inv app_step_inv)
  then show ?thesis by (simp add: app_inv_def server_inv_def)
qed

subsection \<open>Requests without credentials\<close>

text \<open>A request that carries neither a valid token nor one of the two secrets.\<close>

definition anonymous :: "config \<Rightarrow> env \<Rightarrow> http_request \<Rightarrow> bool" where
  "anonymous cf e rq \<longleftrightarrow> \<not> has_claims cf e rq \<and> \<not> has_bearer cf e rq \<and> \<not> is_peer cf e rq \<and>
     cf_agentSecret cf \<notin> {rq_header rq ''X-Agent-Secret'', rq_form rq ''agent_secret'', rq_query rq ''agent_secret''} \<and>
     cf_adminSecret cf \<notin> {rq_header rq ''X-Admin-Secret'', rq_form rq ''admin_secret'', rq_query rq ''admin_secret''}"

lemma anonymous_request_id [simp]:
  "anonymous cf e (rq\<lparr>rq_header := (rq_header rq)(''X-Request-ID'' := i)\<rparr>) = anonymous cf e rq"
  by (simp add: anonymous_def has_claims_def request_claims_def has_bearer_def is_peer_def authenticateRequest_def Let_def)

definition stored_data :: "app \<Rightarrow> database \<times> (string, string) gomap" where
  "stored_data a = (srv_db (app_server a), app_files a)"

lemma stored_data_simps [simp]:
  "stored_data (a\<lparr>log_lines := l\<rparr>) = stored_data a" "stored_data (a\<lparr>requestIDCounter := n\<rparr>) = stored_data a"
  "stored_data (a\<lparr>authIPLimiter := x\<rparr>) = stored_data a" "stored_data (a\<lparr>globalTieredLimiter := t\<rparr>) = stored_data a"
  "stored_data (a\<lparr>cpuProfileState := c\<rparr>) = stored_data a" "stored_data (count_limited a) = stored_data a"
  "stored_data (count_error a) = stored_data a" "stored_data (a\<lparr>agentRateLimiter := g\<rparr>) = stored_data a"
  by (simp_all add: stored_data_def count_limited_def count_error_def on_hub_def)

named_theorems private_intros

locale private_endpoint =
  fixes cf :: config and e :: env and h :: "app handler"
  assumes anonymous_keeps: "anonymous cf e rq \<Longrightarrow> stored_data (snd (h rq a)) = stored_data a"
begin

lemma log: "private_endpoint cf e (accessLogMiddleware cf' e' h)"
  using anonymous_keeps by unfold_locales (simp add: accessLogMiddleware_def Let_def case_prod_beta split: option.splits)

lemma request_id: "private_endpoint cf e (requestIDMiddleware e' h)"
  using anonymous_keeps by unfold_locales (simp add: requestIDMiddleware_def Let_def case_prod_beta)

lemma security: "private_endpoint cf e (securityHeadersMiddleware h)"
  using anonymous_keeps by unfold_locales (simp add: securityHeadersMiddleware_def case_prod_beta)

lemma cors: "private_endpoint cf e (corsMiddleware cf' h)"
  using anonymous_keeps by unfold_locales (simp add: corsMiddleware_def case_prod_beta)

lemma csrf: "private_endpoint cf e (csrfMiddleware cf' h)"
  using anonymous_keeps by unfold_locales (simp add: csrfMiddleware_def)

lemma limited: "private_endpoint cf e (authRateLimitMiddleware e' h)"
  using anonymous_keeps by unfold_locales (simp add: authRateLimitMiddleware_def ip_limit_middleware_def Let_def case_prod_beta)

lemma tiered: "private_endpoint cf e (tieredRateLimitMiddleware cf' e' h)"
  using anonymous_keeps by unfold_locales (simp add: tieredRateLimitMiddleware_def Let_def case_prod_beta)

end

lemmas private_middleware [private_intros] = private_endpoint.log private_endpoint.request_id private_endpoint.security
  private_endpoint.cors private_endpoint.csrf private_endpoint.limited private_endpoint.tiered

lemma private_guarded:
  assumes "guarded_endpoint I h g" and "\<And>rq. anonymous cf e rq \<Longrightarrow> \<not> g rq"
  shows "private_endpoint cf e (on_app h)"
  using guarded_endpoint.refuses [OF assms(1)] assms(2)
  by unfold_locales (auto simp: on_app_def on_server_def case_prod_beta stored_data_def)

lemma private_readonly:
  assumes "\<And>rq s. snd (h rq s) = s"
  shows "private_endpoint cf e (on_app h)"
  using assms by unfold_locales (simp add: on_app_def on_server_def case_prod_beta)

lemma anonymousD: "anonymous cf e rq \<Longrightarrow> \<not> has_claims cf e rq" "anonymous cf e rq \<Longrightarrow> \<not> has_bearer cf e rq"
  "anonymous cf e rq \<Longrightarrow> \<not> is_peer cf e rq"
  by (simp_all add: anonymous_def)

lemma private_admin [private_intros]: "private_endpoint cf e (adminAuthMiddleware cf h)"
  by unfold_locales (auto simp: adminAuthMiddleware_def ValidateAdminSecret_def anonymous_def Let_def)

lemmas private_users =
  change_password.guarded_endpoint_axioms [THEN private_guarded, OF anonymousD(1)]
  create_conversation.guarded_endpoint_axioms [THEN private_guarded, OF anonymousD(1)]
  list_conversations.guarded_endpoint_axioms [THEN private_guarded, OF anonymousD(1)]
  get_messages.guarded_endpoint_axioms [THEN private_guarded, OF anonymousD(1)]
  delete_conversation.guarded_endpoint_axioms [THEN private_guarded, OF anonymousD(1)]
  mark_read.guarded_endpoint_axioms [THEN private_guarded, OF anonymousD(1)]
  search_messages.guarded_endpoint_axioms [THEN private_guarded, OF anonymousD(1)]
  message_edit.guarded_endpoint_axioms [THEN private_guarded, OF anonymousD(1)]
  message_delete.guarded_endpoint_axioms [THEN private_guarded, OF anonymousD(1)]
  presence.guarded_endpoint_axioms [THEN private_guarded, OF anonymousD(1)]
  user_presence.guarded_endpoint_axioms [THEN private_guarded, OF anonymousD(1)]
  react.guarded_endpoint_axioms [THEN private_guarded, OF anonymousD(1)]
  get_reactions.guarded_endpoint_axioms [THEN private_guarded, OF anonymousD(1)]
  add_tag.guarded_endpoint_axioms [THEN private_guarded, OF anonymousD(1)]
  remove_tag.guarded_endpoint_axioms [THEN private_guarded, OF anonymousD(1)]
  get_tags.guarded_endpoint_axioms [THEN private_guarded, OF anonymousD(1)]
  register_device.guarded_endpoint_axioms [THEN private_guarded, OF anonymousD(1)]
  unregister_device.guarded_endpoint_axioms [THEN private_guarded, OF anonymousD(1)]
  web_subscribe.guarded_endpoint_axioms [THEN private_guarded, OF anonymousD(1)]
  web_unsubscribe.guarded_endpoint_axioms [THEN private_guarded, OF anonymousD(1)]

lemmas private_prefs =
  get_prefs.guarded_endpoint_axioms [THEN private_guarded, OF anonymousD(1), folded on_app_auth]
  set_prefs.guarded_endpoint_axioms [THEN private_guarded, OF anonymousD(1), folded on_app_auth]
  delete_prefs.guarded_endpoint_axioms [THEN private_guarded, OF anonymousD(1), folded on_app_auth]

lemmas private_peers =
  upload_key.guarded_endpoint_axioms [THEN private_guarded, OF anonymousD(3)]
  key_bundle.guarded_endpoint_axioms [THEN private_guarded, OF anonymousD(3)]
  otpk_count.guarded_endpoint_axioms [THEN private_guarded, OF anonymousD(3)]
  store_encrypted.guarded_endpoint_axioms [THEN private_guarded, OF anonymousD(3)]
  get_encrypted.guarded_endpoint_axioms [THEN private_guarded, OF anonymousD(3)]

lemmas private_bearer = list_attachments.guarded_endpoint_axioms [THEN private_guarded, OF anonymousD(2)]

lemma private_reads:
  "private_endpoint cf e (on_app (handleLogin cf' e'))" "private_endpoint cf e (on_app (handleListAgents e'))"
  "private_endpoint cf e (on_app (handleHealth cf' pc rt e' t0 ping tr))" "private_endpoint cf e (on_app (serve_metrics pc rt e' t0))"
  "private_endpoint cf e (on_app (handleGetVAPIDKey key))"
  by (rule private_readonly; simp add: handleLogin_def handleListAgents_def handleHealth_def serve_metrics_def answer_pending_def
      handleMetrics_def handleGetVAPIDKey_def Let_def split: option.splits)+

interpretation private_register_agent: private_endpoint cf e "on_app (handleRegisterAgent cf e')" for cf e e'
  by unfold_locales (auto simp: on_app_def on_server_def handleRegisterAgent_def anonymous_def Let_def)

interpretation private_upload: private_endpoint cf e "handleUpload cf ue e" for cf e ue
  using upload.refuses anonymousD(2) by unfold_locales metis

interpretation private_get_attachment: private_endpoint cf e "handleGetAttachment cf' ue e'" for cf e cf' ue e'
  by unfold_locales (simp add: handleGetAttachment_def Let_def split: sum.splits option.splits)

interpretation private_agent_connect: private_endpoint cf e "handleAgentConnect cf e' upgrade" for cf e e' upgrade
proof unfold_locales
  fix rq :: http_request and a assume an: "anonymous cf e rq"
  let ?i = "rq_query rq ''agent_id''" and ?secret = "rq_query rq ''agent_secret''"
  obtain err a1 where v: "ValidateAgentSecret cf e' ?i ?secret a = (err, a1)" by (cases "ValidateAgentSecret cf e' ?i ?secret a")
  have "?secret \<noteq> cf_agentSecret cf" using an by (auto simp: anonymous_def)
  then have "err \<noteq> None" and "stored_data a1 = stored_data a"
    using v by (auto simp: ValidateAgentSecret_def Let_def split: if_splits prod.splits)
  then show "stored_data (snd (handleAgentConnect cf e' upgrade rq a)) = stored_data a"
    by (auto simp: handleAgentConnect_def v Let_def)
qed

interpretation private_client_connect: private_endpoint cf e "handleClientConnect cf' e' upgrade" for cf e cf' e' upgrade
  by unfold_locales (auto simp: handleClientConnect_def stored_data_def open_connection_def on_hub_def count_error_def Let_def
      split: sum.splits option.splits)

lemma route_private:
  "(pat, h) \<in> set (routes st e) \<Longrightarrow> pat \<noteq> ''/auth/user'' \<Longrightarrow> private_endpoint (st_config st) e h"
  by (simp only: routes_def Let_def list.set insert_iff empty_iff prod.inject)
    (elim disjE conjE FalseE; simp only: refl not_True_eq_False simp_thms;
      intro private_intros private_reads private_register_agent.private_endpoint_axioms private_upload.private_endpoint_axioms
        private_get_attachment.private_endpoint_axioms private_agent_connect.private_endpoint_axioms
        private_client_connect.private_endpoint_axioms private_users private_prefs private_peers private_bearer)

text \<open>C7: Nothing is written for strangers: a request without a valid token and without the agent or admin secret changes neither
  the database nor the uploaded files, on whatever path, method and middleware; only the registration of a new user is open.\<close>

theorem anonymous_requests_write_nothing:
  assumes "anonymous (st_config st) e rq" and "rq_path rq \<noteq> ''/auth/user''"
  shows "srv_db (app_server (snd (serve st e rq a))) = srv_db (app_server a) \<and> app_files (snd (serve st e rq a)) = app_files a"
proof -
  have "stored_data (snd (serve st e rq a)) = stored_data a"
  proof (rule serve_rule)
    fix pat h assume r: "(pat, h) \<in> set (routes st e)" and m: "mux_match pat (rq_path rq)"
    have "pat \<noteq> ''/auth/user''" using m assms(2) by (auto simp: mux_match_def)
    then show "stored_data (snd (h rq a)) = stored_data a"
      using private_endpoint.anonymous_keeps [OF route_private [OF r]] assms(1) by simp
  qed simp
  then show ?thesis by (simp add: stored_data_def)
qed

subsection \<open>A concrete server\<close>

definition demo_settings :: settings where
  "demo_settings = \<lparr>st_config = demo_config, st_upgrade = (\<lambda>_ _. None), st_uploads = demo_uploads, st_older = (\<lambda>_ _. False),
     st_max_open = 1, st_vapid = [], st_presence = example_config, st_runtime = demo_runtime, st_start = 0, st_ping = Some None,
     st_tracing = False, st_getenv = (\<lambda>_. [])\<rparr>"

definition demo_boot :: app where
  "demo_boot = boot \<lparr>MessagesIn = 0, MessagesOut = 0, ConnectionsTotal = 0, ErrorsTotal = 0, RateLimited = 0\<rparr> (\<lambda>_. 0) quiet_env 30 empty_db"

definition register_request :: http_request where
  "register_request = (request ''POST'' [(''X-Requested-With'', ''XMLHttpRequest'')] [(''username'', ''alice''), (''password'', ''secret'')])
     \<lparr>rq_path := ''/auth/user''\<rparr>"

theorem server_invariant_witness:
  "schema_ok (srv_db (app_server (snd (serve demo_settings quiet_env register_request demo_boot))))"
proof -
  have "app_reachable demo_settings demo_boot" unfolding demo_boot_def by (rule app_start [OF empty_db_schema])
  then have "app_reachable demo_settings (snd (serve demo_settings quiet_env register_request demo_boot))"
    by (rule app_next [OF _ http_request])
  from server_invariant [OF this] show ?thesis by blast
qed

definition stranger_request :: http_request where
  "stranger_request = (request ''POST'' [] [(''agent_id'', ''a'')])\<lparr>rq_path := ''/conversations/create''\<rparr>"

theorem anonymous_requests_write_nothing_witness:
  "srv_db (app_server (snd (serve demo_settings quiet_env stranger_request demo_app))) = example_db"
proof -
  have h: "rq_header stranger_request k = []" for k by (simp add: stranger_request_def request_def gm_str_def)
  have "anonymous demo_config quiet_env stranger_request"
    unfolding anonymous_def has_claims_def request_claims_def has_bearer_def is_peer_def authenticateRequest_def h
    by (simp add: ValidateJWT_def strip_bearer_def has_prefix_def demo_config_def)
      (simp add: stranger_request_def request_def gm_str_def gm_get_def)
  moreover have "rq_path stranger_request \<noteq> ''/auth/user''" by (simp add: stranger_request_def)
  ultimately show ?thesis
    using anonymous_requests_write_nothing [of demo_settings quiet_env stranger_request demo_app] by (simp add: demo_settings_def)
qed

end
