(* ===== verification/Journeys.thy ===== *)
theory Journeys
  imports System
begin

section \<open>The way of a message from its sender to its recipient\<close>

text \<open>
  What routing, the hub, the offline queue and the replay do together. The first part follows the offline queue through every
  step of the server: no HTTP endpoint touches it, frames only add to it, and only a replay takes something out. The
  interface \<open>endpoint\<close> is reused for that, with the value of the queue in the place of the invariant. The
  second part is the theorem about the whole way of a message: once it is stored it is in the outbox of a connection of its
  recipient, or it will be when the recipient connects.
\<close>

subsection \<open>No HTTP request touches the offline queue\<close>

definition server_queue :: "OfflineQueue \<Rightarrow> server \<Rightarrow> bool" where
  "server_queue q s \<longleftrightarrow> srv_queue s = q"

definition app_queue :: "OfflineQueue \<Rightarrow> app \<Rightarrow> bool" where
  "app_queue q a \<longleftrightarrow> server_queue q (app_server a)"

lemma server_queue_frame [simp]:
  "server_queue q (s\<lparr>srv_db := d\<rparr>) = server_queue q s" "server_queue q (s\<lparr>srv_hub := h\<rparr>) = server_queue q s"
  "server_queue q (on_hub f s) = server_queue q s" "server_queue q (s\<lparr>srv_notified := n\<rparr>) = server_queue q s"
  by (simp_all add: server_queue_def)

lemma app_queue_frame [simp]:
  "app_queue q (a\<lparr>requestIDCounter := n\<rparr>) = app_queue q a" "app_queue q (a\<lparr>authIPLimiter := l\<rparr>) = app_queue q a"
  "app_queue q (a\<lparr>globalTieredLimiter := t\<rparr>) = app_queue q a" "app_queue q (a\<lparr>agentRateLimiter := g\<rparr>) = app_queue q a"
  "app_queue q (a\<lparr>log_lines := ls\<rparr>) = app_queue q a" "app_queue q (count_error a) = app_queue q a"
  "app_queue q (count_limited a) = app_queue q a" "app_queue q (a\<lparr>app_files := f\<rparr>) = app_queue q a"
  "app_queue q (a\<lparr>app_server := s\<rparr>) = server_queue q s"
  by (simp_all add: app_queue_def count_error_def count_limited_def)

named_theorems queue_intros

lemma queue_on_app [queue_intros]: "endpoint (server_queue q) h \<Longrightarrow> endpoint (app_queue q) (on_app h)"
  by unfold_locales (simp add: on_app_def on_server_def case_prod_beta endpoint.keeps app_queue_def)

lemma queue_middleware [queue_intros]:
  assumes "endpoint (app_queue q) h"
  shows "endpoint (app_queue q) (accessLogMiddleware cf e h)" "endpoint (app_queue q) (requestIDMiddleware e h)"
    "endpoint (app_queue q) (authRateLimitMiddleware e h)" "endpoint (app_queue q) (tieredRateLimitMiddleware cf e h)"
  using endpoint.keeps [OF assms]
  by (unfold_locales; simp add: accessLogMiddleware_def requestIDMiddleware_def authRateLimitMiddleware_def
      ip_limit_middleware_def tieredRateLimitMiddleware_def Let_def case_prod_beta split: option.splits)+

lemmas queue_user = guarded_user [THEN guarded_endpoint.axioms(1)]
lemmas queue_peer = guarded_peer [THEN guarded_endpoint.axioms(1)]
lemmas queue_bearer = guarded_bearer [THEN guarded_endpoint.axioms(1)]

lemma queue_accounts [queue_intros]:
  "endpoint (server_queue q) (handleLogin cf e)" "endpoint (server_queue q) (handleRegisterAgent cf e)"
  "endpoint (server_queue q) (handleRegisterUser cf e)" "endpoint (server_queue q) (handleChangePassword cf e)"
  "endpoint (server_queue q) (handleListAgents e)" "endpoint (server_queue q) (handleAdminAgents cf e)"
  by (unfold_locales; simp add: handleLogin_def handleRegisterAgent_def handleRegisterUser_def handleChangePassword_def
      handleListAgents_def handleAdminAgents_def Let_def split: option.splits sum.splits prod.splits)+

lemma queue_conversations [queue_intros]:
  "endpoint (server_queue q) (handleCreateConversation cf e)" "endpoint (server_queue q) (handleListConversations cf e)"
  "endpoint (server_queue q) (handleDeleteConversation cf e)" "endpoint (server_queue q) (handleMarkRead cf e)"
  "endpoint (server_queue q) (handleSearchMessages cf e)" "endpoint (server_queue q) (handleMessageEdit cf e)"
  "endpoint (server_queue q) (handleMessageDelete cf e)" "endpoint (server_queue q) (handleReact cf e)"
  "endpoint (server_queue q) (handleGetReactions cf e)" "endpoint (server_queue q) (handleAddTag cf e)"
  "endpoint (server_queue q) (handleRemoveTag cf e)" "endpoint (server_queue q) (handleGetTags cf e)"
  "endpoint (server_queue q) (handleGetPresence cf e)" "endpoint (server_queue q) (handleGetUserPresence cf e)"
  unfolding handleCreateConversation_def handleListConversations_def handleDeleteConversation_def handleMarkRead_def
    handleSearchMessages_def handleMessageEdit_def handleMessageDelete_def handleReact_def handleGetReactions_def
    handleAddTag_def handleRemoveTag_def handleGetTags_def handleGetPresence_def handleGetUserPresence_def
  by (rule queue_user; simp add: Let_def split: option.splits sum.splits prod.splits)+

lemma queue_messages [queue_intros]: "endpoint (server_queue q) (get_messages cf older max_open e)"
  by unfold_locales (simp add: get_messages_def answer_pending_def handleGetMessages_def Let_def split: sum.splits option.splits)

lemma queue_prefs [queue_intros]:
  "endpoint (server_queue q) (handleGetNotificationPrefs e)" "endpoint (server_queue q) (handleSetNotificationPrefs e)"
  "endpoint (server_queue q) (handleDeleteNotificationPrefs e)"
  by (unfold_locales; simp add: handleGetNotificationPrefs_def handleSetNotificationPrefs_def handleDeleteNotificationPrefs_def
      Let_def split: option.splits sum.splits)+

lemma deliver_encrypted_queue [simp]: "server_queue q (deliver_encrypted ty c conv m s) = server_queue q s"
  by (simp add: deliver_encrypted_def notify_encrypted_def Let_def case_prod_beta split: option.splits)

lemma queue_encrypted [queue_intros]: "endpoint (server_queue q) (handleStoreEncryptedMessage cf e)"
  unfolding handleStoreEncryptedMessage_def
  by (rule queue_peer) (auto simp: Let_def split: option.splits list.splits sum.splits)

lemma queue_keys [queue_intros]:
  "endpoint (server_queue q) (handleUploadPublicKey cf e)" "endpoint (server_queue q) (handleGetKeyBundle cf e)"
  "endpoint (server_queue q) (handleListOneTimePreKeys cf e)" "endpoint (server_queue q) (handleGetEncryptedMessages cf e)"
  unfolding handleUploadPublicKey_def handleGetKeyBundle_def handleListOneTimePreKeys_def handleGetEncryptedMessages_def
  by (rule queue_peer; auto simp: Let_def split: option.splits list.splits sum.splits)+

lemma queue_devices [queue_intros]:
  "endpoint (server_queue q) (handleRegisterDeviceToken cf e)" "endpoint (server_queue q) (handleUnregisterDeviceToken cf e)"
  "endpoint (server_queue q) (handleWebPushSubscribe cf e)" "endpoint (server_queue q) (handleWebPushUnsubscribe cf e)"
  unfolding handleRegisterDeviceToken_def handleUnregisterDeviceToken_def handleWebPushSubscribe_def handleWebPushUnsubscribe_def
  by (rule queue_user; auto simp: Let_def split: option.splits list.splits sum.splits)+

lemma queue_readonly [queue_intros]:
  "endpoint (server_queue q) (handleGetVAPIDKey key)" "endpoint (server_queue q) (handleHealth cf pc rt e t0 ping tr)"
  "endpoint (server_queue q) (serve_metrics pc rt e t0)"
  by (unfold_locales; simp add: handleGetVAPIDKey_def handleHealth_def serve_metrics_def answer_pending_def handleMetrics_def
      Let_def split: option.splits)+

lemma queue_list_attachments [queue_intros]: "endpoint (server_queue q) (handleListAttachments cf e)"
  unfolding handleListAttachments_def by (rule queue_bearer) (auto simp: Let_def split: sum.splits option.splits)

lemma queue_uploads [queue_intros]:
  "endpoint (app_queue q) (handleUpload cf ue e)" "endpoint (app_queue q) (handleGetAttachment cf ue e)"
proof -
  have "app_queue q (snd (store_upload cf ue e claims rq a))" if "app_queue q a" for claims :: Claims and rq a
    using that by (auto simp: store_upload_def Let_def app_queue_def split: multipart.splits sum.splits)
  then show "endpoint (app_queue q) (handleUpload cf ue e)" unfolding handleUpload_def by (rule queue_bearer)
  show "endpoint (app_queue q) (handleGetAttachment cf ue e)"
    by unfold_locales (simp add: handleGetAttachment_def Let_def split: sum.splits option.splits)
qed

lemma queue_tier [queue_intros]: "endpoint (app_queue q) (handleAdminRateLimitTier cf e)"
  by unfold_locales (auto simp: handleAdminRateLimitTier_def handleSetRateLimitTier_def handleGetRateLimitTier_def Let_def app_queue_def)

lemma queue_profile [queue_intros]: "endpoint (app_queue q) (serve_profile cf getenv rt e)"
  by unfold_locales (auto simp: serve_profile_def answer_pending_def handleAdminProfile_def handleCPUProfileStart_def
      handleCPUProfileStop_def app_queue_def Let_def split: option.splits)

lemma ValidateAgentSecret_server: "app_server (snd (ValidateAgentSecret cf e i secret a)) = app_server a"
  by (simp add: ValidateAgentSecret_def Let_def case_prod_beta)

lemma queue_connect [queue_intros]:
  "endpoint (app_queue q) (handleAgentConnect cf e upgrade)" "endpoint (app_queue q) (handleClientConnect cf e upgrade)"
proof -
  show "endpoint (app_queue q) (handleAgentConnect cf e upgrade)"
  proof unfold_locales
    fix a and rq :: http_request assume a: "app_queue q a"
    let ?i = "rq_query rq ''agent_id''" and ?secret = "rq_query rq ''agent_secret''"
    obtain err a1 where v: "ValidateAgentSecret cf e ?i ?secret a = (err, a1)" by (cases "ValidateAgentSecret cf e ?i ?secret a")
    then have "app_server a1 = app_server a" using ValidateAgentSecret_server [of cf e ?i ?secret a] by simp
    with a have "server_queue q (app_server a1)" "app_queue q a1" by (simp_all add: app_queue_def)
    with a show "app_queue q (snd (handleAgentConnect cf e upgrade rq a))"
      by (auto simp: handleAgentConnect_def v open_connection_def Let_def split: option.splits prod.splits)
  qed
  show "endpoint (app_queue q) (handleClientConnect cf e upgrade)"
    by unfold_locales (auto simp: handleClientConnect_def open_connection_def count_error_def Let_def app_queue_def split: sum.splits option.splits)
qed

lemma route_queue: "(pat, h) \<in> set (routes st e) \<Longrightarrow> endpoint (app_queue q) h"
  by (simp only: routes_def Let_def list.set insert_iff empty_iff prod.inject)
    (elim disjE conjE FalseE; simp only:; intro queue_intros endpoint_middleware)

lemma serve_queue: "srv_queue (app_server (snd (serve st e rq a))) = srv_queue (app_server a)"
proof -
  have "app_queue (srv_queue (app_server a)) (snd (serve st e rq a))"
  proof (rule serve_rule)
    fix pat h assume "(pat, h) \<in> set (routes st e)"
    then show "app_queue (srv_queue (app_server a)) (snd (h rq a))"
      by (rule endpoint.keeps [OF route_queue]) (simp add: app_queue_def server_queue_def)
  qed (simp add: app_queue_def server_queue_def)
  then show ?thesis by (simp add: app_queue_def server_queue_def)
qed

subsection \<open>What the steps of the server do to the queue of a recipient\<close>

definition waiting :: "string \<Rightarrow> app \<Rightarrow> queuedMessage list" where
  "waiting i a = queue_of i (srv_queue (app_server a))"

definition queue_grows :: "OfflineQueue \<Rightarrow> OfflineQueue \<Rightarrow> bool" where
  "queue_grows q q' \<longleftrightarrow> (\<exists>xs. q' = enqueue_all xs q)"

lemma queue_grows_refl [simp]: "queue_grows q q"
  unfolding queue_grows_def by (rule exI [of _ "[]"]) simp

lemma queue_grows_Enqueue [simp]: "queue_grows q (Enqueue t i d q)"
  unfolding queue_grows_def by (rule exI [of _ "[(t, i, d)]"]) simp

lemma queue_grows_deliver:
  "queue_grows (srv_queue s) (srv_queue (deliver_to_user e i msg out s))"
  "queue_grows (srv_queue s) (srv_queue (deliver_to_agent e i out s))"
  by (simp_all add: deliver_to_user_def deliver_to_agent_def Let_def case_prod_beta split: option.splits)

lemma queue_grows_chat: "queue_grows (srv_queue s) (srv_queue (routeChatMessage e r dat s))"
proof (rule routeChatMessage_cases [of e r dat s])
  fix msg0 conv msg d
  assume res: "routeChatMessage e r dat s = on_hub (send_to r (message_sent_ack (ConversationID msg0)))
      (if sender_type r s = ''agent'' then deliver_to_user e (recipient_of (sender_type r s) conv) msg
         (OutgoingMessage ''message'' (marshal_routed msg)) (s\<lparr>srv_db := d\<rparr>)
       else deliver_to_agent e (recipient_of (sender_type r s) conv)
         (OutgoingMessage ''message'' (marshal_routed msg)) (s\<lparr>srv_db := d\<rparr>))"
  show ?thesis unfolding res using queue_grows_deliver [of "s\<lparr>srv_db := d\<rparr>"] by simp
qed simp

lemma forward_queue [simp]: "srv_queue (forward ct conv d s) = srv_queue s"
  by (simp add: forward_def split: option.splits)

lemma other_frames_queue [simp]:
  "srv_queue (routeTypingIndicator e r dat s) = srv_queue s" "srv_queue (routeStatusUpdate e r dat s) = srv_queue s"
  "srv_queue (routeHeartbeat fmt cfg e r s) = srv_queue s"
  by (simp_all add: routeTypingIndicator_def routeStatusUpdate_def routeHeartbeat_def Let_def
      split: option.splits list.splits sum.splits)

lemma queue_grows_readPump: "queue_grows (srv_queue s) (srv_queue (readPump_message fmt cfg e r raw s))"
proof -
  let ?s = "on_hub (\<lambda>h. add_metric MessagesIn_update (h\<lparr>messagesRouted := wrap64 (messagesRouted h + 1)\<rparr>)) s"
  obtain ok s1 where c: "checkRateLimit e r ?s = (ok, s1)" by (cases "checkRateLimit e r ?s")
  from checkRateLimit_frame(2) [OF c] have "srv_queue s1 = srv_queue s" by simp
  then show ?thesis
    using queue_grows_chat [of s1] by (simp add: readPump_message_def routeMessage_def c split: option.splits)
qed

lemma queue_of_replay:
  "j \<noteq> i \<Longrightarrow> queue_of j (srv_queue (replay_offline e r i s)) = queue_of j (srv_queue s)"
  by (simp add: replay_offline_def replayOfflineMessages_def Let_def case_prod_beta queue_of_Drain)

lemma app_step_queue:
  assumes "app_step st a a'"
  obtains (grown) "queue_grows (srv_queue (app_server a)) (srv_queue (app_server a'))"
  | (replayed) e r i where "a' = in_server (replay_offline e r i) a"
  using assms
proof cases
  case (http_request e rq)
  then show ?thesis by (intro grown) (simp add: serve_queue)
next
  case (ws_frame r e message)
  then show ?thesis by (intro grown) (simp add: in_server_def queue_grows_readPump)
next
  case (ws_welcome r)
  then show ?thesis by (intro grown) (simp add: in_server_def sendWelcomeMessage_def split: option.splits)
qed (auto intro: grown replayed simp: in_server_def)

subsection \<open>The queue of a running server\<close>

definition queue_ok :: "OfflineQueue \<Rightarrow> bool" where
  "queue_ok q \<longleftrightarrow> maxLen q = 100 \<and> ttl q = 7 * 24 * hour \<and> (\<forall>i. length (queue_of i q) \<le> 100)"

lemma queue_ok_good: "queue_ok q \<Longrightarrow> queue_good q"
  by (simp add: queue_ok_def queue_good_def)

lemma queue_ok_new: "queue_ok (newOfflineQueue 100 (7 * 24 * hour))"
  by (simp add: queue_ok_def newOfflineQueue_def queue_of_def)

lemma queue_ok_enqueue_all: "queue_ok q \<Longrightarrow> queue_ok (enqueue_all xs q)"
proof (induction xs q rule: enqueue_all.induct)
  case (2 t r d xs q)
  have "queue_ok (Enqueue t r d q)" using "2.prems" by (simp add: queue_ok_def queue_of_Enqueue)
  with "2.IH" show ?case by simp
qed simp

lemma queue_ok_replay: "queue_ok (srv_queue s) \<Longrightarrow> queue_ok (srv_queue (replay_offline e r i s))"
  by (simp add: queue_ok_def replay_offline_def replayOfflineMessages_def Let_def case_prod_beta queue_of_Drain)
    (simp add: Drain_def)

lemma queue_ok_load: "queue_ok q \<Longrightarrow> queue_ok (load_rows f clk i rows q)"
proof (induction f clk i rows q rule: load_rows.induct)
  case (2 f clk i row rows q)
  then show ?case using queue_ok_enqueue_all [of q "[(clk i, oq_recipient row, oq_data row)]"] by simp
qed simp

lemma app_step_queue_ok: "app_step st a a' \<Longrightarrow> queue_ok (srv_queue (app_server a)) \<Longrightarrow> queue_ok (srv_queue (app_server a'))"
  by (erule app_step_queue) (auto simp: queue_grows_def in_server_def queue_ok_enqueue_all queue_ok_replay)

lemma reachable_queue_ok: "app_reachable st a \<Longrightarrow> queue_ok (srv_queue (app_server a))"
proof (induction rule: app_reachable.induct)
  case (app_start d mx clk e n)
  then show ?case by (simp add: boot_def new_app_def loadQueueFromDB_def queue_ok_load queue_ok_new [simplified] Let_def)
qed (rule app_step_queue_ok)

lemma waiting_grows:
  assumes "queue_ok q" and "queue_grows q q'"
  shows "\<exists>zs. queue_of i q' = lastn 100 (queue_of i q @ zs)"
proof -
  obtain xs where "q' = enqueue_all xs q" using assms(2) by (auto simp: queue_grows_def)
  moreover have "\<exists>zs. queue_of i (enqueue_all xs q) = lastn 100 (ws @ zs)" if "queue_of i q = lastn 100 ws" for ws
    using assms(1) that
  proof (induction xs q arbitrary: ws rule: enqueue_all.induct)
    case (1 q)
    then show ?case by (intro exI [of _ "[]"]) simp
  next
    case (2 t r d xs q)
    let ?m = "\<lparr>data = d, queuedAt = t, sentCount = 0\<rparr>"
    have ok: "queue_ok (Enqueue t r d q)" using queue_ok_enqueue_all [OF "2.prems"(1), of "[(t, r, d)]"] by simp
    have "queue_of i (Enqueue t r d q) = lastn 100 (ws @ (if i = r then [?m] else []))"
      using "2.prems" lastn_snoc [of 100 ws ?m] by (auto simp: queue_ok_def queue_of_Enqueue)
    from "2.IH" [OF ok this] show ?case by auto
  qed
  moreover have "queue_of i q = lastn 100 (queue_of i q)" using assms(1) by (simp add: queue_ok_def lastn_all)
  ultimately show ?thesis by blast
qed

text \<open>C17: a queued message leaves the queue in two ways only: by a replay for its recipient, or when a hundred newer messages for
  the same recipient have pushed it out.\<close>

theorem queue_only_grows_or_replays:
  assumes "app_reachable st a" and "app_step st a a'"
  shows "(\<exists>zs. waiting i a' = lastn 100 (waiting i a @ zs)) \<or> (\<exists>e r. a' = in_server (replay_offline e r i) a)"
  using assms(2)
proof (cases rule: app_step_queue)
  case grown
  then show ?thesis using waiting_grows reachable_queue_ok [OF assms(1)] by (simp add: waiting_def)
next
  case (replayed e r j)
  show ?thesis
  proof (cases "j = i")
    case False
    then have "waiting i a' = lastn 100 (waiting i a @ [])"
      using reachable_queue_ok [OF assms(1)] replayed
      by (simp add: waiting_def in_server_def queue_of_replay queue_ok_def lastn_all)
    then show ?thesis by blast
  qed (use replayed in blast)
qed

text \<open>A stretch of the server's run in which the queue of \<open>i\<close> only grows, by the messages \<open>ys\<close>.\<close>

inductive waits :: "settings \<Rightarrow> string \<Rightarrow> app \<Rightarrow> queuedMessage list \<Rightarrow> app \<Rightarrow> bool" for st i a where
  waits_here: "waits st i a [] a"
| waits_step: "waits st i a ys b \<Longrightarrow> app_step st b c \<Longrightarrow> waiting i c = lastn 100 (waiting i b @ zs) \<Longrightarrow>
    waits st i a (ys @ zs) c"

lemma lastn_lastn_append: "lastn n (lastn n xs @ ys) = lastn n (xs @ ys)"
proof (induction ys rule: rev_induct)
  case Nil
  show ?case by (simp add: lastn_all)
next
  case (snoc y ys)
  then show ?case using lastn_snoc [of n "lastn n xs @ ys" y] lastn_snoc [of n "xs @ ys" y] by simp
qed

lemma waits_reachable: "waits st i a ys b \<Longrightarrow> app_reachable st a \<Longrightarrow> app_reachable st b"
  by (induction rule: waits.induct) (auto intro: app_next)

lemma waits_queue:
  assumes "waits st i a ys b" and "app_reachable st a"
  shows "waiting i b = lastn 100 (waiting i a @ ys)"
  using assms
proof (induction rule: waits.induct)
  case waits_here
  then show ?case using reachable_queue_ok by (simp add: waiting_def queue_ok_def lastn_all)
next
  case (waits_step ys b c zs)
  then show ?case using lastn_lastn_append [of 100 "waiting i a @ ys" zs] by simp
qed

lemma in_lastn: "length ys < n \<Longrightarrow> x \<in> set (lastn n (xs @ x # ys))"
  by (simp add: lastn_def drop_append)

subsection \<open>A stored message arrives\<close>

definition reached :: "string \<Rightarrow> json \<Rightarrow> hub \<Rightarrow> hub \<Rightarrow> bool" where
  "reached i out h h' \<longleftrightarrow> (\<exists>q. (q \<in> set (GetClientConns i h) \<or> GetAgent i h = Some q) \<and> out \<in> set (outbox h' q))"

lemma deliver_to_user_outcome:
  "reached i out (srv_hub s) (srv_hub (deliver_to_user e i msg out s)) \<or>
   srv_queue (deliver_to_user e i msg out s) = Enqueue (clock e ''Enqueue'') i out (srv_queue s)"
  using send_count_positive [of "GetClientConns i (srv_hub s)" out "srv_hub s"]
  by (auto simp: reached_def deliver_to_user_def Let_def case_prod_beta)

lemma deliver_to_agent_outcome:
  "reached i out (srv_hub s) (srv_hub (deliver_to_agent e i out s)) \<or>
   srv_queue (deliver_to_agent e i out s) = Enqueue (clock e ''Enqueue'') i out (srv_queue s)"
  by (auto simp: reached_def deliver_to_agent_def Let_def case_prod_beta hub_delivery.result hub_delivery.box_send
      split: option.splits)

lemma reached_send: "reached i out h h' \<Longrightarrow> reached i out h (send_to r d h')"
  using outbox_mono [of h' _ r d] by (auto simp: reached_def)

lemma chat_outcome:
  assumes "t_messages (srv_db (routeChatMessage e r dat s)) \<noteq> t_messages (srv_db s)"
  shows "\<exists>n t msg. last (t_messages (srv_db (routeChatMessage e r dat s))) = message_row_of n t msg \<and>
    addressed (sender_type r s) (srv_db s) msg \<and>
    (let out = OutgoingMessage ''message'' (marshal_routed msg); s' = routeChatMessage e r dat s in
     reached (RecipientID msg) out (srv_hub s) (srv_hub s') \<or>
     srv_queue s' = Enqueue (clock e ''Enqueue'') (RecipientID msg) out (srv_queue s))"
proof (rule routeChatMessage_cases [of e r dat s])
  fix m assume "routeChatMessage e r dat s = sendError r m s"
  with assms show ?thesis by simp
next
  fix msg0 conv msg d
  let ?rid = "recipient_of (sender_type r s) conv" and ?out = "OutgoingMessage ''message'' (marshal_routed msg)"
  let ?s1 = "s\<lparr>srv_db := d\<rparr>"
  assume conv: "getConversation e (ConversationID msg0) (srv_db s) = Inr (Some conv)"
    and msg: "msg = authored (sender_type r s) (sender_id r s) ?rid msg0"
    and st: "storeMessage e msg (srv_db s) = (None, d)"
    and res: "routeChatMessage e r dat s = on_hub (send_to r (message_sent_ack (ConversationID msg0)))
      (if sender_type r s = ''agent'' then deliver_to_user e ?rid msg ?out ?s1 else deliver_to_agent e ?rid ?out ?s1)"
  have "\<exists>n t. last (t_messages (srv_db (routeChatMessage e r dat s))) = message_row_of n t msg"
    by (rule storeMessage_cases [of e msg "srv_db s"]) (use st in \<open>auto simp: res t_messages_deliver\<close>)
  moreover have "RecipientID msg = ?rid" by (simp add: msg authored_def)
  moreover have "reached ?rid ?out (srv_hub s) (srv_hub (routeChatMessage e r dat s)) \<or>
      srv_queue (routeChatMessage e r dat s) = Enqueue (clock e ''Enqueue'') ?rid ?out (srv_queue s)"
    using deliver_to_user_outcome [of ?rid ?out ?s1 e msg] deliver_to_agent_outcome [of ?rid ?out ?s1 e]
    unfolding res by (auto intro: reached_send)
  moreover have "addressed (sender_type r s) (srv_db s) msg"
    using getConversation_found [OF conv] msg by (auto simp: addressed_def authored_def)
  ultimately show ?thesis by (auto simp: Let_def) metis+
qed

lemma readPump_outcome:
  assumes "t_messages (srv_db (readPump_message fmt cfg e r raw s)) \<noteq> t_messages (srv_db s)"
  shows "\<exists>n t msg. last (t_messages (srv_db (readPump_message fmt cfg e r raw s))) = message_row_of n t msg \<and>
    addressed (sender_type r s) (srv_db s) msg \<and>
    (let out = OutgoingMessage ''message'' (marshal_routed msg); s' = readPump_message fmt cfg e r raw s in
     reached (RecipientID msg) out (srv_hub s) (srv_hub s') \<or>
     srv_queue s' = Enqueue (clock e ''Enqueue'') (RecipientID msg) out (srv_queue s))"
proof -
  let ?s = "on_hub (\<lambda>h. add_metric MessagesIn_update (h\<lparr>messagesRouted := wrap64 (messagesRouted h + 1)\<rparr>)) s"
  obtain ok s1 where c: "checkRateLimit e r ?s = (ok, s1)" by (cases "checkRateLimit e r ?s")
  note f = checkRateLimit_frame [OF c]
  obtain dat where chat: "readPump_message fmt cfg e r raw s = routeChatMessage e r dat s1" and ok
    using assms f(1)
    by (auto simp: readPump_message_def routeMessage_def c split: option.splits if_splits)
  have same: "srv_db s1 = srv_db s" "srv_queue s1 = srv_queue s" "srv_hub s1 = srv_hub ?s"
    using f(1,2) f(7) [OF \<open>ok\<close>] by simp_all
  have "reached i out (srv_hub s1) h = reached i out (srv_hub s) h" for i out h
    using same(3) by (simp add: reached_def GetClientConns_def GetAgent_def)
  moreover have "sender_type r s1 = sender_type r s" using same(3) by (simp add: sender_type_def)
  ultimately show ?thesis using chat_outcome [of e r dat s1] assms same(1,2) unfolding chat by simp
qed

lemma replay_arrives:
  assumes "queue_ok (srv_queue s)" and "100 \<le> room r (srv_hub s)"
    and "m \<in> set (queue_of i (srv_queue s))" and "\<not> expired (clock e ''Drain'') (srv_queue s) m" and "replayable (data m)"
  shows "data m \<in> set (outbox (srv_hub (replay_offline e r i s)) r)"
proof -
  let ?ds = "map data (filter (\<lambda>m. \<not> expired (clock e ''Drain'') (srv_queue s) m) (queue_of i (srv_queue s)))"
  have "length (filter replayable ?ds) \<le> length ?ds" by (rule length_filter_le)
  also have "length ?ds \<le> length (queue_of i (srv_queue s))" by simp
  also have "\<dots> \<le> room r (srv_hub s)" using assms(1,2) by (meson order_trans queue_ok_def)
  finally have "outbox (replay_loop r ?ds (srv_hub s)) r = outbox (srv_hub s) r @ filter replayable ?ds"
    by (simp add: outbox_replay_loop)
  then show ?thesis
    using assms(3-5) by (simp add: replay_offline_def Let_def replay_hub fst_Drain)
qed

text \<open>C3: a stored message arrives. When a frame has stored a message, in whatever state the server is, the message goes to the
  other participant of its conversation: it is at once in the outbox of one of the recipient's connections, or it
  waits in the queue, and then the next replay for the recipient within seven days puts it in the outbox of the new
  connection, whatever the server did in between but another replay for the recipient, provided fewer than a hundred
  further messages were queued for the recipient and the connection has room for a hundred messages (a new one has
  room for 256).\<close>

theorem stored_message_arrives:
  assumes "app_reachable st a" and "heap (srv_hub (app_server a)) r \<noteq> None"
    and "a1 = in_server (readPump_message (cf_rfc3339 (st_config st)) (st_presence st) e r raw) a"
    and "t_messages (srv_db (app_server a1)) \<noteq> t_messages (srv_db (app_server a))"
  shows "\<exists>n t msg. last (t_messages (srv_db (app_server a1))) = message_row_of n t msg \<and>
    addressed (sender_type r (app_server a)) (srv_db (app_server a)) msg \<and>
    (let i = RecipientID msg; out = OutgoingMessage ''message'' (marshal_routed msg) in
     reached i out (srv_hub (app_server a)) (srv_hub (app_server a1)) \<or>
     (\<forall>ys a2 e2 r2. waits st i a1 ys a2 \<longrightarrow> length ys < 100 \<longrightarrow> 100 \<le> room r2 (srv_hub (app_server a2)) \<longrightarrow>
        clock e2 ''Drain'' - clock e ''Enqueue'' \<le> 7 * 24 * hour \<longrightarrow>
        out \<in> set (outbox (srv_hub (replay_offline e2 r2 i (app_server a2))) r2)))"
proof -
  have a1: "app_server a1 = readPump_message (cf_rfc3339 (st_config st)) (st_presence st) e r raw (app_server a)"
    by (simp add: assms(3) in_server_def)
  have reach: "app_reachable st a1" unfolding assms(3) by (rule app_next [OF assms(1) ws_frame [OF assms(2)]])
  from readPump_outcome [OF assms(4) [unfolded a1]] obtain n t msg where
    row: "last (t_messages (srv_db (app_server a1))) = message_row_of n t msg" and
    to: "addressed (sender_type r (app_server a)) (srv_db (app_server a)) msg" and
    out: "reached (RecipientID msg) (OutgoingMessage ''message'' (marshal_routed msg)) (srv_hub (app_server a)) (srv_hub (app_server a1)) \<or>
      srv_queue (app_server a1) = Enqueue (clock e ''Enqueue'') (RecipientID msg) (OutgoingMessage ''message'' (marshal_routed msg))
        (srv_queue (app_server a))"
    unfolding a1 Let_def by blast
  let ?i = "RecipientID msg" and ?out = "OutgoingMessage ''message'' (marshal_routed msg)"
  let ?m = "\<lparr>data = ?out, queuedAt = clock e ''Enqueue'', sentCount = 0\<rparr>"
  have "?out \<in> set (outbox (srv_hub (replay_offline e2 r2 ?i (app_server a2))) r2)"
    if q: "srv_queue (app_server a1) = Enqueue (clock e ''Enqueue'') ?i ?out (srv_queue (app_server a))"
      and w: "waits st ?i a1 ys a2" and "length ys < 100" and room: "100 \<le> room r2 (srv_hub (app_server a2))"
      and "clock e2 ''Drain'' - clock e ''Enqueue'' \<le> 7 * 24 * hour" for ys a2 e2 r2
  proof -
    have "waiting ?i a1 = lastn 100 (waiting ?i a @ [?m])"
      using q reachable_queue_ok [OF assms(1)] by (simp add: waiting_def queue_of_Enqueue queue_ok_def)
    then have "waiting ?i a2 = lastn 100 (waiting ?i a @ ?m # ys)"
      using waits_queue [OF w reach] lastn_lastn_append [of 100 "waiting ?i a @ [?m]" ys] by simp
    then have m: "?m \<in> set (waiting ?i a2)" using that(3) by (simp add: in_lastn)
    have ok2: "queue_ok (srv_queue (app_server a2))" by (rule reachable_queue_ok [OF waits_reachable [OF w reach]])
    have "\<not> expired (clock e2 ''Drain'') (srv_queue (app_server a2)) ?m"
      using ok2 that(5) time_sub_gt [of "7 * 24 * hour" "clock e2 ''Drain''" "clock e ''Enqueue''"]
      by (auto simp: expired_def queue_ok_def int64_max_def)
    with replay_arrives [OF ok2 room m [unfolded waiting_def]] show ?thesis by (simp add: replayable_def)
  qed
  with out row to show ?thesis unfolding Let_def by blast
qed

subsection \<open>A concrete journey\<close>

text \<open>User \<open>u\<close> is connected, agent \<open>a\<close> is not; \<open>u\<close> writes to \<open>a\<close>, then \<open>a\<close> connects.\<close>

definition with_hub :: "hub \<Rightarrow> app \<Rightarrow> app" where
  "with_hub h = in_server (\<lambda>s. s\<lparr>srv_hub := h\<rparr>)"

definition journey_boot :: app where
  "journey_boot = boot \<lparr>MessagesIn = 0, MessagesOut = 0, ConnectionsTotal = 0, ErrorsTotal = 0, RateLimited = 0\<rparr> (\<lambda>_. 0)
     quiet_env 30 example_db"

definition journey_online :: app where
  "journey_online =
     (let h0 = srv_hub (app_server journey_boot); h1 = start_register (new_connection ''client'' ''u'' ''d'' ''v1'' 0) h0 in
      with_hub (run_loop_register 6 0 h1) journey_boot)"

definition journey_sent :: app where
  "journey_sent = in_server (readPump_message (cf_rfc3339 (st_config demo_settings)) (st_presence demo_settings) quiet_env 0
     (Frame (OutgoingMessage ''message'' example_chat))) journey_online"

definition journey_agent :: app where
  "journey_agent = with_hub (start_register (new_connection ''agent'' ''a'' [] ''v1'' 2000) (srv_hub (app_server journey_sent))) journey_sent"

lemma journey_boot_hub:
  "srv_hub (app_server journey_boot) = newHub (Some \<lparr>MessagesIn = 0, MessagesOut = 0, ConnectionsTotal = 0, ErrorsTotal = 0, RateLimited = 0\<rparr>)"
  "srv_db (app_server journey_boot) = example_db" "srv_limits (app_server journey_boot) = new_message_limits"
  by (simp_all add: journey_boot_def boot_def new_app_def Let_def)

lemma journey_online_reachable: "app_reachable demo_settings journey_online"
proof -
  let ?h1 = "start_register (new_connection ''client'' ''u'' ''d'' ''v1'' 0) (srv_hub (app_server journey_boot))"
  have "app_reachable demo_settings journey_boot" unfolding journey_boot_def by (rule app_start [OF example_db_schema_ok])
  then have r1: "app_reachable demo_settings (with_hub ?h1 journey_boot)"
    unfolding with_hub_def by (rule app_next [OF _ hub_goroutine [OF connect_client]])
  have "hub_step ?h1 (run_loop_register 6 0 ?h1)"
    by (rule run_register [where r = 0 and now = 6]) (simp_all add: journey_boot_hub run_defs)
  then have "app_step demo_settings (with_hub ?h1 journey_boot) (with_hub (run_loop_register 6 0 ?h1) (with_hub ?h1 journey_boot))"
    unfolding with_hub_def by (intro hub_goroutine) (simp add: in_server_def)
  moreover have "with_hub h' (with_hub h b) = with_hub h' b" for h h' b by (simp add: with_hub_def in_server_def)
  ultimately show ?thesis using app_next [OF r1] by (simp add: journey_online_def Let_def)
qed

lemma journey_online_facts:
  "heap (srv_hub (app_server journey_online)) 0 \<noteq> None" "srv_db (app_server journey_online) = example_db"
  "GetAgent ''a'' (srv_hub (app_server journey_online)) = None" "GetClientConns ''a'' (srv_hub (app_server journey_online)) = []"
  "sender_type 0 (app_server journey_online) = ''client''" "sender_id 0 (app_server journey_online) = ''u''"
  "srv_limits (app_server journey_online) = new_message_limits"
  by (simp_all add: journey_online_def with_hub_def in_server_def journey_boot_hub run_defs sender_type_def sender_id_def)

lemma journey_sent_row:
  "\<exists>n t. t_messages (srv_db (app_server journey_sent)) = t_messages example_db @
     [message_row_of n t \<lparr>rm_type = ''message'', ConversationID = ''c'', Content = ''hi'', AttachmentIDs = [],
        SenderType = ''client'', SenderID = ''u'', RecipientID = ''a'', Timestamp = []\<rparr>]"
proof -
  let ?s = "on_hub (\<lambda>h. add_metric MessagesIn_update (h\<lparr>messagesRouted := wrap64 (messagesRouted h + 1)\<rparr>)) (app_server journey_online)"
  have snd: "sender_type 0 ?s = ''client''" "sender_id 0 ?s = ''u''"
    using journey_online_facts(5,6) by (simp_all add: sender_type_def sender_id_def)
  obtain s1 where c: "checkRateLimit quiet_env 0 ?s = (True, s1)"
    by (simp add: checkRateLimit_def check_limits_def RateLimiter_Allow_def journey_online_facts new_message_limits_def
        NewRateLimiter_def gm_get_def Let_def snd)
  note f = checkRateLimit_frame [OF c]
  have "app_server journey_sent = routeChatMessage quiet_env 0 (Some example_chat) s1"
    by (simp add: journey_sent_def in_server_def readPump_message_def routeMessage_def c unmarshal_incoming_def OutgoingMessage_def
        get_str_def members_simps fold_eq_def ascii_lower_def)
  then show ?thesis
    using f(1,5,6) snd
    by (simp add: journey_online_facts routeChatMessage_def example_chat_message example_conversation storeMessage_def
      insert_message_def message_exists_def conversation_exists_def example_message_def message_row_of_def
      authored_def generateID_def t_messages_deliver Let_def)
qed

lemma journey_agent_waits: "waits demo_settings ''a'' journey_sent [] journey_agent"
proof -
  have "app_reachable demo_settings journey_sent"
    unfolding journey_sent_def by (rule app_next [OF journey_online_reachable ws_frame [OF journey_online_facts(1)]])
  then have "waiting ''a'' journey_agent = lastn 100 (waiting ''a'' journey_sent @ [])"
    using reachable_queue_ok by (simp add: waiting_def journey_agent_def with_hub_def in_server_def queue_ok_def lastn_all)
  moreover have "app_step demo_settings journey_sent journey_agent"
    unfolding journey_agent_def with_hub_def by (rule hub_goroutine [OF connect_agent])
  ultimately show ?thesis using waits_step [OF waits_here] by fastforce
qed

theorem stored_message_arrives_witness:
  "\<exists>r msg. Content msg = ''hi'' \<and> SenderID msg = ''u'' \<and> sender_id r (app_server journey_agent) = ''a'' \<and>
     OutgoingMessage ''message'' (marshal_routed msg) \<in> set (outbox (srv_hub (replay_offline quiet_env r ''a'' (app_server journey_agent))) r)"
proof -
  let ?r = "next_ref (srv_hub (app_server journey_sent))"
  have agent: "heap (srv_hub (app_server journey_agent)) ?r = Some (new_connection ''agent'' ''a'' [] ''v1'' 2000)"
    by (simp add: journey_agent_def with_hub_def in_server_def start_register_def Let_def)
  have stored: "t_messages (srv_db (app_server journey_sent)) \<noteq> t_messages (srv_db (app_server journey_online))"
    using journey_sent_row by (auto simp: journey_online_facts)
  from stored_message_arrives [OF journey_online_reachable journey_online_facts(1) journey_sent_def stored]
  obtain n t msg where m: "last (t_messages (srv_db (app_server journey_sent))) = message_row_of n t msg"
    and to: "addressed ''client'' example_db msg"
    and arr: "reached (RecipientID msg) (OutgoingMessage ''message'' (marshal_routed msg)) (srv_hub (app_server journey_online)) (srv_hub (app_server journey_sent)) \<or>
     (\<forall>ys a2 e2 r2. waits demo_settings (RecipientID msg) journey_sent ys a2 \<longrightarrow> length ys < 100 \<longrightarrow> 100 \<le> room r2 (srv_hub (app_server a2)) \<longrightarrow>
        clock e2 ''Drain'' - clock quiet_env ''Enqueue'' \<le> 7 * 24 * hour \<longrightarrow>
        OutgoingMessage ''message'' (marshal_routed msg) \<in> set (outbox (srv_hub (replay_offline e2 r2 (RecipientID msg) (app_server a2))) r2))"
    unfolding Let_def journey_online_facts by blast
  have a: "RecipientID msg = ''a''" using to by (simp add: addressed_def recipient_of_def)
  then have "\<not> reached (RecipientID msg) out (srv_hub (app_server journey_online)) h" for out h
    by (simp add: reached_def journey_online_facts)
  with arr a journey_agent_waits fresh_room [OF agent]
  have "OutgoingMessage ''message'' (marshal_routed msg) \<in>
      set (outbox (srv_hub (replay_offline quiet_env ?r ''a'' (app_server journey_agent))) ?r)"
    by fastforce
  moreover have "Content msg = ''hi''" "SenderID msg = ''u''" using m journey_sent_row by (auto simp: message_row_of_def)
  moreover have "sender_id ?r (app_server journey_agent) = ''a''" using agent by (simp add: sender_id_def new_connection_def)
  ultimately show ?thesis by blast
qed

theorem queue_only_grows_or_replays_witness:
  "(\<exists>zs. waiting ''a'' journey_sent = lastn 100 (waiting ''a'' journey_online @ zs)) \<or>
   (\<exists>e r. journey_sent = in_server (replay_offline e r ''a'') journey_online)"
proof -
  have "app_step demo_settings journey_online journey_sent"
    unfolding journey_sent_def by (rule ws_frame [OF journey_online_facts(1)])
  from queue_only_grows_or_replays [OF journey_online_reachable this] show ?thesis .
qed

end
