(* ===== verification/Profile_Files.thy ===== *)
theory Profile_Files
  imports Observability
begin

section \<open>Profile files\<close>

text \<open>
  profile.go: starting and stopping the CPU profile, writing heap and goroutine profiles, forcing a collection and taking a
  snapshot. The state is what these functions touch of the process: the open file handles, the file the CPU
  profiler writes to, the profiles that were written, and the number of garbage collections (a \<open>uint32\<close>). The errors of the
  file system are the argument \<open>fails\<close>, by operation and path. \<open>Observability\<close> calls these functions from the
  administration endpoint, with their errors as a parameter.
\<close>

record profile_os =
  po_open :: "string list"
  po_cpu :: "string option"
  po_written :: "(string \<times> string) list" \<comment> \<open>path and kind of profile\<close>
  po_gc :: "32 word"

type_synonym file_errors = "string \<Rightarrow> string \<Rightarrow> string option"

definition os_Create :: "file_errors \<Rightarrow> string \<Rightarrow> profile_os \<Rightarrow> string option \<times> profile_os" where
  "os_Create fails path st =
     (case fails ''create'' path of Some err \<Rightarrow> (Some err, st) | None \<Rightarrow> (None, st\<lparr>po_open := path # po_open st\<rparr>))"

definition f_Close :: "string \<Rightarrow> profile_os \<Rightarrow> profile_os" where
  "f_Close path st = st\<lparr>po_open := remove1 path (po_open st)\<rparr>"

definition runtime_GC :: "profile_os \<Rightarrow> profile_os" where
  "runtime_GC st = st\<lparr>po_gc := po_gc st + 1\<rparr>"

text \<open>\<open>pprof.StartCPUProfile\<close> refuses a second profile.\<close>

definition pprof_start :: "string \<Rightarrow> profile_os \<Rightarrow> string option \<times> profile_os" where
  "pprof_start path st =
     (if po_cpu st \<noteq> None then (Some ''cpu profiling already in use'', st) else (None, st\<lparr>po_cpu := Some path\<rparr>))"

definition pprof_write :: "file_errors \<Rightarrow> string \<Rightarrow> string \<Rightarrow> profile_os \<Rightarrow> string option \<times> profile_os" where
  "pprof_write fails kind path st =
     (case fails kind path of Some err \<Rightarrow> (Some err, st) | None \<Rightarrow> (None, st\<lparr>po_written := po_written st @ [(path, kind)]\<rparr>))"

text \<open>The result is the error; the stop function it returns otherwise is \<open>stop_cpu path\<close>.\<close>

definition StartCPUProfile :: "file_errors \<Rightarrow> string \<Rightarrow> profile_os \<Rightarrow> string option \<times> profile_os" where
  "StartCPUProfile fails path st =
     (let (err, st1) = os_Create fails path st in
      if err \<noteq> None then (err, st1)
      else (let (err2, st2) = pprof_start path st1 in
            if err2 \<noteq> None then (err2, f_Close path st2) else (None, st2)))"

definition stop_cpu :: "string \<Rightarrow> profile_os \<Rightarrow> profile_os" where
  "stop_cpu path st = f_Close path (st\<lparr>po_cpu := None\<rparr>)"

definition WriteHeapProfile :: "file_errors \<Rightarrow> string \<Rightarrow> profile_os \<Rightarrow> string option \<times> profile_os" where
  "WriteHeapProfile fails path st =
     (let (err, st1) = os_Create fails path st in
      if err \<noteq> None then (err, st1)
      else (let (res, st2) = pprof_write fails ''heap'' path (runtime_GC st1) in (res, f_Close path st2)))"

definition WriteGoroutineProfile :: "file_errors \<Rightarrow> string \<Rightarrow> profile_os \<Rightarrow> string option \<times> profile_os" where
  "WriteGoroutineProfile fails path st =
     (let (err, st1) = os_Create fails path st in
      if err \<noteq> None then (err, st1)
      else (let (res, st2) = pprof_write fails ''goroutine'' path st1 in (res, f_Close path st2)))"

definition ForceGC :: "profile_os \<Rightarrow> 32 word \<times> profile_os" where
  "ForceGC st = (let st1 = runtime_GC st in (po_gc st1, st1))"

record ProfileSnapshot =
  ps_Timestamp :: int
  ps_Memory :: json
  ps_Goroutines :: int
  HeapFile :: string
  GoroutineFile :: string

definition CaptureProfile ::
  "runtime_lib \<Rightarrow> file_errors \<Rightarrow> int \<Rightarrow> string \<Rightarrow> profile_os \<Rightarrow> ProfileSnapshot \<times> profile_os" where
  "CaptureProfile rt fails now dir st =
     (let snapshot = \<lparr>ps_Timestamp = now, ps_Memory = MemoryStats rt ''capture'', ps_Goroutines = rt_goroutines rt ''capture'',
                      HeapFile = [], GoroutineFile = []\<rparr>
      in if dir = [] then (snapshot, st)
         else
           (let heapPath = dir @ ''/heap_'' @ rt_stamp rt now @ ''.prof'';
                (err, st1) = WriteHeapProfile fails heapPath st;
                snapshot1 = (if err = None then snapshot\<lparr>HeapFile := heapPath\<rparr> else snapshot);
                goroutinePath = dir @ ''/goroutine_'' @ rt_stamp rt now @ ''.prof'';
                (err2, st2) = WriteGoroutineProfile fails goroutinePath st1;
                snapshot2 = (if err2 = None then snapshot1\<lparr>GoroutineFile := goroutinePath\<rparr> else snapshot1)
            in (snapshot2, st2)))"

subsection \<open>No file stays open\<close>

lemma writers_close:
  "po_open (snd (WriteHeapProfile fails path st)) = po_open st" "po_cpu (snd (WriteHeapProfile fails path st)) = po_cpu st"
  "po_open (snd (WriteGoroutineProfile fails path st)) = po_open st" "po_cpu (snd (WriteGoroutineProfile fails path st)) = po_cpu st"
  by (simp_all add: WriteHeapProfile_def WriteGoroutineProfile_def os_Create_def pprof_write_def f_Close_def runtime_GC_def
      case_prod_beta Let_def split: option.splits)

lemma writers_record:
  "fst (WriteHeapProfile fails path st) = None \<Longrightarrow> po_written (snd (WriteHeapProfile fails path st)) = po_written st @ [(path, ''heap'')]"
  "fst (WriteGoroutineProfile fails path st) = None \<Longrightarrow>
     po_written (snd (WriteGoroutineProfile fails path st)) = po_written st @ [(path, ''goroutine'')]"
  "fst (WriteHeapProfile fails path st) \<noteq> None \<Longrightarrow> po_written (snd (WriteHeapProfile fails path st)) = po_written st"
  "fst (WriteGoroutineProfile fails path st) \<noteq> None \<Longrightarrow> po_written (snd (WriteGoroutineProfile fails path st)) = po_written st"
  by (auto simp: WriteHeapProfile_def WriteGoroutineProfile_def os_Create_def pprof_write_def f_Close_def runtime_GC_def
      case_prod_beta Let_def split: option.splits)

text \<open>Profiling leaks no file. A snapshot leaves the open files and the CPU profile as they were and names exactly the
  files it has written. Starting the CPU profile fails without an effect on the open files, in particular when a profile is
  running; when it succeeds, the file is open until the stop function is called, which restores the state.\<close>

theorem profiling_closes_files:
  assumes "CaptureProfile rt fails now dir st = (ps, st')" and "StartCPUProfile fails' path st = (err, st1)"
  shows "po_open st' = po_open st \<and> po_cpu st' = po_cpu st \<and>
    map fst (po_written st') = map fst (po_written st) @ filter (\<lambda>f. f \<noteq> []) [HeapFile ps, GoroutineFile ps] \<and>
    (err \<noteq> None \<longrightarrow> st1 = st) \<and> (po_cpu st \<noteq> None \<longrightarrow> err \<noteq> None) \<and>
    (err = None \<longrightarrow> po_open st1 = path # po_open st \<and> po_cpu st1 = Some path \<and> stop_cpu path st1 = st)"
proof -
  let ?hp = "dir @ ''/heap_'' @ rt_stamp rt now @ ''.prof''" and ?gp = "dir @ ''/goroutine_'' @ rt_stamp rt now @ ''.prof''"
  obtain e1 s1 where h: "WriteHeapProfile fails ?hp st = (e1, s1)" by (cases "WriteHeapProfile fails ?hp st")
  obtain e2 s2 where g: "WriteGoroutineProfile fails ?gp s1 = (e2, s2)" by (cases "WriteGoroutineProfile fails ?gp s1")
  have "po_open st' = po_open st \<and> po_cpu st' = po_cpu st \<and>
    map fst (po_written st') = map fst (po_written st) @ filter (\<lambda>f. f \<noteq> []) [HeapFile ps, GoroutineFile ps]"
  proof (cases "dir = []")
    case True
    then show ?thesis using assms(1) by (auto simp: CaptureProfile_def Let_def)
  next
    case False
    then have st': "st' = s2" and files: "HeapFile ps = (if e1 = None then ?hp else [])" "GoroutineFile ps = (if e2 = None then ?gp else [])"
      using assms(1) h g by (auto simp: CaptureProfile_def Let_def)
    have w: "po_written s1 = po_written st @ (if e1 = None then [(?hp, ''heap'')] else [])"
      "po_written s2 = po_written s1 @ (if e2 = None then [(?gp, ''goroutine'')] else [])"
      using writers_record [of fails ?hp st] writers_record [of fails ?gp s1] h g by (simp_all del: not_None_eq)
    show ?thesis
      using writers_close [of fails ?hp st] writers_close [of fails ?gp s1] h g w files False st' by simp
  qed
  moreover have "(err \<noteq> None \<longrightarrow> st1 = st) \<and> (po_cpu st \<noteq> None \<longrightarrow> err \<noteq> None) \<and>
    (err = None \<longrightarrow> po_open st1 = path # po_open st \<and> po_cpu st1 = Some path \<and> stop_cpu path st1 = st)"
    using assms(2) by (cases "fails' ''create'' path"; cases "po_cpu st")
      (auto simp: StartCPUProfile_def os_Create_def pprof_start_def f_Close_def stop_cpu_def Let_def dest: sym)
  ultimately show ?thesis by blast
qed

end
