(* ===== verification/Tracing.thy ===== *)
theory Tracing
  imports Complex_Main Routing_Safety Push Logger
begin

section \<open>Tracing\<close>

text \<open>
  tracing.go: the OpenTelemetry pipeline, and the spans of routing.go. The library is not part of the repository: contexts and
  spans are handles, and its constructors and the tracer's \<open>Start\<close> are fields of \<open>otel_lib\<close>. The state keeps the
  package variables (\<open>tracer\<close>, \<open>tp\<close>, \<open>tracingEnabled\<close>, the \<open>sync.Once\<close>), the global provider and propagators that
  the program sets, the log entries, and the list of the calls made on spans, which is all that these functions do.
\<close>

subsection \<open>The library\<close>

type_synonym span = nat
type_synonym ctx = nat

datatype attribute = AString string string | ABool string bool | AInt string int

text \<open>The values of \<open>float64\<close>; the sampling rate is passed on as it is.\<close>

datatype go_float = Finite rat | PosInf | NegInf | NaN

datatype exporter = HTTPExporter string bool | GRPCExporter string bool \<comment> \<open>endpoint, insecure\<close>

record provider =
  pv_service :: string
  pv_version :: string
  pv_rate :: go_float
  pv_exporter :: exporter

record otel_lib =
  ol_exporter :: "exporter \<Rightarrow> string option" \<comment> \<open>the error of \<open>New\<close>, if any\<close>
  ol_resource :: "string \<Rightarrow> string option" \<comment> \<open>the error of \<open>resource.Merge\<close> for a service name\<close>
  ol_shutdown :: "string option" \<comment> \<open>the error of \<open>tp.Shutdown\<close>\<close>
  ol_start :: "nat \<Rightarrow> ctx \<times> span" \<comment> \<open>what the n-th \<open>tracer.Start\<close> returns\<close>
  ol_span_of :: "ctx \<Rightarrow> span" \<comment> \<open>\<open>trace.SpanFromContext\<close>\<close>
  ol_extract :: "ctx \<Rightarrow> ctx" \<comment> \<open>\<open>Extract\<close> from the headers of the request at hand\<close>
  ol_background :: ctx
  ol_parse_float :: "string \<Rightarrow> go_float option"

datatype span_call =
    CStart ctx string "attribute list" span
  | CSetAttributes span "attribute list"
  | CAddEvent span string "attribute list"
  | CRecordError span string
  | CSetStatusError span string
  | CSetStatusOk span
  | CEnd span

datatype log_value = LString string | LFloat go_float

record tracing =
  tracingMu :: bool \<comment> \<open>the \<open>sync.Once\<close> has run\<close>
  tracingEnabled :: bool
  tr_tp :: "provider option" \<comment> \<open>\<open>tp\<close>; None: nil\<close>
  tr_tracer :: "(provider \<times> string) option" \<comment> \<open>\<open>tracer\<close>: its provider and its name; None: nil\<close>
  tr_global :: "provider option"
  tr_propagators :: "string list"
  tr_log :: "(LogLevel \<times> string \<times> (string \<times> log_value) list) list"
  tr_calls :: "span_call list"

definition no_tracing :: tracing where
  "no_tracing = \<lparr>tracingMu = False, tracingEnabled = False, tr_tp = None, tr_tracer = None, tr_global = None,
     tr_propagators = [], tr_log = [], tr_calls = []\<rparr>"

definition tracerName :: string where
  "tracerName = ''github.com/Joel-Claw/agent-messenger''"

definition tr_logged :: "LogLevel \<Rightarrow> string \<Rightarrow> (string \<times> log_value) list \<Rightarrow> tracing \<Rightarrow> tracing" where
  "tr_logged lvl msg fs tr = tr\<lparr>tr_log := tr_log tr @ [(lvl, msg, fs)]\<rparr>"

definition called :: "span_call \<Rightarrow> tracing \<Rightarrow> tracing" where
  "called c tr = tr\<lparr>tr_calls := tr_calls tr @ [c]\<rparr>"

subsection \<open>Start and stop\<close>

text \<open>The endpoint that is configured: \<open>OTEL_EXPORTER_OTLP_ENDPOINT\<close>, or else \<open>OTEL_EXPORTER_OTLP_HTTP_ENDPOINT\<close>.\<close>

definition otel_endpoint :: "(string \<Rightarrow> string) \<Rightarrow> string" where
  "otel_endpoint getenv =
     (if getenv ''OTEL_EXPORTER_OTLP_ENDPOINT'' \<noteq> [] then getenv ''OTEL_EXPORTER_OTLP_ENDPOINT''
      else getenv ''OTEL_EXPORTER_OTLP_HTTP_ENDPOINT'')"

definition otel_exporter :: "string \<Rightarrow> string \<Rightarrow> exporter" where
  "otel_exporter protocol endpoint =
     (if protocol = ''http'' then HTTPExporter endpoint (has_prefix endpoint ''http://'')
      else GRPCExporter endpoint (\<not> has_suffix endpoint '':443'' \<and> \<not> has_prefix endpoint ''https://''))"

text \<open>The literal 0.1 is the nearest \<open>float64\<close>.\<close>

definition default_rate :: go_float where
  "default_rate = Finite (3602879701896397 / 36028797018963968)"

definition sampling_rate :: "otel_lib \<Rightarrow> (string \<Rightarrow> string) \<Rightarrow> go_float" where
  "sampling_rate ol getenv =
     (let sr = getenv ''OTEL_SAMPLING_RATE'' in
      if sr = [] then default_rate
      else (case ol_parse_float ol sr of Some parsed \<Rightarrow> parsed | None \<Rightarrow> default_rate))"

definition init_pipeline :: "otel_lib \<Rightarrow> (string \<Rightarrow> string) \<Rightarrow> string \<Rightarrow> tracing \<Rightarrow> string option \<times> tracing" where
  "init_pipeline ol getenv ServerVersion tr =
     (if getenv ''OTEL_ENABLED'' \<noteq> ''true'' then
        (None, tr_logged LogInfo ''tracing_disabled'' [(''reason'', LString (''OTEL_ENABLED not set to '' @ [CHR 0x27] @ ''true'' @ [CHR 0x27]))] tr)
      else
        (let endpoint = otel_endpoint getenv in
         if endpoint = [] then
           (None, tr_logged LogInfo ''tracing_disabled'' [(''reason'', LString ''no OTEL_EXPORTER_OTLP_ENDPOINT configured'')] tr)
         else
           (let serviceName = getEnvOrDefault getenv ''OTEL_SERVICE_NAME'' ''agent-messenger'';
                protocol = getEnvOrDefault getenv ''OTEL_EXPORTER_OTLP_PROTOCOL'' ''grpc'';
                exporter = otel_exporter protocol endpoint
            in case ol_exporter ol exporter of
                 Some err \<Rightarrow>
                   (Some (''failed to create OTLP exporter: '' @ err),
                    tr_logged LogError ''tracing_init_failed'' [(''error'', LString err)] tr)
               | None \<Rightarrow>
                   (let samplingRate = sampling_rate ol getenv in
                    case ol_resource ol serviceName of
                      Some err \<Rightarrow> (Some (''failed to create resource: '' @ err), tr)
                    | None \<Rightarrow>
                        (let p = \<lparr>pv_service = serviceName, pv_version = ServerVersion, pv_rate = samplingRate,
                                  pv_exporter = exporter\<rparr>
                         in (None,
                             tr_logged LogInfo ''tracing_initialized''
                               [(''endpoint'', LString endpoint), (''protocol'', LString protocol),
                                (''service_name'', LString serviceName), (''sampling_rate'', LFloat samplingRate)]
                               (tr\<lparr>tr_tp := Some p, tr_global := Some p,
                                   tr_propagators := [''TraceContext'', ''Baggage''],
                                   tr_tracer := Some (p, tracerName), tracingEnabled := True\<rparr>)))))))"

text \<open>\<open>tracingMu.Do\<close>: only the first call runs, and the error is a variable of the call.\<close>

definition InitTracing :: "otel_lib \<Rightarrow> (string \<Rightarrow> string) \<Rightarrow> string \<Rightarrow> tracing \<Rightarrow> string option \<times> tracing" where
  "InitTracing ol getenv ServerVersion tr =
     (if tracingMu tr then (None, tr)
      else (let (err, tr1) = init_pipeline ol getenv ServerVersion tr in (err, tr1\<lparr>tracingMu := True\<rparr>)))"

definition ShutdownTracing :: "otel_lib \<Rightarrow> tracing \<Rightarrow> tracing" where
  "ShutdownTracing ol tr =
     (case tr_tp tr of
        None \<Rightarrow> tr
      | Some _ \<Rightarrow>
          (case ol_shutdown ol of
             None \<Rightarrow> tr
           | Some err \<Rightarrow> tr_logged LogError ''tracing_shutdown_failed'' [(''error'', LString err)] tr))"

definition IsTracingEnabled :: "tracing \<Rightarrow> bool" where
  "IsTracingEnabled tr = tracingEnabled tr"

subsection \<open>Spans\<close>

text \<open>\<open>tracer.Start\<close>: the n-th call returns what the library says.\<close>

definition is_start :: "span_call \<Rightarrow> bool" where
  "is_start c = (case c of CStart _ _ _ _ \<Rightarrow> True | _ \<Rightarrow> False)"

definition tracer_Start :: "otel_lib \<Rightarrow> ctx \<Rightarrow> string \<Rightarrow> attribute list \<Rightarrow> tracing \<Rightarrow> (ctx \<times> span) \<times> tracing" where
  "tracer_Start ol c name attrs tr =
     (let (c', sp) = ol_start ol (length (filter is_start (tr_calls tr))) in ((c', sp), called (CStart c name attrs sp) tr))"

definition StartSpan :: "otel_lib \<Rightarrow> ctx \<Rightarrow> string \<Rightarrow> attribute list \<Rightarrow> tracing \<Rightarrow> (ctx \<times> span) \<times> tracing" where
  "StartSpan ol c name attrs tr =
     (if \<not> tracingEnabled tr \<or> tr_tracer tr = None then ((c, ol_span_of ol c), tr)
      else tracer_Start ol c name attrs tr)"

definition StartSpanFromRequest :: "otel_lib \<Rightarrow> ctx \<Rightarrow> string \<Rightarrow> attribute list \<Rightarrow> tracing \<Rightarrow> (ctx \<times> span) \<times> tracing" where
  "StartSpanFromRequest ol r_Context name attrs tr =
     (if \<not> tracingEnabled tr \<or> tr_tracer tr = None then ((r_Context, ol_span_of ol r_Context), tr)
      else tracer_Start ol (ol_extract ol r_Context) name attrs tr)"

text \<open>A span is never \<open>nil\<close> here: \<open>Start\<close> and \<open>SpanFromContext\<close> return one.\<close>

definition SpanError :: "span \<Rightarrow> string \<Rightarrow> tracing \<Rightarrow> tracing" where
  "SpanError sp err tr =
     (if \<not> tracingEnabled tr then tr else called (CSetStatusError sp err) (called (CRecordError sp err) tr))"

definition SpanOK :: "span \<Rightarrow> tracing \<Rightarrow> tracing" where
  "SpanOK sp tr = (if \<not> tracingEnabled tr then tr else called (CSetStatusOk sp) tr)"

definition root_span :: "otel_lib \<Rightarrow> string \<Rightarrow> attribute list \<Rightarrow> tracing \<Rightarrow> span \<times> tracing" where
  "root_span ol name attrs tr =
     (if \<not> tracingEnabled tr \<or> tr_tracer tr = None then (ol_span_of ol (ol_background ol), tr)
      else (let ((_, sp), tr1) = tracer_Start ol (ol_background ol) name attrs tr in (sp, tr1)))"

definition TraceRouteMessage :: "otel_lib \<Rightarrow> string \<Rightarrow> string \<Rightarrow> tracing \<Rightarrow> span \<times> tracing" where
  "TraceRouteMessage ol ct connID =
     root_span ol ''route_message'' [AString ''messenger.conn_type'' ct, AString ''messenger.conn_id'' connID]"

definition TraceChatMessage :: "otel_lib \<Rightarrow> ctx \<Rightarrow> string \<Rightarrow> string \<Rightarrow> string \<Rightarrow> string \<Rightarrow> tracing \<Rightarrow> (ctx \<times> span) \<times> tracing" where
  "TraceChatMessage ol c senderType senderID conversationID recipientID =
     StartSpan ol c ''route_chat_message''
       [AString ''messenger.sender_type'' senderType, AString ''messenger.sender_id'' senderID,
        AString ''messenger.conversation_id'' conversationID, AString ''messenger.recipient_id'' recipientID]"

definition TraceStoreMessage :: "otel_lib \<Rightarrow> ctx \<Rightarrow> string \<Rightarrow> string \<Rightarrow> tracing \<Rightarrow> (ctx \<times> span) \<times> tracing" where
  "TraceStoreMessage ol c conversationID senderID =
     StartSpan ol c ''store_message''
       [AString ''messenger.conversation_id'' conversationID, AString ''messenger.sender_id'' senderID]"

definition TraceDeliverMessage :: "otel_lib \<Rightarrow> ctx \<Rightarrow> string \<Rightarrow> string \<Rightarrow> bool \<Rightarrow> tracing \<Rightarrow> (ctx \<times> span) \<times> tracing" where
  "TraceDeliverMessage ol c recipientID recipientType delivered =
     StartSpan ol c ''deliver_message''
       [AString ''messenger.recipient_id'' recipientID, AString ''messenger.recipient_type'' recipientType,
        ABool ''messenger.delivered'' delivered]"

definition TraceOfflineEnqueue :: "otel_lib \<Rightarrow> string \<Rightarrow> tracing \<Rightarrow> span \<times> tracing" where
  "TraceOfflineEnqueue ol recipientID = root_span ol ''offline_enqueue'' [AString ''messenger.recipient_id'' recipientID]"

definition TracePushNotify :: "otel_lib \<Rightarrow> string \<Rightarrow> string \<Rightarrow> bool \<Rightarrow> tracing \<Rightarrow> span \<times> tracing" where
  "TracePushNotify ol userID conversationID success =
     root_span ol ''push_notify''
       [AString ''messenger.user_id'' userID, AString ''messenger.conversation_id'' conversationID,
        ABool ''messenger.push_sent'' success]"

definition TraceAgentConnect :: "otel_lib \<Rightarrow> string \<Rightarrow> tracing \<Rightarrow> span \<times> tracing" where
  "TraceAgentConnect ol agentID =
     root_span ol ''ws.agent_connect'' [AString ''messenger.conn_type'' ''agent'', AString ''messenger.conn_id'' agentID]"

definition TraceClientConnect :: "otel_lib \<Rightarrow> string \<Rightarrow> string \<Rightarrow> tracing \<Rightarrow> span \<times> tracing" where
  "TraceClientConnect ol userID dev =
     root_span ol ''ws.client_connect''
       [AString ''messenger.conn_type'' ''client'', AString ''messenger.conn_id'' userID,
        AString ''messenger.device_id'' dev]"

subsection \<open>The spans of a frame\<close>

text \<open>What \<open>routeMessage\<close> and \<open>routeChatMessage\<close> do to spans, beside what they do to the server (\<open>Routing.routeMessage\<close>):
  the state \<open>s\<close> decides the branches, before the handler changes it. \<open>json_err\<close> and \<open>err_text\<close> are the texts of the errors.\<close>

definition span_attrs :: "span \<Rightarrow> attribute list \<Rightarrow> tracing \<Rightarrow> tracing" where
  "span_attrs sp attrs = called (CSetAttributes sp attrs)"

definition span_End :: "span \<Rightarrow> tracing \<Rightarrow> tracing" where
  "span_End sp = called (CEnd sp)"

definition trace_enqueue :: "otel_lib \<Rightarrow> string \<Rightarrow> string \<Rightarrow> tracing \<Rightarrow> tracing" where
  "trace_enqueue ol recipient attr tr =
     (let (offlineSpan, tr1) = TraceOfflineEnqueue ol recipient tr in
      span_End offlineSpan (SpanOK offlineSpan (span_attrs offlineSpan [ABool attr True] tr1)))"

definition trace_push :: "otel_lib \<Rightarrow> string \<Rightarrow> string \<Rightarrow> tracing \<Rightarrow> tracing" where
  "trace_push ol recipient conv tr =
     (let (pushSpan, tr1) = TracePushNotify ol recipient conv True tr in
      span_End pushSpan (span_attrs pushSpan [ABool ''messenger.push_sent'' True] tr1))"

definition trace_to_user :: "otel_lib \<Rightarrow> string \<Rightarrow> string \<Rightarrow> json \<Rightarrow> server \<Rightarrow> tracing \<Rightarrow> tracing" where
  "trace_to_user ol recipient conv outgoing s tr =
     (let conns = GetClientConns recipient (srv_hub s);
          ((_, deliverSpan), tr1) = TraceDeliverMessage ol (ol_background ol) recipient ''client'' (conns \<noteq> []) tr;
          tr2 = (if conns \<noteq> [] then
                   (let delivered = fst (send_count conns outgoing (srv_hub s));
                        tr3 = span_attrs deliverSpan [AInt ''messenger.devices_delivered'' (int delivered),
                                AInt ''messenger.devices_total'' (int (length conns))] tr1
                    in if delivered = 0 then trace_enqueue ol recipient ''messenger.buffered'' tr3 else tr3)
                 else trace_push ol recipient conv (trace_enqueue ol recipient ''messenger.offline_queued'' tr1))
      in span_End deliverSpan (SpanOK deliverSpan tr2))"

definition trace_to_agent :: "otel_lib \<Rightarrow> string \<Rightarrow> json \<Rightarrow> server \<Rightarrow> tracing \<Rightarrow> tracing" where
  "trace_to_agent ol recipient outgoing s tr =
     (case GetAgent recipient (srv_hub s) of
        Some agent \<Rightarrow>
          (let ((_, deliverSpan), tr1) = TraceDeliverMessage ol (ol_background ol) recipient ''agent'' True tr;
               tr2 = (if fst (SafeSend agent outgoing (srv_hub s))
                      then span_attrs deliverSpan [ABool ''messenger.delivered'' True] tr1
                      else trace_enqueue ol recipient ''messenger.offline_queued''
                             (span_attrs deliverSpan [ABool ''messenger.delivered'' False] tr1))
           in span_End deliverSpan (SpanOK deliverSpan tr2))
      | None \<Rightarrow>
          (let ((_, deliverSpan), tr1) = TraceDeliverMessage ol (ol_background ol) recipient ''agent'' False tr in
           trace_enqueue ol recipient ''messenger.offline_queued''
             (span_End deliverSpan (span_attrs deliverSpan [ABool ''messenger.delivered'' False] tr1))))"

definition trace_chat_body ::
  "otel_lib \<Rightarrow> string \<Rightarrow> (go_error \<Rightarrow> string) \<Rightarrow> env \<Rightarrow> conn_ref \<Rightarrow> json option \<Rightarrow> server \<Rightarrow> span \<Rightarrow> tracing \<Rightarrow> tracing" where
  "trace_chat_body ol json_err err_text e r dat s sp tr =
     (case (case dat of None \<Rightarrow> None | Some j \<Rightarrow> unmarshal_routed j) of
        None \<Rightarrow> SpanError sp json_err tr
      | Some msg0 \<Rightarrow>
          (let ct = sender_type r s; i = sender_id r s;
               tr1 = span_attrs sp [AString ''messenger.conversation_id'' (ConversationID msg0),
                       AString ''messenger.sender_type'' ct, AString ''messenger.sender_id'' i] tr
           in if Content msg0 = [] \<or> ConversationID msg0 = [] then tr1
              else (case getConversation e (ConversationID msg0) (srv_db s) of
                      Inl err \<Rightarrow> SpanError sp (err_text err) tr1
                    | Inr None \<Rightarrow> tr1
                    | Inr (Some conv) \<Rightarrow>
                        if ct = ''agent'' \<and> conv_AgentID conv \<noteq> i \<or> ct = ''client'' \<and> conv_UserID conv \<noteq> i then tr1
                        else
                          (let recipient = (if ct = ''agent'' then conv_UserID conv else conv_AgentID conv);
                               msg = authored ct i recipient msg0;
                               tr2 = span_attrs sp [AString ''messenger.recipient_id'' recipient] tr1;
                               ((_, storeSpan), tr3) = TraceStoreMessage ol (ol_background ol) (ConversationID msg) i tr2
                           in case fst (storeMessage e msg (srv_db s)) of
                                Some err \<Rightarrow> span_End storeSpan (SpanError storeSpan (err_text err) tr3)
                              | None \<Rightarrow>
                                  (let tr4 = span_End storeSpan (SpanOK storeSpan tr3);
                                       outgoing = OutgoingMessage ''message'' (marshal_routed msg)
                                   in if ct = ''agent'' then trace_to_user ol recipient (ConversationID msg) outgoing s tr4
                                      else trace_to_agent ol recipient outgoing s tr4)))))"

definition trace_chat ::
  "otel_lib \<Rightarrow> string \<Rightarrow> (go_error \<Rightarrow> string) \<Rightarrow> env \<Rightarrow> conn_ref \<Rightarrow> json option \<Rightarrow> server \<Rightarrow> tracing \<Rightarrow> tracing" where
  "trace_chat ol json_err err_text e r dat s tr =
     (let ((_, sp), tr1) = TraceChatMessage ol (ol_background ol) (sender_type r s) (sender_id r s) [] [] tr in
      span_End sp (trace_chat_body ol json_err err_text e r dat s sp tr1))"

definition trace_frame ::
  "otel_lib \<Rightarrow> string \<Rightarrow> (go_error \<Rightarrow> string) \<Rightarrow> env \<Rightarrow> conn_ref \<Rightarrow> frame \<Rightarrow> server \<Rightarrow> tracing \<Rightarrow> tracing" where
  "trace_frame ol json_err err_text e r raw s tr =
     (let ct = sender_type r s; i = sender_id r s;
          (sp, tr1) = TraceRouteMessage ol ct i tr;
          (ok, s1) = checkRateLimit e r s;
          tr2 = (if \<not> ok then
                   called (CAddEvent sp ''rate_limited'' [AString ''messenger.conn_type'' ct, AString ''messenger.conn_id'' i]) tr1
                 else (case unmarshal_incoming raw of
                         None \<Rightarrow> SpanError sp json_err tr1
                       | Some msg \<Rightarrow>
                           (let tr3 = span_attrs sp [AString ''messenger.message_type'' (im_type msg)] tr1 in
                            if im_type msg = ''message'' then trace_chat ol json_err err_text e r (im_data msg) s1 tr3 else tr3)))
      in span_End sp tr2)"

subsection \<open>When tracing is on\<close>

text \<open>tracing is on exactly when the environment asks for it, names an endpoint, and the library accepts the exporter and
  the resource; it fails with an error exactly when it is asked for and the library refuses. When it is on,
  the tracer, the global provider and the provider that is shut down at the end are the same. A second call does
  nothing and reports no error, even if the first one failed.\<close>

theorem InitTracing_correct:
  assumes "InitTracing ol getenv v no_tracing = (err, tr)"
    and "x = otel_exporter (getEnvOrDefault getenv ''OTEL_EXPORTER_OTLP_PROTOCOL'' ''grpc'') (otel_endpoint getenv)"
    and "svc = getEnvOrDefault getenv ''OTEL_SERVICE_NAME'' ''agent-messenger''"
    and "wanted \<longleftrightarrow> getenv ''OTEL_ENABLED'' = ''true'' \<and> otel_endpoint getenv \<noteq> []"
  shows "(IsTracingEnabled tr \<longleftrightarrow> wanted \<and> ol_exporter ol x = None \<and> ol_resource ol svc = None) \<and>
    (err \<noteq> None \<longleftrightarrow> wanted \<and> \<not> IsTracingEnabled tr) \<and>
    (IsTracingEnabled tr \<longrightarrow> (\<exists>p. pv_exporter p = x \<and> pv_service p = svc \<and> pv_version p = v \<and>
       tr_tp tr = Some p \<and> tr_global tr = Some p \<and> tr_tracer tr = Some (p, tracerName))) \<and>
    (\<not> IsTracingEnabled tr \<longrightarrow> tr_tp tr = None \<and> tr_tracer tr = None) \<and>
    InitTracing ol' getenv' v' tr = (None, tr)"
proof -
  note run = assms(1) [symmetric, unfolded InitTracing_def init_pipeline_def no_tracing_def tr_logged_def Let_def, folded assms(2,3)]
  note unfolds = IsTracingEnabled_def InitTracing_def
  consider (off) "\<not> wanted" | (no_exporter) m where "wanted" "ol_exporter ol x = Some m"
    | (no_resource) m where "wanted" "ol_exporter ol x = None" "ol_resource ol svc = Some m"
    | (on) "wanted" "ol_exporter ol x = None" "ol_resource ol svc = None"
    by (cases wanted; cases "ol_exporter ol x"; cases "ol_resource ol svc"; simp)
  then show ?thesis
  proof cases
    case off
    with run assms(4) show ?thesis by (cases "getenv ''OTEL_ENABLED'' = ''true''") (simp_all add: unfolds)
  qed (use run assms(4) in \<open>simp_all add: unfolds\<close>)
qed

text \<open>after \<open>ShutdownTracing\<close> the functions still start spans: the switch is never turned off.\<close>

lemma ShutdownTracing_keeps: "IsTracingEnabled (ShutdownTracing ol tr) = IsTracingEnabled tr" "tr_calls (ShutdownTracing ol tr) = tr_calls tr"
  by (simp_all add: ShutdownTracing_def IsTracingEnabled_def tr_logged_def split: option.splits)

subsection \<open>Every span that a frame starts is ended\<close>

definition tracing_on :: "tracing \<Rightarrow> bool" where
  "tracing_on tr \<longleftrightarrow> tracingEnabled tr \<and> tr_tracer tr \<noteq> None"

fun span_delta :: "span \<Rightarrow> span_call \<Rightarrow> int" where
  "span_delta sp (CStart _ _ _ x) = of_bool (x = sp)"
| "span_delta sp (CEnd x) = - of_bool (x = sp)"
| "span_delta sp _ = 0"

text \<open>The number of times the span has been started, less the number of times it has been ended.\<close>

definition open_spans :: "tracing \<Rightarrow> span \<Rightarrow> int" where
  "open_spans tr sp = (\<Sum>c \<leftarrow> tr_calls tr. span_delta sp c)"

lemma tracing_on_called [simp]: "tracing_on (called c tr) = tracing_on tr"
  by (simp add: tracing_on_def called_def)

lemma open_spans_called [simp]: "open_spans (called c tr) sp = open_spans tr sp + span_delta sp c"
  by (simp add: open_spans_def called_def)

lemma span_steps [simp]:
  "tracing_on (SpanOK x tr) = tracing_on tr" "open_spans (SpanOK x tr) sp = open_spans tr sp"
  "tracing_on (SpanError x err tr) = tracing_on tr" "open_spans (SpanError x err tr) sp = open_spans tr sp"
  "tracing_on (span_attrs x as tr) = tracing_on tr" "open_spans (span_attrs x as tr) sp = open_spans tr sp"
  "tracing_on (span_End x tr) = tracing_on tr" "open_spans (span_End x tr) sp = open_spans tr sp - of_bool (x = sp)"
  by (simp_all add: SpanOK_def SpanError_def span_attrs_def span_End_def)

lemma starts_span [simp]:
  assumes "tracing_on tr"
  shows "tracing_on (snd (StartSpan ol c n as tr))" "tracing_on (snd (root_span ol n as tr))"
    "open_spans (snd (StartSpan ol c n as tr)) sp = open_spans tr sp + of_bool (snd (fst (StartSpan ol c n as tr)) = sp)"
    "open_spans (snd (root_span ol n as tr)) sp = open_spans tr sp + of_bool (fst (root_span ol n as tr) = sp)"
  using assms by (auto simp: StartSpan_def root_span_def tracer_Start_def tracing_on_def called_def open_spans_def
      case_prod_beta Let_def)

lemmas trace_starts = TraceRouteMessage_def TraceChatMessage_def TraceStoreMessage_def TraceDeliverMessage_def
  TraceOfflineEnqueue_def TracePushNotify_def

lemma trace_enqueue_balanced [simp]:
  assumes "tracing_on tr"
  shows "tracing_on (trace_enqueue ol i a tr)" "open_spans (trace_enqueue ol i a tr) sp = open_spans tr sp"
    "tracing_on (trace_push ol i a tr)" "open_spans (trace_push ol i a tr) sp = open_spans tr sp"
  using assms by (simp_all add: trace_enqueue_def trace_push_def trace_starts case_prod_beta Let_def)

lemma trace_deliver_balanced [simp]:
  assumes "tracing_on tr"
  shows "open_spans (trace_to_user ol i c out s tr) sp = open_spans tr sp"
    "open_spans (trace_to_agent ol i out s tr) sp = open_spans tr sp"
  using assms by (simp_all add: trace_to_user_def trace_to_agent_def trace_starts case_prod_beta Let_def split: option.splits)

lemma trace_chat_balanced [simp]:
  "tracing_on tr \<Longrightarrow> open_spans (trace_chat_body ol je et e r dat s x tr) sp = open_spans tr sp"
  "tracing_on tr \<Longrightarrow> open_spans (trace_chat ol je et e r dat s tr) sp = open_spans tr sp"
proof -
  show "tracing_on tr \<Longrightarrow> open_spans (trace_chat_body ol je et e r dat s x tr) sp = open_spans tr sp" for tr x
    by (simp add: trace_chat_body_def trace_starts case_prod_beta Let_def split: option.splits sum.splits)
  then show "tracing_on tr \<Longrightarrow> open_spans (trace_chat ol je et e r dat s tr) sp = open_spans tr sp"
    by (simp add: trace_chat_def trace_starts case_prod_beta Let_def)
qed

text \<open>With tracing off, the calls that are left go to the no-op span of the empty context.\<close>

definition harmless :: "span \<Rightarrow> span_call \<Rightarrow> bool" where
  "harmless n c =
     (case c of CSetAttributes x _ \<Rightarrow> x = n | CAddEvent x _ _ \<Rightarrow> x = n | CEnd x \<Rightarrow> x = n | _ \<Rightarrow> False)"

definition effective :: "otel_lib \<Rightarrow> tracing \<Rightarrow> span_call list" where
  "effective ol tr = filter (\<lambda>c. \<not> harmless (ol_span_of ol (ol_background ol)) c) (tr_calls tr)"

lemma effective_called [simp]:
  "effective ol (called c tr) = effective ol tr @ (if harmless (ol_span_of ol (ol_background ol)) c then [] else [c])"
  "tracingEnabled (called c tr) = tracingEnabled tr"
  by (simp_all add: effective_def called_def)

lemma off_starts [simp]:
  assumes "\<not> tracingEnabled tr"
  shows "StartSpan ol c n as tr = ((c, ol_span_of ol c), tr)"
    "root_span ol n as tr = (ol_span_of ol (ol_background ol), tr)" "SpanError x err tr = tr" "SpanOK x tr = tr"
  using assms by (simp_all add: StartSpan_def root_span_def SpanError_def SpanOK_def)

lemmas off_calls = span_attrs_def span_End_def harmless_def

lemma off_deliver [simp]:
  assumes "\<not> tracingEnabled tr"
  shows "\<not> tracingEnabled (trace_enqueue ol i a tr)" "effective ol (trace_enqueue ol i a tr) = effective ol tr"
    "\<not> tracingEnabled (trace_push ol i a tr)" "effective ol (trace_push ol i a tr) = effective ol tr"
    "effective ol (trace_to_user ol i a out s tr) = effective ol tr" "effective ol (trace_to_agent ol i out s tr) = effective ol tr"
  using assms
  by (simp_all add: trace_enqueue_def trace_push_def trace_to_user_def trace_to_agent_def trace_starts off_calls
      case_prod_beta Let_def split: option.splits)

lemma off_chat [simp]:
  assumes "\<not> tracingEnabled tr"
  shows "effective ol (trace_chat_body ol je et e r dat s (ol_span_of ol (ol_background ol)) tr) = effective ol tr"
    "effective ol (trace_chat ol je et e r dat s tr) = effective ol tr"
proof -
  show body: "effective ol (trace_chat_body ol je et e r dat s (ol_span_of ol (ol_background ol)) tr) = effective ol tr"
    using assms by (simp add: trace_chat_body_def trace_starts off_calls case_prod_beta Let_def split: option.splits sum.splits)
  then show "effective ol (trace_chat ol je et e r dat s tr) = effective ol tr"
    using assms by (simp add: trace_chat_def trace_starts off_calls case_prod_beta Let_def)
qed

text \<open>C35: no span leaks. Whatever frame arrives and on whatever path the router handles it (rate limited, malformed, refused, a
  database error, delivered, queued), every span that it starts has been ended as often as it was started when the
  router returns. With tracing off it starts no span and records no error or status: its calls go to the no-op span of
  the empty context.\<close>

theorem frame_spans_balanced:
  "(tracing_on tr \<longrightarrow> open_spans (trace_frame ol json_err err_text e r raw s tr) sp = open_spans tr sp) \<and>
   (\<not> tracingEnabled tr \<longrightarrow> effective ol (trace_frame ol json_err err_text e r raw s tr) = effective ol tr)"
  by (simp add: trace_frame_def trace_starts case_prod_beta Let_def split: option.splits)
    (simp add: off_calls)

text \<open>the comments call the spans for storing and delivering child spans, but every span of a frame is started in the empty
  context, so each is the root of a trace of its own.\<close>

definition root_call :: "otel_lib \<Rightarrow> span_call \<Rightarrow> bool" where
  "root_call ol c = (case c of CStart x _ _ _ \<Rightarrow> x = ol_background ol | _ \<Rightarrow> True)"

definition only_roots :: "otel_lib \<Rightarrow> tracing \<Rightarrow> bool" where
  "only_roots ol tr \<longleftrightarrow> list_all (root_call ol) (tr_calls tr)"

lemma only_roots_called [simp]: "only_roots ol (called c tr) \<longleftrightarrow> only_roots ol tr \<and> root_call ol c"
  by (simp add: only_roots_def called_def)

lemma only_roots_steps [simp]:
  "only_roots ol (SpanOK x tr) = only_roots ol tr" "only_roots ol (SpanError x err tr) = only_roots ol tr"
  "only_roots ol (span_attrs x as tr) = only_roots ol tr" "only_roots ol (span_End x tr) = only_roots ol tr"
  "only_roots ol (snd (root_span ol n as tr)) = only_roots ol tr"
  "only_roots ol (snd (StartSpan ol (ol_background ol) n as tr)) = only_roots ol tr"
  by (simp_all add: SpanOK_def SpanError_def span_attrs_def span_End_def root_span_def StartSpan_def tracer_Start_def root_call_def
      case_prod_beta Let_def)

lemma only_roots_deliver [simp]:
  "only_roots ol (trace_enqueue ol i a tr) = only_roots ol tr" "only_roots ol (trace_push ol i a tr) = only_roots ol tr"
  "only_roots ol (trace_to_user ol i a out s tr) = only_roots ol tr" "only_roots ol (trace_to_agent ol i out s tr) = only_roots ol tr"
  by (simp_all only: trace_enqueue_def trace_push_def trace_to_user_def trace_to_agent_def trace_starts case_prod_beta Let_def
      only_roots_steps if_distrib [of "only_roots ol"] if_cancel split: option.split) simp_all

lemma only_roots_chat [simp]:
  "only_roots ol (trace_chat_body ol je et e r dat s x tr) = only_roots ol tr"
  "only_roots ol (trace_chat ol je et e r dat s tr) = only_roots ol tr"
  by (simp_all only: trace_chat_def trace_chat_body_def trace_starts case_prod_beta Let_def only_roots_steps only_roots_deliver
      if_distrib [of "only_roots ol"] if_cancel split: option.split sum.split) simp_all

theorem frame_spans_are_roots: "only_roots ol (trace_frame ol json_err err_text e r raw s tr) = only_roots ol tr"
  by (simp add: trace_frame_def trace_starts root_call_def case_prod_beta Let_def split: option.splits)

subsection \<open>A concrete pipeline\<close>

definition demo_otel :: otel_lib where
  "demo_otel = \<lparr>ol_exporter = (\<lambda>_. None), ol_resource = (\<lambda>_. None), ol_shutdown = None, ol_start = (\<lambda>n. (Suc n, Suc n)),
     ol_span_of = (\<lambda>c. c), ol_extract = (\<lambda>c. c), ol_background = 0, ol_parse_float = (\<lambda>_. None)\<rparr>"

definition demo_otel_env :: "string \<Rightarrow> string" where
  "demo_otel_env = gm_str [(''OTEL_ENABLED'', ''true''), (''OTEL_EXPORTER_OTLP_HTTP_ENDPOINT'', ''collector:4318'')]"

text \<open>An endpoint that is only given by the variable for HTTP is used with the gRPC exporter, since the protocol is chosen apart from it.\<close>

theorem InitTracing_correct_witness:
  "\<exists>p. tr_tp (snd (InitTracing demo_otel demo_otel_env ''0.2.0'' no_tracing)) = Some p \<and>
     pv_exporter p = GRPCExporter ''collector:4318'' True \<and> pv_service p = ''agent-messenger''"
proof -
  obtain err tr where run: "InitTracing demo_otel demo_otel_env ''0.2.0'' no_tracing = (err, tr)"
    by (cases "InitTracing demo_otel demo_otel_env ''0.2.0'' no_tracing")
  have env: "demo_otel_env ''OTEL_ENABLED'' = ''true''" "otel_endpoint demo_otel_env = ''collector:4318''"
    "getEnvOrDefault demo_otel_env ''OTEL_SERVICE_NAME'' ''agent-messenger'' = ''agent-messenger''"
    "otel_exporter (getEnvOrDefault demo_otel_env ''OTEL_EXPORTER_OTLP_PROTOCOL'' ''grpc'') ''collector:4318'' =
       GRPCExporter ''collector:4318'' True"
    by code_simp+
  from InitTracing_correct [OF run refl refl refl, of demo_otel demo_otel_env "[]"] env show ?thesis
    unfolding run by (auto simp: demo_otel_def)
qed

definition demo_tracing :: tracing where
  "demo_tracing = snd (InitTracing demo_otel demo_otel_env ''0.2.0'' no_tracing)"

theorem frame_spans_balanced_witness:
  "open_spans (trace_frame demo_otel [] (\<lambda>_. []) quiet_env 0 (Frame (OutgoingMessage ''message'' example_chat)) example_server
     demo_tracing) 1 = 0"
proof -
  have "tracing_on demo_tracing" "open_spans demo_tracing 1 = 0" by code_simp+
  then show ?thesis
    using frame_spans_balanced [of demo_tracing demo_otel "[]" "\<lambda>_. []" quiet_env 0
        "Frame (OutgoingMessage ''message'' example_chat)" example_server 1] by simp
qed

end
