(* ===== verification/Schema.thy ===== *)
theory Schema
  imports Wire
begin

text \<open>
  The schema statements of the program: the texts of \<open>sqliteSchema\<close> and \<open>pgSchema\<close> (\<open>dbdriver.go\<close>) and of
  \<open>initSchema\<close> (\<open>main.go\<close>), and what the database makes of them. A database is seen here as its catalogue, the
  tables with their columns, and the rows of \<open>schema_migrations\<close>; the rows of the other tables are the matter of
  the theory Database. The statements are kept as the texts of the source, line by line; \<open>parse_sql\<close> reads the
  four forms that occur (\<open>CREATE TABLE IF NOT EXISTS\<close>, \<open>ALTER TABLE .. ADD COLUMN\<close>,
  \<open>DROP TABLE IF EXISTS\<close> and \<open>CREATE INDEX\<close>), anything else is a syntax error. Tabs are two spaces.
\<close>

named_theorems parsed "the statements of a schema text"

subsection \<open>The statements\<close>

text \<open>A raw string of the source: its paragraphs, a blank line between them, by their lines; \<open>empty_literal\<close> is the
  SQL text of two single quotes.\<close>

definition text_lines :: "string list \<Rightarrow> string" where
  "text_lines ls = concat (map (\<lambda>l. l @ [CHR 0x0A]) ls)"

definition sql_text :: "string list list \<Rightarrow> string" where
  "sql_text ps = concat (map (\<lambda>p. CHR 0x0A # text_lines p) ps)"

definition empty_literal :: string where
  "empty_literal = [CHR 0x27, CHR 0x27]"

datatype sql =
    CREATE_TABLE string "string list"
  | ADD_COLUMN string string
  | DROP_TABLE string
  | CREATE_INDEX
  | EMPTY_STATEMENT
  | SYNTAX_ERROR string

text \<open>The words of a statement: white space separates them, the brackets and the comma stand alone, and
  \<open>--\<close> starts a comment to the end of the line. The first argument is the word being read, backwards.\<close>

definition flush_word :: "string \<Rightarrow> string list" where
  "flush_word w = (if w = [] then [] else [rev w])"

function sql_words :: "string \<Rightarrow> string \<Rightarrow> string list" where
  "sql_words w [] = flush_word w"
| "sql_words w (c # cs) =
     (if is_space c then flush_word w @ sql_words [] cs
      else if c = CHR ''('' \<or> c = CHR '')'' \<or> c = CHR '','' then flush_word w @ [c] # sql_words [] cs
      else if c = CHR ''-'' \<and> take 1 cs = ''-'' then flush_word w @ sql_words [] (dropWhile (\<lambda>x. x \<noteq> CHR 0x0A) cs)
      else sql_words (c # w) cs)"
  by pat_completeness auto

termination sql_words
  by (relation "measure (\<lambda>(w, s). length s)") (auto simp: length_dropWhile_le le_imp_less_Suc)

text \<open>The column names of a table definition: the first word of every item of the outer bracket that is not a
  table constraint.\<close>

fun column_names :: "nat \<Rightarrow> bool \<Rightarrow> string list \<Rightarrow> string list" where
  "column_names depth start [] = []"
| "column_names depth start (w # ws) =
     (if w = ''('' then column_names (Suc depth) False ws
      else if w = '')'' then (if depth = 0 then [] else column_names (depth - 1) False ws)
      else if w = '','' \<and> depth = 0 then column_names depth True ws
      else if start \<and> w \<notin> {''FOREIGN'', ''PRIMARY'', ''UNIQUE''} then w # column_names depth False ws
      else column_names depth False ws)"

definition parse_words :: "string list \<Rightarrow> sql" where
  "parse_words ws =
     (if ws = [] then EMPTY_STATEMENT
      else if take 5 ws = [''CREATE'', ''TABLE'', ''IF'', ''NOT'', ''EXISTS''] \<and> take 1 (drop 6 ws) = [''('']
        then CREATE_TABLE (ws ! 5) (column_names 0 True (drop 7 ws))
      else if take 2 ws = [''ALTER'', ''TABLE''] \<and> take 2 (drop 3 ws) = [''ADD'', ''COLUMN''] \<and> length ws > 5
        then ADD_COLUMN (ws ! 2) (ws ! 5)
      else if take 4 ws = [''DROP'', ''TABLE'', ''IF'', ''EXISTS''] \<and> length ws = 5 then DROP_TABLE (ws ! 4)
      else if take 5 ws = [''CREATE'', ''INDEX'', ''IF'', ''NOT'', ''EXISTS''] then CREATE_INDEX
      else SYNTAX_ERROR (hd ws))"

definition parse_sql :: "string \<Rightarrow> sql" where
  "parse_sql s = parse_words (sql_words [] s)"

subsection \<open>The catalogue\<close>

record catalog =
  tables :: "(string, string list) gomap"
  schema_migrations :: "(int \<times> string) list option"

definition empty_catalog :: catalog where
  "empty_catalog = \<lparr>tables = [], schema_migrations = None\<rparr>"

text \<open>One statement, as SQLite runs it. An error leaves the catalogue alone; the messages are SQLite's.\<close>

fun exec_sql :: "sql \<Rightarrow> catalog \<Rightarrow> string + catalog" where
  "exec_sql (CREATE_TABLE t cs) d =
     (if t = ''schema_migrations'' then
        Inr (if schema_migrations d = None then d\<lparr>schema_migrations := Some []\<rparr> else d)
      else Inr (if gm_get (tables d) t = None then d\<lparr>tables := gm_set t cs (tables d)\<rparr> else d))"
| "exec_sql (ADD_COLUMN t c) d =
     (case gm_get (tables d) t of
        None \<Rightarrow> Inl (''no such table: '' @ t)
      | Some cs \<Rightarrow> if c \<in> set cs then Inl (''duplicate column name: '' @ c)
                   else Inr (d\<lparr>tables := gm_set t (cs @ [c]) (tables d)\<rparr>))"
| "exec_sql (DROP_TABLE t) d = Inr (d\<lparr>tables := gm_del t (tables d)\<rparr>)"
| "exec_sql CREATE_INDEX d = Inr d"
| "exec_sql EMPTY_STATEMENT d = Inr d"
| "exec_sql (SYNTAX_ERROR w) d = Inl (''near '' @ w @ '': syntax error'')"

text \<open>\<open>db.Exec\<close> of a text: its statements in turn, up to the first error. The argument \<open>io\<close> gives the failures
  that do not come from the statement (a locked or a full database), by the text that was to be run; the calls
  that read or write rows of \<open>schema_migrations\<close> fail in the same way.\<close>

type_synonym sql_io = "string \<Rightarrow> string option"

definition no_faults :: sql_io where
  "no_faults = (\<lambda>_. None)"

fun exec_all :: "sql list \<Rightarrow> catalog \<Rightarrow> string option \<times> catalog" where
  "exec_all [] d = (None, d)"
| "exec_all (q # qs) d = (case exec_sql q d of Inl err \<Rightarrow> (Some err, d) | Inr d1 \<Rightarrow> exec_all qs d1)"

definition exec_text :: "sql_io \<Rightarrow> string \<Rightarrow> catalog \<Rightarrow> string option \<times> catalog" where
  "exec_text io s d =
     (case io s of Some err \<Rightarrow> (Some err, d) | None \<Rightarrow> exec_all (map parse_sql (split_on (CHR '';'') s)) d)"

subsection \<open>The two drivers\<close>

text \<open>The driver is a string of the configuration; every name but \<open>postgres\<close> is treated as SQLite.\<close>

definition DriverSQLite :: string where "DriverSQLite = ''sqlite3''"
definition DriverPostgreSQL :: string where "DriverPostgreSQL = ''postgres''"

text \<open>PostgreSQL has no \<open>AUTOINCREMENT\<close> and no types \<open>DATETIME\<close> and \<open>BLOB\<close>, and it refuses an integer as the
  default of a \<open>BOOLEAN\<close> column. \<open>CREATE TABLE IF NOT EXISTS\<close> of a table that exists is skipped before its columns
  are looked at. The statements of one text are one transaction: an error undoes them all.\<close>

fun integer_boolean :: "string list \<Rightarrow> bool" where
  "integer_boolean [] = False"
| "integer_boolean (w # ws) =
     (w = ''BOOLEAN'' \<and> take 1 (dropWhile (\<lambda>x. x \<noteq> ''DEFAULT'' \<and> x \<noteq> '','') ws) = [''DEFAULT''] \<and>
        take 1 (drop 1 (dropWhile (\<lambda>x. x \<noteq> ''DEFAULT'' \<and> x \<noteq> '','') ws)) \<in> {[''0''], [''1'']} \<or>
      integer_boolean ws)"

definition pg_refuses :: "string list \<Rightarrow> bool" where
  "pg_refuses ws \<longleftrightarrow> integer_boolean ws \<or> (\<exists>w \<in> set ws. w \<in> {''AUTOINCREMENT'', ''DATETIME'', ''BLOB''})"

definition skipped :: "sql \<Rightarrow> catalog \<Rightarrow> bool" where
  "skipped q d = (case q of CREATE_TABLE t _ \<Rightarrow> gm_get (tables d) t \<noteq> None | _ \<Rightarrow> False)"

definition pg_exec :: "string list \<Rightarrow> catalog \<Rightarrow> string + catalog" where
  "pg_exec ws d =
     (if pg_refuses ws \<and> \<not> skipped (parse_words ws) d then Inl ''type error'' else exec_sql (parse_words ws) d)"

fun pg_exec_all :: "string list list \<Rightarrow> catalog \<Rightarrow> string option \<times> catalog" where
  "pg_exec_all [] d = (None, d)"
| "pg_exec_all (ws # wss) d = (case pg_exec ws d of Inl err \<Rightarrow> (Some err, d) | Inr d1 \<Rightarrow> pg_exec_all wss d1)"

definition pg_exec_text :: "sql_io \<Rightarrow> string \<Rightarrow> catalog \<Rightarrow> string option \<times> catalog" where
  "pg_exec_text io s d =
     (case io s of
        Some err \<Rightarrow> (Some err, d)
      | None \<Rightarrow> (case pg_exec_all (map (sql_words []) (split_on (CHR '';'') s)) d of
                   (Some err, _) \<Rightarrow> (Some err, d)
                 | (None, d1) \<Rightarrow> (None, d1)))"

definition exec_driver :: "string \<Rightarrow> sql_io \<Rightarrow> string \<Rightarrow> catalog \<Rightarrow> string option \<times> catalog" where
  "exec_driver currentDriver io s d =
     (if currentDriver = DriverPostgreSQL then pg_exec_text io s d else exec_text io s d)"

subsection \<open>The schema texts\<close>

definition sqliteSchema :: string where
  \<open>sqliteSchema = sql_text [
    [''CREATE TABLE IF NOT EXISTS users ('',
     ''  id TEXT PRIMARY KEY,'',
     ''  username TEXT NOT NULL UNIQUE,'',
     ''  password_hash TEXT NOT NULL,'',
     ''  created_at TIMESTAMP DEFAULT CURRENT_TIMESTAMP'',
     '');''],
    [''CREATE TABLE IF NOT EXISTS agents ('',
     ''  id TEXT NOT NULL PRIMARY KEY,'',
     ''  name TEXT NOT NULL DEFAULT '' @ empty_literal @ '','',
     ''  model TEXT NOT NULL DEFAULT '' @ empty_literal @ '','',
     ''  personality TEXT NOT NULL DEFAULT '' @ empty_literal @ '','',
     ''  specialty TEXT NOT NULL DEFAULT '' @ empty_literal @ '','',
     ''  status TEXT NOT NULL DEFAULT \'offline\','',
     ''  created_at TIMESTAMP DEFAULT CURRENT_TIMESTAMP'',
     '');''],
    [''CREATE TABLE IF NOT EXISTS conversations ('',
     ''  id TEXT PRIMARY KEY,'',
     ''  user_id TEXT NOT NULL,'',
     ''  agent_id TEXT NOT NULL,'',
     ''  created_at TIMESTAMP DEFAULT CURRENT_TIMESTAMP,'',
     ''  FOREIGN KEY (user_id) REFERENCES users(id),'',
     ''  FOREIGN KEY (agent_id) REFERENCES agents(id)'',
     '');''],
    [''CREATE TABLE IF NOT EXISTS device_tokens ('',
     ''  user_id TEXT NOT NULL,'',
     ''  device_token TEXT NOT NULL,'',
     ''  platform TEXT NOT NULL DEFAULT \'ios\','',
     ''  created_at TIMESTAMP DEFAULT CURRENT_TIMESTAMP,'',
     ''  updated_at TIMESTAMP DEFAULT CURRENT_TIMESTAMP,'',
     ''  PRIMARY KEY (user_id, device_token),'',
     ''  FOREIGN KEY (user_id) REFERENCES users(id)'',
     '');''],
    [''CREATE TABLE IF NOT EXISTS messages ('',
     ''  id TEXT PRIMARY KEY,'',
     ''  conversation_id TEXT NOT NULL,'',
     ''  sender_type TEXT NOT NULL,'',
     ''  sender_id TEXT NOT NULL,'',
     ''  content TEXT NOT NULL,'',
     ''  metadata TEXT,'',
     ''  created_at TIMESTAMP DEFAULT CURRENT_TIMESTAMP,'',
     ''  edited_at TIMESTAMP,'',
     ''  is_deleted BOOLEAN DEFAULT 0,'',
     ''  FOREIGN KEY (conversation_id) REFERENCES conversations(id)'',
     '');''],
    [''CREATE TABLE IF NOT EXISTS attachments ('',
     ''  id TEXT PRIMARY KEY,'',
     ''  message_id TEXT,'',
     ''  user_id TEXT NOT NULL,'',
     ''  filename TEXT NOT NULL,'',
     ''  content_type TEXT NOT NULL,'',
     ''  size INTEGER NOT NULL,'',
     ''  sha256 TEXT NOT NULL,'',
     ''  storage_path TEXT NOT NULL,'',
     ''  created_at TIMESTAMP DEFAULT CURRENT_TIMESTAMP,'',
     ''  FOREIGN KEY (message_id) REFERENCES messages(id),'',
     ''  FOREIGN KEY (user_id) REFERENCES users(id)'',
     '');''],
    [''CREATE TABLE IF NOT EXISTS key_bundles ('',
     ''  id TEXT PRIMARY KEY,'',
     ''  owner_id TEXT NOT NULL,'',
     ''  owner_type TEXT NOT NULL,'',
     ''  key_type TEXT NOT NULL,'',
     ''  public_key TEXT NOT NULL,'',
     ''  signature TEXT,'',
     ''  key_id INTEGER,'',
     ''  created_at TIMESTAMP DEFAULT CURRENT_TIMESTAMP,'',
     ''  FOREIGN KEY (owner_id) REFERENCES users(id)'',
     '');''],
    [''CREATE TABLE IF NOT EXISTS encrypted_messages ('',
     ''  id TEXT PRIMARY KEY,'',
     ''  conversation_id TEXT NOT NULL,'',
     ''  sender_id TEXT NOT NULL,'',
     ''  sender_type TEXT NOT NULL,'',
     ''  ciphertext TEXT NOT NULL,'',
     ''  iv TEXT NOT NULL,'',
     ''  recipient_key_id TEXT NOT NULL,'',
     ''  sender_key_id TEXT,'',
     ''  algorithm TEXT NOT NULL,'',
     ''  created_at TIMESTAMP DEFAULT CURRENT_TIMESTAMP,'',
     ''  FOREIGN KEY (conversation_id) REFERENCES conversations(id)'',
     '');''],
    [''CREATE TABLE IF NOT EXISTS notification_preferences ('',
     ''  user_id TEXT NOT NULL,'',
     ''  conversation_id TEXT NOT NULL,'',
     ''  muted INTEGER NOT NULL DEFAULT 0,'',
     ''  created_at TIMESTAMP DEFAULT CURRENT_TIMESTAMP,'',
     ''  PRIMARY KEY (user_id, conversation_id),'',
     ''  FOREIGN KEY (user_id) REFERENCES users(id) ON DELETE CASCADE,'',
     ''  FOREIGN KEY (conversation_id) REFERENCES conversations(id) ON DELETE CASCADE'',
     '');''],
    [''CREATE TABLE IF NOT EXISTS offline_queue ('',
     ''  id INTEGER PRIMARY KEY AUTOINCREMENT,'',
     ''  recipient TEXT NOT NULL,'',
     ''  data BLOB NOT NULL,'',
     ''  queued_at DATETIME NOT NULL,'',
     ''  sent_count INTEGER NOT NULL DEFAULT 0'',
     '');'',
     ''CREATE INDEX IF NOT EXISTS idx_queue_recipient ON offline_queue(recipient);'']]\<close>

definition pgSchema :: string where
  \<open>pgSchema = sql_text [
    [''CREATE TABLE IF NOT EXISTS users ('',
     ''  id TEXT PRIMARY KEY,'',
     ''  username TEXT NOT NULL UNIQUE,'',
     ''  password_hash TEXT NOT NULL,'',
     ''  created_at TIMESTAMP DEFAULT CURRENT_TIMESTAMP'',
     '');''],
    [''CREATE TABLE IF NOT EXISTS agents ('',
     ''  id TEXT PRIMARY KEY,'',
     ''  name TEXT NOT NULL DEFAULT '' @ empty_literal @ '','',
     ''  model TEXT NOT NULL DEFAULT '' @ empty_literal @ '','',
     ''  personality TEXT NOT NULL DEFAULT '' @ empty_literal @ '','',
     ''  specialty TEXT NOT NULL DEFAULT '' @ empty_literal @ '','',
     ''  status TEXT NOT NULL DEFAULT \'offline\','',
     ''  created_at TIMESTAMP DEFAULT CURRENT_TIMESTAMP'',
     '');''],
    [''CREATE TABLE IF NOT EXISTS conversations ('',
     ''  id TEXT PRIMARY KEY,'',
     ''  user_id TEXT NOT NULL,'',
     ''  agent_id TEXT NOT NULL,'',
     ''  created_at TIMESTAMP DEFAULT CURRENT_TIMESTAMP,'',
     ''  FOREIGN KEY (user_id) REFERENCES users(id),'',
     ''  FOREIGN KEY (agent_id) REFERENCES agents(id)'',
     '');''],
    [''CREATE TABLE IF NOT EXISTS device_tokens ('',
     ''  user_id TEXT NOT NULL,'',
     ''  device_token TEXT NOT NULL,'',
     ''  platform TEXT NOT NULL DEFAULT \'ios\','',
     ''  created_at TIMESTAMP DEFAULT CURRENT_TIMESTAMP,'',
     ''  updated_at TIMESTAMP DEFAULT CURRENT_TIMESTAMP,'',
     ''  PRIMARY KEY (user_id, device_token),'',
     ''  FOREIGN KEY (user_id) REFERENCES users(id)'',
     '');''],
    [''CREATE TABLE IF NOT EXISTS messages ('',
     ''  id TEXT PRIMARY KEY,'',
     ''  conversation_id TEXT NOT NULL,'',
     ''  sender_type TEXT NOT NULL,'',
     ''  sender_id TEXT NOT NULL,'',
     ''  content TEXT NOT NULL,'',
     ''  metadata TEXT,'',
     ''  created_at TIMESTAMP DEFAULT CURRENT_TIMESTAMP,'',
     ''  edited_at TIMESTAMP,'',
     ''  is_deleted BOOLEAN DEFAULT FALSE,'',
     ''  FOREIGN KEY (conversation_id) REFERENCES conversations(id)'',
     '');''],
    [''CREATE TABLE IF NOT EXISTS attachments ('',
     ''  id TEXT PRIMARY KEY,'',
     ''  message_id TEXT,'',
     ''  user_id TEXT NOT NULL,'',
     ''  filename TEXT NOT NULL,'',
     ''  content_type TEXT NOT NULL,'',
     ''  size BIGINT NOT NULL,'',
     ''  sha256 TEXT NOT NULL,'',
     ''  storage_path TEXT NOT NULL,'',
     ''  created_at TIMESTAMP DEFAULT CURRENT_TIMESTAMP,'',
     ''  FOREIGN KEY (message_id) REFERENCES messages(id),'',
     ''  FOREIGN KEY (user_id) REFERENCES users(id)'',
     '');''],
    [''CREATE TABLE IF NOT EXISTS key_bundles ('',
     ''  id TEXT PRIMARY KEY,'',
     ''  owner_id TEXT NOT NULL,'',
     ''  owner_type TEXT NOT NULL,'',
     ''  key_type TEXT NOT NULL,'',
     ''  public_key TEXT NOT NULL,'',
     ''  signature TEXT,'',
     ''  key_id INTEGER,'',
     ''  created_at TIMESTAMP DEFAULT CURRENT_TIMESTAMP,'',
     ''  FOREIGN KEY (owner_id) REFERENCES users(id)'',
     '');''],
    [''CREATE TABLE IF NOT EXISTS encrypted_messages ('',
     ''  id TEXT PRIMARY KEY,'',
     ''  conversation_id TEXT NOT NULL,'',
     ''  sender_id TEXT NOT NULL,'',
     ''  sender_type TEXT NOT NULL,'',
     ''  ciphertext TEXT NOT NULL,'',
     ''  iv TEXT NOT NULL,'',
     ''  recipient_key_id TEXT NOT NULL,'',
     ''  sender_key_id TEXT,'',
     ''  algorithm TEXT NOT NULL,'',
     ''  created_at TIMESTAMP DEFAULT CURRENT_TIMESTAMP,'',
     ''  FOREIGN KEY (conversation_id) REFERENCES conversations(id)'',
     '');''],
    [''CREATE TABLE IF NOT EXISTS notification_preferences ('',
     ''  user_id TEXT NOT NULL,'',
     ''  conversation_id TEXT NOT NULL,'',
     ''  muted BOOLEAN DEFAULT FALSE,'',
     ''  created_at TIMESTAMP DEFAULT CURRENT_TIMESTAMP,'',
     ''  PRIMARY KEY (user_id, conversation_id),'',
     ''  FOREIGN KEY (user_id) REFERENCES users(id) ON DELETE CASCADE,'',
     ''  FOREIGN KEY (conversation_id) REFERENCES conversations(id) ON DELETE CASCADE'',
     '');''],
    [''CREATE TABLE IF NOT EXISTS offline_queue ('',
     ''  id SERIAL PRIMARY KEY,'',
     ''  recipient TEXT NOT NULL,'',
     ''  data BYTEA NOT NULL,'',
     ''  queued_at TIMESTAMP NOT NULL,'',
     ''  sent_count INTEGER NOT NULL DEFAULT 0'',
     '');'',
     ''CREATE INDEX IF NOT EXISTS idx_queue_recipient ON offline_queue(recipient);''],
    [''CREATE TABLE IF NOT EXISTS reactions ('',
     ''  id TEXT PRIMARY KEY,'',
     ''  message_id TEXT NOT NULL,'',
     ''  user_id TEXT NOT NULL,'',
     ''  emoji TEXT NOT NULL,'',
     ''  created_at TIMESTAMP DEFAULT CURRENT_TIMESTAMP,'',
     ''  UNIQUE(message_id, user_id, emoji),'',
     ''  FOREIGN KEY (message_id) REFERENCES messages(id) ON DELETE CASCADE,'',
     ''  FOREIGN KEY (user_id) REFERENCES users(id) ON DELETE CASCADE'',
     '');''],
    [''CREATE TABLE IF NOT EXISTS conversation_tags ('',
     ''  id TEXT PRIMARY KEY,'',
     ''  conversation_id TEXT NOT NULL,'',
     ''  tag TEXT NOT NULL,'',
     ''  created_at TIMESTAMP DEFAULT CURRENT_TIMESTAMP,'',
     ''  UNIQUE(conversation_id, tag),'',
     ''  FOREIGN KEY (conversation_id) REFERENCES conversations(id) ON DELETE CASCADE'',
     '');''],
    [''CREATE TABLE IF NOT EXISTS user_rate_limit_tiers ('',
     ''  user_id TEXT NOT NULL PRIMARY KEY,'',
     ''  tier_name TEXT NOT NULL DEFAULT \'free\','',
     ''  updated_at TIMESTAMP DEFAULT CURRENT_TIMESTAMP,'',
     ''  FOREIGN KEY (user_id) REFERENCES users(id) ON DELETE CASCADE'',
     '');''],
    [''CREATE TABLE IF NOT EXISTS notification_preferences ('',
     ''  user_id TEXT NOT NULL,'',
     ''  conversation_id TEXT NOT NULL,'',
     ''  muted BOOLEAN DEFAULT FALSE,'',
     ''  created_at TIMESTAMP DEFAULT CURRENT_TIMESTAMP,'',
     ''  PRIMARY KEY (user_id, conversation_id),'',
     ''  FOREIGN KEY (user_id) REFERENCES users(id) ON DELETE CASCADE,'',
     ''  FOREIGN KEY (conversation_id) REFERENCES conversations(id) ON DELETE CASCADE'',
     '');''],
    [''CREATE TABLE IF NOT EXISTS schema_migrations ('',
     ''  version INTEGER NOT NULL,'',
     ''  name TEXT NOT NULL,'',
     ''  applied_at TIMESTAMP DEFAULT CURRENT_TIMESTAMP,'',
     ''  PRIMARY KEY (version)'',
     '');'']]\<close>

subsection \<open>The schema of the server\<close>

text \<open>The statements of \<open>initSchema\<close>, in its order.\<close>

definition migrations_ddl :: string where
  \<open>migrations_ddl = sql_text [
    [''CREATE TABLE IF NOT EXISTS schema_migrations ('',
     ''  version INTEGER NOT NULL,'',
     ''  name TEXT NOT NULL,'',
     ''  applied_at TIMESTAMP DEFAULT CURRENT_TIMESTAMP,'',
     ''  PRIMARY KEY (version)'',
     '');'']]\<close>

definition reactions_ddl :: string where
  \<open>reactions_ddl = sql_text [
    [''CREATE TABLE IF NOT EXISTS reactions ('',
     ''  id TEXT PRIMARY KEY,'',
     ''  message_id TEXT NOT NULL,'',
     ''  user_id TEXT NOT NULL,'',
     ''  emoji TEXT NOT NULL,'',
     ''  created_at TIMESTAMP DEFAULT CURRENT_TIMESTAMP,'',
     ''  UNIQUE(message_id, user_id, emoji),'',
     ''  FOREIGN KEY (message_id) REFERENCES messages(id) ON DELETE CASCADE,'',
     ''  FOREIGN KEY (user_id) REFERENCES users(id) ON DELETE CASCADE'',
     '');'']]\<close>

definition tags_ddl :: string where
  \<open>tags_ddl = sql_text [
    [''CREATE TABLE IF NOT EXISTS conversation_tags ('',
     ''  id TEXT PRIMARY KEY,'',
     ''  conversation_id TEXT NOT NULL,'',
     ''  tag TEXT NOT NULL,'',
     ''  created_at TIMESTAMP DEFAULT CURRENT_TIMESTAMP,'',
     ''  UNIQUE(conversation_id, tag),'',
     ''  FOREIGN KEY (conversation_id) REFERENCES conversations(id) ON DELETE CASCADE'',
     '');'']]\<close>

definition tiers_ddl :: string where
  \<open>tiers_ddl = sql_text [
    [''CREATE TABLE IF NOT EXISTS user_rate_limit_tiers ('',
     ''  user_id TEXT NOT NULL PRIMARY KEY,'',
     ''  tier_name TEXT NOT NULL DEFAULT \'free\','',
     ''  updated_at TIMESTAMP DEFAULT CURRENT_TIMESTAMP,'',
     ''  FOREIGN KEY (user_id) REFERENCES users(id) ON DELETE CASCADE'',
     '');'']]\<close>

definition prefs_ddl :: string where
  \<open>prefs_ddl = sql_text [
    [''CREATE TABLE IF NOT EXISTS notification_preferences ('',
     ''  user_id TEXT NOT NULL,'',
     ''  conversation_id TEXT NOT NULL,'',
     ''  muted BOOLEAN NOT NULL DEFAULT 0,'',
     ''  created_at TIMESTAMP DEFAULT CURRENT_TIMESTAMP,'',
     ''  PRIMARY KEY (user_id, conversation_id),'',
     ''  FOREIGN KEY (user_id) REFERENCES users(id) ON DELETE CASCADE,'',
     ''  FOREIGN KEY (conversation_id) REFERENCES conversations(id) ON DELETE CASCADE'',
     '');'']]\<close>

definition column_migrations :: "string list" where
  \<open>column_migrations = [
    ''ALTER TABLE agents ADD COLUMN model TEXT NOT NULL DEFAULT '' @ empty_literal,
    ''ALTER TABLE agents ADD COLUMN personality TEXT NOT NULL DEFAULT '' @ empty_literal,
    ''ALTER TABLE agents ADD COLUMN specialty TEXT NOT NULL DEFAULT '' @ empty_literal,
    ''ALTER TABLE messages ADD COLUMN read_at TIMESTAMP DEFAULT NULL'',
    ''ALTER TABLE messages ADD COLUMN edited_at TIMESTAMP DEFAULT NULL'',
    ''ALTER TABLE messages ADD COLUMN is_deleted BOOLEAN DEFAULT 0'']\<close>

definition inlineMigrations :: "(int \<times> string) list" where
  "inlineMigrations = [(1, ''initial_schema''), (2, ''agent_metadata_columns''), (3, ''message_read_at''),
     (4, ''attachments_table''), (5, ''e2e_encryption_tables''), (6, ''reactions_and_tags_tables''),
     (7, ''message_edit_delete_columns''), (8, ''rate_limit_tiers_table'')]"

definition initSchemaForDriver :: "string \<Rightarrow> string" where
  "initSchemaForDriver currentDriver = (if currentDriver = DriverPostgreSQL then pgSchema else sqliteSchema)"

text \<open>\<open>INSERT OR IGNORE INTO schema_migrations\<close>; \<open>ON CONFLICT DO NOTHING\<close> is the same on PostgreSQL. A statement
  whose error the code drops leaves the catalogue as it was.\<close>

definition count_sql :: string where "count_sql = ''SELECT COUNT(*) FROM schema_migrations''"
definition insert_sql :: string where "insert_sql = ''INSERT INTO schema_migrations''"

definition insert_or_ignore :: "sql_io \<Rightarrow> int \<times> string \<Rightarrow> catalog \<Rightarrow> catalog" where
  "insert_or_ignore io r d =
     (case schema_migrations d of
        Some rs \<Rightarrow> if io (insert_sql @ decimal (fst r)) = None \<and> fst r \<notin> fst ` set rs
                   then d\<lparr>schema_migrations := Some (rs @ [r])\<rparr> else d
      | None \<Rightarrow> d)"

definition record_inline :: "sql_io \<Rightarrow> catalog \<Rightarrow> catalog" where
  "record_inline io d =
     (let migrationCount = (if io count_sql \<noteq> None then 0 else case schema_migrations d of Some rs \<Rightarrow> length rs | None \<Rightarrow> 0) in
      if migrationCount = 0 then fold (insert_or_ignore io) inlineMigrations d else d)"

definition exec_ignoring :: "string \<Rightarrow> sql_io \<Rightarrow> string \<Rightarrow> catalog \<Rightarrow> catalog" where
  "exec_ignoring currentDriver io s d = snd (exec_driver currentDriver io s d)"

fun exec_texts :: "string \<Rightarrow> sql_io \<Rightarrow> string list \<Rightarrow> catalog \<Rightarrow> string option \<times> catalog" where
  "exec_texts currentDriver io [] d = (None, d)"
| "exec_texts currentDriver io (s # ss) d =
     (case exec_driver currentDriver io s d of
        (Some err, d1) \<Rightarrow> (Some err, d1)
      | (None, d1) \<Rightarrow> exec_texts currentDriver io ss d1)"

text \<open>The two \<open>CREATE INDEX\<close> calls between the tables do not change the catalogue and their errors are dropped.
  The loading of the rate-limit tiers, the last step, is \<open>loadTiersFromDB\<close> of the theory Tier Handlers.\<close>

definition initSchema :: "sql_io \<Rightarrow> string \<Rightarrow> catalog \<Rightarrow> string option \<times> catalog" where
  "initSchema io currentDriver d0 =
     (case exec_texts currentDriver io [initSchemaForDriver currentDriver, migrations_ddl] d0 of
        (Some err, d1) \<Rightarrow> (Some err, d1)
      | (None, d1) \<Rightarrow>
          (let d2 = fold (exec_ignoring currentDriver io) column_migrations (record_inline io d1)
           in exec_texts currentDriver io [reactions_ddl, tags_ddl, tiers_ddl, prefs_ddl] d2))"

subsection \<open>Reading a text paragraph by paragraph\<close>

text \<open>Splitting a text at its semicolons and reading the words of the pieces is the same as reading the words of
  its lines, the semicolon as a word, and cutting the list of words there; paragraphs that end in a semicolon can
  be read one by one. The right-hand sides evaluate fast.\<close>

fun line_words :: "string \<Rightarrow> string \<Rightarrow> string list" where
  "line_words w [] = flush_word w"
| "line_words w (c # cs) =
     (if is_space c then flush_word w @ line_words [] cs
      else if c = CHR ''('' \<or> c = CHR '')'' \<or> c = CHR '','' \<or> c = CHR '';'' then flush_word w @ [c] # line_words [] cs
      else line_words (c # w) cs)"

fun cut_words :: "string list \<Rightarrow> string list list" where
  "cut_words [] = [[]]"
| "cut_words (t # ts) =
     (if t = '';'' then [] # cut_words ts else (case cut_words ts of [] \<Rightarrow> [[t]] | g # gs \<Rightarrow> (t # g) # gs))"

lemma cut_words_nonempty [simp]: "cut_words ts \<noteq> []"
  by (induction ts) (auto split: list.splits)

lemma cut_words_flush:
  "CHR '';'' \<notin> set w \<Longrightarrow>
   cut_words (flush_word w @ ts) = (flush_word w @ hd (cut_words ts)) # tl (cut_words ts)"
  by (auto simp: flush_word_def split: list.splits)

lemma split_on_flush:
  "split_on c (x # xs) = (if x = c then [] # split_on c xs else (x # hd (split_on c xs)) # tl (split_on c xs))"
  by (auto split: list.splits)

lemma words_of_pieces:
  assumes "CHR ''-'' \<notin> set s" and "CHR '';'' \<notin> set w"
  shows "sql_words w (hd (split_on (CHR '';'') s)) # map (sql_words []) (tl (split_on (CHR '';'') s)) =
         cut_words (line_words w s)"
  using assms
proof (induction s arbitrary: w)
  case Nil
  then show ?case using cut_words_flush [of w "[]"] by simp
next
  case (Cons c s)
  have ih: "sql_words v (hd (split_on (CHR '';'') s)) # map (sql_words []) (tl (split_on (CHR '';'') s)) =
      cut_words (line_words v s)" if "CHR '';'' \<notin> set v" for v
    using Cons that by simp
  note cut = cut_words_flush [OF Cons.prems(2)]
  note start = ih [of "[]", simplified, symmetric]
  have no_dash: "c \<noteq> CHR ''-''" using Cons.prems(1) by auto
  consider "c = CHR '';''" | "c \<noteq> CHR '';''" "is_space c"
    | "c \<noteq> CHR '';''" "\<not> is_space c" "c = CHR ''('' \<or> c = CHR '')'' \<or> c = CHR '',''"
    | "c \<noteq> CHR '';''" "\<not> is_space c" "\<not> (c = CHR ''('' \<or> c = CHR '')'' \<or> c = CHR '','')"
    by blast
  then show ?case
  proof cases
    case 1
    have "split_on (CHR '';'') s = hd (split_on (CHR '';'') s) # tl (split_on (CHR '';'') s)" by simp
    then have "map (sql_words []) (split_on (CHR '';'') s) = cut_words (line_words [] s)"
      using start by (metis list.simps(9))
    with 1 show ?thesis by (simp add: cut is_space_def)
  next
    case 2
    then show ?thesis by (simp add: split_on_flush cut start del: split_on.simps)
  next
    case 3
    then have "[c] \<noteq> '';''" by auto
    with 3 show ?thesis by (auto simp add: split_on_flush cut start simp del: split_on.simps)
  next
    case 4
    with no_dash Cons.prems(2) show ?thesis
      using ih [of "c # w"] by (simp add: split_on_flush del: split_on.simps)
  qed
qed

lemma line_words_newline: "line_words w (a @ CHR 0x0A # s) = line_words w a @ line_words [] s"
  by (induction a arbitrary: w) (auto simp: is_space_def)

lemma line_words_lines: "line_words [] (text_lines ls @ s) = concat (map (line_words []) ls) @ line_words [] s"
  by (induction ls) (auto simp: text_lines_def flush_word_def line_words_newline)

lemma line_words_text: "line_words [] (sql_text ps) = concat (map (\<lambda>p. concat (map (line_words []) p)) ps)"
  by (induction ps) (auto simp: sql_text_def is_space_def flush_word_def line_words_lines)

lemma cut_words_sep: "cut_words (xs @ '';'' # ys) = cut_words xs @ cut_words ys"
proof (induction xs)
  case (Cons x xs)
  then show ?case by (cases "cut_words xs") auto
qed simp

definition paragraph_words :: "string list \<Rightarrow> string list" where
  "paragraph_words p = concat (map (line_words []) p)"

definition paragraph_pieces :: "string list \<Rightarrow> string list list" where
  "paragraph_pieces p = butlast (cut_words (paragraph_words p))"

definition paragraph_statements :: "string list \<Rightarrow> sql list" where
  "paragraph_statements p = map parse_words (paragraph_pieces p)"

definition closed_paragraph :: "string list \<Rightarrow> bool" where
  "closed_paragraph p \<longleftrightarrow> paragraph_words p \<noteq> [] \<and> last (paragraph_words p) = '';'' \<and> list_all (\<lambda>l. CHR ''-'' \<notin> set l) p"

lemma cut_closed:
  assumes "closed_paragraph p"
  shows "cut_words (paragraph_words p @ ws) = paragraph_pieces p @ cut_words ws"
proof -
  from assms obtain xs where "paragraph_words p = xs @ ['';'']"
    by (metis closed_paragraph_def append_butlast_last_id)
  then show ?thesis using cut_words_sep [of xs "[]"] cut_words_sep [of xs ws]
    by (simp add: paragraph_pieces_def)
qed

lemma text_pieces:
  assumes "list_all closed_paragraph ps"
  shows "map (sql_words []) (split_on (CHR '';'') (sql_text ps)) = concat (map paragraph_pieces ps) @ [[]]"
proof -
  have "CHR ''-'' \<notin> set (sql_text ps)"
    using assms by (auto simp: sql_text_def text_lines_def list_all_iff closed_paragraph_def)
  from words_of_pieces [OF this, of "[]"]
  have "map (sql_words []) (split_on (CHR '';'') (sql_text ps)) = cut_words (line_words [] (sql_text ps))"
    by (metis list.simps(9) list.exhaust_sel split_on_nonempty empty_iff list.set(1))
  also have "\<dots> = concat (map paragraph_pieces ps) @ [[]]"
    using assms by (induction ps) (simp_all add: line_words_text cut_closed flip: paragraph_words_def)
  finally show ?thesis .
qed

lemma parse_pieces: "map parse_sql ss = map parse_words (map (sql_words []) ss)"
  by (simp add: parse_sql_def)

lemma parse_text:
  assumes "list_all closed_paragraph ps"
  shows "map parse_sql (split_on (CHR '';'') (sql_text ps)) = concat (map paragraph_statements ps) @ [EMPTY_STATEMENT]"
  unfolding parse_pieces text_pieces [OF assms]
  by (simp add: map_concat comp_def paragraph_statements_def [abs_def] parse_words_def [of "[]"])

subsection \<open>The statements of the texts\<close>

definition server_tables :: "(string \<times> string list) list" where
  "server_tables = [
    (''users'', [''id'', ''username'', ''password_hash'', ''created_at'']),
    (''agents'', [''id'', ''name'', ''model'', ''personality'', ''specialty'', ''status'', ''created_at'']),
    (''conversations'', [''id'', ''user_id'', ''agent_id'', ''created_at'']),
    (''device_tokens'', [''user_id'', ''device_token'', ''platform'', ''created_at'', ''updated_at'']),
    (''messages'', [''id'', ''conversation_id'', ''sender_type'', ''sender_id'', ''content'', ''metadata'',
       ''created_at'', ''edited_at'', ''is_deleted'']),
    (''attachments'', [''id'', ''message_id'', ''user_id'', ''filename'', ''content_type'', ''size'', ''sha256'',
       ''storage_path'', ''created_at'']),
    (''key_bundles'', [''id'', ''owner_id'', ''owner_type'', ''key_type'', ''public_key'', ''signature'', ''key_id'',
       ''created_at'']),
    (''encrypted_messages'', [''id'', ''conversation_id'', ''sender_id'', ''sender_type'', ''ciphertext'', ''iv'',
       ''recipient_key_id'', ''sender_key_id'', ''algorithm'', ''created_at'']),
    (''notification_preferences'', [''user_id'', ''conversation_id'', ''muted'', ''created_at'']),
    (''offline_queue'', [''id'', ''recipient'', ''data'', ''queued_at'', ''sent_count''])]"

definition later_tables :: "(string \<times> string list) list" where
  "later_tables = [
    (''reactions'', [''id'', ''message_id'', ''user_id'', ''emoji'', ''created_at'']),
    (''conversation_tags'', [''id'', ''conversation_id'', ''tag'', ''created_at'']),
    (''user_rate_limit_tiers'', [''user_id'', ''tier_name'', ''updated_at'']),
    (''notification_preferences'', [''user_id'', ''conversation_id'', ''muted'', ''created_at''])]"

definition create_tables :: "(string \<times> string list) list \<Rightarrow> sql list" where
  "create_tables ts = map (\<lambda>(t, cs). CREATE_TABLE t cs) ts"

lemma parse_sqliteSchema [parsed]:
  "map parse_sql (split_on (CHR '';'') sqliteSchema) =
   create_tables server_tables @ [CREATE_INDEX, EMPTY_STATEMENT]"
  unfolding sqliteSchema_def by (subst parse_text) code_simp+

lemma parse_pgSchema [parsed]:
  "map parse_sql (split_on (CHR '';'') pgSchema) =
   create_tables server_tables @ CREATE_INDEX # create_tables later_tables @
   [CREATE_TABLE ''schema_migrations'' [''version'', ''name'', ''applied_at''], EMPTY_STATEMENT]"
  unfolding pgSchema_def by (subst parse_text) code_simp+

lemma parse_ddl [parsed]:
  "map parse_sql (split_on (CHR '';'') migrations_ddl) =
     [CREATE_TABLE ''schema_migrations'' [''version'', ''name'', ''applied_at''], EMPTY_STATEMENT]"
  "map parse_sql (split_on (CHR '';'') reactions_ddl) = create_tables (take 1 later_tables) @ [EMPTY_STATEMENT]"
  "map parse_sql (split_on (CHR '';'') tags_ddl) = create_tables (take 1 (drop 1 later_tables)) @ [EMPTY_STATEMENT]"
  "map parse_sql (split_on (CHR '';'') tiers_ddl) = create_tables (take 1 (drop 2 later_tables)) @ [EMPTY_STATEMENT]"
  "map parse_sql (split_on (CHR '';'') prefs_ddl) = create_tables (take 1 (drop 3 later_tables)) @ [EMPTY_STATEMENT]"
  unfolding migrations_ddl_def reactions_ddl_def tags_ddl_def tiers_ddl_def prefs_ddl_def
  by (subst parse_text; code_simp)+

lemma parse_column_migrations:
  "map (\<lambda>s. map parse_sql (split_on (CHR '';'') s)) column_migrations =
   map (\<lambda>q. [q]) [ADD_COLUMN ''agents'' ''model'', ADD_COLUMN ''agents'' ''personality'', ADD_COLUMN ''agents'' ''specialty'',
     ADD_COLUMN ''messages'' ''read_at'', ADD_COLUMN ''messages'' ''edited_at'', ADD_COLUMN ''messages'' ''is_deleted'']"
  by code_simp

subsection \<open>What the statements do to the catalogue\<close>

definition created :: "(string \<times> string list) list \<Rightarrow> catalog \<Rightarrow> catalog" where
  "created ts d =
     d\<lparr>tables := fold (\<lambda>(t, cs) T. if gm_get T t = None then gm_set t cs T else T) ts (tables d)\<rparr>"

definition add_col :: "string \<Rightarrow> string list \<Rightarrow> string list" where
  "add_col c cs = (if c \<in> set cs then cs else cs @ [c])"

lemma created_simps [simp]:
  "created [] d = d"
  "schema_migrations (created ts d) = schema_migrations d"
  "created ts (d\<lparr>schema_migrations := r\<rparr>) = (created ts d)\<lparr>schema_migrations := r\<rparr>"
  by (simp_all add: created_def)

lemma get_created [simp]:
  "gm_get (tables (created ts d)) t =
   (case gm_get (tables d) t of Some cs \<Rightarrow> Some cs | None \<Rightarrow> map_of ts t)"
proof -
  have "gm_get (fold (\<lambda>(t, cs) T. if gm_get T t = None then gm_set t cs T else T) ts T) t =
      (case gm_get T t of Some cs \<Rightarrow> Some cs | None \<Rightarrow> map_of ts t)" for T :: "(string, string list) gomap"
    by (induction ts arbitrary: T) (auto split: option.splits if_splits)
  then show ?thesis by (simp add: created_def)
qed

lemma exec_creates:
  "''schema_migrations'' \<notin> fst ` set ts \<Longrightarrow> exec_all (create_tables ts @ qs) d = exec_all qs (created ts d)"
proof (induction ts arbitrary: d)
  case (Cons p ts)
  obtain t cs where "p = (t, cs)" by (cases p)
  with Cons show ?case
    by (auto simp: create_tables_def created_def image_iff)
qed (simp add: create_tables_def)

lemma exec_add_column:
  "gm_get (tables (snd (exec_all [ADD_COLUMN t c] d))) u =
     (if u = t then map_option (add_col c) (gm_get (tables d) t) else gm_get (tables d) u)"
  "schema_migrations (snd (exec_all [ADD_COLUMN t c] d)) = schema_migrations d"
  by (auto simp: add_col_def gomap_simps split: option.splits)

text \<open>What runs alike on both drivers: a text without a statement that PostgreSQL refuses.\<close>

definition pg_accepts :: "string \<Rightarrow> bool" where
  "pg_accepts s \<longleftrightarrow> list_all (\<lambda>ws. \<not> pg_refuses ws) (map (sql_words []) (split_on (CHR '';'') s))"

lemma pg_accepted [parsed]:
  "pg_accepts pgSchema" "pg_accepts migrations_ddl" "pg_accepts reactions_ddl" "pg_accepts tags_ddl" "pg_accepts tiers_ddl"
  unfolding pg_accepts_def pgSchema_def migrations_ddl_def reactions_ddl_def tags_ddl_def tiers_ddl_def
  by (subst text_pieces; code_simp)+

lemma pg_column_migrations: "map pg_accepts column_migrations = [True, True, True, True, True, False]"
  by code_simp

lemma pg_exec_accepted:
  "list_all (\<lambda>ws. \<not> pg_refuses ws) wss \<Longrightarrow> pg_exec_all wss d = exec_all (map parse_words wss) d"
  by (induction wss arbitrary: d) (auto simp: pg_exec_def split: sum.split)

lemma exec_driver_ok:
  assumes "exec_all (map parse_sql (split_on (CHR '';'') s)) d = (None, d')" and "dr = DriverPostgreSQL \<Longrightarrow> pg_accepts s"
  shows "exec_driver dr no_faults s d = (None, d')"
proof (cases "dr = DriverPostgreSQL")
  case True
  with assms(2) have "pg_exec_all (map (sql_words []) (split_on (CHR '';'') s)) d = (None, d')"
    by (simp only: pg_accepts_def pg_exec_accepted assms(1) [unfolded parse_pieces])
  with True show ?thesis by (simp add: exec_driver_def pg_exec_text_def no_faults_def)
qed (use assms(1) in \<open>simp add: exec_driver_def exec_text_def no_faults_def\<close>)

lemma exec_ignoring_single:
  assumes "map parse_sql (split_on (CHR '';'') s) = [q]"
  shows "exec_ignoring dr no_faults s d = (if dr = DriverPostgreSQL \<and> \<not> pg_accepts s \<and> \<not> skipped q d then d else snd (exec_all [q] d))"
proof -
  obtain x where x: "split_on (CHR '';'') s = [x]" "parse_words (sql_words [] x) = q"
    using assms by (auto simp: parse_sql_def)
  have r: "pg_refuses (sql_words [] x) \<longleftrightarrow> \<not> pg_accepts s" by (simp add: pg_accepts_def x(1))
  show ?thesis
    by (auto simp: exec_ignoring_def exec_driver_def exec_text_def pg_exec_text_def no_faults_def x parse_sql_def
        pg_exec_def r split: sum.splits)
qed

text \<open>The columns that the inline migrations add to \<open>messages\<close>.\<close>

definition message_columns :: "string \<Rightarrow> string list" where
  "message_columns dr = [''read_at'', ''edited_at''] @ (if dr = DriverPostgreSQL then [] else [''is_deleted''])"

lemma exec_column_migrations:
  "gm_get (tables (fold (exec_ignoring dr no_faults) column_migrations d)) u =
     (if u = ''agents'' then map_option (fold add_col [''model'', ''personality'', ''specialty'']) (gm_get (tables d) u)
      else if u = ''messages'' then map_option (fold add_col (message_columns dr)) (gm_get (tables d) u)
      else gm_get (tables d) u)" (is ?tables)
  "schema_migrations (fold (exec_ignoring dr no_faults) column_migrations d) = schema_migrations d" (is ?rows)
proof -
  let ?run = "\<lambda>q d. snd (exec_all [q] d)"
  let ?last = "\<lambda>d. if dr = DriverPostgreSQL then d else ?run (ADD_COLUMN ''messages'' ''is_deleted'') d"
  obtain s1 s2 s3 s4 s5 s6 where c: "column_migrations = [s1, s2, s3, s4, s5, s6]" by (auto simp: column_migrations_def)
  have single: "exec_ignoring dr no_faults s1 = ?run (ADD_COLUMN ''agents'' ''model'')"
    "exec_ignoring dr no_faults s2 = ?run (ADD_COLUMN ''agents'' ''personality'')"
    "exec_ignoring dr no_faults s3 = ?run (ADD_COLUMN ''agents'' ''specialty'')"
    "exec_ignoring dr no_faults s4 = ?run (ADD_COLUMN ''messages'' ''read_at'')"
    "exec_ignoring dr no_faults s5 = ?run (ADD_COLUMN ''messages'' ''edited_at'')"
    "exec_ignoring dr no_faults s6 = ?last"
    using parse_column_migrations pg_column_migrations unfolding c
    by (simp_all add: fun_eq_iff exec_ignoring_single skipped_def del: exec_all.simps)
  have steps: "fold (exec_ignoring dr no_faults) column_migrations d =
      ?last (?run (ADD_COLUMN ''messages'' ''edited_at'') (?run (ADD_COLUMN ''messages'' ''read_at'')
      (?run (ADD_COLUMN ''agents'' ''specialty'') (?run (ADD_COLUMN ''agents'' ''personality'')
      (?run (ADD_COLUMN ''agents'' ''model'') d)))))"
    by (simp only: c fold_simps single)
  show ?tables ?rows
    unfolding steps
    by (cases "dr = DriverPostgreSQL"; simp only: exec_add_column message_columns_def simp_thms if_True if_False;
        auto simp: option.map_comp comp_def)+
qed

lemma record_inline_no_faults:
  "schema_migrations d = Some rs \<Longrightarrow>
   record_inline no_faults d = d\<lparr>schema_migrations := Some (if rs = [] then inlineMigrations else rs)\<rparr>"
  by (auto simp: record_inline_def no_faults_def insert_or_ignore_def inlineMigrations_def)

text \<open>The columns of a table after \<open>initSchema\<close>.\<close>

definition init_columns :: "string \<Rightarrow> catalog \<Rightarrow> string \<Rightarrow> string list option" where
  "init_columns dr d t =
     (let base = (case gm_get (tables d) t of Some cs \<Rightarrow> Some cs | None \<Rightarrow> map_of (server_tables @ later_tables) t) in
      if t = ''agents'' then map_option (fold add_col [''model'', ''personality'', ''specialty'']) base
      else if t = ''messages'' then map_option (fold add_col (message_columns dr)) base
      else base)"

lemma table_names:
  "''schema_migrations'' \<notin> fst ` set server_tables" "''schema_migrations'' \<notin> fst ` set later_tables"
  by code_simp+

lemma later_table_names: "map_of later_tables ''agents'' = None" "map_of later_tables ''messages'' = None"
  by code_simp+

lemma created_append: "created (ts @ us) d = created us (created ts d)"
  by (simp add: created_def)

lemma later_tables_pieces:
  "later_tables = take 1 later_tables @ take 1 (drop 1 later_tables) @ take 1 (drop 2 later_tables) @
     take 1 (drop 3 later_tables)"
  by (simp add: later_tables_def)

lemma created_present: "\<forall>t \<in> fst ` set ts. gm_get (tables d) t \<noteq> None \<Longrightarrow> created ts d = d"
proof -
  have "\<forall>t \<in> fst ` set ts. gm_get T t \<noteq> None \<Longrightarrow>
      fold (\<lambda>(t, cs) T. if gm_get T t = None then gm_set t cs T else T) ts T = T" for T :: "(string, string list) gomap"
    by (induction ts) auto
  then show "\<forall>t \<in> fst ` set ts. gm_get (tables d) t \<noteq> None \<Longrightarrow> created ts d = d" by (simp add: created_def)
qed

text \<open>PostgreSQL would refuse \<open>prefs_ddl\<close>, but its own schema has created the table before.\<close>

lemma exec_prefs_pg:
  assumes "gm_get (tables d) ''notification_preferences'' \<noteq> None"
  shows "exec_driver DriverPostgreSQL no_faults prefs_ddl d = (None, d)"
proof -
  have "\<exists>A. map (sql_words []) (split_on (CHR '';'') prefs_ddl) = A @ [[]]"
    unfolding prefs_ddl_def by (rule exI, rule text_pieces) code_simp
  then obtain A where A: "map (sql_words []) (split_on (CHR '';'') prefs_ddl) = A @ [[]]" by blast
  then have "map parse_words (A @ [[]]) = create_tables (take 1 (drop 3 later_tables)) @ [EMPTY_STATEMENT]"
    using parse_ddl(5) by (simp only: parse_pieces)
  then obtain ws where ws: "map (sql_words []) (split_on (CHR '';'') prefs_ddl) = [ws, []]"
    "parse_words ws = CREATE_TABLE ''notification_preferences'' [''user_id'', ''conversation_id'', ''muted'', ''created_at'']"
    using A by (auto simp: later_tables_def create_tables_def)
  have "parse_words [] = EMPTY_STATEMENT" "\<not> pg_refuses []" by code_simp+
  with assms show ?thesis
    by (auto simp add: exec_driver_def pg_exec_text_def no_faults_def ws pg_exec_def skipped_def)
qed

lemma exec_later_tables:
  assumes "dr = DriverPostgreSQL \<Longrightarrow> gm_get (tables d) ''notification_preferences'' \<noteq> None"
  shows "exec_texts dr no_faults [reactions_ddl, tags_ddl, tiers_ddl, prefs_ddl] d = (None, created later_tables d)"
proof -
  have names: "''schema_migrations'' \<notin> fst ` set (take 1 (drop k later_tables))" for k
    using table_names(2) by (auto dest!: in_set_takeD in_set_dropD)
  note alike = exec_driver_ok [where dr = dr]
  let ?d1 = "created (take 1 later_tables) d" let ?d2 = "created (take 1 (drop 1 later_tables)) ?d1"
  let ?d3 = "created (take 1 (drop 2 later_tables)) ?d2" let ?d4 = "created (take 1 (drop 3 later_tables)) ?d3"
  have 1: "exec_driver dr no_faults reactions_ddl d = (None, ?d1)"
    by (rule alike) (simp_all only: parsed exec_creates names [of 0, simplified drop_0] exec_all.simps exec_sql.simps sum.case simp_thms if_True)
  have 2: "exec_driver dr no_faults tags_ddl ?d1 = (None, ?d2)"
    by (rule alike) (simp_all only: parsed exec_creates names exec_all.simps exec_sql.simps sum.case simp_thms)
  have 3: "exec_driver dr no_faults tiers_ddl ?d2 = (None, ?d3)"
    by (rule alike) (simp_all only: parsed exec_creates names exec_all.simps exec_sql.simps sum.case simp_thms)
  have 4: "exec_driver dr no_faults prefs_ddl ?d3 = (None, ?d4)"
  proof (cases "dr = DriverPostgreSQL")
    case True
    then have there: "gm_get (tables ?d3) ''notification_preferences'' \<noteq> None" using assms by (auto split: option.split)
    moreover have "fst ` set (take 1 (drop 3 later_tables)) = {''notification_preferences''}" by (simp add: later_tables_def)
    ultimately have "?d4 = ?d3" by (intro created_present) simp
    with exec_prefs_pg [OF there] True show ?thesis by simp
  next
    case False
    then show ?thesis
      by (intro alike) (simp_all only: parsed exec_creates names exec_all.simps exec_sql.simps sum.case simp_thms)
  qed
  have "created later_tables d = ?d4" by (subst later_tables_pieces) (simp only: created_append)
  then show ?thesis by (simp only: exec_texts.simps 1 2 3 4 prod.case option.case)
qed

definition rows_of :: "catalog \<Rightarrow> (int \<times> string) list" where
  "rows_of d = (case schema_migrations d of None \<Rightarrow> [] | Some rs \<Rightarrow> rs)"

lemma exec_first_texts:
  "exec_texts dr no_faults [initSchemaForDriver dr, migrations_ddl] d =
     (None, (created (if dr = DriverPostgreSQL then server_tables @ later_tables else server_tables) d)
              \<lparr>schema_migrations := Some (rows_of d)\<rparr>)"
proof -
  let ?ts = "if dr = DriverPostgreSQL then server_tables @ later_tables else server_tables"
  define d1 where "d1 = (if dr = DriverPostgreSQL then (created ?ts d)\<lparr>schema_migrations := Some (rows_of d)\<rparr> else created ?ts d)"
  have "exec_driver dr no_faults (initSchemaForDriver dr) d = (None, d1)"
  proof (rule exec_driver_ok)
    show "exec_all (map parse_sql (split_on (CHR '';'') (initSchemaForDriver dr))) d = (None, d1)"
      by (cases "schema_migrations d")
        (simp_all add: initSchemaForDriver_def parsed exec_creates table_names created_append rows_of_def d1_def)
  qed (simp add: initSchemaForDriver_def parsed)
  moreover have "exec_driver dr no_faults migrations_ddl d1 = (None, (created ?ts d)\<lparr>schema_migrations := Some (rows_of d)\<rparr>)"
  proof (rule exec_driver_ok)
    show "exec_all (map parse_sql (split_on (CHR '';'') migrations_ddl)) d1 = (None, (created ?ts d)\<lparr>schema_migrations := Some (rows_of d)\<rparr>)"
      by (cases "schema_migrations d") (simp_all add: parsed rows_of_def d1_def)
  qed (simp add: parsed)
  ultimately show ?thesis by simp
qed

lemma initSchema_no_faults:
  obtains d' where "initSchema no_faults dr d = (None, d')"
    and "\<And>t. gm_get (tables d') t = init_columns dr d t"
    and "schema_migrations d' = Some (if rows_of d = [] then inlineMigrations else rows_of d)"
proof -
  let ?ts = "if dr = DriverPostgreSQL then server_tables @ later_tables else server_tables"
  let ?rs = "if rows_of d = [] then inlineMigrations else rows_of d"
  define d2 where "d2 = (created ?ts d)\<lparr>schema_migrations := Some ?rs\<rparr>"
  define d3 where "d3 = fold (exec_ignoring dr no_faults) column_migrations d2"
  have "map_of server_tables ''notification_preferences'' \<noteq> None" by code_simp
  then have "gm_get (tables d3) ''notification_preferences'' \<noteq> None"
    by (auto simp: d3_def exec_column_migrations d2_def map_add_def split: option.split)
  then have later: "exec_texts dr no_faults [reactions_ddl, tags_ddl, tiers_ddl, prefs_ddl] d3 = (None, created later_tables d3)"
    by (rule exec_later_tables)
  have "record_inline no_faults ((created ?ts d)\<lparr>schema_migrations := Some (rows_of d)\<rparr>) = d2"
    by (simp add: record_inline_no_faults d2_def)
  with later have "initSchema no_faults dr d = (None, created later_tables d3)"
    by (simp only: initSchema_def exec_first_texts prod.case option.case Let_def d3_def)
  moreover have "gm_get (tables (created later_tables d3)) t = init_columns dr d t" for t
  proof (cases "t = ''agents'' \<or> t = ''messages''")
    case True
    then show ?thesis
      by (cases "gm_get (tables d) t"; cases "map_of server_tables t")
        (auto simp add: d3_def exec_column_migrations d2_def init_columns_def Let_def later_table_names map_add_def)
  next
    case False
    then show ?thesis
      by (cases "gm_get (tables d) t"; cases "map_of server_tables t"; cases "map_of later_tables t")
        (simp_all add: d3_def exec_column_migrations d2_def init_columns_def Let_def map_add_def)
  qed
  moreover have "schema_migrations (created later_tables d3) = Some ?rs"
    by (simp add: d3_def exec_column_migrations d2_def)
  ultimately show ?thesis using that by blast
qed

text \<open>A database of the server, of this or an earlier version: where one of its tables exists, it has at least the
  columns of the server's definition that no inline migration adds.\<close>

definition migrated_columns :: "string \<Rightarrow> string list" where
  "migrated_columns t =
     (if t = ''agents'' then [''model'', ''personality'', ''specialty'']
      else if t = ''messages'' then [''read_at'', ''edited_at'', ''is_deleted''] else [])"

definition own_database :: "catalog \<Rightarrow> bool" where
  "own_database d \<longleftrightarrow> list_all (\<lambda>(t, cs). case gm_get (tables d) t of
       None \<Rightarrow> True
     | Some cs' \<Rightarrow> set cs - set (migrated_columns t) \<subseteq> set cs') (server_tables @ later_tables)"

lemma message_columns_alike: "''is_deleted'' \<in> set cs \<Longrightarrow> fold add_col (message_columns dr) cs = fold add_col [''read_at'', ''edited_at''] cs"
  by (auto simp: message_columns_def add_col_def)

lemma is_deleted_added:
  "''is_deleted'' \<in> set (fold add_col (message_columns DriverSQLite) cs)"
  "''is_deleted'' \<in> set (fold add_col (message_columns DriverPostgreSQL) cs) \<longleftrightarrow> ''is_deleted'' \<in> set cs"
  by (auto simp: message_columns_def add_col_def DriverSQLite_def DriverPostgreSQL_def)

lemma init_columns_alike:
  "t \<noteq> ''messages'' \<Longrightarrow> init_columns dr d t = init_columns dr' d t"
  by (simp add: init_columns_def Let_def)

text \<open>C24: a start of the server on one of its own databases (new, or left by this or an earlier version) succeeds
  on either driver when the database answers, and leaves the same record of migrations, the same tables and the
  same columns, with exactly one exception: a database whose table \<open>messages\<close> exists without the column
  \<open>is_deleted\<close> gets the column on SQLite and never on PostgreSQL, which refuses the default 0 for a \<open>BOOLEAN\<close>
  column while the server ignores the error. A new database is the same on both.\<close>

theorem initSchema_same_on_both_drivers:
  assumes "own_database d"
  shows "\<exists>s p. initSchema no_faults DriverSQLite d = (None, s) \<and> initSchema no_faults DriverPostgreSQL d = (None, p) \<and>
     schema_migrations s = schema_migrations p \<and>
     (\<forall>t. t \<noteq> ''messages'' \<longrightarrow> gm_get (tables s) t = gm_get (tables p) t) \<and>
     (gm_get (tables s) ''messages'' = gm_get (tables p) ''messages'' \<longleftrightarrow>
        (case gm_get (tables d) ''messages'' of None \<Rightarrow> True | Some cs \<Rightarrow> ''is_deleted'' \<in> set cs)) \<and>
     ''is_deleted'' \<in> set (the (gm_get (tables s) ''messages''))"
proof -
  let ?rows = "Some (if rows_of d = [] then inlineMigrations else rows_of d)"
  obtain s where s: "initSchema no_faults DriverSQLite d = (None, s)" "\<And>t. gm_get (tables s) t = init_columns DriverSQLite d t"
    "schema_migrations s = ?rows"
    using initSchema_no_faults [of DriverSQLite d] by blast
  obtain p where p: "initSchema no_faults DriverPostgreSQL d = (None, p)" "\<And>t. gm_get (tables p) t = init_columns DriverPostgreSQL d t"
    "schema_migrations p = ?rows"
    using initSchema_no_faults [of DriverPostgreSQL d] by blast
  define cs where "cs = (case gm_get (tables d) ''messages'' of None \<Rightarrow> the (map_of server_tables ''messages'') | Some cs \<Rightarrow> cs)"
  have fresh: "map_of server_tables ''messages'' \<noteq> None" "''is_deleted'' \<in> set (the (map_of server_tables ''messages''))"
    by code_simp+
  then have m: "init_columns dr d ''messages'' = Some (fold add_col (message_columns dr) cs)" for dr
    by (auto simp: init_columns_def Let_def cs_def map_add_def later_table_names split: option.split)
  have alike: "init_columns DriverSQLite d ''messages'' = init_columns DriverPostgreSQL d ''messages'' \<longleftrightarrow> ''is_deleted'' \<in> set cs"
    using is_deleted_added [of cs] message_columns_alike [of cs] by (auto simp: m)
  have "''is_deleted'' \<in> set cs \<longleftrightarrow> (case gm_get (tables d) ''messages'' of None \<Rightarrow> True | Some cs \<Rightarrow> ''is_deleted'' \<in> set cs)"
    using fresh(2) by (simp add: cs_def split: option.split)
  with alike have "gm_get (tables s) ''messages'' = gm_get (tables p) ''messages'' \<longleftrightarrow>
      (case gm_get (tables d) ''messages'' of None \<Rightarrow> True | Some cs \<Rightarrow> ''is_deleted'' \<in> set cs)"
    by (simp only: s(2) p(2))
  moreover have "''is_deleted'' \<in> set (the (gm_get (tables s) ''messages''))"
    using is_deleted_added(1) [of cs] by (simp add: s(2) m)
  moreover have "\<forall>t. t \<noteq> ''messages'' \<longrightarrow> gm_get (tables s) t = gm_get (tables p) t"
    by (metis s(2) p(2) init_columns_alike)
  ultimately show ?thesis using s(1) p(1) s(3) [folded p(3)] by blast
qed

text \<open>A new database.\<close>

theorem initSchema_same_on_both_drivers_witness:
  "\<exists>s p. initSchema no_faults DriverSQLite empty_catalog = (None, s) \<and>
     initSchema no_faults DriverPostgreSQL empty_catalog = (None, p) \<and>
     (\<forall>t. gm_get (tables s) t = gm_get (tables p) t)"
proof -
  have none: "gm_get (tables empty_catalog) t = None" for t by (simp add: empty_catalog_def)
  then have "own_database empty_catalog" by (simp add: own_database_def list_all_iff)
  from initSchema_same_on_both_drivers [OF this] none show ?thesis by simp metis
qed

end
