(* ===== verification/Migrations.thy ===== *)
theory Migrations
  imports Schema Conversation_Handlers
begin

text \<open>
  The migration command \<open>cmd/am-migrate/main.go\<close>: the eight migrations with their texts, \<open>splitStatements\<close>,
  \<open>migrateUp\<close>, \<open>migrateDown\<close>, \<open>showStatus\<close> and \<open>createMigrationStub\<close>, on the catalogue of the theory Schema.
  What the command logs is left out; a returned error is a value of \<open>mig_error\<close>. The invariant of the last part says
  that the record of migrations is a prefix of the list and that the catalogue has what the recorded migrations
  make; every sequence of up, down and server starts keeps it, and a migration to the latest version then succeeds.
\<close>

subsection \<open>The migrations\<close>

record Migration =
  Version :: int
  Name :: string
  UpSQL :: string
  DownSQL :: string

definition initial_schema :: Migration where
  \<open>initial_schema = \<lparr>Version = 1, Name = ''initial_schema'',
    UpSQL = sql_text [
      [''CREATE TABLE IF NOT EXISTS agents ('',
       ''  id TEXT PRIMARY KEY,'',
       ''  name TEXT NOT NULL,'',
       ''  model TEXT NOT NULL DEFAULT '' @ empty_literal @ '','',
       ''  personality TEXT NOT NULL DEFAULT '' @ empty_literal @ '','',
       ''  specialty TEXT NOT NULL DEFAULT '' @ empty_literal @ '','',
       ''  created_at TIMESTAMP DEFAULT CURRENT_TIMESTAMP'',
       '');''],
      [''CREATE TABLE IF NOT EXISTS users ('',
       ''  id TEXT PRIMARY KEY,'',
       ''  username TEXT UNIQUE NOT NULL,'',
       ''  password_hash TEXT NOT NULL,'',
       ''  created_at TIMESTAMP DEFAULT CURRENT_TIMESTAMP'',
       '');''],
      [''CREATE TABLE IF NOT EXISTS conversations ('',
       ''  id TEXT PRIMARY KEY,'',
       ''  user_id TEXT NOT NULL,'',
       ''  agent_id TEXT NOT NULL,'',
       ''  created_at TIMESTAMP DEFAULT CURRENT_TIMESTAMP,'',
       ''  FOREIGN KEY (user_id) REFERENCES users(id),'',
       ''  FOREIGN KEY (agent_id) REFERENCES agents(id)'',
       '');''],
      [''CREATE TABLE IF NOT EXISTS device_tokens ('',
       ''  user_id TEXT NOT NULL,'',
       ''  device_token TEXT NOT NULL,'',
       ''  platform TEXT NOT NULL DEFAULT \'ios\','',
       ''  created_at TIMESTAMP DEFAULT CURRENT_TIMESTAMP,'',
       ''  updated_at TIMESTAMP DEFAULT CURRENT_TIMESTAMP,'',
       ''  PRIMARY KEY (user_id, device_token),'',
       ''  FOREIGN KEY (user_id) REFERENCES users(id)'',
       '');''],
      [''CREATE TABLE IF NOT EXISTS messages ('',
       ''  id TEXT PRIMARY KEY,'',
       ''  conversation_id TEXT NOT NULL,'',
       ''  sender_type TEXT NOT NULL,'',
       ''  sender_id TEXT NOT NULL,'',
       ''  content TEXT NOT NULL,'',
       ''  metadata TEXT,'',
       ''  created_at TIMESTAMP DEFAULT CURRENT_TIMESTAMP,'',
       ''  FOREIGN KEY (conversation_id) REFERENCES conversations(id)'',
       '');'']],
    DownSQL = sql_text [
      [''DROP TABLE IF EXISTS messages;'',
       ''DROP TABLE IF EXISTS device_tokens;'',
       ''DROP TABLE IF EXISTS conversations;'',
       ''DROP TABLE IF EXISTS users;'',
       ''DROP TABLE IF EXISTS agents;'']]\<rparr>\<close>

definition agent_metadata_columns :: Migration where
  \<open>agent_metadata_columns = \<lparr>Version = 2, Name = ''agent_metadata_columns'',
    UpSQL = sql_text [
      [''ALTER TABLE agents ADD COLUMN model TEXT NOT NULL DEFAULT '' @ empty_literal @ '';'',
       ''ALTER TABLE agents ADD COLUMN personality TEXT NOT NULL DEFAULT '' @ empty_literal @ '';'',
       ''ALTER TABLE agents ADD COLUMN specialty TEXT NOT NULL DEFAULT '' @ empty_literal @ '';'']],
    DownSQL = sql_text [
      [''-- SQLite does not support DROP COLUMN before 3.35.0'',
       ''-- These columns are harmless if left in place.'']]\<rparr>\<close>

definition message_read_at :: Migration where
  \<open>message_read_at = \<lparr>Version = 3, Name = ''message_read_at'',
    UpSQL = sql_text [
      [''ALTER TABLE messages ADD COLUMN read_at TIMESTAMP DEFAULT NULL;'']],
    DownSQL = sql_text [
      [''-- SQLite does not support DROP COLUMN before 3.35.0'']]\<rparr>\<close>

definition attachments_table :: Migration where
  \<open>attachments_table = \<lparr>Version = 4, Name = ''attachments_table'',
    UpSQL = sql_text [
      [''CREATE TABLE IF NOT EXISTS attachments ('',
       ''  id TEXT PRIMARY KEY,'',
       ''  message_id TEXT,'',
       ''  user_id TEXT NOT NULL,'',
       ''  filename TEXT NOT NULL,'',
       ''  content_type TEXT NOT NULL,'',
       ''  size INTEGER NOT NULL,'',
       ''  sha256 TEXT NOT NULL,'',
       ''  storage_path TEXT NOT NULL,'',
       ''  created_at TIMESTAMP DEFAULT CURRENT_TIMESTAMP,'',
       ''  FOREIGN KEY (message_id) REFERENCES messages(id),'',
       ''  FOREIGN KEY (user_id) REFERENCES users(id)'',
       '');'']],
    DownSQL = sql_text [
      [''DROP TABLE IF EXISTS attachments;'']]\<rparr>\<close>

definition e2e_encryption_tables :: Migration where
  \<open>e2e_encryption_tables = \<lparr>Version = 5, Name = ''e2e_encryption_tables'',
    UpSQL = sql_text [
      [''CREATE TABLE IF NOT EXISTS key_bundles ('',
       ''  id TEXT PRIMARY KEY,'',
       ''  owner_id TEXT NOT NULL,'',
       ''  owner_type TEXT NOT NULL,'',
       ''  key_type TEXT NOT NULL,'',
       ''  public_key TEXT NOT NULL,'',
       ''  signature TEXT,'',
       ''  key_id INTEGER,'',
       ''  created_at TIMESTAMP DEFAULT CURRENT_TIMESTAMP,'',
       ''  FOREIGN KEY (owner_id) REFERENCES users(id)'',
       '');''],
      [''CREATE TABLE IF NOT EXISTS encrypted_messages ('',
       ''  id TEXT PRIMARY KEY,'',
       ''  conversation_id TEXT NOT NULL,'',
       ''  sender_id TEXT NOT NULL,'',
       ''  sender_type TEXT NOT NULL,'',
       ''  ciphertext TEXT NOT NULL,'',
       ''  iv TEXT NOT NULL,'',
       ''  recipient_key_id TEXT NOT NULL,'',
       ''  sender_key_id TEXT,'',
       ''  algorithm TEXT NOT NULL,'',
       ''  created_at TIMESTAMP DEFAULT CURRENT_TIMESTAMP,'',
       ''  FOREIGN KEY (conversation_id) REFERENCES conversations(id)'',
       '');'']],
    DownSQL = sql_text [
      [''DROP TABLE IF EXISTS encrypted_messages;'',
       ''DROP TABLE IF EXISTS key_bundles;'']]\<rparr>\<close>

definition reactions_and_tags_tables :: Migration where
  \<open>reactions_and_tags_tables = \<lparr>Version = 6, Name = ''reactions_and_tags_tables'',
    UpSQL = sql_text [
      [''CREATE TABLE IF NOT EXISTS reactions ('',
       ''  id TEXT PRIMARY KEY,'',
       ''  message_id TEXT NOT NULL,'',
       ''  user_id TEXT NOT NULL,'',
       ''  emoji TEXT NOT NULL,'',
       ''  created_at TIMESTAMP DEFAULT CURRENT_TIMESTAMP,'',
       ''  FOREIGN KEY (message_id) REFERENCES messages(id),'',
       ''  FOREIGN KEY (user_id) REFERENCES users(id),'',
       ''  UNIQUE(message_id, user_id, emoji)'',
       '');''],
      [''CREATE TABLE IF NOT EXISTS conversation_tags ('',
       ''  id TEXT PRIMARY KEY,'',
       ''  conversation_id TEXT NOT NULL,'',
       ''  tag TEXT NOT NULL,'',
       ''  created_at TIMESTAMP DEFAULT CURRENT_TIMESTAMP,'',
       ''  FOREIGN KEY (conversation_id) REFERENCES conversations(id),'',
       ''  UNIQUE(conversation_id, tag)'',
       '');'']],
    DownSQL = sql_text [
      [''DROP TABLE IF EXISTS conversation_tags;'',
       ''DROP TABLE IF EXISTS reactions;'']]\<rparr>\<close>

definition message_edit_delete_columns :: Migration where
  \<open>message_edit_delete_columns = \<lparr>Version = 7, Name = ''message_edit_delete_columns'',
    UpSQL = sql_text [
      [''ALTER TABLE messages ADD COLUMN edited_at TIMESTAMP DEFAULT NULL;'',
       ''ALTER TABLE messages ADD COLUMN is_deleted BOOLEAN DEFAULT 0;'']],
    DownSQL = sql_text [
      [''-- SQLite doesn\'t support DROP COLUMN easily; no-op for safety'']]\<rparr>\<close>

definition rate_limit_tiers_table :: Migration where
  \<open>rate_limit_tiers_table = \<lparr>Version = 8, Name = ''rate_limit_tiers_table'',
    UpSQL = sql_text [
      [''CREATE TABLE IF NOT EXISTS user_rate_limit_tiers ('',
       ''  user_id TEXT NOT NULL PRIMARY KEY,'',
       ''  tier_name TEXT NOT NULL DEFAULT \'free\','',
       ''  updated_at TIMESTAMP DEFAULT CURRENT_TIMESTAMP,'',
       ''  FOREIGN KEY (user_id) REFERENCES users(id) ON DELETE CASCADE'',
       '');'']],
    DownSQL = sql_text [
      [''DROP TABLE IF EXISTS user_rate_limit_tiers;'']]\<rparr>\<close>

definition migrations :: "Migration list" where
  "migrations = [initial_schema, agent_metadata_columns, message_read_at, attachments_table,
    e2e_encryption_tables, reactions_and_tags_tables, message_edit_delete_columns, rate_limit_tiers_table]"

subsection \<open>Splitting and recognising\<close>

definition splitStatements :: "string \<Rightarrow> string list" where
  "splitStatements sql = filter (\<lambda>s. s \<noteq> []) (map trim_space (split_on (CHR '';'') sql))"

fun str_contains :: "string \<Rightarrow> string \<Rightarrow> bool" where
  "str_contains [] sub \<longleftrightarrow> sub = []"
| "str_contains (c # cs) sub \<longleftrightarrow> has_prefix (c # cs) sub \<or> str_contains cs sub"

definition isDuplicateColumnError :: "string \<Rightarrow> bool" where
  "isDuplicateColumnError err = str_contains (ToLower err) ''duplicate column name''"

subsection \<open>The record of migrations\<close>

datatype mig_error =
    EnsureTable string
  | CurrentVersion string
  | AppliedMigrations string
  | TargetExceeds int int
  | StatementFailed int string string string
  | RecordFailed int string
  | RemoveFailed int string

definition ensureMigrationsTable :: "sql_io \<Rightarrow> catalog \<Rightarrow> string option \<times> catalog" where
  "ensureMigrationsTable io d = exec_text io migrations_ddl d"

definition max_sql :: string where "max_sql = ''SELECT COALESCE(MAX(version), 0) FROM schema_migrations''"
definition select_sql :: string where "select_sql = ''SELECT version, name FROM schema_migrations ORDER BY version''"
definition delete_sql :: string where "delete_sql = ''DELETE FROM schema_migrations WHERE version = ''"
definition no_table :: string where "no_table = ''no such table: schema_migrations''"

definition getCurrentVersion :: "sql_io \<Rightarrow> catalog \<Rightarrow> string + int" where
  "getCurrentVersion io d =
     (case io max_sql of
        Some err \<Rightarrow> Inl err
      | None \<Rightarrow> (case schema_migrations d of
                   None \<Rightarrow> Inl no_table
                 | Some rs \<Rightarrow> Inr (if rs = [] then 0 else Max (set (map fst rs)))))"

definition getAppliedMigrations :: "sql_io \<Rightarrow> catalog \<Rightarrow> string + (int, string) gomap" where
  "getAppliedMigrations io d =
     (case io select_sql of
        Some err \<Rightarrow> Inl err
      | None \<Rightarrow> (case schema_migrations d of
                   None \<Rightarrow> Inl no_table
                 | Some rs \<Rightarrow> Inr (fold (\<lambda>(v, n). gm_set v n) (sort_key fst rs) [])))"

definition record_migration :: "sql_io \<Rightarrow> Migration \<Rightarrow> catalog \<Rightarrow> string + catalog" where
  "record_migration io m d =
     (case io (insert_sql @ decimal (Version m)) of
        Some err \<Rightarrow> Inl err
      | None \<Rightarrow> (case schema_migrations d of
                   None \<Rightarrow> Inl no_table
                 | Some rs \<Rightarrow> if Version m \<in> set (map fst rs) then Inl ''UNIQUE constraint failed: schema_migrations.version''
                              else Inr (d\<lparr>schema_migrations := Some (rs @ [(Version m, Name m)])\<rparr>)))"

definition remove_migration :: "sql_io \<Rightarrow> Migration \<Rightarrow> catalog \<Rightarrow> string + catalog" where
  "remove_migration io m d =
     (case io (delete_sql @ decimal (Version m)) of
        Some err \<Rightarrow> Inl err
      | None \<Rightarrow> (case schema_migrations d of
                   None \<Rightarrow> Inl no_table
                 | Some rs \<Rightarrow> Inr (d\<lparr>schema_migrations := Some (filter (\<lambda>r. fst r \<noteq> Version m) rs)\<rparr>)))"

subsection \<open>Up\<close>

fun up_statements :: "sql_io \<Rightarrow> string list \<Rightarrow> catalog \<Rightarrow> (string \<times> string) option \<times> catalog" where
  "up_statements io [] d = (None, d)"
| "up_statements io (stmt0 # rest) d =
     (let stmt = trim_space stmt0 in
      if stmt = [] then up_statements io rest d
      else (case exec_text io stmt d of
              (None, d1) \<Rightarrow> up_statements io rest d1
            | (Some err, d1) \<Rightarrow> if isDuplicateColumnError err then up_statements io rest d1
                                 else (Some (err, stmt), d1)))"

fun up_loop :: "sql_io \<Rightarrow> int \<Rightarrow> int \<Rightarrow> Migration list \<Rightarrow> catalog \<Rightarrow> mig_error option \<times> catalog" where
  "up_loop io current target [] d = (None, d)"
| "up_loop io current target (m # ms) d =
     (if Version m \<le> current then up_loop io current target ms d
      else if Version m > target then (None, d)
      else (case up_statements io (splitStatements (UpSQL m)) d of
              (Some (err, stmt), d1) \<Rightarrow> (Some (StatementFailed (Version m) (Name m) err stmt), d1)
            | (None, d1) \<Rightarrow> (case record_migration io m d1 of
                                Inl err \<Rightarrow> (Some (RecordFailed (Version m) err), d1)
                              | Inr d2 \<Rightarrow> up_loop io current target ms d2)))"

text \<open>The first steps of the commands: the table is made if need be and the current version is read.\<close>

definition with_version :: "sql_io \<Rightarrow> (int \<Rightarrow> catalog \<Rightarrow> mig_error option \<times> catalog) \<Rightarrow> catalog \<Rightarrow> mig_error option \<times> catalog" where
  "with_version io k d0 =
     (case ensureMigrationsTable io d0 of
        (Some err, d) \<Rightarrow> (Some (EnsureTable err), d)
      | (None, d) \<Rightarrow> (case getCurrentVersion io d of
                         Inl err \<Rightarrow> (Some (CurrentVersion err), d)
                       | Inr current \<Rightarrow> k current d))"

definition migrateUp :: "sql_io \<Rightarrow> int \<Rightarrow> catalog \<Rightarrow> mig_error option \<times> catalog" where
  "migrateUp io targetVersion = with_version io (\<lambda>current d.
     let sorted_ms = sort_key Version migrations;
         maxVersion = Version (last sorted_ms);
         target = (if targetVersion < 0 then maxVersion else targetVersion) in
     if target > maxVersion then (Some (TargetExceeds target maxVersion), d)
     else up_loop io current target sorted_ms d)"

subsection \<open>Down\<close>

fun down_statements :: "sql_io \<Rightarrow> string list \<Rightarrow> catalog \<Rightarrow> catalog" where
  "down_statements io [] d = d"
| "down_statements io (stmt0 # rest) d =
     (let stmt = trim_space stmt0 in
      if stmt = [] \<or> has_prefix stmt ''--'' then down_statements io rest d
      else down_statements io rest (snd (exec_text io stmt d)))"

fun down_loop :: "sql_io \<Rightarrow> int \<Rightarrow> int \<Rightarrow> Migration list \<Rightarrow> catalog \<Rightarrow> mig_error option \<times> catalog" where
  "down_loop io current target [] d = (None, d)"
| "down_loop io current target (m # ms) d =
     (if Version m \<le> target \<or> Version m > current then down_loop io current target ms d
      else (let d1 = down_statements io (splitStatements (DownSQL m)) d in
            case remove_migration io m d1 of
              Inl err \<Rightarrow> (Some (RemoveFailed (Version m) err), d1)
            | Inr d2 \<Rightarrow> down_loop io current target ms d2))"

definition migrateDown :: "sql_io \<Rightarrow> int \<Rightarrow> catalog \<Rightarrow> mig_error option \<times> catalog" where
  "migrateDown io targetVersion = with_version io (\<lambda>current d.
     let target = (if targetVersion < 0 then 0 else targetVersion) in
     if target \<ge> current then (None, d)
     else down_loop io current target (rev (sort_key Version migrations)) d)"

subsection \<open>Status and new migrations\<close>

record status =
  st_current :: int
  st_latest :: int
  st_applied :: "(int \<times> string) list"
  st_pending :: "(int \<times> string) list"
  st_up_to_date :: bool

definition showStatus :: "sql_io \<Rightarrow> catalog \<Rightarrow> (mig_error + status) \<times> catalog" where
  "showStatus io d0 =
     (case ensureMigrationsTable io d0 of
        (Some err, d) \<Rightarrow> (Inl (EnsureTable err), d)
      | (None, d) \<Rightarrow> (case getCurrentVersion io d of
          Inl err \<Rightarrow> (Inl (CurrentVersion err), d)
        | Inr current \<Rightarrow> (case getAppliedMigrations io d of
            Inl err \<Rightarrow> (Inl (AppliedMigrations err), d)
          | Inr applied \<Rightarrow>
              (let sorted_ms = sort_key Version migrations;
                   maxVersion = (if sorted_ms = [] then 0 else Version (last sorted_ms));
                   line = (\<lambda>m. (Version m, Name m));
                   pending = filter (\<lambda>m. gm_get applied (Version m) = None) sorted_ms in
               (Inr \<lparr>st_current = current, st_latest = maxVersion,
                      st_applied = map line (filter (\<lambda>m. gm_get applied (Version m) \<noteq> None) sorted_ms),
                      st_pending = map line pending,
                      st_up_to_date = (pending = [] \<and> current = maxVersion)\<rparr>, d)))))"

text \<open>The directory of the migration files, as the names and whether each is a directory. \<open>mkdir\<close> and \<open>write\<close> are
  the errors of \<open>MkdirAll\<close> and \<open>WriteFile\<close>; the result is the new entry.\<close>

definition next_version :: "(string \<times> bool) list \<Rightarrow> int" where
  "next_version entries =
     fold (\<lambda>(n, is_dir) nextVersion.
       if is_dir then nextVersion
       else (case Atoi (hd (split_on (CHR ''_'') n)) of
               Some v \<Rightarrow> if v \<ge> nextVersion then wrap64 (v + 1) else nextVersion
             | None \<Rightarrow> nextVersion)) entries (int (length migrations) + 1)"

definition pad3 :: "int \<Rightarrow> string" where
  "pad3 n = (if n < 0 then CHR ''-'' # replicate (3 - length (decimal n)) (CHR ''0'') @ nat_digits (nat (- n))
             else replicate (3 - length (decimal n)) (CHR ''0'') @ decimal n)"

definition createMigrationStub ::
  "string option \<Rightarrow> string option \<Rightarrow> string \<Rightarrow> (string \<times> bool) list \<Rightarrow> string + (string \<times> string)" where
  "createMigrationStub mkdir write nm entries =
     (case mkdir of
        Some err \<Rightarrow> Inl (''create migrations directory: '' @ err)
      | None \<Rightarrow>
          (let nextVersion = next_version entries;
               filename = pad3 nextVersion @ ''_'' @ nm @ ''.sql'';
               content = concat (map (\<lambda>l. l @ [CHR 0x0A])
                 [''-- Migration '' @ decimal nextVersion @ '': '' @ nm, ''-- Created: auto-generated'', [],
                  ''-- Up'', [], ''-- Down'']) in
           (case write of Some err \<Rightarrow> Inl (''write migration file: '' @ err) | None \<Rightarrow> Inr (filename, content))))"

text \<open>The command line: \<open>Inl\<close> is a message on standard error and status 1, \<open>Inr\<close> the file that was created, if any.\<close>

definition migrate_main ::
  "sql_io \<Rightarrow> string option \<Rightarrow> string option \<Rightarrow> (string \<times> bool) list \<Rightarrow> string \<Rightarrow> int \<Rightarrow> string \<Rightarrow> catalog \<Rightarrow>
   (string + (string \<times> string) option) \<times> catalog" where
  "migrate_main io mkdir write entries action targetVersion migrationName d =
     (let run = (\<lambda>what (r, d'). (if r = None then Inr None else Inl what, d')) in
      if action = [] then (Inl ''Usage: am-migrate -db <path> -action <up|down|status|create> [-target N] [-name name]'', d)
      else if action = ''up'' then run ''Migration up failed'' (migrateUp io targetVersion d)
      else if action = ''down'' then run ''Migration down failed'' (migrateDown io targetVersion d)
      else if action = ''status'' then
        (case showStatus io d of (Inl err, d') \<Rightarrow> (Inl ''Status check failed'', d') | (Inr st, d') \<Rightarrow> (Inr None, d'))
      else if action = ''create'' then
        (if migrationName = [] then (Inl ''-name is required for create action'', d)
         else (case createMigrationStub mkdir write migrationName entries of
                 Inl err \<Rightarrow> (Inl ''Create migration failed'', d) | Inr stub \<Rightarrow> (Inr (Some stub), d)))
      else (Inl (''Unknown action: '' @ action @ '' (use up, down, status, or create)''), d))"

subsection \<open>The statements of the migrations\<close>

lemma sql_words_spaces: "list_all is_space t \<Longrightarrow> sql_words w t = flush_word w"
  by (induction t arbitrary: w) (auto simp: flush_word_def)

lemma sql_words_trailing:
  "CHR ''-'' \<notin> set s \<Longrightarrow> list_all is_space t \<Longrightarrow> sql_words w (s @ t) = sql_words w s"
  by (induction s arbitrary: w) (auto simp: sql_words_spaces)

lemma sql_words_leading: "sql_words [] (dropWhile is_space s) = sql_words [] s"
  by (induction s) (auto simp: flush_word_def)

lemma sql_words_Nil_iff: "CHR ''-'' \<notin> set s \<Longrightarrow> sql_words w s = [] \<longleftrightarrow> w = [] \<and> list_all is_space s"
  by (induction s arbitrary: w) (auto simp: flush_word_def)

lemma trim_space_right: "\<exists>t. list_all is_space t \<and> s = rev (dropWhile is_space (rev s)) @ t"
  by (metis (mono_tags, lifting) list_all_iff rev_append rev_rev_ident set_rev set_takeWhileD takeWhile_dropWhile_id)

lemma set_trim_space: "set (trim_space s) \<subseteq> set s"
  by (metis trim_space_def set_dropWhileD set_rev subsetI)

lemma sql_words_trim:
  assumes "CHR ''-'' \<notin> set s"
  shows "sql_words [] (trim_space s) = sql_words [] s"
proof -
  let ?s = "dropWhile is_space s"
  obtain t where t: "list_all is_space t" "?s = trim_space s @ t"
    using trim_space_right [of ?s] by (auto simp: trim_space_def)
  have "CHR ''-'' \<notin> set (trim_space s)" using assms set_trim_space by blast
  then show ?thesis using t sql_words_leading [of s] sql_words_trailing by metis
qed

lemma all_space_dropWhile: "list_all is_space (dropWhile is_space s) \<longleftrightarrow> list_all is_space s"
  by (induction s) auto

lemma trim_space_Nil_iff: "trim_space s = [] \<longleftrightarrow> list_all is_space s"
  using all_space_dropWhile [of s] by (simp add: trim_space_def list_all_iff)

lemma trim_space_idem [simp]: "trim_space (trim_space s) = trim_space s"
proof -
  have lead: "dropWhile is_space (rev (dropWhile is_space (rev s))) = rev (dropWhile is_space (rev s))"
    if "s = [] \<or> \<not> is_space (hd s)" for s
  proof (cases "dropWhile is_space (rev s)")
    case (Cons c cs)
    obtain t where "list_all is_space t" "s = rev (dropWhile is_space (rev s)) @ t" using trim_space_right by blast
    with Cons that show ?thesis by (cases "rev cs") auto
  next
    case Nil
    then show ?thesis by (simp only: rev.simps dropWhile.simps)
  qed
  have "dropWhile is_space s = [] \<or> \<not> is_space (hd (dropWhile is_space s))" using hd_dropWhile by blast
  from lead [OF this] have "dropWhile is_space (trim_space s) = trim_space s" by (simp add: trim_space_def)
  then show ?thesis by (simp add: trim_space_def)
qed

lemma parse_splitStatements:
  assumes "CHR ''-'' \<notin> set s"
  shows "map parse_sql (splitStatements s) =
         filter (\<lambda>q. q \<noteq> EMPTY_STATEMENT) (map parse_sql (split_on (CHR '';'') s))"
proof -
  have pieces: "CHR ''-'' \<notin> set p" if "p \<in> set (split_on (CHR '';'') s)" for p
    using assms that by (induction s arbitrary: p) (auto split: list.splits if_splits)
  have one: "parse_sql (trim_space p) = parse_sql p"
    and none: "trim_space p = [] \<longleftrightarrow> parse_sql p = EMPTY_STATEMENT" if "CHR ''-'' \<notin> set p" for p
    using that sql_words_Nil_iff [of p "[]"]
    by (auto simp: parse_sql_def sql_words_trim trim_space_Nil_iff parse_words_def)
  have "map parse_sql (filter (\<lambda>p. p \<noteq> []) (map trim_space ps)) = filter (\<lambda>q. q \<noteq> EMPTY_STATEMENT) (map parse_sql ps)"
    if "\<And>p. p \<in> set ps \<Longrightarrow> CHR ''-'' \<notin> set p" for ps
    using that by (induction ps) (auto simp: one none)
  with pieces show ?thesis by (simp add: splitStatements_def)
qed

definition up_sql :: "Migration \<Rightarrow> sql list" where
  "up_sql m = map parse_sql (splitStatements (UpSQL m))"

definition down_sql :: "Migration \<Rightarrow> sql list" where
  "down_sql m = map parse_sql (filter (\<lambda>s. \<not> has_prefix s ''--'') (splitStatements (DownSQL m)))"

lemma up_sql_text:
  assumes "UpSQL m = sql_text ps" and "list_all closed_paragraph ps"
  shows "up_sql m = filter (\<lambda>q. q \<noteq> EMPTY_STATEMENT) (concat (map paragraph_statements ps))"
proof -
  have "CHR ''-'' \<notin> set (sql_text ps)"
    using assms(2) by (auto simp: sql_text_def text_lines_def list_all_iff closed_paragraph_def)
  with assms show ?thesis by (simp add: up_sql_def parse_splitStatements parse_text)
qed

text \<open>What the eight up and down scripts say.\<close>

definition up_tables :: "(string \<times> string list) list" where
  "up_tables = [
    (''agents'', [''id'', ''name'', ''model'', ''personality'', ''specialty'', ''created_at'']),
    (''users'', [''id'', ''username'', ''password_hash'', ''created_at'']),
    (''conversations'', [''id'', ''user_id'', ''agent_id'', ''created_at'']),
    (''device_tokens'', [''user_id'', ''device_token'', ''platform'', ''created_at'', ''updated_at'']),
    (''messages'', [''id'', ''conversation_id'', ''sender_type'', ''sender_id'', ''content'', ''metadata'', ''created_at'']),
    (''attachments'', [''id'', ''message_id'', ''user_id'', ''filename'', ''content_type'', ''size'', ''sha256'',
       ''storage_path'', ''created_at'']),
    (''key_bundles'', [''id'', ''owner_id'', ''owner_type'', ''key_type'', ''public_key'', ''signature'', ''key_id'',
       ''created_at'']),
    (''encrypted_messages'', [''id'', ''conversation_id'', ''sender_id'', ''sender_type'', ''ciphertext'', ''iv'',
       ''recipient_key_id'', ''sender_key_id'', ''algorithm'', ''created_at'']),
    (''reactions'', [''id'', ''message_id'', ''user_id'', ''emoji'', ''created_at'']),
    (''conversation_tags'', [''id'', ''conversation_id'', ''tag'', ''created_at'']),
    (''user_rate_limit_tiers'', [''user_id'', ''tier_name'', ''updated_at''])]"

definition up_scripts :: "sql list list" where
  "up_scripts = [
    create_tables (take 5 up_tables),
    [ADD_COLUMN ''agents'' ''model'', ADD_COLUMN ''agents'' ''personality'', ADD_COLUMN ''agents'' ''specialty''],
    [ADD_COLUMN ''messages'' ''read_at''],
    create_tables (take 1 (drop 5 up_tables)),
    create_tables (take 2 (drop 6 up_tables)),
    create_tables (take 2 (drop 8 up_tables)),
    [ADD_COLUMN ''messages'' ''edited_at'', ADD_COLUMN ''messages'' ''is_deleted''],
    create_tables (drop 10 up_tables)]"

definition down_scripts :: "sql list list" where
  "down_scripts = [
    [DROP_TABLE ''messages'', DROP_TABLE ''device_tokens'', DROP_TABLE ''conversations'', DROP_TABLE ''users'',
      DROP_TABLE ''agents''],
    [], [], [DROP_TABLE ''attachments''], [DROP_TABLE ''encrypted_messages'', DROP_TABLE ''key_bundles''],
    [DROP_TABLE ''conversation_tags'', DROP_TABLE ''reactions''], [SYNTAX_ERROR ''no-op''],
    [DROP_TABLE ''user_rate_limit_tiers'']]"

lemma up_sql_initial_schema [parsed]: "up_sql initial_schema = up_scripts ! 0"
  by (subst up_sql_text, simp add: initial_schema_def) code_simp+

lemma up_sql_columns [parsed]:
  "up_sql agent_metadata_columns = up_scripts ! 1"
  "up_sql message_read_at = up_scripts ! 2"
  "up_sql message_edit_delete_columns = up_scripts ! 6"
  by (subst up_sql_text, simp add: agent_metadata_columns_def message_read_at_def message_edit_delete_columns_def;
      code_simp)+

lemma up_sql_tables [parsed]:
  "up_sql attachments_table = up_scripts ! 3"
  "up_sql e2e_encryption_tables = up_scripts ! 4"
  "up_sql reactions_and_tags_tables = up_scripts ! 5"
  "up_sql rate_limit_tiers_table = up_scripts ! 7"
  by (subst up_sql_text, simp add: attachments_table_def e2e_encryption_tables_def reactions_and_tags_tables_def
      rate_limit_tiers_table_def; code_simp)+

lemma down_sql_migrations: "map down_sql migrations = down_scripts"
  by code_simp

lemma up_sql_migrations: "map up_sql migrations = up_scripts"
  by (simp add: migrations_def parsed) (simp add: up_scripts_def)

subsection \<open>One statement at a time\<close>

definition recs :: "(int \<times> string) list" where
  "recs = map (\<lambda>m. (Version m, Name m)) migrations"

text \<open>\<open>has q d\<close>: the catalogue already has what the statement makes. \<open>tables_wide d\<close>: a table of the migrations, when it
  is there, has the columns they give it. \<open>grows d d'\<close>: nothing was dropped.\<close>

fun has :: "sql \<Rightarrow> catalog \<Rightarrow> bool" where
  "has (CREATE_TABLE t cs) d \<longleftrightarrow> (\<exists>cs'. gm_get (tables d) t = Some cs' \<and> set cs \<subseteq> set cs')"
| "has (ADD_COLUMN t c) d \<longleftrightarrow> (\<exists>cs'. gm_get (tables d) t = Some cs' \<and> c \<in> set cs')"
| "has _ d \<longleftrightarrow> True"

definition tables_wide :: "catalog \<Rightarrow> bool" where
  "tables_wide d \<longleftrightarrow>
     (\<forall>(t, cs) \<in> set up_tables. \<forall>cs'. gm_get (tables d) t = Some cs' \<longrightarrow> set cs \<subseteq> set cs')"

definition grows :: "catalog \<Rightarrow> catalog \<Rightarrow> bool" where
  "grows d d' \<longleftrightarrow>
     (\<forall>t cs. gm_get (tables d) t = Some cs \<longrightarrow> (\<exists>cs'. gm_get (tables d') t = Some cs' \<and> set cs \<subseteq> set cs'))"

lemma record_frame [simp]:
  "has q (d\<lparr>schema_migrations := x\<rparr>) = has q d"
  "tables_wide (d\<lparr>schema_migrations := x\<rparr>) = tables_wide d"
  by (cases q) (simp_all add: tables_wide_def)

lemma grows_refl [simp]: "grows d d"
  by (auto simp: grows_def)

lemma grows_trans: "grows d1 d2 \<Longrightarrow> grows d2 d3 \<Longrightarrow> grows d1 d3"
  unfolding grows_def by (meson subset_trans)

lemma has_grows: "has q d \<Longrightarrow> grows d d' \<Longrightarrow> has q d'"
  by (cases q) (fastforce simp: grows_def)+

text \<open>The statements of the up scripts.\<close>

fun up_form :: "sql \<Rightarrow> bool" where
  "up_form (CREATE_TABLE t cs) \<longleftrightarrow> (t, cs) \<in> set up_tables \<and> t \<noteq> ''schema_migrations''"
| "up_form (ADD_COLUMN t c) \<longleftrightarrow> t = ''agents'' \<or> t = ''messages''"
| "up_form _ \<longleftrightarrow> False"

lemma up_form_scripts: "m \<in> set migrations \<Longrightarrow> q \<in> set (up_sql m) \<Longrightarrow> up_form q"
proof -
  assume "m \<in> set migrations" "q \<in> set (up_sql m)"
  then have "q \<in> set (concat up_scripts)" by (auto simp flip: up_sql_migrations)
  moreover have "list_all up_form (concat up_scripts)" by code_simp
  ultimately show ?thesis unfolding list_all_iff by blast
qed

lemma up_tables_unique: "(t, cs) \<in> set up_tables \<Longrightarrow> (t, cs') \<in> set up_tables \<Longrightarrow> cs = cs'"
proof -
  have "distinct (map fst up_tables)" by code_simp
  then show "(t, cs) \<in> set up_tables \<Longrightarrow> (t, cs') \<in> set up_tables \<Longrightarrow> cs = cs'"
    by (rule eq_key_imp_eq_value)
qed

lemma tables_wide_set:
  "tables_wide d \<Longrightarrow> (\<And>us. (t, us) \<in> set up_tables \<Longrightarrow> set us \<subseteq> set cs) \<Longrightarrow>
   tables_wide (d\<lparr>tables := gm_set t cs (tables d)\<rparr>)"
  unfolding tables_wide_def by (auto split: if_splits) blast+

lemma grows_add:
  "gm_get (tables d) t = Some old \<Longrightarrow> grows d (d\<lparr>tables := gm_set t (old @ [c]) (tables d)\<rparr>)"
  by (auto simp: grows_def)

lemma grows_new: "gm_get (tables d) t = None \<Longrightarrow> grows d (d\<lparr>tables := gm_set t cs (tables d)\<rparr>)"
  by (auto simp: grows_def)

lemma tables_wideD: "tables_wide d \<Longrightarrow> (t, cs) \<in> set up_tables \<Longrightarrow> gm_get (tables d) t = Some cs' \<Longrightarrow> set cs \<subseteq> set cs'"
  unfolding tables_wide_def by blast

lemma exec_up_form:
  assumes "up_form q" and "tables_wide d" and "exec_sql q d = Inr d'"
  shows "grows d d' \<and> has q d' \<and> tables_wide d' \<and> schema_migrations d' = schema_migrations d"
proof (cases q)
  case (CREATE_TABLE t cs)
  show ?thesis
  proof (cases "gm_get (tables d) t")
    case None
    then have "d' = d\<lparr>tables := gm_set t cs (tables d)\<rparr>" using assms CREATE_TABLE by auto
    moreover have "set us \<subseteq> set cs" if "(t, us) \<in> set up_tables" for us
      using that assms(1) CREATE_TABLE up_tables_unique by auto
    ultimately show ?thesis using CREATE_TABLE None assms(2) by (simp add: tables_wide_set grows_new)
  next
    case (Some old)
    then have "d' = d" using assms CREATE_TABLE by auto
    moreover have "set cs \<subseteq> set old" using tables_wideD [OF assms(2) _ Some] assms(1) CREATE_TABLE by simp
    ultimately show ?thesis using assms(2) CREATE_TABLE Some by simp
  qed
next
  case (ADD_COLUMN t c)
  with assms(3) obtain old where old: "gm_get (tables d) t = Some old" "d' = d\<lparr>tables := gm_set t (old @ [c]) (tables d)\<rparr>"
    by (auto split: option.splits if_splits)
  have "set us \<subseteq> set (old @ [c])" if "(t, us) \<in> set up_tables" for us
    using tables_wideD [OF assms(2) that old(1)] by auto
  with old ADD_COLUMN assms(2) show ?thesis by (auto simp: tables_wide_set grows_add)
qed (use assms in auto)

lemma missing_table_not_duplicate:
  "\<not> isDuplicateColumnError ''no such table: agents''" "\<not> isDuplicateColumnError ''no such table: messages''"
  by code_simp+

lemma duplicate_column_has:
  assumes "up_form q" and "exec_sql q d = Inl err" and "isDuplicateColumnError err"
  shows "has q d"
proof (cases q)
  case (ADD_COLUMN t c)
  then have "err = ''no such table: '' @ t \<or> has q d" using assms(2) by (auto split: option.splits if_splits)
  with ADD_COLUMN assms missing_table_not_duplicate show ?thesis by auto
qed (use assms in auto)

lemma duplicate_column_message: "isDuplicateColumnError (''duplicate column name: '' @ c)"
  by (simp add: isDuplicateColumnError_def ascii_lower_def has_prefix_def)

subsection \<open>One migration\<close>

text \<open>\<open>honest io\<close>: a failure that does not come from the statement is not reported as a duplicate column.\<close>

definition honest :: "sql_io \<Rightarrow> bool" where
  "honest io \<longleftrightarrow> (\<forall>s err. io s = Some err \<longrightarrow> \<not> isDuplicateColumnError err)"

lemma honest_no_faults [simp]: "honest no_faults"
  by (simp add: honest_def no_faults_def)

lemma split_on_pieces: "p \<in> set (split_on c s) \<Longrightarrow> c \<notin> set p"
  by (induction s arbitrary: p) (auto split: list.splits if_splits)

lemma splitStatements_pieces:
  "s \<in> set (splitStatements t) \<Longrightarrow> s \<noteq> [] \<and> trim_space s = s \<and> CHR '';'' \<notin> set s"
  using set_trim_space split_on_pieces by (fastforce simp: splitStatements_def)

lemma exec_piece:
  "CHR '';'' \<notin> set s \<Longrightarrow> exec_text io s d =
   (case io s of Some err \<Rightarrow> (Some err, d)
    | None \<Rightarrow> (case exec_sql (parse_sql s) d of Inl err \<Rightarrow> (Some err, d) | Inr d1 \<Rightarrow> (None, d1)))"
  by (auto simp: exec_text_def split_on_no_sep split: option.splits sum.splits)

lemma up_statements_keeps:
  assumes "honest io" and "tables_wide d"
    and "\<And>s. s \<in> set ss \<Longrightarrow> s \<noteq> [] \<and> trim_space s = s \<and> CHR '';'' \<notin> set s \<and> up_form (parse_sql s)"
    and "up_statements io ss d = (r, d')"
  shows "grows d d' \<and> tables_wide d' \<and> schema_migrations d' = schema_migrations d \<and>
    (r = None \<longrightarrow> (\<forall>s \<in> set ss. has (parse_sql s) d'))"
  using assms
proof (induction ss arbitrary: d)
  case (Cons s ss)
  note s = Cons.prems(3) [of s, simplified]
  obtain e d1 where e: "exec_text io s d = (e, d1)" by (cases "exec_text io s d")
  have step: "grows d d1 \<and> tables_wide d1 \<and> schema_migrations d1 = schema_migrations d"
    using e exec_up_form [of "parse_sql s" d] s Cons.prems(2)
    by (auto simp: exec_piece split: option.splits sum.splits)
  have made: "has (parse_sql s) d1" if "e = None \<or> (\<exists>err. e = Some err \<and> isDuplicateColumnError err)"
    using e that s Cons.prems(1,2) exec_up_form [of "parse_sql s" d d1] duplicate_column_has [of "parse_sql s" d]
    by (auto simp: exec_piece honest_def split: option.splits sum.splits)
  show ?case
  proof (cases "e = None \<or> (\<exists>err. e = Some err \<and> isDuplicateColumnError err)")
    case True
    with Cons.prems(4) e s have "up_statements io ss d1 = (r, d')" by auto
    with Cons.IH [of d1] Cons.prems step
    have "grows d1 d' \<and> tables_wide d' \<and> schema_migrations d' = schema_migrations d1 \<and>
      (r = None \<longrightarrow> (\<forall>s \<in> set ss. has (parse_sql s) d'))" by auto
    with step made [OF True] show ?thesis using grows_trans has_grows by auto
  next
    case False
    with Cons.prems(4) e s have "d' = d1" "r \<noteq> None" by (auto split: option.splits)
    with step show ?thesis by auto
  qed
qed simp

lemma up_statements_succeeds:
  assumes "tables_wide d"
    and "\<And>s. s \<in> set ss \<Longrightarrow> s \<noteq> [] \<and> trim_space s = s \<and> CHR '';'' \<notin> set s \<and> up_form (parse_sql s)"
    and "\<And>s t c. s \<in> set ss \<Longrightarrow> parse_sql s = ADD_COLUMN t c \<Longrightarrow> gm_get (tables d) t \<noteq> None"
  shows "fst (up_statements no_faults ss d) = None"
  using assms
proof (induction ss arbitrary: d)
  case (Cons s ss)
  note s = Cons.prems(2) [of s, simplified]
  have rest: "fst (up_statements no_faults ss e) = None"
    if "tables_wide e" and more: "\<And>t. gm_get (tables d) t \<noteq> None \<Longrightarrow> gm_get (tables e) t \<noteq> None" for e
  proof (rule Cons.IH)
    show "tables_wide e" by fact
    show "r \<noteq> [] \<and> trim_space r = r \<and> CHR '';'' \<notin> set r \<and> up_form (parse_sql r)" if "r \<in> set ss" for r
      using that Cons.prems(2) [of r] by simp
    show "gm_get (tables e) t \<noteq> None" if "r \<in> set ss" "parse_sql r = ADD_COLUMN t c" for r t c
      using that Cons.prems(3) [of r t c] more [of t] by simp
  qed
  show ?case
  proof (cases "exec_sql (parse_sql s) d")
    case (Inl err)
    with s Cons.prems(3) [of s] have "isDuplicateColumnError err"
      by (cases "parse_sql s") (auto simp: duplicate_column_message [simplified] split: option.splits if_splits)
    with Inl s rest [OF Cons.prems(1)] show ?thesis by (simp add: exec_piece no_faults_def)
  next
    case (Inr d1)
    with s Cons.prems(1) exec_up_form have d1: "grows d d1" "tables_wide d1" by blast+
    have "gm_get (tables d1) t \<noteq> None" if "gm_get (tables d) t \<noteq> None" for t
      using that d1(1) unfolding grows_def by (metis option.exhaust option.simps(3))
    with Inr s rest [OF d1(2)] show ?thesis by (simp add: exec_piece no_faults_def)
  qed
qed simp

subsection \<open>The invariant\<close>

text \<open>After \<open>k\<close> migrations: the record is the first \<open>k\<close> of the list and the catalogue has what they make.\<close>

definition at_version :: "nat \<Rightarrow> catalog \<Rightarrow> bool" where
  "at_version k d \<longleftrightarrow> k \<le> length migrations \<and> tables_wide d \<and> rows_of d = take k recs \<and>
     (\<forall>m \<in> set (take k migrations). \<forall>q \<in> set (up_sql m). has q d)"

definition mig_ok :: "catalog \<Rightarrow> bool" where
  "mig_ok d \<longleftrightarrow> (\<exists>k. at_version k d)"

lemma migration_facts:
  "length migrations = 8" "length recs = 8" "sort_key Version migrations = migrations"
  "Version (last migrations) = 8"
  by (simp_all add: migrations_def recs_def initial_schema_def agent_metadata_columns_def message_read_at_def
      attachments_table_def e2e_encryption_tables_def reactions_and_tags_tables_def
      message_edit_delete_columns_def rate_limit_tiers_table_def)

lemma migration_versions: "map Version migrations = [1, 2, 3, 4, 5, 6, 7, 8]"
  by (simp add: migrations_def initial_schema_def agent_metadata_columns_def message_read_at_def
      attachments_table_def e2e_encryption_tables_def reactions_and_tags_tables_def
      message_edit_delete_columns_def rate_limit_tiers_table_def)

lemma Version_nth: "k < 8 \<Longrightarrow> Version (migrations ! k) = int k + 1"
proof -
  assume k: "k < 8"
  have "Version (migrations ! k) = map Version migrations ! k" using k by (simp add: migration_facts)
  also have "\<dots> = int k + 1"
  proof -
    have "\<forall>k \<in> set [0..<8]. [1, 2, 3, 4, 5, 6, 7, 8 :: int] ! k = int k + 1" by code_simp
    with k show ?thesis by (simp add: migration_versions)
  qed
  finally show ?thesis .
qed

lemma recs_nonempty [simp]: "recs \<noteq> []"
  using migration_facts(2) by auto

lemma recs_versions: "map fst recs = [1, 2, 3, 4, 5, 6, 7, 8]"
  by (simp add: recs_def comp_def migration_versions)

lemma recs_nth: "k < 8 \<Longrightarrow> recs ! k = (Version (migrations ! k), Name (migrations ! k))"
  by (simp add: recs_def migration_facts)

lemma take_recs_versions: "k \<le> 8 \<Longrightarrow> map fst (take k recs) = map (\<lambda>i. int i + 1) [0..<k]"
proof -
  assume k: "k \<le> 8"
  have "map fst (take k recs) = take k (map (\<lambda>i. int i + 1) [0..<8])"
  proof -
    have "map (\<lambda>i. int i + 1) [0..<8] = [1, 2, 3, 4, 5, 6, 7, 8]" by code_simp
    then show ?thesis by (simp add: recs_versions flip: take_map del: upt_Suc)
  qed
  with k show ?thesis by (simp add: take_map take_upt)
qed

lemma take_recs_less: "k \<le> 8 \<Longrightarrow> v \<in> set (map fst (take k recs)) \<longleftrightarrow> 1 \<le> v \<and> v \<le> int k"
proof -
  assume "k \<le> 8"
  then have "v \<in> set (map fst (take k recs)) \<longleftrightarrow> (\<exists>i<k. v = int i + 1)" by (auto simp: take_recs_versions)
  also have "\<dots> \<longleftrightarrow> 1 \<le> v \<and> v \<le> int k" by (auto intro: exI [of _ "nat (v - 1)"])
  finally show ?thesis .
qed

text \<open>A table that a script adds columns to is made by the first migration.\<close>

lemma add_column_after_first:
  assumes "k < 8" and "ADD_COLUMN t c \<in> set (up_sql (migrations ! k))"
  shows "0 < k \<and> (\<exists>cs. CREATE_TABLE t cs \<in> set (up_sql (migrations ! 0)))"
proof -
  have at: "up_sql (migrations ! k) = up_scripts ! k" if "k < 8" for k
    using that by (simp add: migration_facts flip: up_sql_migrations)
  have t: "t = ''agents'' \<or> t = ''messages''"
    using up_form_scripts [of "migrations ! k", OF _ assms(2)] assms(1) by (simp add: migration_facts)
  have first: "up_scripts ! 0 = create_tables (take 5 up_tables)" by (simp add: up_scripts_def)
  have "ADD_COLUMN t c \<notin> set (create_tables ts)" for ts by (auto simp: create_tables_def)
  then have "0 < k" using assms at [of k] first by (cases k) auto
  moreover have "map_of (take 5 up_tables) ''agents'' \<noteq> None" "map_of (take 5 up_tables) ''messages'' \<noteq> None"
    by code_simp+
  with t obtain cs where "map_of (take 5 up_tables) t = Some cs" by auto
  then have "CREATE_TABLE t cs \<in> set (up_scripts ! 0)"
    unfolding first create_tables_def by (force dest: map_of_SomeD)
  ultimately show ?thesis using at [of 0] by auto
qed

lemma nth_migration: "k < 8 \<Longrightarrow> migrations ! k \<in> set migrations"
  by (simp add: migration_facts)

lemma up_pieces:
  "m \<in> set migrations \<Longrightarrow> s \<in> set (splitStatements (UpSQL m)) \<Longrightarrow>
   s \<noteq> [] \<and> trim_space s = s \<and> CHR '';'' \<notin> set s \<and> up_form (parse_sql s)"
  using splitStatements_pieces up_form_scripts by (simp add: up_sql_def)

lemma at_version_step:
  assumes "honest io" and "at_version k d" and "k < 8" and "schema_migrations d \<noteq> None"
    and "up_statements io (splitStatements (UpSQL (migrations ! k))) d = (r, d')"
  shows "at_version k d'" and "schema_migrations d' = schema_migrations d"
    and "r = None \<Longrightarrow> record_migration io (migrations ! k) d' = Inr d'' \<Longrightarrow>
      at_version (Suc k) d'' \<and> schema_migrations d'' \<noteq> None"
proof -
  let ?m = "migrations ! k"
  have up: "grows d d' \<and> tables_wide d' \<and> schema_migrations d' = schema_migrations d \<and>
      (r = None \<longrightarrow> (\<forall>s \<in> set (splitStatements (UpSQL ?m)). has (parse_sql s) d'))"
    using up_statements_keeps [OF assms(1) _ up_pieces [OF nth_migration [OF assms(3)]] assms(5)] assms(2)
    by (simp add: at_version_def)
  then show at: "at_version k d'" and rows: "schema_migrations d' = schema_migrations d"
    using assms(2) by (auto simp: at_version_def rows_of_def intro: has_grows)
  assume r: "r = None" "record_migration io ?m d' = Inr d''"
  then obtain rs where rs: "schema_migrations d' = Some rs" "d'' = d'\<lparr>schema_migrations := Some (rs @ [(Version ?m, Name ?m)])\<rparr>"
    by (auto simp: record_migration_def split: option.splits if_splits)
  from at rs(1) have "rs = take k recs" by (simp add: at_version_def rows_of_def)
  with up r(1) rs at assms(3) show "at_version (Suc k) d'' \<and> schema_migrations d'' \<noteq> None"
    by (auto simp: at_version_def rows_of_def take_Suc_conv_app_nth recs_nth migration_facts up_sql_def)
qed

lemma up_loop_keeps:
  assumes "honest io" and "at_version k d" and "n \<le> k" and "schema_migrations d \<noteq> None"
    and "up_loop io (int n) target (drop k migrations) d = (r, d')"
  shows "\<exists>k' \<ge> k. at_version k' d' \<and> (r = None \<longrightarrow> int k' = max (int k) (min target 8))"
  using assms
proof (induction "8 - k" arbitrary: k d)
  case 0
  then have "k = 8" by (simp add: at_version_def migration_facts)
  with 0 show ?case by (auto simp: migration_facts)
next
  case (Suc x)
  then have k: "k < 8" by simp
  then have ms: "drop k migrations = migrations ! k # drop (Suc k) migrations"
    by (simp add: Cons_nth_drop_Suc migration_facts)
  show ?case
  proof (cases "int k + 1 > target")
    case True
    then show ?thesis using Suc.prems k by (intro exI [of _ k]) (simp add: ms Version_nth)
  next
    case False
    obtain ru d1 where up: "up_statements io (splitStatements (UpSQL (migrations ! k))) d = (ru, d1)"
      by (cases "up_statements io (splitStatements (UpSQL (migrations ! k))) d")
    note step = at_version_step [OF Suc.prems(1,2) k Suc.prems(4) up]
    show ?thesis
    proof (cases "ru = None \<and> (\<exists>d2. record_migration io (migrations ! k) d1 = Inr d2)")
      case True
      then obtain d2 where d2: "ru = None" "record_migration io (migrations ! k) d1 = Inr d2" by blast
      have x: "x = 8 - Suc k" using Suc.hyps(2) by simp
      have "up_loop io (int n) target (drop (Suc k) migrations) d2 = (r, d')"
        using Suc.prems(3,5) False up d2 k by (simp add: ms Version_nth)
      then obtain k' where "Suc k \<le> k'" "at_version k' d'" "r = None \<longrightarrow> int k' = max (int (Suc k)) (min target 8)"
        using Suc.hyps(1) [OF x] Suc.prems(1,3) step(3) [OF d2] by (metis le_SucI)
      then show ?thesis using False k by (intro exI [of _ k']) (auto simp: max_def min_def)
    next
      case fail: False
      then have "d' = d1 \<and> r \<noteq> None"
        using Suc.prems(3,5) False up k by (auto simp: ms Version_nth split: sum.splits option.splits)
      then show ?thesis using step(1) by (intro exI [of _ k]) auto
    qed
  qed
qed

lemma up_loop_skips:
  "k \<le> 8 \<Longrightarrow> up_loop io (int k) target migrations d = up_loop io (int k) target (drop k migrations) d"
proof -
  have "up_loop io current target (us @ ms) d = up_loop io current target ms d"
    if "\<And>m. m \<in> set us \<Longrightarrow> Version m \<le> current" for us ms current
    using that by (induction us) auto
  moreover assume k: "k \<le> 8"
  have "Version m \<le> int k" if "m \<in> set (take k migrations)" for m
  proof -
    have "Version m \<in> set (map fst (take k recs))" using that by (auto simp: recs_def take_map comp_def)
    with k show ?thesis by (simp only: take_recs_less)
  qed
  ultimately show ?thesis by (metis append_take_drop_id)
qed

lemma current_version:
  assumes "at_version k d" and "getCurrentVersion io d = Inr v"
  shows "v = int k"
proof (cases "k = 0")
  case True
  with assms show ?thesis
    by (auto simp: at_version_def rows_of_def getCurrentVersion_def split: option.splits)
next
  case False
  have k: "k \<le> 8" using assms(1) by (simp add: at_version_def migration_facts)
  have "Max (set (map fst (take k recs))) = int k"
    by (rule Max_eqI) (use False k take_recs_less in \<open>auto simp: Suc_le_eq simp del: set_map\<close>)
  with assms False show ?thesis
    by (auto simp: at_version_def rows_of_def getCurrentVersion_def migration_facts split: option.splits)
qed

lemma ensure_keeps:
  assumes "at_version k d" and "ensureMigrationsTable io d = (r, d')"
  shows "at_version k d'" and "r = None \<Longrightarrow> schema_migrations d' \<noteq> None"
  using assms
  by (auto simp: ensureMigrationsTable_def exec_text_def parse_ddl at_version_def rows_of_def
      split: option.splits if_splits)

text \<open>A command either stops before it has done anything, or it runs on the same version with the table there.\<close>

lemma with_version_cases:
  assumes "at_version k d" and "with_version io f d = (r, d')"
  obtains (stopped) "r \<noteq> None" "at_version k d'"
    | (runs) d1 where "at_version k d1" "schema_migrations d1 \<noteq> None" "f (int k) d1 = (r, d')"
proof -
  obtain e d1 where e: "ensureMigrationsTable io d = (e, d1)" by (cases "ensureMigrationsTable io d")
  note d1 = ensure_keeps [OF assms(1) e]
  show thesis
  proof (cases "e = None \<and> (\<exists>v. getCurrentVersion io d1 = Inr v)")
    case True
    then obtain v where v: "e = None" "getCurrentVersion io d1 = Inr v" by blast
    with assms(2) e current_version [OF d1(1) v(2)] have "f (int k) d1 = (r, d')" by (simp add: with_version_def)
    with runs d1 v(1) show ?thesis by blast
  next
    case False
    with assms(2) e have "d' = d1 \<and> r \<noteq> None" by (auto simp: with_version_def split: option.splits sum.splits)
    with stopped d1(1) show ?thesis by blast
  qed
qed

lemma migrateUp_keeps:
  assumes "honest io" and "at_version k d" and "migrateUp io target d = (r, d')"
  shows "\<exists>k' \<ge> k. at_version k' d' \<and>
    (r = None \<longrightarrow> int k' = max (int k) (if target < 0 then 8 else target))"
  using assms(2) assms(3) [unfolded migrateUp_def]
proof (cases rule: with_version_cases)
  case stopped
  then show ?thesis by (intro exI [of _ k]) auto
next
  case (runs d1)
  let ?t = "if target < 0 then 8 else target"
  show ?thesis
  proof (cases "?t > 8")
    case True
    with runs have "d' = d1" "r \<noteq> None" by (auto simp: Let_def migration_facts split: if_splits)
    with runs(1) show ?thesis by (intro exI [of _ k]) auto
  next
    case False
    with runs(1,3) have "up_loop io (int k) ?t (drop k migrations) d1 = (r, d')"
      by (simp add: Let_def migration_facts at_version_def up_loop_skips split: if_splits)
    from up_loop_keeps [OF assms(1) runs(1) order_refl runs(2) this] False show ?thesis
      by (auto simp: min_def split: if_splits)
  qed
qed

text \<open>Without faults a migration up does not fail.\<close>

lemma up_loop_succeeds:
  assumes "at_version k d" and "n \<le> k" and "schema_migrations d \<noteq> None"
  shows "fst (up_loop no_faults (int n) target (drop k migrations) d) = None"
  using assms
proof (induction "8 - k" arbitrary: k d)
  case 0
  then have "k = 8" by (simp add: at_version_def migration_facts)
  then show ?case by (simp add: migration_facts)
next
  case (Suc x)
  then have k: "k < 8" and x: "x = 8 - Suc k" by simp_all
  let ?m = "migrations ! k"
  have ms: "drop k migrations = ?m # drop (Suc k) migrations"
    using k by (simp add: Cons_nth_drop_Suc migration_facts)
  have there: "gm_get (tables d) t \<noteq> None" if "ADD_COLUMN t c \<in> set (up_sql ?m)" for t c
  proof -
    from add_column_after_first [OF k that] obtain cs where "0 < k" "CREATE_TABLE t cs \<in> set (up_sql (migrations ! 0))"
      by blast
    moreover have "migrations ! 0 \<in> set (take k migrations)"
      using nth_mem [of 0 "take k migrations"] \<open>0 < k\<close> by (simp add: migration_facts(1))
    ultimately have "has (CREATE_TABLE t cs) d" using Suc.prems(1) unfolding at_version_def by blast
    then show ?thesis by auto
  qed
  have "fst (up_statements no_faults (splitStatements (UpSQL ?m)) d) = None"
  proof (rule up_statements_succeeds)
    show "tables_wide d" using Suc.prems(1) by (simp add: at_version_def)
    show "gm_get (tables d) t \<noteq> None"
      if "s \<in> set (splitStatements (UpSQL ?m))" "parse_sql s = ADD_COLUMN t c" for s t c
      using there [of t c] that by (force simp: up_sql_def)
  qed (rule up_pieces [OF nth_migration [OF k]])
  then obtain d1 where up: "up_statements no_faults (splitStatements (UpSQL ?m)) d = (None, d1)" by (metis eq_fst_iff)
  note step = at_version_step [OF honest_no_faults Suc.prems(1) k Suc.prems(3) up]
  obtain rs where rs: "schema_migrations d1 = Some rs" "rs = take k recs"
    using step(1,2) Suc.prems(3) by (auto simp: at_version_def rows_of_def)
  then have "Version ?m \<notin> set (map fst rs)" using k take_recs_less [of k "int k + 1"] by (simp add: Version_nth del: set_map)
  then obtain d2 where d2: "record_migration no_faults ?m d1 = Inr d2"
    using rs(1) by (simp add: record_migration_def no_faults_def)
  have "fst (up_loop no_faults (int n) target (drop (Suc k) migrations) d2) = None"
    using Suc.hyps(1) [OF x] step(3) [OF refl d2] Suc.prems(2) by simp
  then show ?case using up d2 k Suc.prems(2) by (simp add: ms Version_nth)
qed

lemma migrateUp_succeeds:
  assumes "at_version k d" and "target \<le> 8"
  shows "fst (migrateUp no_faults target d) = None"
proof -
  obtain d1 where e: "ensureMigrationsTable no_faults d = (None, d1)"
    by (auto simp: ensureMigrationsTable_def exec_text_def no_faults_def parse_ddl)
  note d1 = ensure_keeps [OF assms(1) e]
  then obtain v where v: "getCurrentVersion no_faults d1 = Inr v"
    by (auto simp: getCurrentVersion_def no_faults_def)
  have k: "k \<le> 8" using assms(1) by (simp add: at_version_def migration_facts)
  show ?thesis
    using e v current_version [OF d1(1) v] up_loop_succeeds [OF d1(1) order_refl] d1(2) assms(2)
    by (simp add: migrateUp_def with_version_def Let_def migration_facts up_loop_skips [OF k])
qed

subsection \<open>Down\<close>

definition drops :: "Migration \<Rightarrow> string set" where
  "drops m = {t. DROP_TABLE t \<in> set (down_sql m)}"

fun down_form :: "sql \<Rightarrow> bool" where
  "down_form (DROP_TABLE t) \<longleftrightarrow> True"
| "down_form (SYNTAX_ERROR w) \<longleftrightarrow> True"
| "down_form _ \<longleftrightarrow> False"

fun table_of :: "sql \<Rightarrow> string" where
  "table_of (CREATE_TABLE t cs) = t"
| "table_of (ADD_COLUMN t c) = t"
| "table_of (DROP_TABLE t) = t"
| "table_of _ = []"

lemma down_form_scripts: "m \<in> set migrations \<Longrightarrow> q \<in> set (down_sql m) \<Longrightarrow> down_form q"
proof -
  assume "m \<in> set migrations" "q \<in> set (down_sql m)"
  then have "q \<in> set (concat down_scripts)" by (auto simp flip: down_sql_migrations)
  moreover have "list_all down_form (concat down_scripts)" by code_simp
  ultimately show ?thesis unfolding list_all_iff by blast
qed

text \<open>A down script drops no table that an earlier migration made or changed.\<close>

lemma drops_later_tables:
  assumes "k < 8" and "m \<in> set (take k migrations)" and "q \<in> set (up_sql m)"
  shows "table_of q \<notin> drops (migrations ! k)"
proof -
  have down: "down_sql (migrations ! k) = down_scripts ! k"
    using assms(1) by (simp add: migration_facts flip: down_sql_migrations)
  have up: "q \<in> set (concat (take k up_scripts))"
    using assms(2,3) by (auto simp: take_map simp flip: up_sql_migrations)
  have "\<forall>k \<in> set [0..<8]. \<forall>q \<in> set (concat (take k up_scripts)). DROP_TABLE (table_of q) \<notin> set (down_scripts ! k)"
    by code_simp
  with assms(1) up have "DROP_TABLE (table_of q) \<notin> set (down_scripts ! k)" by (metis atLeastLessThan_iff le0 set_upt)
  then show ?thesis by (simp add: drops_def down)
qed

lemma down_statements_effect:
  assumes "\<And>s. s \<in> set ss \<Longrightarrow> s \<noteq> [] \<and> trim_space s = s \<and> CHR '';'' \<notin> set s \<and>
      (has_prefix s ''--'' \<or> down_form (parse_sql s) \<and> (\<forall>t. parse_sql s = DROP_TABLE t \<longrightarrow> t \<in> D))"
    and "d' = down_statements io ss d"
  shows "schema_migrations d' = schema_migrations d \<and> (\<forall>t. t \<notin> D \<longrightarrow> gm_get (tables d') t = gm_get (tables d) t) \<and>
    (\<forall>t. gm_get (tables d') t = None \<or> gm_get (tables d') t = gm_get (tables d) t)"
  using assms
proof (induction ss arbitrary: d)
  case (Cons s ss)
  note s = Cons.prems(1) [of s, simplified]
  let ?d = "if has_prefix s ''--'' then d else snd (exec_text io s d)"
  have step: "schema_migrations ?d = schema_migrations d \<and> (\<forall>t. t \<notin> D \<longrightarrow> gm_get (tables ?d) t = gm_get (tables d) t) \<and>
    (\<forall>t. gm_get (tables ?d) t = None \<or> gm_get (tables ?d) t = gm_get (tables d) t)"
    using s by (cases "parse_sql s") (auto simp: exec_piece split: option.splits)
  have "d' = down_statements io ss ?d" using Cons.prems(2) s by simp
  with Cons.IH [of ?d] Cons.prems(1) step show ?case by (metis list.set_intros(2))
qed simp

lemma has_same_table: "gm_get (tables d') (table_of q) = gm_get (tables d) (table_of q) \<Longrightarrow> has q d' = has q d"
  by (cases q) simp_all

lemma at_version_down:
  assumes "at_version (Suc k) d" and "remove_migration io (migrations ! k) (down_statements io (splitStatements (DownSQL (migrations ! k))) d) = Inr d'"
  shows "at_version k d' \<and> schema_migrations d' \<noteq> None"
proof -
  let ?m = "migrations ! k"
  let ?d = "down_statements io (splitStatements (DownSQL ?m)) d"
  have k: "k < 8" using assms(1) by (simp add: at_version_def migration_facts)
  have pieces: "s \<noteq> [] \<and> trim_space s = s \<and> CHR '';'' \<notin> set s \<and>
      (has_prefix s ''--'' \<or> down_form (parse_sql s) \<and> (\<forall>t. parse_sql s = DROP_TABLE t \<longrightarrow> t \<in> drops ?m))"
    if "s \<in> set (splitStatements (DownSQL ?m))" for s
    using that splitStatements_pieces [OF that] down_form_scripts [OF nth_migration [OF k], of "parse_sql s"]
    by (force simp: drops_def down_sql_def)
  note effect = down_statements_effect [where D = "drops ?m", OF pieces refl]
  have wide: "tables_wide ?d"
    unfolding tables_wide_def
  proof (clarsimp)
    fix t cs cs' x
    assume t: "(t, cs) \<in> set up_tables" "gm_get (tables ?d) t = Some cs'" "x \<in> set cs"
    with effect have "gm_get (tables d) t = Some cs'" by (metis option.simps(3))
    with t assms(1) show "x \<in> set cs'" using tables_wideD [of d t cs cs'] by (auto simp: at_version_def)
  qed
  have kept: "has q ?d" if "m \<in> set (take k migrations)" "q \<in> set (up_sql m)" for m q
  proof -
    have "gm_get (tables ?d) (table_of q) = gm_get (tables d) (table_of q)"
      using effect drops_later_tables [OF k that] by blast
    moreover have "m \<in> set (take (Suc k) migrations)" using that(1) k by (simp add: take_Suc_conv_app_nth migration_facts)
    ultimately show ?thesis using assms(1) that(2) has_same_table unfolding at_version_def by blast
  qed
  obtain rs where rs: "schema_migrations ?d = Some rs" "d' = ?d\<lparr>schema_migrations := Some (filter (\<lambda>r. fst r \<noteq> Version ?m) rs)\<rparr>"
    using assms(2) by (auto simp: remove_migration_def split: option.splits)
  have "schema_migrations ?d = schema_migrations d" using effect by blast
  with assms(1) rs(1) have "rs = take (Suc k) recs" by (simp add: at_version_def rows_of_def)
  moreover have "filter (\<lambda>r. fst r \<noteq> Version ?m) (take k recs) = take k recs"
    unfolding filter_id_conv using take_recs_less [of k "Version ?m"] k by (force simp: Version_nth)
  ultimately have "filter (\<lambda>r. fst r \<noteq> Version ?m) rs = take k recs"
    using k by (simp add: take_Suc_conv_app_nth recs_nth migration_facts)
  then show ?thesis using rs wide kept k by (auto simp: at_version_def rows_of_def migration_facts)
qed

definition removal_failed :: "mig_error option \<Rightarrow> bool" where
  "removal_failed r \<longleftrightarrow> (\<exists>v err. r = Some (RemoveFailed v err))"

lemma down_loop_keeps:
  assumes "at_version k d" and "k \<le> n" and "schema_migrations d \<noteq> None"
    and "down_loop io (int n) target (rev (take k migrations)) d = (r, d')" and "\<not> removal_failed r"
  shows "\<exists>k' \<le> k. at_version k' d' \<and> r = None \<and> int k' = (if 0 \<le> target then min (int k) target else 0)"
  using assms
proof (induction k arbitrary: d)
  case (Suc k)
  then have k: "k < 8" by (simp add: at_version_def migration_facts)
  then have ms: "rev (take (Suc k) migrations) = migrations ! k # rev (take k migrations)"
    by (simp add: take_Suc_conv_app_nth migration_facts)
  let ?d = "down_statements io (splitStatements (DownSQL (migrations ! k))) d"
  show ?case
  proof (cases "int k + 1 \<le> target")
    case True
    have skip: "down_loop io (int n) target (rev (take j migrations)) d = (None, d)" if "j \<le> Suc k" for j
      using that
    proof (induction j)
      case (Suc j)
      with k True show ?case by (simp add: take_Suc_conv_app_nth migration_facts Version_nth)
    qed simp
    then show ?thesis using Suc.prems True by (intro exI [of _ "Suc k"]) auto
  next
    case False
    show ?thesis
    proof (cases "remove_migration io (migrations ! k) ?d")
      case (Inl err)
      then have "removal_failed r"
        using Suc.prems(2,4) False k by (auto simp: ms Version_nth Let_def removal_failed_def)
      with Suc.prems(5) show ?thesis by blast
    next
      case (Inr d2)
      from Inr Suc.prems(2,4) False k have "down_loop io (int n) target (rev (take k migrations)) d2 = (r, d')"
        by (simp add: ms Version_nth Let_def)
      with Suc.IH [of d2] at_version_down [OF Suc.prems(1) Inr] Suc.prems(2,5)
      obtain k' where "k' \<le> k" "at_version k' d'" "r = None" "int k' = (if 0 \<le> target then min (int k) target else 0)"
        by auto
      then show ?thesis using False by (intro exI [of _ k']) auto
    qed
  qed
qed auto

lemma migrateDown_keeps:
  assumes "at_version k d" and "migrateDown io target d = (r, d')" and "\<not> removal_failed r"
  shows "\<exists>k' \<le> k. at_version k' d' \<and> (r = None \<longrightarrow> int k' = min (int k) (max 0 target))"
  using assms(1) assms(2) [unfolded migrateDown_def]
proof (cases rule: with_version_cases)
  case stopped
  then show ?thesis by (intro exI [of _ k]) auto
next
  case (runs d1)
  let ?t = "if target < 0 then 0 else target"
  have k: "k \<le> 8" using assms(1) by (simp add: at_version_def migration_facts)
  show ?thesis
  proof (cases "?t \<ge> int k")
    case True
    with runs(3) have "d' = d1" "r = None" by (auto simp: Let_def split: if_splits)
    with runs(1) True show ?thesis by (intro exI [of _ k]) (auto split: if_splits)
  next
    case False
    have high: "down_loop io (int k) ?t (rev (drop k migrations) @ ms) d1 = down_loop io (int k) ?t ms d1" for ms
    proof -
      have "down_loop io current target (us @ ms) d1 = down_loop io current target ms d1"
        if "\<And>m. m \<in> set us \<Longrightarrow> Version m > current" for us current target
        using that by (induction us) auto
      moreover have "Version m > int k" if "m \<in> set (rev (drop k migrations))" for m
        using that k by (auto simp: in_set_conv_nth migration_facts Version_nth)
      ultimately show ?thesis by blast
    qed
    have "rev migrations = rev (drop k migrations) @ rev (take k migrations)" by (simp flip: rev_append)
    with runs(3) False high have "down_loop io (int k) ?t (rev (take k migrations)) d1 = (r, d')"
      by (simp add: Let_def migration_facts split: if_splits)
    from down_loop_keeps [OF runs(1) order_refl runs(2) this assms(3)] show ?thesis
      by (auto simp: max_def split: if_splits)
  qed
qed

subsection \<open>Server starts\<close>

lemma set_add_col [simp]: "set (add_col c cs) = insert c (set cs)"
  by (auto simp: add_col_def)

lemma server_tables_cover:
  "(t, cs) \<in> set up_tables \<Longrightarrow> \<exists>cs'. map_of (server_tables @ later_tables) t = Some cs' \<and> set cs \<subseteq> set cs'"
proof -
  have "list_all (\<lambda>(t, cs). case map_of (server_tables @ later_tables) t of None \<Rightarrow> False | Some cs' \<Rightarrow> set cs \<subseteq> set cs') up_tables"
    by code_simp
  moreover assume "(t, cs) \<in> set up_tables"
  ultimately have "case map_of (server_tables @ later_tables) t of None \<Rightarrow> False | Some cs' \<Rightarrow> set cs \<subseteq> set cs'"
    unfolding list_all_iff by fastforce
  then show ?thesis by (simp split: option.splits del: map_of_append)
qed

lemma add_columns_cover:
  "m \<in> set migrations \<Longrightarrow> ADD_COLUMN t c \<in> set (up_sql m) \<Longrightarrow>
   t = ''agents'' \<and> c \<in> set [''model'', ''personality'', ''specialty''] \<or>
   t = ''messages'' \<and> c \<in> set [''read_at'', ''edited_at'', ''is_deleted'']"
proof -
  assume "m \<in> set migrations" "ADD_COLUMN t c \<in> set (up_sql m)"
  then have "ADD_COLUMN t c \<in> set (concat up_scripts)" by (auto simp flip: up_sql_migrations)
  moreover have "list_all (\<lambda>q. case q of ADD_COLUMN t c \<Rightarrow>
      t = ''agents'' \<and> c \<in> set [''model'', ''personality'', ''specialty''] \<or>
      t = ''messages'' \<and> c \<in> set [''read_at'', ''edited_at'', ''is_deleted''] | _ \<Rightarrow> True) (concat up_scripts)"
    by code_simp
  ultimately show ?thesis unfolding list_all_iff by fastforce
qed

lemma init_columns_base:
  assumes "(case gm_get (tables d) t of Some cs \<Rightarrow> Some cs | None \<Rightarrow> map_of (server_tables @ later_tables) t) = Some base"
  obtains cs where "init_columns dr d t = Some cs" "set base \<subseteq> set cs"
proof (rule that)
  let ?cs = "if t = ''agents'' then fold add_col [''model'', ''personality'', ''specialty''] base
      else if t = ''messages'' then fold add_col (message_columns dr) base else base"
  show "init_columns dr d t = Some ?cs"
    unfolding init_columns_def Let_def assms by simp
  show "set base \<subseteq> set ?cs" by (auto simp: message_columns_def)
qed

lemma inline_is_recs: "inlineMigrations = recs"
  by (simp add: inlineMigrations_def recs_def migrations_def initial_schema_def agent_metadata_columns_def
      message_read_at_def attachments_table_def e2e_encryption_tables_def reactions_and_tags_tables_def
      message_edit_delete_columns_def rate_limit_tiers_table_def)

lemma initSchema_keeps:
  assumes "at_version k d" and "initSchema no_faults dr d = (None, d')" and "dr \<noteq> DriverPostgreSQL"
  shows "at_version (if k = 0 then 8 else k) d'"
proof -
  from initSchema_no_faults [of dr d] assms(2)
  have cols: "gm_get (tables d') t = init_columns dr d t" for t by (metis prod.inject)
  from initSchema_no_faults [of dr d] assms(2)
  have rows: "schema_migrations d' = Some (if rows_of d = [] then inlineMigrations else rows_of d)"
    by (metis prod.inject)
  have wide: "tables_wide d" using assms(1) by (simp add: at_version_def)
  have covered: "\<exists>cs'. gm_get (tables d') t = Some cs' \<and> set cs \<subseteq> set cs'" if t: "(t, cs) \<in> set up_tables" for t cs
  proof -
    obtain base where base: "(case gm_get (tables d) t of Some cs \<Rightarrow> Some cs
        | None \<Rightarrow> map_of (server_tables @ later_tables) t) = Some base" "set cs \<subseteq> set base"
      using server_tables_cover [OF t] tables_wideD [OF wide t] by (cases "gm_get (tables d) t") (auto simp del: map_of_append)
    then show ?thesis using init_columns_base [OF base(1)] cols by (metis subset_trans)
  qed
  have made: "has q d'" if m: "m \<in> set migrations" "q \<in> set (up_sql m)" for m q
  proof (cases q)
    case (CREATE_TABLE t cs)
    with up_form_scripts [OF m] covered show ?thesis by simp
  next
    case (ADD_COLUMN t c)
    have "\<exists>cs. (''agents'', cs) \<in> set up_tables" "\<exists>cs. (''messages'', cs) \<in> set up_tables"
      by (auto simp: up_tables_def)
    with covered obtain ca cm where there: "init_columns dr d ''agents'' = Some ca" "init_columns dr d ''messages'' = Some cm"
      unfolding cols by metis
    with add_columns_cover [OF m(1), of t c] m(2) ADD_COLUMN assms(3) show ?thesis
      by (auto simp: cols init_columns_def Let_def message_columns_def simp del: map_of_append)
  qed (use up_form_scripts [OF m] in auto)
  have "tables_wide d'" unfolding tables_wide_def using covered by fastforce
  moreover have "rows_of d' = take (if k = 0 then 8 else k) recs"
    using assms(1) rows by (auto simp: at_version_def rows_of_def inline_is_recs migration_facts)
  ultimately show ?thesis
    using assms(1) made by (auto simp: at_version_def migration_facts dest: in_set_takeD)
qed

subsection \<open>Every sequence of commands and starts\<close>

text \<open>The steps a database file goes through: the commands of the tool, which may fail at any statement, and the starts
  of the server on it (the tool opens SQLite files only). Two kinds of step are left out, after which the record no
  longer tells what is in the database: a \<open>down\<close> whose deletion of a record fails, which has dropped the tables of a
  migration that stays recorded, and a start with failing statements, which can record all eight migrations on a new
  \<open>schema_migrations\<close> table and then ignore that adding a column has failed.\<close>

inductive mig_step :: "catalog \<Rightarrow> catalog \<Rightarrow> bool" where
  step_up: "honest io \<Longrightarrow> migrateUp io target d = (r, d') \<Longrightarrow> mig_step d d'"
| step_down: "migrateDown io target d = (r, d') \<Longrightarrow> \<not> removal_failed r \<Longrightarrow> mig_step d d'"
| step_status: "showStatus io d = (st, d') \<Longrightarrow> mig_step d d'"
| step_start: "dr \<noteq> DriverPostgreSQL \<Longrightarrow> initSchema no_faults dr d = (None, d') \<Longrightarrow> mig_step d d'"

inductive mig_reachable :: "catalog \<Rightarrow> bool" where
  reach_new: "mig_reachable empty_catalog"
| reach_step: "mig_reachable d \<Longrightarrow> mig_step d d' \<Longrightarrow> mig_reachable d'"

lemma at_version_empty: "at_version 0 empty_catalog"
  by (auto simp: at_version_def tables_wide_def empty_catalog_def rows_of_def)

lemma showStatus_catalog: "showStatus io d = (st, d') \<Longrightarrow> d' = snd (ensureMigrationsTable io d)"
  by (auto simp: showStatus_def Let_def split: option.splits sum.splits prod.splits)

lemma mig_step_keeps: "mig_ok d \<Longrightarrow> mig_step d d' \<Longrightarrow> mig_ok d'"
proof -
  assume "mig_ok d" "mig_step d d'"
  then obtain k where k: "at_version k d" by (auto simp: mig_ok_def)
  from \<open>mig_step d d'\<close> show ?thesis
  proof (cases rule: mig_step.cases)
    case step_up
    then show ?thesis using migrateUp_keeps [OF _ k] unfolding mig_ok_def by blast
  next
    case step_down
    then show ?thesis using migrateDown_keeps [OF k] unfolding mig_ok_def by blast
  next
    case step_status
    then show ?thesis using showStatus_catalog ensure_keeps(1) [OF k] by (metis mig_ok_def prod.collapse)
  next
    case step_start
    then show ?thesis using initSchema_keeps [OF k] by (auto simp: mig_ok_def)
  qed
qed

lemma reachable_ok: "mig_reachable d \<Longrightarrow> mig_ok d"
  by (induction rule: mig_reachable.induct) (use at_version_empty mig_step_keeps in \<open>auto simp: mig_ok_def\<close>)

lemma at_version_rows: "at_version k d \<Longrightarrow> k = length (rows_of d)"
  by (simp add: at_version_def migration_facts)

text \<open>C22: After any sequence of commands of the tool, each of which may fail at any statement (a down at any but the
  deletion of a record), and of server starts without failing statements, the record of migrations is a prefix of the list, and a migration up to any
  version the tool knows succeeds when the database answers: it ends at the larger of the old version and the target
  (8 for the latest), and the catalogue then has every table and column of the recorded migrations.\<close>

theorem migrateUp_after_any_history:
  assumes "mig_reachable d" and "target \<le> 8"
  shows "\<exists>d' k'. migrateUp no_faults target d = (None, d') \<and> rows_of d = take (length (rows_of d)) recs \<and>
    int k' = max (int (length (rows_of d))) (if target < 0 then 8 else target) \<and> rows_of d' = take k' recs \<and>
    (\<forall>m \<in> set (take k' migrations). \<forall>q \<in> set (up_sql m). has q d')"
proof -
  from reachable_ok [OF assms(1)] obtain k where k: "at_version k d" by (auto simp: mig_ok_def)
  obtain d' where d': "migrateUp no_faults target d = (None, d')"
    using migrateUp_succeeds [OF k assms(2)] by (metis eq_fst_iff)
  from migrateUp_keeps [OF honest_no_faults k d'] obtain k' where k': "at_version k' d'"
    "int k' = max (int k) (if target < 0 then 8 else target)" by auto
  show ?thesis
    using d' k k' at_version_rows [OF k] by (intro exI [of _ d'] exI [of _ k']) (auto simp: at_version_def)
qed

theorem migrateUp_after_any_history_witness:
  "\<exists>d' k'. migrateUp no_faults (-1) empty_catalog = (None, d') \<and> int k' = 8 \<and> rows_of d' = take k' recs \<and>
    (\<forall>m \<in> set (take k' migrations). \<forall>q \<in> set (up_sql m). has q d')"
  using migrateUp_after_any_history [of empty_catalog "-1", OF reach_new]
  by (simp add: rows_of_def empty_catalog_def)

lemma exec_keeps_record:
  "schema_migrations d \<noteq> None \<Longrightarrow> exec_sql q d = Inr d' \<Longrightarrow> schema_migrations d' \<noteq> None"
  by (cases q) (auto split: option.splits if_splits)

lemma exec_text_keeps_record:
  assumes "schema_migrations d \<noteq> None"
  shows "schema_migrations (snd (exec_text io s d)) \<noteq> None"
proof -
  have "schema_migrations (snd (exec_all qs d)) \<noteq> None" for qs
    using assms by (induction qs arbitrary: d) (use exec_keeps_record in \<open>auto split: sum.splits\<close>)
  with assms show ?thesis by (simp add: exec_text_def split: option.splits)
qed

lemma down_loop_succeeds:
  "schema_migrations d \<noteq> None \<Longrightarrow> fst (down_loop no_faults n t ms d) = None"
proof (induction ms arbitrary: d)
  case (Cons m ms)
  have stmts: "schema_migrations (down_statements no_faults ss e) \<noteq> None" if "schema_migrations e \<noteq> None" for ss e
    using that by (induction ss arbitrary: e) (auto simp: Let_def exec_text_keeps_record simp del: not_None_eq)
  from stmts [OF Cons.prems] obtain rs where
    "schema_migrations (down_statements no_faults (splitStatements (DownSQL m)) d) = Some rs" by blast
  then obtain d2 where "remove_migration no_faults m (down_statements no_faults (splitStatements (DownSQL m)) d) = Inr d2"
    "schema_migrations d2 \<noteq> None"
    by (simp add: remove_migration_def no_faults_def [abs_def, symmetric] fun_cong [OF no_faults_def])
  with Cons.IH [of d] Cons.IH [of d2] Cons.prems show ?case by (simp add: Let_def)
qed simp

lemma migrateDown_succeeds:
  assumes "at_version k d"
  shows "fst (migrateDown no_faults target d) = None"
proof -
  obtain d1 where e: "ensureMigrationsTable no_faults d = (None, d1)"
    by (auto simp: ensureMigrationsTable_def exec_text_def no_faults_def parse_ddl)
  note d1 = ensure_keeps [OF assms e]
  then obtain v where v: "getCurrentVersion no_faults d1 = Inr v"
    by (auto simp: getCurrentVersion_def no_faults_def)
  show ?thesis
    using e v down_loop_succeeds [OF d1(2)] by (simp add: migrateDown_def with_version_def Let_def)
qed

text \<open>C23: Rolling back to a version and migrating up again: after any sequence of steps as above, a migration down to
  a given version (0 or more) succeeds and leaves the record at the smaller of the old and the given version, and the
  migration up that follows has all eight migrations recorded and all tables and columns that they make there again.
  What only the server's own schema gives a table, the column \<open>status\<close> of the agents, does not come back when the
  table is dropped on the way.\<close>

theorem down_then_up:
  assumes "mig_reachable d" and "0 \<le> target"
  shows "\<exists>d1 d2. migrateDown no_faults target d = (None, d1) \<and>
    rows_of d1 = take (nat (min (int (length (rows_of d))) target)) recs \<and>
    migrateUp no_faults (-1) d1 = (None, d2) \<and> rows_of d2 = recs \<and>
    (\<forall>m \<in> set migrations. \<forall>q \<in> set (up_sql m). has q d2)"
proof -
  from reachable_ok [OF assms(1)] obtain k where k: "at_version k d" by (auto simp: mig_ok_def)
  obtain d1 where d1: "migrateDown no_faults target d = (None, d1)"
    using migrateDown_succeeds [OF k] by (metis eq_fst_iff)
  from migrateDown_keeps [OF k d1] obtain k1 where k1: "at_version k1 d1" "int k1 = min (int k) (max 0 target)"
    by (auto simp: removal_failed_def)
  obtain d2 where d2: "migrateUp no_faults (-1) d1 = (None, d2)"
    using migrateUp_succeeds [OF k1(1), of "-1"] by (metis eq_fst_iff le_numeral_extra(4) neg_le_0_iff_le order_trans zero_le_numeral zero_le_one)
  have "k1 \<le> 8" using k1(1) by (simp add: at_version_def migration_facts)
  with migrateUp_keeps [OF honest_no_faults k1(1) d2] have "at_version 8 d2"
    by (auto simp: max_def split: if_splits)
  moreover have "nat (min (int (length (rows_of d))) target) = k1"
    using k1(2) at_version_rows [OF k] assms(2) by simp
  ultimately show ?thesis
    using d1 d2 k1(1) by (intro exI [of _ d1] exI [of _ d2]) (simp add: at_version_def migration_facts(1,2))
qed

text \<open>Without a target, as the guides show it for rolling back one migration, \<open>-action down\<close> rolls back all of them.\<close>

lemma down_without_target:
  assumes "mig_reachable d"
  shows "\<exists>d'. migrateDown no_faults (-1) d = (None, d') \<and> rows_of d' = []"
proof -
  from reachable_ok [OF assms] obtain k where k: "at_version k d" by (auto simp: mig_ok_def)
  obtain d' where d': "migrateDown no_faults (-1) d = (None, d')"
    using migrateDown_succeeds [OF k] by (metis eq_fst_iff)
  from migrateDown_keeps [OF k d'] have "at_version 0 d'" by (auto simp: removal_failed_def)
  with d' show ?thesis by (auto simp: at_version_def)
qed

lemma reachable_started: "\<exists>d. mig_reachable d \<and> rows_of d = recs"
proof -
  obtain d where "initSchema no_faults DriverSQLite empty_catalog = (None, d)"
    "schema_migrations d = Some (if rows_of empty_catalog = [] then inlineMigrations else rows_of empty_catalog)"
    using initSchema_no_faults [of DriverSQLite empty_catalog] by blast
  then have "mig_reachable d" "rows_of d = recs"
    using reach_step [OF reach_new step_start [of DriverSQLite]]
    by (auto simp: inline_is_recs rows_of_def empty_catalog_def DriverSQLite_def DriverPostgreSQL_def)
  then show ?thesis by blast
qed

theorem down_then_up_witness:
  "\<exists>d d1 d2. rows_of d = recs \<and> migrateDown no_faults 3 d = (None, d1) \<and> rows_of d1 = take 3 recs \<and>
    migrateUp no_faults (-1) d1 = (None, d2) \<and> rows_of d2 = recs"
proof -
  obtain d where d: "mig_reachable d" "rows_of d = recs" using reachable_started by blast
  show ?thesis using down_then_up [OF d(1), of 3] d(2) by (auto simp: migration_facts)
qed

subsection \<open>Status\<close>

lemma applied_get:
  "gm_get (fold (\<lambda>(v, n). gm_set v n) rs m) v = None \<longleftrightarrow> gm_get m v = None \<and> v \<notin> set (map fst rs)"
  by (induction rs arbitrary: m) (auto split: prod.splits)

text \<open>What \<open>am-migrate -action status\<close> prints after any sequence of steps: the migrations of the record as applied, the
  rest of the list as pending, and that the database is up to date exactly when all eight are recorded.\<close>

theorem showStatus_exact:
  assumes "mig_reachable d"
  shows "\<exists>st d'. showStatus no_faults d = (Inr st, d') \<and> rows_of d' = rows_of d \<and>
    st_current st = int (length (rows_of d)) \<and> st_latest st = 8 \<and> st_applied st = rows_of d \<and>
    st_applied st @ st_pending st = recs \<and> (st_up_to_date st \<longleftrightarrow> rows_of d = recs)"
proof -
  from reachable_ok [OF assms] obtain k where k: "at_version k d" by (auto simp: mig_ok_def)
  obtain d1 where e: "ensureMigrationsTable no_faults d = (None, d1)"
    by (auto simp: ensureMigrationsTable_def exec_text_def no_faults_def parse_ddl)
  note d1 = ensure_keeps [OF k e]
  then obtain v where v: "getCurrentVersion no_faults d1 = Inr v"
    by (auto simp: getCurrentVersion_def no_faults_def)
  have k8: "k \<le> 8" using k by (simp add: at_version_def migration_facts)
  obtain rs where rs: "schema_migrations d1 = Some rs" "rs = take k recs"
    using d1 by (auto simp: at_version_def rows_of_def)
  obtain applied where applied: "getAppliedMigrations no_faults d1 = Inr applied"
    "\<And>v. gm_get applied v = None \<longleftrightarrow> v \<notin> set (map fst rs)"
    using rs(1) by (auto simp: getAppliedMigrations_def no_faults_def applied_get)
  have low: "gm_get applied (Version m) \<noteq> None" if "m \<in> set (take k migrations)" for m
    using that applied(2) rs(2) by (auto simp: recs_def take_map image_image)
  have high: "gm_get applied (Version m) = None" if "m \<in> set (drop k migrations)" for m
  proof -
    have "Version m > int k" using that k8 by (auto simp: in_set_conv_nth migration_facts Version_nth)
    then show ?thesis using take_recs_less [OF k8, of "Version m"] applied(2) rs(2) by (simp del: set_map)
  qed
  have split: "filter (\<lambda>m. gm_get applied (Version m) \<noteq> None) migrations = take k migrations"
    "filter (\<lambda>m. gm_get applied (Version m) = None) migrations = drop k migrations"
    using low high
    by (subst append_take_drop_id [of k migrations, symmetric], subst filter_append, simp add: filter_id_conv filter_empty_conv)+
  have rows: "rows_of d1 = rows_of d" "rows_of d = take k recs" "length (rows_of d) = k"
    using d1(1) k k8 by (simp_all add: at_version_def migration_facts)
  have line: "map (\<lambda>m. (Version m, Name m)) (take k migrations) = take k recs"
    "map (\<lambda>m. (Version m, Name m)) (drop k migrations) = drop k recs"
    by (simp_all add: recs_def take_map drop_map)
  have full: "k = 8 \<longleftrightarrow> take k recs = recs"
    using k8 by (metis length_take migration_facts(2) min.absorb2 order_refl take_all)
  have nonempty: "migrations \<noteq> []" using migration_facts(1) by auto
  let ?st = "\<lparr>st_current = int k, st_latest = 8, st_applied = take k recs, st_pending = drop k recs,
    st_up_to_date = (drop k migrations = [] \<and> int k = 8)\<rparr>"
  have "showStatus no_faults d = (Inr ?st, d1)"
    by (simp add: showStatus_def e v applied(1) current_version [OF d1(1) v] Let_def migration_facts split line nonempty
        del: not_None_eq)
  moreover have "st_up_to_date ?st \<longleftrightarrow> rows_of d = recs"
    using full rows(2) k8 by (auto simp: migration_facts)
  ultimately show ?thesis
    using rows by (intro exI [of _ ?st] exI [of _ d1]) simp
qed

theorem showStatus_exact_witness:
  "\<exists>st d'. showStatus no_faults empty_catalog = (Inr st, d') \<and> st_pending st = recs \<and> \<not> st_up_to_date st"
  using showStatus_exact [of empty_catalog, OF reach_new] by (auto simp: rows_of_def empty_catalog_def recs_nonempty [symmetric])

subsection \<open>A database that the tool made first\<close>

text \<open>The columns that a set of statements can give a table.\<close>

lemma up_statements_invariant:
  assumes "\<And>s. s \<in> set ss \<Longrightarrow> CHR '';'' \<notin> set s \<and> trim_space s = s"
    and "\<And>s e e'. s \<in> set ss \<Longrightarrow> P e \<Longrightarrow> exec_sql (parse_sql s) e = Inr e' \<Longrightarrow> P e'"
    and "P d"
  shows "P (snd (up_statements io ss d))"
  using assms
proof (induction ss arbitrary: d)
  case (Cons s ss)
  have "P (snd (exec_text io s d))"
    using Cons.prems by (auto simp: exec_piece split: option.splits sum.splits)
  moreover have "P (snd (up_statements io ss e))" if "P e" for e
  proof (rule Cons.IH)
    show "CHR '';'' \<notin> set r \<and> trim_space r = r" if "r \<in> set ss" for r using that Cons.prems(1) [of r] by simp
    show "P f'" if "r \<in> set ss" "P f" "exec_sql (parse_sql r) f = Inr f'" for r f f'
      using that(1) Cons.prems(2) [OF _ that(2,3)] by simp
  qed fact
  moreover have "trim_space s = s" using Cons.prems(1) [of s] by simp
  ultimately show ?case
    using Cons.prems(3) by (cases "exec_text io s d") (auto simp: Let_def split: option.splits)
qed simp

definition no_status :: "catalog \<Rightarrow> bool" where
  "no_status d \<longleftrightarrow> (\<forall>cs. gm_get (tables d) ''agents'' = Some cs \<longrightarrow> ''status'' \<notin> set cs)"

lemma no_status_record [simp]: "no_status (d\<lparr>schema_migrations := x\<rparr>) = no_status d"
  by (simp add: no_status_def)

lemma no_status_up:
  assumes "m \<in> set migrations" and "q \<in> set (up_sql m)" and "no_status d" and "exec_sql q d = Inr d'"
  shows "no_status d'"
proof (cases q)
  case (CREATE_TABLE t cs)
  have "list_all (\<lambda>(t, cs). t = ''agents'' \<longrightarrow> ''status'' \<notin> set cs) up_tables" by code_simp
  with up_form_scripts [OF assms(1,2)] CREATE_TABLE have "t = ''agents'' \<longrightarrow> ''status'' \<notin> set cs"
    unfolding list_all_iff by auto
  with CREATE_TABLE assms(3,4) show ?thesis by (auto simp: no_status_def split: if_splits)
next
  case (ADD_COLUMN t c)
  with add_columns_cover [OF assms(1), of t c] assms(2) have "c \<noteq> ''status''" by auto
  with ADD_COLUMN assms(3,4) show ?thesis by (auto simp: no_status_def split: option.splits if_splits)
qed (use up_form_scripts [OF assms(1,2)] in auto)

text \<open>The agents are there (when \<open>made\<close>), without a column \<open>status\<close>.\<close>

definition lacks_status :: "bool \<Rightarrow> catalog \<Rightarrow> bool" where
  "lacks_status made d \<longleftrightarrow> no_status d \<and> (made \<longrightarrow> gm_get (tables d) ''agents'' \<noteq> None)"

lemma lacks_status_record [simp]: "lacks_status made (d\<lparr>schema_migrations := x\<rparr>) = lacks_status made d"
  by (simp add: lacks_status_def)

lemma lacks_status_up:
  assumes "m \<in> set migrations" and "q \<in> set (up_sql m)" and "lacks_status made d" and "exec_sql q d = Inr d'"
  shows "lacks_status made d'"
proof -
  have "gm_get (tables d') ''agents'' \<noteq> None" if "gm_get (tables d) ''agents'' \<noteq> None"
    using that assms(4) up_form_scripts [OF assms(1,2)]
    by (cases q) (auto split: if_splits option.splits)
  then show ?thesis using no_status_up [OF assms(1,2)] assms(3,4) by (auto simp: lacks_status_def)
qed

lemma lacks_status_up_loop:
  assumes "set ms \<subseteq> set migrations" and "lacks_status made d"
  shows "lacks_status made (snd (up_loop io current target ms d))"
  using assms
proof (induction ms arbitrary: d)
  case (Cons m ms)
  have "lacks_status made (snd (up_statements io (splitStatements (UpSQL m)) d))"
  proof (rule up_statements_invariant)
    show "CHR '';'' \<notin> set s \<and> trim_space s = s" if "s \<in> set (splitStatements (UpSQL m))" for s
      using splitStatements_pieces [OF that] by blast
    show "lacks_status made e'" if "s \<in> set (splitStatements (UpSQL m))" "lacks_status made e" "exec_sql (parse_sql s) e = Inr e'" for s e e'
      using lacks_status_up [of m "parse_sql s" made e e'] that Cons.prems(1) by (simp add: up_sql_def)
  qed fact
  with Cons show ?case
    by (auto simp: record_migration_def split: prod.splits option.splits sum.splits if_splits)
qed simp

lemma lacks_status_ensure:
  "lacks_status made d \<Longrightarrow> lacks_status made (snd (ensureMigrationsTable io d))"
  by (auto simp: ensureMigrationsTable_def exec_text_def parse_ddl split: option.splits)

lemma lacks_status_migrateUp:
  assumes "lacks_status made d"
  shows "lacks_status made (snd (migrateUp io target d))"
proof -
  have "lacks_status made (snd (with_version io (\<lambda>current e.
      if c then (Some (err current), e) else up_loop io current tv migrations e) d))" for c err tv
    using lacks_status_ensure [OF assms, of io]
    by (auto simp: with_version_def lacks_status_up_loop split: prod.splits option.splits sum.splits)
  then show ?thesis by (simp add: migrateUp_def Let_def migration_facts)
qed

lemma full_up_lacks_status:
  assumes "migrateUp no_faults (-1) empty_catalog = (None, d)"
  shows "lacks_status True d"
proof -
  have "lacks_status False empty_catalog" by (simp add: lacks_status_def no_status_def empty_catalog_def)
  from lacks_status_migrateUp [OF this, of no_faults "-1"] assms have "no_status d" by (simp add: lacks_status_def)
  moreover have "at_version 8 d" using migrateUp_keeps [OF honest_no_faults at_version_empty assms] by (auto simp: max_def)
  then have made: "\<forall>m \<in> set migrations. \<forall>q \<in> set (up_sql m). has q d" by (simp add: at_version_def migration_facts)
  obtain cs where "CREATE_TABLE ''agents'' cs \<in> set (up_sql (migrations ! 0))"
    by (auto simp: migrations_def parsed up_scripts_def create_tables_def up_tables_def)
  then have "has (CREATE_TABLE ''agents'' cs) d" using made by (metis nth_migration zero_less_numeral)
  ultimately show ?thesis by (auto simp: lacks_status_def)
qed

lemma lacks_status_start:
  assumes "lacks_status True d" and "initSchema no_faults dr d = (None, d')"
  shows "lacks_status True d'"
proof -
  from initSchema_no_faults [of dr d] assms(2)
  have cols: "gm_get (tables d') t = init_columns dr d t" for t by (metis prod.inject)
  from assms(1) obtain cs where cs: "gm_get (tables d) ''agents'' = Some cs" "''status'' \<notin> set cs"
    by (auto simp: lacks_status_def no_status_def)
  then have "gm_get (tables d') ''agents'' = Some (fold add_col [''model'', ''personality'', ''specialty''] cs)"
    by (simp add: cols init_columns_def)
  with cs(2) show ?thesis by (simp add: lacks_status_def no_status_def)
qed

text \<open>A database that the tool set up: its first migration up was a full one on a new file; since then the tool has
  migrated up (with whatever result) and shown the status, and the server has been started on it, but nothing has been
  rolled back.\<close>

inductive set_up_by_tool :: "catalog \<Rightarrow> bool" where
  first_up: "migrateUp no_faults (-1) empty_catalog = (None, d) \<Longrightarrow> set_up_by_tool d"
| further_up: "set_up_by_tool d \<Longrightarrow> migrateUp io target d = (r, d') \<Longrightarrow> set_up_by_tool d'"
| status_shown: "set_up_by_tool d \<Longrightarrow> showStatus io d = (st, d') \<Longrightarrow> set_up_by_tool d'"
| started: "set_up_by_tool d \<Longrightarrow> initSchema no_faults DriverSQLite d = (None, d') \<Longrightarrow> set_up_by_tool d'"

lemma set_up_by_tool_lacks_status: "set_up_by_tool d \<Longrightarrow> lacks_status True d"
proof (induction rule: set_up_by_tool.induct)
  case (first_up d)
  then show ?case by (rule full_up_lacks_status)
next
  case (further_up d io target r d')
  with lacks_status_migrateUp [of True d io target] show ?case by simp
next
  case (status_shown d io st d')
  with lacks_status_ensure [of True d io] showStatus_catalog show ?case by metis
next
  case (started d d')
  then show ?case by (blast intro: lacks_status_start)
qed

text \<open>C39: A new database that the migration tool sets up first has the table of the agents without the column
  \<open>status\<close>, and it stays so through every further sequence of migrations up, status checks and server starts (without
  failing statements), as long as nothing is rolled back; a database that the server sets up has the column.
  \<open>handleGetPresence\<close> selects it.\<close>

theorem migrated_database_lacks_status:
  assumes "set_up_by_tool d"
  shows "(\<exists>cs. gm_get (tables d) ''agents'' = Some cs \<and> ''status'' \<notin> set cs) \<and>
     (\<exists>f fs. initSchema no_faults DriverSQLite empty_catalog = (None, f) \<and>
        gm_get (tables f) ''agents'' = Some fs \<and> ''status'' \<in> set fs)"
proof
  show "\<exists>cs. gm_get (tables d) ''agents'' = Some cs \<and> ''status'' \<notin> set cs"
    using set_up_by_tool_lacks_status [OF assms] by (auto simp: lacks_status_def no_status_def)
  obtain f where f: "initSchema no_faults DriverSQLite empty_catalog = (None, f)"
    "\<And>t. gm_get (tables f) t = init_columns DriverSQLite empty_catalog t"
    using initSchema_no_faults [of DriverSQLite empty_catalog] by blast
  moreover obtain fs where "gm_get (tables f) ''agents'' = Some fs" "''status'' \<in> set fs"
    by (simp add: f(2) init_columns_def empty_catalog_def server_tables_def)
  ultimately show "\<exists>f fs. initSchema no_faults DriverSQLite empty_catalog = (None, f) \<and>
      gm_get (tables f) ''agents'' = Some fs \<and> ''status'' \<in> set fs" by blast
qed

text \<open>The tool sets the database up, then the server is started on it.\<close>

theorem migrated_database_lacks_status_witness:
  "\<exists>d d' cs. migrateUp no_faults (-1) empty_catalog = (None, d) \<and> initSchema no_faults DriverSQLite d = (None, d') \<and>
     gm_get (tables d') ''agents'' = Some cs \<and> ''status'' \<notin> set cs"
proof -
  obtain d where d: "migrateUp no_faults (-1) empty_catalog = (None, d)"
    using migrateUp_succeeds [OF at_version_empty, of "-1"] by (cases "migrateUp no_faults (-1) empty_catalog") simp
  obtain d' where d': "initSchema no_faults DriverSQLite d = (None, d')"
    using initSchema_no_faults [of DriverSQLite d] by blast
  have "set_up_by_tool d'" by (rule started [OF first_up [OF d] d'])
  from migrated_database_lacks_status [OF this] d d' show ?thesis by blast
qed

subsection \<open>New migration files\<close>

lemma digits_value_append: "digits_value a (ds @ es) = digits_value (digits_value a ds) es"
  by (induction ds arbitrary: a) simp_all

lemma digit_char_code: "d < 10 \<Longrightarrow> (of_char (digit_char d) :: nat) = 48 + d"
  by (simp add: digit_char_def)

lemma nat_digits_value: "digits_value 0 (nat_digits n) = int n \<and> list_all is_digit (nat_digits n)"
proof (induction n rule: nat_digits.induct)
  case (1 n)
  have one: "digits_value a [digit_char (n mod 10)] = 10 * a + int (n mod 10)" "is_digit (digit_char (n mod 10))" for a
    by (simp_all add: digit_char_code is_digit_def)
  show ?case
  proof (cases "n < 10")
    case True
    with one(1) [of 0] one(2) show ?thesis by (simp add: nat_digits.simps [of n])
  next
    case False
    have "10 * int (n div 10) + int (n mod 10) = int n"
      by (metis mult_div_mod_eq of_nat_add of_nat_mult of_nat_numeral)
    with False 1 one show ?thesis by (simp add: nat_digits.simps [of n] digits_value_append del: of_nat_mod of_nat_div)
  qed
qed

lemma digits_value_zeros: "digits_value 0 (replicate n (CHR ''0'') @ ds) = digits_value 0 ds"
  by (induction n) simp_all

lemma pad3_digits: "0 \<le> v \<Longrightarrow> pad3 v \<noteq> [] \<and> list_all is_digit (pad3 v) \<and> digits_value 0 (pad3 v) = v"
  using nat_digits_value [of "nat v"]
  by (auto simp: pad3_def decimal_def digits_value_zeros list_all_iff is_digit_def)

lemma Atoi_pad3: "0 \<le> v \<Longrightarrow> v \<le> int64_max \<Longrightarrow> Atoi (pad3 v) = Some v"
proof -
  assume v: "0 \<le> v" "v \<le> int64_max"
  obtain c cs where c: "pad3 v = c # cs" "is_digit c" using pad3_digits [OF v(1)] by (cases "pad3 v") auto
  then have "split_sign (pad3 v) = ([], pad3 v)" by (auto simp: split_sign_def is_digit_def)
  then show ?thesis
    using pad3_digits [OF v(1)] v by (simp add: Atoi_def signed_value_def Let_def int64_min_def)
qed

lemma split_on_first: "c \<notin> set s \<Longrightarrow> hd (split_on c (s @ c # t)) = s"
  by (induction s) (auto split: list.splits)

lemma pad3_no_underscore: "0 \<le> v \<Longrightarrow> CHR ''_'' \<notin> set (pad3 v)"
  using pad3_digits [of v] by (auto simp: list_all_iff is_digit_def)

definition file_version :: "string \<Rightarrow> int option" where
  "file_version n = Atoi (hd (split_on (CHR ''_'') n))"

definition bump :: "string \<times> bool \<Rightarrow> int \<Rightarrow> int" where
  "bump = (\<lambda>(n, is_dir) nextVersion.
     if is_dir then nextVersion
     else (case file_version n of
             Some v \<Rightarrow> if v \<ge> nextVersion then wrap64 (v + 1) else nextVersion
           | None \<Rightarrow> nextVersion))"

lemma next_version_bump: "next_version entries = fold bump entries 9"
  unfolding next_version_def bump_def file_version_def by (simp add: migration_facts)

lemma fold_bump:
  assumes "\<And>n v. (n, False) \<in> set entries \<Longrightarrow> file_version n = Some v \<Longrightarrow> v < b" and "0 \<le> a" and "b \<le> int64_max"
  shows "a \<le> fold bump entries a \<and>
    (\<forall>n v. (n, False) \<in> set entries \<longrightarrow> file_version n = Some v \<longrightarrow> v < fold bump entries a) \<and>
    fold bump entries a \<le> max a b"
  using assms
proof (induction entries arbitrary: a)
  case (Cons p entries)
  obtain n is_dir where p: "p = (n, is_dir)" by (cases p)
  have n: "v < b" if "\<not> is_dir" "file_version n = Some v" for v using that Cons.prems(1) [of n v] p by simp
  have step: "a \<le> bump p a \<and> bump p a \<le> max a b \<and> (\<forall>v. \<not> is_dir \<longrightarrow> file_version n = Some v \<longrightarrow> v < bump p a)"
  proof (cases "is_dir \<or> file_version n = None")
    case False
    then obtain v where v: "\<not> is_dir" "file_version n = Some v" by blast
    with n Cons.prems(2,3) show ?thesis by (cases "v \<ge> a") (force simp: bump_def p wrap64_id_inc)+
  qed (auto simp: bump_def p)
  have "bump p a \<le> fold bump entries (bump p a) \<and>
    (\<forall>n v. (n, False) \<in> set entries \<longrightarrow> file_version n = Some v \<longrightarrow> v < fold bump entries (bump p a)) \<and>
    fold bump entries (bump p a) \<le> max (bump p a) b"
  proof (rule Cons.IH)
    show "v < b" if "(n, False) \<in> set entries" "file_version n = Some v" for n v
      using that Cons.prems(1) [of n v] by simp
  qed (use step Cons.prems in linarith)+
  with step p show ?case by (auto simp: max_def split: if_splits)
qed simp

text \<open>The number of a new migration file is above the built-in migrations and above every numbered file, and creating
  one file after the other numbers them without gap or repetition, as long as no file name reaches \<open>2^63 - 1\<close>.\<close>

theorem stub_numbers_increase:
  assumes "createMigrationStub None None nm entries = Inr (f, content)"
    and "\<And>n v. (n, False) \<in> set entries \<Longrightarrow> Atoi (hd (split_on (CHR ''_'') n)) = Some v \<Longrightarrow> v < int64_max - 1"
  shows "int (length migrations) < next_version entries \<and>
    (\<forall>n v. (n, False) \<in> set entries \<longrightarrow> Atoi (hd (split_on (CHR ''_'') n)) = Some v \<longrightarrow> v < next_version entries) \<and>
    next_version (entries @ [(f, False)]) = next_version entries + 1"
proof -
  let ?v = "next_version entries"
  have "9 \<le> fold bump entries 9 \<and>
    (\<forall>n v. (n, False) \<in> set entries \<longrightarrow> file_version n = Some v \<longrightarrow> v < fold bump entries 9) \<and>
    fold bump entries 9 \<le> max 9 (int64_max - 1)"
    by (rule fold_bump) (use assms(2) in \<open>auto simp: file_version_def int64_max_def\<close>)
  then have fold: "9 \<le> ?v \<and> (\<forall>n v. (n, False) \<in> set entries \<longrightarrow> file_version n = Some v \<longrightarrow> v < ?v)"
    and small: "?v < int64_max"
    unfolding next_version_bump by (auto simp: int64_max_def)
  have f: "f = pad3 ?v @ CHR ''_'' # nm @ ''.sql''" using assms(1) by (simp add: createMigrationStub_def Let_def)
  have "file_version f = Some ?v"
    using fold small by (simp add: file_version_def f split_on_first pad3_no_underscore Atoi_pad3)
  then have "next_version (entries @ [(f, False)]) = ?v + 1"
    using fold small by (simp add: next_version_bump bump_def wrap64_id_inc)
  with fold show ?thesis by (auto simp: migration_facts file_version_def)
qed

theorem stub_numbers_increase_witness:
  "\<exists>f content. createMigrationStub None None ''add_index'' [(''007_old.sql'', False), (''notes'', True)] = Inr (f, content) \<and>
    next_version [(''007_old.sql'', False), (''notes'', True), (f, False)] = 10"
proof -
  obtain f content where f: "createMigrationStub None None ''add_index'' [(''007_old.sql'', False), (''notes'', True)] = Inr (f, content)"
    by (simp add: createMigrationStub_def Let_def)
  have old: "Atoi (hd (split_on (CHR ''_'') ''007_old.sql'')) = Some 7"
    "next_version [(''007_old.sql'', False), (''notes'', True)] = 9" by code_simp+
  show ?thesis
    using stub_numbers_increase [OF f] old f by (auto simp: int64_max_def)
qed

end
