(* ===== verification/Startup.thy ===== *)
theory Startup
  imports Migrations Logger
begin

section \<open>The settings of the program\<close>

text \<open>
  What \<open>main\<close> (\<open>main.go\<close>) makes of its flags and of the environment: the driver and the path of the database, the log
  level and the heartbeat settings of the agents; and, of \<open>dbdriver.go\<close>, the placeholders of SQL statements, the
  numbers read from the environment and the settings of the connection pool. \<open>getenv\<close> is the environment (an unset
  variable is the empty text); \<open>ParseDuration\<close> is the text format of Go durations, an argument here.
\<close>

subsection \<open>The model\<close>

type_synonym getenv = "string \<Rightarrow> string"
type_synonym parse_duration = "string \<Rightarrow> int option"

definition resolve_driver :: "getenv \<Rightarrow> string \<Rightarrow> string" where
  "resolve_driver getenv dbDriver =
     (if dbDriver \<noteq> [] then dbDriver
      else if getenv ''DB_DRIVER'' \<noteq> [] then getenv ''DB_DRIVER''
      else if getenv ''DATABASE_URL'' \<noteq> [] then DriverPostgreSQL else DriverSQLite)"

definition resolve_db_path :: "getenv \<Rightarrow> string \<Rightarrow> string" where
  "resolve_db_path getenv dbPath =
     (if dbPath \<noteq> [] then dbPath
      else if getenv ''DATABASE_URL'' \<noteq> [] then getenv ''DATABASE_URL''
      else if getenv ''DB_PATH'' \<noteq> [] then getenv ''DB_PATH'' else ''./data/agent-messenger.db'')"

definition configured_logger :: "getenv \<Rightarrow> Logger \<Rightarrow> Logger" where
  "configured_logger getenv l =
     (let lvl = ToLower (getenv ''LOG_LEVEL'') in
      if lvl = ''debug'' then SetLevel LogDebug l
      else if lvl = ''info'' then SetLevel LogInfo l
      else if lvl = ''warn'' \<or> lvl = ''warning'' then SetLevel LogWarn l
      else if lvl = ''error'' then SetLevel LogError l
      else SetLevel LogInfo l)"

definition Placeholder :: "string \<Rightarrow> int \<Rightarrow> string" where
  "Placeholder currentDriver n = (if currentDriver = DriverPostgreSQL then CHR ''$'' # decimal n else ''?'')"

fun join_with :: "string \<Rightarrow> string list \<Rightarrow> string" where
  "join_with sep [] = []"
| "join_with sep [x] = x"
| "join_with sep (x # xs) = x @ sep @ join_with sep xs"

definition Placeholders :: "string \<Rightarrow> int \<Rightarrow> nat \<Rightarrow> string" where
  "Placeholders currentDriver start n =
     join_with '', '' (map (\<lambda>i. Placeholder currentDriver (start + int i)) [0..<n])"

definition envIntOrDefault :: "getenv \<Rightarrow> string \<Rightarrow> int \<Rightarrow> int" where
  "envIntOrDefault getenv key defaultVal =
     (let v = getenv key in
      if v = [] then defaultVal else (case Atoi v of Some i \<Rightarrow> i | None \<Rightarrow> defaultVal))"

definition envDurationOrDefault :: "parse_duration \<Rightarrow> getenv \<Rightarrow> string \<Rightarrow> int \<Rightarrow> int" where
  "envDurationOrDefault ParseDuration getenv key defaultVal =
     (let v = getenv key in
      if v = [] then defaultVal else (case ParseDuration v of Some d \<Rightarrow> d | None \<Rightarrow> defaultVal))"

definition initAuthRateLimit :: "getenv \<Rightarrow> RateLimiter" where
  "initAuthRateLimit getenv =
     (let v = getenv ''AUTH_RATE_LIMIT'';
          n = (if v = [] then 30 else (case Atoi v of Some parsed \<Rightarrow> if parsed > 0 then parsed else 30 | None \<Rightarrow> 30)) in
      NewRateLimiter n minute)"

text \<open>An open database: the driver, the limits of the pool and the pragmas that were run. The durations of SQLite
  connections are not limited. \<open>open_err\<close> and \<open>ping_err\<close> are the errors of \<open>sql.Open\<close> and \<open>Ping\<close>.\<close>

record db_handle =
  db_driver :: string
  db_max_open :: int
  db_max_idle :: int
  db_max_lifetime :: "int option"
  db_max_idle_time :: "int option"
  db_pragmas :: "string list"

definition openDatabase ::
  "parse_duration \<Rightarrow> getenv \<Rightarrow> string option \<Rightarrow> string option \<Rightarrow> string \<Rightarrow> string + db_handle" where
  "openDatabase ParseDuration getenv open_err ping_err driver =
     (case open_err of
        Some err \<Rightarrow> Inl (''failed to open database: '' @ err)
      | None \<Rightarrow>
          if driver = DriverPostgreSQL then
            (case ping_err of
               Some err \<Rightarrow> Inl (''failed to connect to PostgreSQL: '' @ err)
             | None \<Rightarrow> Inr \<lparr>db_driver = driver, db_max_open = envIntOrDefault getenv ''DB_MAX_OPEN_CONNS'' 25,
                  db_max_idle = envIntOrDefault getenv ''DB_MAX_IDLE_CONNS'' 5,
                  db_max_lifetime = Some (envDurationOrDefault ParseDuration getenv ''DB_CONN_MAX_LIFETIME'' (30 * minute)),
                  db_max_idle_time = Some (envDurationOrDefault ParseDuration getenv ''DB_CONN_MAX_IDLE_TIME'' (5 * minute)),
                  db_pragmas = []\<rparr>)
          else Inr \<lparr>db_driver = driver, db_max_open = 1, db_max_idle = 1, db_max_lifetime = None,
                 db_max_idle_time = None,
                 db_pragmas = [''PRAGMA journal_mode=WAL'', ''PRAGMA foreign_keys=ON'', ''PRAGMA busy_timeout=5000'']\<rparr>)"

text \<open>The heartbeat settings of the agents; the doubled interval is an \<open>int64\<close>.\<close>

definition default_heartbeat :: presence_config where
  "default_heartbeat = \<lparr>agentPresenceEnabled = False, agentPresenceInterval = 30 * second, agentPresenceTimeout = 90 * second\<rparr>"

definition positive_duration :: "parse_duration \<Rightarrow> string \<Rightarrow> int \<Rightarrow> int" where
  "positive_duration ParseDuration v old =
     (if v = [] then old else (case ParseDuration v of Some d \<Rightarrow> if d > 0 then d else old | None \<Rightarrow> old))"

definition configure_heartbeat :: "parse_duration \<Rightarrow> getenv \<Rightarrow> presence_config \<Rightarrow> presence_config" where
  "configure_heartbeat ParseDuration getenv hb =
     (if getenv ''AGENT_HEARTBEAT_ENABLED'' \<noteq> ''true'' then hb
      else
        (let interval = positive_duration ParseDuration (getenv ''AGENT_HEARTBEAT_INTERVAL'') (agentPresenceInterval hb);
             timeout = positive_duration ParseDuration (getenv ''AGENT_HEARTBEAT_TIMEOUT'') (agentPresenceTimeout hb) in
         \<lparr>agentPresenceEnabled = True, agentPresenceInterval = interval,
           agentPresenceTimeout = (if timeout < wrap64 (interval * 2) then wrap64 (interval * 2) else timeout)\<rparr>))"

subsection \<open>The properties\<close>

lemma positive_duration_pos: "0 < old \<Longrightarrow> 0 < positive_duration pd v old"
  by (auto simp: positive_duration_def split: option.splits)

text \<open>C34: Whatever the environment says and however its durations are parsed, the settings have a positive interval,
  and if twice the interval is an \<open>int64\<close>, the timeout is at least twice the interval, and a run of the monitor spares
  every connection that was heard from within the last two intervals and has not been scheduled to unregister, so
  one lost heartbeat never disconnects an agent.\<close>

theorem configured_monitor_spares_live_agents:
  assumes "pc = configure_heartbeat ParseDuration getenv default_heartbeat"
    and "2 * agentPresenceInterval pc \<le> int64_max"
    and "heap h r = Some c" and "r \<notin> set (unregistering h)"
    and "now - lastHeartbeat c \<le> 2 * agentPresenceInterval pc"
  shows "0 < agentPresenceInterval pc \<and> 2 * agentPresenceInterval pc \<le> agentPresenceTimeout pc \<and>
    r \<notin> set (unregistering (checkStaleAgents now (agentPresenceTimeout pc) h))"
proof -
  have pos: "0 < agentPresenceInterval pc"
    using assms(1) positive_duration_pos by (auto simp: configure_heartbeat_def default_heartbeat_def Let_def)
  have wrap: "wrap64 (agentPresenceInterval pc * 2) = agentPresenceInterval pc * 2"
    using assms(2) pos by (intro wrap64_id) (simp_all add: int64_min_def)
  have timeout: "2 * agentPresenceInterval pc \<le> agentPresenceTimeout pc"
  proof (cases "getenv ''AGENT_HEARTBEAT_ENABLED'' = ''true''")
    case True
    with assms(1) wrap show ?thesis
      by (auto simp: configure_heartbeat_def default_heartbeat_def Let_def split: if_splits)
  next
    case False
    with assms(1) show ?thesis by (simp add: configure_heartbeat_def default_heartbeat_def)
  qed
  have "\<not> time_sub now (lastHeartbeat c) > agentPresenceTimeout pc"
    using timeout pos assms(5) by (simp add: time_sub_def int64_min_def)
  then have "r \<notin> set (stale_agents now (agentPresenceTimeout pc) h)"
    using assms(3) by (simp add: stale_agents_def)
  with pos timeout assms(4) show ?thesis by (simp add: checkStaleAgents_def Let_def)
qed

text \<open>A duration text of whole seconds, enough for the witness.\<close>

definition seconds_only :: parse_duration where
  "seconds_only v = (if v = ''20s'' then Some (20 * second) else if v = ''5s'' then Some (5 * second) else None)"

definition demo_environment :: getenv where
  "demo_environment = gm_str [(''AGENT_HEARTBEAT_ENABLED'', ''true''), (''AGENT_HEARTBEAT_INTERVAL'', ''20s''),
     (''AGENT_HEARTBEAT_TIMEOUT'', ''5s'')]"

theorem configured_monitor_spares_live_agents_witness:
  "\<exists>c. heap (agent_run 3) 0 = Some c \<and>
     agentPresenceTimeout (configure_heartbeat seconds_only demo_environment default_heartbeat) = 40 * second \<and>
     0 \<notin> set (unregistering (checkStaleAgents (lastHeartbeat c + 39 * second) (40 * second) (agent_run 3)))"
proof -
  let ?pc = "configure_heartbeat seconds_only demo_environment default_heartbeat"
  have pc: "agentPresenceInterval ?pc = 20 * second" "agentPresenceTimeout ?pc = 40 * second" by code_simp+
  obtain c where c: "heap (agent_run 3) 0 = Some c" "0 \<notin> set (unregistering (agent_run 3))"
    by (simp add: run_defs)
  have "0 \<notin> set (unregistering (checkStaleAgents (lastHeartbeat c + 39 * second) (agentPresenceTimeout ?pc) (agent_run 3)))"
    using configured_monitor_spares_live_agents [OF refl _ c, where now = "lastHeartbeat c + 39 * second" and
        ParseDuration = seconds_only and getenv = demo_environment] pc(1)
    by (simp add: int64_max_def)
  with pc c show ?thesis by simp
qed

end
