(* ===== verification/Settings.thy ===== *)
theory Settings
  imports Tracing Attachments Startup
begin

section \<open>Secrets and sizes\<close>

text \<open>
  The settings that main.go and auth.go take from the environment beside those of \<open>Startup\<close>: the three secrets with their
  development defaults and the warnings about them, the text format of sizes (\<open>parseSize\<close>) and the upload limit.
  \<open>ParseFloat\<close> is an argument; its results are the values of \<open>float64\<close>. Scaling by a power of two is exact unless it
  overflows. Converting a \<open>float64\<close> outside \<open>int64\<close> is implementation-defined in Go: the argument \<open>conv\<close>.
\<close>

subsection \<open>Secrets\<close>

definition defaultJWTSecret :: string where
  "defaultJWTSecret = ''agent-messenger-dev-secret-change-me''"

definition jwtSecret :: "(string \<Rightarrow> string) \<Rightarrow> string" where
  "jwtSecret getenv = getEnvOrDefault getenv ''JWT_SECRET'' defaultJWTSecret"

text \<open>The secret, and the lines that are logged.\<close>

definition getAgentSecret :: "(string \<Rightarrow> string) \<Rightarrow> string \<times> string list" where
  "getAgentSecret getenv =
     (let s = getenv ''AGENT_SECRET'' in
      if s = [] then (''dev-agent-secret-change-me'',
        [''WARNING: AGENT_SECRET not set, using dev default. Set AGENT_SECRET in production!''])
      else (s, []))"

definition getAdminSecret :: "(string \<Rightarrow> string) \<Rightarrow> string \<times> string list" where
  "getAdminSecret getenv =
     (let s = getenv ''ADMIN_SECRET'' in
      if s = [] then (''admin-dev-secret'',
        [''WARNING: ADMIN_SECRET not set, using dev default. Set ADMIN_SECRET in production!''])
      else (s, []))"

text \<open>The secrets of a running server; the resets read the environment again.\<close>

record secrets =
  sec_agent :: string
  sec_admin :: string
  sec_log :: "string list"

definition resetAgentSecret :: "(string \<Rightarrow> string) \<Rightarrow> secrets \<Rightarrow> secrets" where
  "resetAgentSecret getenv sec =
     (let (s, ls) = getAgentSecret getenv in sec\<lparr>sec_agent := s, sec_log := sec_log sec @ ls\<rparr>)"

definition resetAdminSecret :: "(string \<Rightarrow> string) \<Rightarrow> secrets \<Rightarrow> secrets" where
  "resetAdminSecret getenv sec =
     (let (s, ls) = getAdminSecret getenv in sec\<lparr>sec_admin := s, sec_log := sec_log sec @ ls\<rparr>)"

definition warning_sign :: string where
  "warning_sign = [CHR 0xE2, CHR 0x9A, CHR 0xA0, CHR 0xEF, CHR 0xB8, CHR 0x8F] @ ''  ''"

definition security_warnings :: "(string \<Rightarrow> string) \<Rightarrow> string list" where
  "security_warnings getenv =
     (let jwtSecretVal = getenv ''JWT_SECRET''; agentSecretVal = getenv ''AGENT_SECRET''; adminSecretVal = getenv ''ADMIN_SECRET'' in
      (if jwtSecretVal = []
       then [warning_sign @ ''WARNING: JWT_SECRET not set, using insecure default. Set JWT_SECRET in production!''] else []) @
      (if agentSecretVal = [] \<or> agentSecretVal = ''dev-agent-secret-change-me''
       then [warning_sign @ ''WARNING: AGENT_SECRET not set or using dev default. Set AGENT_SECRET in production!''] else []) @
      (if adminSecretVal = [] \<or> adminSecretVal = ''admin-dev-secret''
       then [warning_sign @ ''WARNING: ADMIN_SECRET not set or using dev default. Set ADMIN_SECRET in production!''] else []))"

subsection \<open>Sizes\<close>

text \<open>\<open>strings.ToUpper\<close> on UTF-8, as far as ASCII results go: the two letters outside ASCII whose upper case is an ASCII letter
  are U+0131 and U+017F.\<close>

fun ToUpper :: "string \<Rightarrow> string" where
  "ToUpper [] = []"
| "ToUpper (c # cs) =
     (if c = CHR 0xC4 \<and> take 1 cs = [CHR 0xB1] then CHR ''I'' # ToUpper (drop 1 cs)
      else if c = CHR 0xC5 \<and> take 1 cs = [CHR 0xBF] then CHR ''S'' # ToUpper (drop 1 cs)
      else ascii_upper c # ToUpper cs)"

definition trim_suffix :: "string \<Rightarrow> string \<Rightarrow> string" where
  "trim_suffix s p = (if has_suffix s p then take (length s - length p) s else s)"

fun float_scale :: "nat \<Rightarrow> go_float \<Rightarrow> go_float" where
  "float_scale k (Finite q) =
     (let p = q * 2 ^ k in if p \<ge> 2 ^ 1024 then PosInf else if p \<le> - (2 ^ 1024) then NegInf else Finite p)"
| "float_scale k f = f"

definition float_to_int64 :: "(go_float \<Rightarrow> int) \<Rightarrow> go_float \<Rightarrow> int" where
  "float_to_int64 conv f =
     (case f of
        Finite q \<Rightarrow>
          (let t = (if 0 \<le> q then \<lfloor>q\<rfloor> else \<lceil>q\<rceil>) in if int64_min \<le> t \<and> t \<le> int64_max then t else conv f)
      | _ \<Rightarrow> conv f)"

definition multipliers :: "(string \<times> nat) list" where
  "multipliers = [(''TB'', 40), (''GB'', 30), (''MB'', 20), (''KB'', 10), (''B'', 0)]"

definition parseSize :: "(string \<Rightarrow> go_float option) \<Rightarrow> (go_float \<Rightarrow> int) \<Rightarrow> string \<Rightarrow> string + int" where
  "parseSize ParseFloat conv s0 =
     (let s = trim_space s0; upper = ToUpper s in
      if s = [] then Inl ''empty size''
      else (case Atoi s of
              Some v \<Rightarrow> Inr v
            | None \<Rightarrow>
                (case find (\<lambda>(sfx, _). has_suffix upper sfx) multipliers of
                   Some (sfx, k) \<Rightarrow>
                     (case ParseFloat (trim_space (trim_suffix upper sfx)) of
                        None \<Rightarrow> Inl (''invalid size: '' @ s)
                      | Some v \<Rightarrow> Inr (float_to_int64 conv (float_scale k v)))
                 | None \<Rightarrow> Inl (''invalid size format: '' @ s @ '' (use B, KB, MB, GB, TB)''))))"

definition MaxUploadSize :: int where
  "MaxUploadSize = 50 * 2 ^ 20"

definition configure_upload :: "(string \<Rightarrow> go_float option) \<Rightarrow> (go_float \<Rightarrow> int) \<Rightarrow> (string \<Rightarrow> string) \<Rightarrow> int \<Rightarrow> int" where
  "configure_upload ParseFloat conv getenv maxUploadSize =
     (let v = getenv ''MAX_UPLOAD_SIZE'' in
      if v = [] then maxUploadSize
      else (case parseSize ParseFloat conv v of Inl _ \<Rightarrow> maxUploadSize | Inr n \<Rightarrow> n))"

subsection \<open>Errors of unique constraints\<close>

text \<open>The text of an error; \<open>None\<close> is \<open>nil\<close>.\<close>

definition isUniqueViolation :: "string option \<Rightarrow> bool" where
  "isUniqueViolation err = (case err of None \<Rightarrow> False | Some m \<Rightarrow> str_contains m ''UNIQUE constraint failed'')"

text \<open>the texts of the two drivers for a user name that is taken: only that of SQLite is recognised, so that with PostgreSQL the
  registration answers 500 and not 409.\<close>

theorem isUniqueViolation_drivers:
  "isUniqueViolation (Some ''UNIQUE constraint failed: users.username'')"
  "\<not> isUniqueViolation (Some ''pq: duplicate key value violates unique constraint users_username_key'')"
  by code_simp+

subsection \<open>Public secrets are announced\<close>

text \<open>A server that uses one of the secrets that anybody can read in the source says so at the start, unless the variable of
  the token secret was set to that very value.\<close>

theorem default_secrets_are_announced:
  "(fst (getAgentSecret getenv) = ''dev-agent-secret-change-me'' \<longrightarrow>
     warning_sign @ ''WARNING: AGENT_SECRET not set or using dev default. Set AGENT_SECRET in production!'' \<in> set (security_warnings getenv)) \<and>
   (fst (getAdminSecret getenv) = ''admin-dev-secret'' \<longrightarrow>
     warning_sign @ ''WARNING: ADMIN_SECRET not set or using dev default. Set ADMIN_SECRET in production!'' \<in> set (security_warnings getenv)) \<and>
   (jwtSecret getenv = defaultJWTSecret \<and> getenv ''JWT_SECRET'' \<noteq> defaultJWTSecret \<longrightarrow>
     warning_sign @ ''WARNING: JWT_SECRET not set, using insecure default. Set JWT_SECRET in production!'' \<in> set (security_warnings getenv))"
  by (auto simp: getAgentSecret_def getAdminSecret_def jwtSecret_def getEnvOrDefault_def security_warnings_def Let_def split: if_splits)

subsection \<open>Sizes mean what they say\<close>

lemma has_suffix_rev: "has_suffix s p \<longleftrightarrow> take (length p) (rev s) = rev p"
proof -
  have "take (length p) (rev s) = rev (drop (length s - length p) s)" by (simp add: take_rev)
  moreover have "length p \<le> length s" if "take (length p) (rev s) = rev p"
    using arg_cong [OF that, of length] by simp
  ultimately show ?thesis by (auto simp: has_suffix_def)
qed

lemma ToUpper_id: "list_all (\<lambda>c. (of_char c :: nat) < 97) s \<Longrightarrow> ToUpper s = s"
proof (induction s)
  case (Cons c cs)
  then have "c \<noteq> CHR 0xC4" "c \<noteq> CHR 0xC5" "ascii_upper c = c" by (auto simp: ascii_upper_def)
  then show ?case using Cons by simp
qed simp

text \<open>The number before a unit.\<close>

lemma size_text:
  assumes "0 \<le> n" and "(sfx, k) \<in> set multipliers"
  shows "trim_space (decimal n @ sfx) = decimal n @ sfx" "trim_space (decimal n) = decimal n" "Atoi (decimal n @ sfx) = None"
    "ToUpper (decimal n @ sfx) = decimal n @ sfx" "trim_suffix (decimal n @ sfx) sfx = decimal n"
    "find (\<lambda>(x, _). has_suffix (decimal n @ sfx) x) multipliers = Some (sfx, k)"
proof -
  have d: "list_all is_digit (decimal n)" using assms(1) nat_digits_value by (simp add: decimal_def)
  obtain ds c where dc: "decimal n = ds @ [c]" using assms(1) by (cases "decimal n" rule: rev_exhaust) (simp_all add: decimal_def)
  have c: "is_digit c" using d dc by simp
  have sfx: "list_all (\<lambda>c. (of_char c :: nat) < 97 \<and> \<not> is_space c) sfx" "last sfx = CHR ''B''" "sfx \<noteq> []"
    using assms(2) by (auto simp: multipliers_def is_space_def)
  have plain: "list_all (\<lambda>c. (of_char c :: nat) < 97 \<and> \<not> is_space c) (decimal n)"
    using d by (auto simp: list_all_iff is_digit_def is_space_def)
  show "trim_space (decimal n @ sfx) = decimal n @ sfx" "trim_space (decimal n) = decimal n"
    using sfx plain by (auto intro!: trim_space_id simp: list_all_iff)
  show "ToUpper (decimal n @ sfx) = decimal n @ sfx" using sfx plain by (auto intro!: ToUpper_id simp: list_all_iff)
  show "trim_suffix (decimal n @ sfx) sfx = decimal n" by (simp add: trim_suffix_def has_suffix_def)
  have "split_sign (decimal n @ sfx) = ([], decimal n @ sfx)"
  proof -
    obtain x xs where "decimal n = x # xs" using dc by (metis append_is_Nil_conv list.exhaust not_Cons_self2)
    with d show ?thesis by (auto simp: split_sign_def is_digit_def)
  qed
  moreover have "\<not> is_digit (last sfx)" using sfx by (simp add: is_digit_def)
  then have "\<not> list_all is_digit sfx" using sfx(3) by (auto simp: list_all_iff)
  ultimately show "Atoi (decimal n @ sfx) = None" by (simp add: Atoi_def)
  have "c \<noteq> CHR ''T'' \<and> c \<noteq> CHR ''G'' \<and> c \<noteq> CHR ''M'' \<and> c \<noteq> CHR ''K'' \<and> c \<noteq> CHR ''B''" using c by (auto simp: is_digit_def)
  then show "find (\<lambda>(x, _). has_suffix (decimal n @ sfx) x) multipliers = Some (sfx, k)"
    using assms(2) by (auto simp: multipliers_def has_suffix_rev dc)
qed

text \<open>C36: sizes mean what they say. A whole number with a unit of bytes is that number times the unit, for every number that
  \<open>float64\<close> holds exactly and every product that fits \<open>int64\<close>.\<close>

theorem parseSize_units:
  assumes "0 \<le> n" and "(sfx, k) \<in> set multipliers" and "n * 2 ^ k \<le> int64_max"
    and "ParseFloat (decimal n) = Some (Finite (of_int n))"
  shows "parseSize ParseFloat conv (decimal n @ sfx) = Inr (n * 2 ^ k)"
proof -
  have ne: "decimal n @ sfx \<noteq> []" using assms(1) by (simp add: decimal_def)
  have small: "(of_int n :: rat) * 2 ^ k < 2 ^ 1024"
  proof -
    have "(of_int n :: rat) * 2 ^ k = of_int (n * 2 ^ k)" by simp
    also have "\<dots> \<le> of_int int64_max" using assms(3) by (simp only: of_int_le_iff)
    also have "\<dots> < 2 ^ 1024" by (simp add: int64_max_def)
    finally show ?thesis .
  qed
  have pos: "0 \<le> (of_int n :: rat) * 2 ^ k" using assms(1) by simp
  have scale: "float_scale k (Finite (of_int n)) = Finite (of_int (n * 2 ^ k))"
    using small pos by (simp add: Let_def)
  have "0 \<le> n * 2 ^ k" using assms(1) by simp
  then have "float_to_int64 conv (Finite (of_int (n * 2 ^ k))) = n * 2 ^ k"
    using assms(3) unfolding float_to_int64_def go_float.case Let_def floor_of_int ceiling_of_int
    by (simp add: int64_min_def)
  with ne scale assms(4) show ?thesis
    unfolding parseSize_def Let_def size_text [OF assms(1,2)] by (simp del: float_scale.simps add: size_text [OF assms(1,2)])
qed

text \<open>the comment of \<open>parseSize\<close> gives \<open>100M\<close> as an example; it is refused.\<close>

theorem parseSize_100M: "parseSize ParseFloat conv ''100M'' = Inl (''invalid size format: '' @ ''100M'' @ '' (use B, KB, MB, GB, TB)'')"
proof -
  have "trim_space ''100M'' = ''100M''" "ToUpper ''100M'' = ''100M''" "Atoi ''100M'' = None"
    "find (\<lambda>(sfx, _). has_suffix ''100M'' sfx) multipliers = None"
    by code_simp+
  then show ?thesis by (simp add: parseSize_def Let_def)
qed

text \<open>the limit is taken as it is parsed, so a negative one is accepted; then every upload is refused.\<close>

theorem negative_limit_refuses_uploads:
  assumes "getenv ''MAX_UPLOAD_SIZE'' = ''-1''"
    and "ue_max ue = configure_upload ParseFloat conv getenv MaxUploadSize"
    and "\<And>f. rq_multipart rq = FilePart f \<Longrightarrow> 0 \<le> up_size f"
  shows "rs_code (fst (handleUpload cf ue e rq a)) \<noteq> 200 \<and> snd (handleUpload cf ue e rq a) = a"
proof -
  have "trim_space ''-1'' = ''-1''" "Atoi ''-1'' = Some (-1)" by code_simp+
  then have neg: "ue_max ue = -1" using assms(1,2) by (simp add: configure_upload_def parseSize_def Let_def)
  have "rs_code (fst (store_upload cf ue e claims rq a)) = 400 \<and> snd (store_upload cf ue e claims rq a) = a" for claims
    using assms(3) by (cases "rq_multipart rq") (auto simp: store_upload_def neg Let_def)
  then show ?thesis by (auto simp: handleUpload_def bearer_endpoint_def Let_def split: sum.splits)
qed

definition demo_floats :: "string \<Rightarrow> go_float option" where
  "demo_floats s = (if s = ''100'' then Some (Finite 100) else None)"

theorem parseSize_units_witness: "parseSize demo_floats (\<lambda>_. 0) ''100MB'' = Inr 104857600"
proof -
  have n: "decimal 100 = ''100''" by code_simp
  have "(''MB'', 20) \<in> set multipliers" by (simp add: multipliers_def)
  then have "parseSize demo_floats (\<lambda>_. 0) (decimal 100 @ ''MB'') = Inr (100 * 2 ^ 20)"
    by (rule parseSize_units [rotated]) (simp_all add: int64_max_def demo_floats_def n)
  then show ?thesis by (simp add: n)
qed

end
