(* ===== verification/Admin.thy ===== *)
theory Admin
  imports Integrity Auth_Safety
begin

section \<open>The administration command\<close>

text \<open>
  The command \<open>cmd/am-admin/main.go\<close> on the database of the server: \<open>create-agent\<close>, \<open>create-user\<close>, \<open>list-agents\<close>,
  \<open>list-users\<close> and \<open>delete-agent\<close>. Standard input is the text still to be read; a run ends with a message on standard
  error and status 1 (\<open>Fatal\<close>), or with the lines it prints (\<open>Printed\<close>; prompts, rules and the symbols in front of
  the lines are left out). The connection of the command does not turn foreign keys on, unlike
  \<open>openDatabase\<close> of the server, so its statements check primary and unique keys only. The environment gives the errors
  of SQL statements by operation, the random bytes of \<open>generateID\<close>, the password hash and the \<open>created_at\<close> text of a row.
\<close>

subsection \<open>The model\<close>

datatype outcome = Fatal string | Printed "string list"

record admin_env =
  ad_sql :: "string \<Rightarrow> string option"
  ad_random :: "nat list option"
  ad_hash :: "string \<Rightarrow> string option"
  ad_created :: "string \<Rightarrow> string"

text \<open>\<open>bufio.Reader.ReadString\<close> up to the newline, or to the end of the input.\<close>

definition read_line :: "string \<Rightarrow> string \<times> string" where
  "read_line inp = (takeWhile (\<lambda>c. c \<noteq> CHR 0x0A) inp, drop 1 (dropWhile (\<lambda>c. c \<noteq> CHR 0x0A) inp))"

definition prompt :: "string \<Rightarrow> string \<Rightarrow> string \<times> string" where
  "prompt defaultVal inp =
     (let (line, rest) = read_line inp; txt = trim_space line in (if txt = [] then defaultVal else txt, rest))"

definition hex_digit :: "nat \<Rightarrow> char" where
  "hex_digit n = (if n < 10 then char_of (48 + n) else char_of (87 + n))"

definition hex_bytes :: "nat list \<Rightarrow> string" where
  "hex_bytes bs = concat (map (\<lambda>b. [hex_digit (b div 16), hex_digit (b mod 16)]) bs)"

definition admin_generateID :: "admin_env \<Rightarrow> string \<Rightarrow> string option" where
  "admin_generateID ae pre = map_option (\<lambda>bs. pre @ ''_'' @ hex_bytes bs) (ad_random ae)"

definition optional_line :: "string \<Rightarrow> string \<Rightarrow> string list" where
  "optional_line label v = (if v = [] then [] else [label @ v])"

definition createAgent :: "admin_env \<Rightarrow> string \<Rightarrow> database \<Rightarrow> outcome \<times> database" where
  "createAgent ae inp d =
     (let (agentID, in1) = prompt [] inp in
      if agentID = [] then (Fatal ''Agent ID is required'', d)
      else
        (let (name, in2) = prompt agentID in1; (model, in3) = prompt [] in2;
             (personality, in4) = prompt [] in3; (specialty, in5) = prompt [] in4 in
         case ad_sql ae ''createAgent'' of
           Some err \<Rightarrow> (Fatal (''Error creating agent: '' @ err), d)
         | None \<Rightarrow>
             if agent_exists d agentID then (Fatal ''Error creating agent: UNIQUE constraint failed: agents.id'', d)
             else (Printed ([''Agent created successfully!'', ''   ID:          '' @ agentID, ''   Name:        '' @ name] @
                     optional_line ''   Model:       '' model @ optional_line ''   Personality: '' personality @
                     optional_line ''   Specialty:   '' specialty @
                     [''Agents authenticate with AGENT_SECRET, not per-agent keys.'',
                      ''   Set AGENT_SECRET env var on the server and connect via:'',
                      ''   ws://host:8080/agent/connect?agent_id='' @ agentID @ ''&agent_secret=<YOUR_SECRET>'']),
                   d\<lparr>t_agents := t_agents d @ [\<lparr>a_id = agentID, a_name = name, a_model = model,
                      a_personality = personality, a_specialty = specialty, a_status = ''offline''\<rparr>]\<rparr>)))"

definition createUser :: "admin_env \<Rightarrow> string \<Rightarrow> database \<Rightarrow> outcome \<times> database" where
  "createUser ae inp d =
     (let (username, in1) = prompt [] inp in
      if username = [] then (Fatal ''Username is required'', d)
      else
        (let (password, in2) = prompt [] in1 in
         if password = [] then (Fatal ''Password is required'', d)
         else (case admin_generateID ae ''user'' of
                 None \<Rightarrow> (Fatal ''panic'', d)
               | Some userID \<Rightarrow> (case ad_hash ae password of
                   None \<Rightarrow> (Fatal ''Error hashing password: '', d)
                 | Some hash \<Rightarrow> (case ad_sql ae ''createUser'' of
                     Some err \<Rightarrow> (Fatal (''Error creating user: '' @ err), d)
                   | None \<Rightarrow>
                       if user_exists d userID then (Fatal ''Error creating user: UNIQUE constraint failed: users.id'', d)
                       else if username \<in> u_username ` set (t_users d) then
                         (Fatal ''Error creating user: UNIQUE constraint failed: users.username'', d)
                       else (Printed [''User created successfully!'', ''   ID:       '' @ userID, ''   Username: '' @ username],
                             d\<lparr>t_users := t_users d @
                               [\<lparr>u_id = userID, u_username = username, u_password_hash = hash\<rparr>]\<rparr>))))))"

definition pad15 :: "string \<Rightarrow> string" where
  "pad15 s = s @ replicate (15 - length s) (CHR '' '')"

text \<open>The text of a listing: its rows in the order of creation, or the line that says there are none, and the total.\<close>

definition listing :: "admin_env \<Rightarrow> string \<Rightarrow> string \<Rightarrow> ('r \<Rightarrow> string) \<Rightarrow> ('r \<Rightarrow> string list) \<Rightarrow> 'r list \<Rightarrow> string list" where
  "listing ae title none_text row_id row_lines rows =
     (let sorted_rows = sort_key (\<lambda>r. ad_created ae (row_id r)) rows in
      title # concat (map row_lines sorted_rows) @
      (if rows = [] then [none_text] else []) @ [''Total: '' @ decimal (int (length rows))])"

definition agent_lines :: "admin_env \<Rightarrow> agent_row \<Rightarrow> string list" where
  "agent_lines ae a =
     (''  '' @ pad15 (a_id a) @ ''  '' @ a_name a @ (if a_model a = [] then [] else ''  ['' @ a_model a @ '']'')) #
     optional_line ''    Personality: '' (a_personality a) @ optional_line ''    Specialty:  '' (a_specialty a) @
     [''    Created:    '' @ ad_created ae (a_id a)]"

definition listAgents :: "admin_env \<Rightarrow> database \<Rightarrow> outcome" where
  "listAgents ae d =
     (case ad_sql ae ''listAgents'' of
        Some err \<Rightarrow> Fatal (''Error querying agents: '' @ err)
      | None \<Rightarrow> Printed (listing ae ''Registered Agents:'' ''  (no agents registered)'' a_id (agent_lines ae) (t_agents d)))"

definition listUsers :: "admin_env \<Rightarrow> database \<Rightarrow> outcome" where
  "listUsers ae d =
     (case ad_sql ae ''listUsers'' of
        Some err \<Rightarrow> Fatal (''Error querying users: '' @ err)
      | None \<Rightarrow> Printed (listing ae ''Registered Users:'' ''  (no users registered)'' u_id
          (\<lambda>u. [''  '' @ pad15 (u_username u) @ ''  '' @ u_id u @ ''  ('' @ ad_created ae (u_id u) @ '')'']) (t_users d)))"

text \<open>\<open>DELETE FROM agents WHERE id = ?\<close> without foreign keys.\<close>

definition deleteAgent :: "admin_env \<Rightarrow> string \<Rightarrow> database \<Rightarrow> outcome \<times> database" where
  "deleteAgent ae inp d =
     (let (agentID, rest) = prompt [] inp in
      if agentID = [] then (Fatal ''Agent ID is required'', d)
      else (case ad_sql ae ''deleteAgent'' of
              Some err \<Rightarrow> (Fatal (''Error deleting agent: '' @ err), d)
            | None \<Rightarrow>
                if \<not> agent_exists d agentID then (Fatal (''Agent '' @ agentID @ '' not found''), d)
                else (Printed [''Agent '' @ agentID @ '' deleted''],
                      d\<lparr>t_agents := filter (\<lambda>a. a_id a \<noteq> agentID) (t_agents d)\<rparr>)))"

definition admin_usage :: string where
  "admin_usage = ''Usage: am-admin [flags] <command> [args]''"

definition admin_main :: "admin_env \<Rightarrow> string list \<Rightarrow> string \<Rightarrow> database \<Rightarrow> outcome \<times> database" where
  "admin_main ae args inp d =
     (case args of
        [] \<Rightarrow> (Fatal admin_usage, d)
      | cmd # _ \<Rightarrow>
          if cmd = ''create-agent'' then createAgent ae inp d
          else if cmd = ''create-user'' then createUser ae inp d
          else if cmd = ''list-agents'' then (listAgents ae d, d)
          else if cmd = ''list-users'' then (listUsers ae d, d)
          else if cmd = ''delete-agent'' then deleteAgent ae inp d
          else (Fatal (''Unknown command: '' @ cmd @ [CHR 0x0A] @ admin_usage), d))"

subsection \<open>What the commands write\<close>

lemma admin_fatal: "admin_main ae args inp d = (Fatal msg, d') \<Longrightarrow> d' = d"
  by (auto simp: admin_main_def createAgent_def createUser_def deleteAgent_def Let_def
      split: list.splits if_splits option.splits prod.splits)

lemma createAgent_schema: "createAgent ae inp d = (r, d') \<Longrightarrow> schema_ok d \<Longrightarrow> schema_ok d'"
  by (auto simp: createAgent_def Let_def intro!: add_agent_schema split: if_splits option.splits prod.splits)

lemma createUser_schema: "createUser ae inp d = (r, d') \<Longrightarrow> schema_ok d \<Longrightarrow> schema_ok d'"
  by (auto simp: createUser_def Let_def intro!: add_user_schema split: if_splits option.splits prod.splits)

lemma delete_agent_schema:
  assumes "schema_ok d" and "d' = d\<lparr>t_agents := filter P (t_agents d)\<rparr>"
  shows "schema_ok d' \<longleftrightarrow> (\<forall>c \<in> set (t_conversations d'). agent_exists d' (conv_AgentID c))"
  using assms by (auto simp: schema_ok_def db_ok_def extra_ok_def user_ids_def exists_defs distinct_map_filter)

text \<open>C33: A run of the command keeps every constraint of the schema, with one exception: the conversations of an agent it
  deletes are left behind. A run that ends in an error writes nothing.\<close>

theorem admin_keeps_schema:
  assumes "schema_ok d" and "admin_main ae args inp d = (r, d')"
  shows "(schema_ok d' \<longleftrightarrow> (\<forall>c \<in> set (t_conversations d'). agent_exists d' (conv_AgentID c))) \<and>
    (args = [] \<or> hd args \<noteq> ''delete-agent'' \<longrightarrow> schema_ok d') \<and> (\<forall>msg. r = Fatal msg \<longrightarrow> d' = d)"
proof -
  have kept: "schema_ok d' \<and> (\<forall>c \<in> set (t_conversations d'). agent_exists d' (conv_AgentID c))" if "schema_ok d'"
    using that by (auto simp: schema_ok_def db_ok_def)
  have deleted: "(schema_ok e \<longleftrightarrow> (\<forall>c \<in> set (t_conversations e). agent_exists e (conv_AgentID c)))"
    if "deleteAgent ae inp d = (r, e)" for r e
  proof -
    from that consider "e = d" | P where "e = d\<lparr>t_agents := filter P (t_agents d)\<rparr>"
      by (auto simp: deleteAgent_def Let_def split: if_splits option.splits prod.splits)
    then show ?thesis
    proof cases
      case 1
      then show ?thesis using assms(1) by (auto simp: schema_ok_def db_ok_def)
    next
      case 2
      then show ?thesis by (rule delete_agent_schema [OF assms(1)])
    qed
  qed
  have other: "schema_ok d'" if "args = [] \<or> hd args \<noteq> ''delete-agent''"
    using that assms createAgent_schema createUser_schema
    by (auto simp: admin_main_def split: list.splits if_splits)
  show ?thesis
  proof (cases "args = [] \<or> hd args \<noteq> ''delete-agent''")
    case True
    then show ?thesis using other kept admin_fatal assms(2) by blast
  next
    case False
    then have "deleteAgent ae inp d = (r, d')" using assms(2) by (cases args) (auto simp: admin_main_def)
    then show ?thesis using False deleted admin_fatal assms(2) by blast
  qed
qed

text \<open>Deleting an agent that has a conversation is not refused: the command reports success and the conversation stays
  with an agent that no longer exists, which the foreign keys of the schema forbid. The connection of the command does not
  set \<open>PRAGMA foreign_keys\<close>.\<close>

theorem deleted_agent_leaves_conversations:
  assumes "schema_ok d" and "c \<in> set (t_conversations d)" and "ad_sql ae ''deleteAgent'' = None"
    and "fst (prompt [] inp) = conv_AgentID c" and "conv_AgentID c \<noteq> []"
  shows "\<exists>d'. deleteAgent ae inp d = (Printed [''Agent '' @ conv_AgentID c @ '' deleted''], d') \<and>
    c \<in> set (t_conversations d') \<and> \<not> agent_exists d' (conv_AgentID c) \<and> \<not> schema_ok d'"
proof -
  let ?d = "d\<lparr>t_agents := filter (\<lambda>a. a_id a \<noteq> conv_AgentID c) (t_agents d)\<rparr>"
  have "agent_exists d (conv_AgentID c)" using assms(1,2) by (auto simp: schema_ok_def db_ok_def)
  then have "deleteAgent ae inp d = (Printed [''Agent '' @ conv_AgentID c @ '' deleted''], ?d)"
    using assms(3-5) by (cases "prompt [] inp") (simp add: deleteAgent_def)
  moreover have gone: "\<not> agent_exists ?d (conv_AgentID c)" by (auto simp: agent_exists_def)
  moreover have "\<not> schema_ok ?d"
    using delete_agent_schema [OF assms(1) refl] gone assms(2) by auto
  ultimately show ?thesis using assms(2) by auto
qed

text \<open>A user that the command creates can log in at the server with the same name and password, and the token
  authenticates the printed user id.\<close>

theorem admin_user_can_login:
  assumes "createUser ae inp (srv_db s) = (Printed out, d')" and "schema_ok (srv_db s)"
    and "ad_hash ae = cf_hash cf" and "hash_sound cf" and "jwt_sound (cf_jwt cf)"
    and "prompt [] inp = (username, inp1)" and "fst (prompt [] inp1) = password" and "admin_generateID ae ''user'' = Some userID"
    and "GenerateJWT (cf_jwt cf) (cf_jwtSecret cf) (clock e ''GenerateJWT.exp'') (clock e ''GenerateJWT.iat'')
           userID username = Some tok"
    and "rq_method rq = ''POST''" and "rq_form rq ''username'' = username" and "rq_form rq ''password'' = password"
    and "\<not> sql_fails e ''handleLogin''"
  shows "handleLogin cf e rq (s\<lparr>srv_db := d'\<rparr>) = (ok_json (login_answer tok userID username), s\<lparr>srv_db := d'\<rparr>) \<and>
    authenticates_as cf tok (clock e ''GenerateJWT.iat'') ((clock e ''GenerateJWT.exp'' + 24 * hour) div second * second)
      \<lparr>UserID = userID, Username = username\<rparr>"
proof -
  from assms(1,6-8) obtain h where h: "ad_hash ae password = Some h" "username \<noteq> []" "password \<noteq> []"
    and d': "d' = (srv_db s)\<lparr>t_users := t_users (srv_db s) @ [\<lparr>u_id = userID, u_username = username, u_password_hash = h\<rparr>]\<rparr>"
    by (cases "prompt [] inp1") (auto simp: createUser_def Let_def split: if_splits option.splits)
  have "schema_ok d'" using createUser_schema [OF assms(1,2)] .
  then have "find (\<lambda>u. u_username u = username) (t_users d') = Some \<lparr>u_id = userID, u_username = username, u_password_hash = h\<rparr>"
    using find_key [of u_username "t_users d'" "\<lparr>u_id = userID, u_username = username, u_password_hash = h\<rparr>"]
    by (simp add: schema_ok_def db_ok_def d')
  moreover have "cf_verify cf h password" using assms(3,4) h(1) by (simp add: hash_sound_def)
  ultimately have "handleLogin cf e rq (s\<lparr>srv_db := d'\<rparr>) = (ok_json (login_answer tok userID username), s\<lparr>srv_db := d'\<rparr>)"
    using assms(9-13) h(2,3) by (simp add: handleLogin_def login_answer_def)
  moreover note GenerateJWT_authenticates [OF assms(5,9)]
  ultimately show ?thesis by simp
qed

subsection \<open>Witnesses\<close>

definition demo_admin :: admin_env where
  "demo_admin = \<lparr>ad_sql = (\<lambda>_. None), ad_random = Some [10, 255], ad_hash = Some, ad_created = (\<lambda>_. [])\<rparr>"

lemma demo_admin_simps [simp]: "ad_sql demo_admin x = None" "ad_hash demo_admin = Some"
  by (simp_all add: demo_admin_def)

theorem admin_keeps_schema_witness:
  "\<exists>r d'. admin_main demo_admin [''create-agent''] (''bot'' @ [CHR 0x0A]) example_db = (r, d') \<and> schema_ok d' \<and> agent_exists d' ''bot''"
proof -
  obtain r d' where run: "admin_main demo_admin [''create-agent''] (''bot'' @ [CHR 0x0A]) example_db = (r, d')"
    by (cases "admin_main demo_admin [''create-agent''] (''bot'' @ [CHR 0x0A]) example_db")
  have "agent_exists d' ''bot''"
    using run by (auto simp: admin_main_def createAgent_def prompt_def read_line_def trim_space_def is_space_def demo_admin_def
        example_db_def empty_db_def agent_exists_def)
  moreover have "hd [''create-agent''] \<noteq> ''delete-agent'' \<longrightarrow> schema_ok d'"
    using admin_keeps_schema [OF example_db_schema_ok run] by blast
  ultimately show ?thesis using run by simp
qed

theorem deleted_agent_leaves_conversations_witness:
  "\<exists>d'. deleteAgent demo_admin (''a'' @ [CHR 0x0A]) example_db = (Printed [''Agent a deleted''], d') \<and> \<not> schema_ok d'"
  using deleted_agent_leaves_conversations [OF example_db_schema_ok,
      of "\<lparr>conv_ID = ''c'', conv_UserID = ''u'', conv_AgentID = ''a'', conv_CreatedAt = 0\<rparr>" demo_admin "''a'' @ [CHR 0x0A]"]
  by (auto simp: example_db_def demo_admin_def prompt_def read_line_def trim_space_def is_space_def)

theorem admin_user_can_login_witness:
  "\<exists>tok. authenticates_as demo_config tok 1000 ((1000 + 24 * hour) div second * second)
     \<lparr>UserID = ''user_0aff'', Username = ''carol''\<rparr>"
proof -
  let ?in = "''carol'' @ [CHR 0x0A] @ ''pw'' @ [CHR 0x0A]"
  let ?rq = "request ''POST'' [] [(''username'', ''carol''), (''password'', ''pw'')]"
  have p1: "prompt [] ?in = (''carol'', ''pw'' @ [CHR 0x0A])" and p2: "fst (prompt [] (''pw'' @ [CHR 0x0A])) = ''pw''"
    by (simp_all add: prompt_def read_line_def trim_space_def is_space_def)
  have i: "admin_generateID demo_admin ''user'' = Some ''user_0aff''" by code_simp
  obtain r d' where run: "createUser demo_admin ?in (srv_db example_server) = (r, d')"
    by (cases "createUser demo_admin ?in (srv_db example_server)")
  obtain out where "r = Printed out"
    using run p2 by (auto simp: createUser_def p1 [simplified] i Let_def example_server_def example_db_def empty_db_def
        user_exists_def split: prod.splits if_splits)
  with run have ok: "createUser demo_admin ?in (srv_db example_server) = (Printed out, d')" by simp
  have "schema_ok (srv_db example_server)" by (simp add: example_server_def example_db_schema_ok)
  moreover have "ad_hash demo_admin = cf_hash demo_config" "hash_sound demo_config"
    by (simp_all add: demo_config_def hash_sound_def)
  ultimately show ?thesis
    using admin_user_can_login [OF ok _ _ _ demo_jwt_sound [folded demo_config_simps(1)] p1 p2 i, of quiet_env _ ?rq]
    by (auto simp: GenerateJWT_def demo_sign)
qed

end
