(* ===== verification/Spec2Isabelle.thy ===== *)
theory Spec2Isabelle
  imports Hub_Lifecycle Reader_Pool Journeys Profile_Files Settings Admin
begin

text \<open>
  \<^bold>\<open>A verification library for the Agent Messenger server\<close> (the Go program under \<open>src/server/\<close>).

  \<^bold>\<open>The program.\<close> Users talk to agents through one server. Agents and clients hold WebSocket connections, which the
  \<^emph>\<open>hub\<close> registers; frames are \<^emph>\<open>routed\<close> to the other side of a \<^emph>\<open>conversation\<close>, stored in an SQL \<^emph>\<open>database\<close>, put
  into an \<^emph>\<open>offline queue\<close> when the recipient is away, and announced by \<^emph>\<open>push notifications\<close>. Everything else is HTTP:
  accounts, conversations, messages, tags, preferences, keys and encrypted envelopes, attachments, plans, profiling and
  metrics, behind a chain of middlewares. Two commands work on the database file beside the server: \<open>am-migrate\<close>
  and \<open>am-admin\<close>.

  \<^bold>\<open>The theories,\<close> in the order of their imports:

  \<^item> Prelude: Go maps as association lists with unique keys (\<open>gomap\<close>), 64-bit integers with the wrap-around written out,
    instants and durations in nanoseconds, strings as lists of bytes, and the lemma collections \<open>gomap_simps\<close> and
    \<open>frame_simps\<close>. Wire: JSON values, the decoding of JSON into Go structs, and the messages of \<open>routing.go\<close>. The
    textual form of JSON is not modelled: a request body is a JSON value or malformed.
  \<^item> Hub, Hub_Delivery, Hub_Invariant, Hub_Registry (\<open>hub.go\<close>): connections live in an explicit heap, so that two lists
    may hold the same connection; channels are bounded buffers; closing a closed channel or sending to one is the panic
    \<open>None\<close>. \<open>hub_step\<close> interleaves the loop, the monitor, the handlers and the pumps. Hub_Lifecycle: the goroutines
    of \<open>newHub\<close>, \<open>run\<close>, \<open>monitorAgentHeartbeats\<close> and \<open>Stop\<close>.
  \<^item> Rate_Limit, Rate_Tiers (\<open>middleware.go\<close>, \<open>auth.go\<close>, \<open>rate_limit_tiers.go\<close>): the three limiters. The locale
    \<open>window_limiter\<close> of Rate_Limit proves the quota once; every limiter is an interpretation of it.
  \<^item> Offline_Queue, Replay (\<open>queue.go\<close>, \<open>queue_persist.go\<close>): the queue in memory, its table and the replay. The queue
    is shown to refine a bounded box per recipient.
  \<^item> Database, Conversations (\<open>dbdriver.go\<close>, \<open>conversations.go\<close>): the tables as lists of rows in insertion order, the
    statements with the keys SQLite checks, and every function of \<open>conversations.go\<close>. The record \<open>env\<close> says which
    statement fails and what each call of the clock returns. Reader_Pool: concurrent readers of message pages on the
    connection pool of \<open>database/sql\<close>, step by step.
  \<^item> Routing, Routing_Safety (\<open>routing.go\<close>): every frame type from the read pump to delivery.
  \<^item> Http, Auth, Auth_Safety (\<open>middleware.go\<close>, \<open>auth.go\<close>, \<open>handlers.go\<close>, \<open>protocol.go\<close>): middlewares, tokens, accounts and
    the connect handlers. \<open>app\<close> is the state of the process: the server, the limiters, the logger and the profiler.
  \<^item> Conversation_Handlers, Message_Handlers, Tags_Prefs, E2E, Tier_Handlers, Attachments, Push: the endpoints of
    \<open>handlers.go\<close>, \<open>messages_edit_delete.go\<close>, \<open>reactions.go\<close>, \<open>tags.go\<close>, \<open>notif_prefs.go\<close>, \<open>presence.go\<close>,
    \<open>e2e.go\<close>, \<open>rate_limit_tiers.go\<close>, \<open>attachments.go\<close> and \<open>push.go\<close>.
  \<^item> Logger, Observability (\<open>logger.go\<close>, \<open>metrics.go\<close>, \<open>metrics_handler.go\<close>, \<open>profile.go\<close>, \<open>profile_handler.go\<close>): the
    entries of the log, the health and metrics answers and the state of CPU profiling.
  \<^item> Integrity: every key and every reference of the schema (\<open>schema_ok\<close>), kept by every function that writes.
    Endpoints: the locale \<open>endpoint\<close> (a handler that keeps an invariant, with the lemmas that the middlewares pass it
    on), \<open>guarded_endpoint\<close> (it also refuses callers that are not authenticated), and an interpretation for every handler.
    System: the route table of \<open>main.go\<close>, the mux, the server as it starts, and \<open>app_step\<close>, which interleaves requests,
    frames, the goroutines of the hub and the clean-up tasks; the locale \<open>private_endpoint\<close> serves the statement about
    anonymous requests. Journeys: the offline queue through every step of the server (every endpoint is an instance of
    \<open>endpoint\<close> for the value of the queue), and the way of a message from its sender to its recipient.
  \<^item> Tracing (\<open>tracing.go\<close>, the spans of \<open>routing.go\<close>): the pipeline, with the calls on spans as its state.
    Profile_Files (\<open>profile.go\<close>): the functions that write profiles, with the files they open.
  \<^item> Schema (\<open>dbdriver.go\<close>, \<open>initSchema\<close> of \<open>main.go\<close>): the SQL texts of both drivers, a reader for the four statement
    forms that occur, and what they do to the catalogue of tables and columns. Migrations (\<open>cmd/am-migrate\<close>): the eight
    migrations with their texts and the four actions. Startup and Settings (\<open>main.go\<close>, \<open>dbdriver.go\<close>, \<open>auth.go\<close>): what is
    read from the flags and the environment: database, heartbeat, secrets, sizes. Admin (\<open>cmd/am-admin\<close>): its five commands.

  \<^bold>\<open>What is shown.\<close> In each theory the lemmas come in the order functional behaviour, invariant, composed property.

  \<^item> Safety of routing: a stored message was sent by a participant over its own connection; a message that was accepted is
    delivered to every device or queued; frames over the limit have no effect.
  \<^item> The hub: an invariant of all reachable states, no panic, exactly which entries registering and unregistering
    change, and that a closed connection never sends again; when \<open>Stop\<close> returns and when it hangs.
  \<^item> The limiters: at most the quota per window; the queue: first in first out with a bound, what a replay delivers and
    deletes, and the runs after which a restart finds the queue it had.
  \<^item> End to end: a stored message is at once in the outbox of a connection of its recipient, or it is there after the next
    replay for the recipient (\<open>stored_message_arrives\<close>), whatever else the server does in between; nothing but a replay or a hundred newer messages
    takes a message out of the queue.
  \<^item> The whole server: \<open>server_invariant\<close> for every sequence of requests, frames and goroutine steps, and that requests
    without credentials write nothing to the database.
  \<^item> The endpoints: who may edit, delete, download and read; registration, login and tokens fit together; a registered
    device rings on the right service; a one-time key is gone once a request that got it is answered, but overlapping
    requests can get the same one; when readers of message pages block each other for ever.
  \<^item> Tracing: when it is on, and that every span of a frame is ended on every path; profiling leaks no file; sizes mean
    what they say.
  \<^item> The schema: both drivers get the same tables and columns, but for one column of an old PostgreSQL database; after any
    sequence of migrations and rollbacks, which may fail, and of server starts a migration up succeeds (left out are starts
    with failing statements and rollbacks that fail to delete a record, see \<open>mig_step\<close>); down and up bring back what the
    migrations make; the administration command keeps the constraints, but for the conversations of an agent it deletes.

  Where the code does not do what it means to, a theorem shows the behaviour on an instance or in general; those theorems
  are marked in their texts.

  \<^bold>\<open>Parameters.\<close> Code outside the repository is an argument: \<open>jwt_lib\<close> (signing and parsing tokens; \<open>jwt_sound\<close> says
  that a parsed token was signed with the key), bcrypt (\<open>cf_hash\<close>, \<open>cf_verify\<close>; \<open>hash_sound\<close>), the WebSocket upgrade,
  \<open>upload_env\<close> (content sniffing, MIME tables, the file system), \<open>push_lib\<close> (APNs, FCM, certificates), \<open>runtime_lib\<close> (the
  statistics of the Go runtime), \<open>otel_lib\<close> (OpenTelemetry), \<open>ParseFloat\<close> and \<open>ParseDuration\<close>, \<open>env\<close> and \<open>sql_io\<close> (failures of the database and the clock).
  Each hypothesis about them is met by an instance in the witness of the theorem that uses it.

  \<^bold>\<open>Bounds.\<close> No definition runs on fuel: loops recurse on data or have a measure, and a call that never returns (the
  page query that waits for a second connection of a pool of one) is the value \<open>None\<close>. Counters are kept at 64 bits where the code adds to
  them.

  \<^bold>\<open>Atomicity.\<close> In \<open>app_step\<close> the handling of one HTTP request, of one frame or of one replay is a single step, and so are the
  clean-up tasks; the steps of the hub's goroutines interleave one by one (\<open>hub_step\<close>). The Go server runs handlers
  concurrently and can interleave the SQL statements of two of them, so what is proved over \<open>app_step\<close> (the invariant of the
  server, the journeys of a message) is about handlers that do not overlap in the middle. Where an overlap changes the
  outcome and the code relies on there being none, it is modelled statement by statement: the one-time keys (\<open>otp_step\<close> of E2E)
  and the page queries on the pool (\<open>pool_step\<close> of Reader_Pool).

  \<^bold>\<open>Not modelled:\<close> the text of JSON and of times (values and instants stand for them), the spans of the connect handlers and
  of the access log (nothing depends on them), listening, signals and static WebChat files of \<open>main.go\<close>, the deadlines and
  pings of the WebSocket pumps, the tickers that start the clean-ups (they are steps that may happen at any time), and the
  data types of columns (but for the types and defaults that PostgreSQL refuses).
\<close>

end
